(* ===== verification/Prelude.thy ===== *)
theory Prelude
  imports Complex_Main "HOL-Library.Sublist"
begin

text \<open>
  Shared vocabulary of the development: JavaScript numbers, strings and the values
  \<^verbatim>\<open>JSON.parse\<close> can produce; regular expressions as the source writes them; the
  state-and-exception programs in which the asynchronous code is written, with a weakest
  precondition calculus for them.

  A JavaScript string is a HOL \<^typ>\<open>string\<close>, one character per UTF-16 code unit. Every
  decision of the modelled code compares code units with ASCII characters or counts them.
\<close>

named_theorems wp_rules \<open>weakest preconditions of the program combinators\<close>
named_theorems js_simps \<open>reading JavaScript values\<close>

section \<open>Numbers\<close>

datatype number = Fin rat | PosInf | NegInf | NaN

definition max_safe_integer :: rat where
  "max_safe_integer = 9007199254740991"

fun is_integer :: "number \<Rightarrow> bool" where
  "is_integer (Fin q) = (of_int \<lfloor>q\<rfloor> = q)"
| "is_integer _ = False"

fun is_safe_integer :: "number \<Rightarrow> bool" where
  "is_safe_integer (Fin q) = (of_int \<lfloor>q\<rfloor> = q \<and> \<bar>q\<bar> \<le> max_safe_integer)"
| "is_safe_integer _ = False"

fun num_le :: "number \<Rightarrow> number \<Rightarrow> bool" where
  "num_le (Fin a) (Fin b) = (a \<le> b)"
| "num_le NaN _ = False"
| "num_le _ NaN = False"
| "num_le NegInf _ = True"
| "num_le _ PosInf = True"
| "num_le _ _ = False"

fun num_less :: "number \<Rightarrow> number \<Rightarrow> bool" where
  "num_less (Fin a) (Fin b) = (a < b)"
| "num_less NaN _ = False"
| "num_less _ NaN = False"
| "num_less NegInf NegInf = False"
| "num_less NegInf _ = True"
| "num_less PosInf _ = False"
| "num_less _ PosInf = True"
| "num_less _ _ = False"

text \<open>\<^verbatim>\<open>===\<close> on numbers: \<^verbatim>\<open>NaN\<close> differs from everything, itself included.\<close>

fun num_eq :: "number \<Rightarrow> number \<Rightarrow> bool" where
  "num_eq NaN _ = False"
| "num_eq _ NaN = False"
| "num_eq a b = (a = b)"

lemma is_safe_integer_iff:
  "is_safe_integer x \<longleftrightarrow> (\<exists>n::int. x = Fin (of_int n) \<and> \<bar>n\<bar> \<le> 9007199254740991)"
proof (cases x)
  case (Fin q)
  have "(\<exists>n::int. q = of_int n \<and> \<bar>n\<bar> \<le> 9007199254740991) \<longleftrightarrow>
        of_int \<lfloor>q\<rfloor> = q \<and> \<bar>q\<bar> \<le> 9007199254740991"
  proof safe
    fix n :: int assume "\<bar>n\<bar> \<le> 9007199254740991"
    then have "of_int \<bar>n\<bar> \<le> (of_int 9007199254740991 :: rat)"
      by (simp only: of_int_le_iff)
    then show "\<bar>of_int n :: rat\<bar> \<le> 9007199254740991" by simp
  next
    assume *: "of_int \<lfloor>q\<rfloor> = q" "\<bar>q\<bar> \<le> 9007199254740991"
    have "of_int \<bar>\<lfloor>q\<rfloor>\<bar> = \<bar>q\<bar>" by (simp only: of_int_abs *(1))
    with *(2) have "of_int \<bar>\<lfloor>q\<rfloor>\<bar> \<le> (of_int 9007199254740991 :: rat)" by simp
    then have "\<bar>\<lfloor>q\<rfloor>\<bar> \<le> 9007199254740991" by (simp only: of_int_le_iff)
    with *(1) show "\<exists>n::int. q = of_int n \<and> \<bar>n\<bar> \<le> 9007199254740991" by metis
  qed simp
  with Fin show ?thesis by (auto simp: max_safe_integer_def)
qed simp_all

section \<open>Strings\<close>

abbreviation LF :: char where "LF \<equiv> CHR 0x0A"
abbreviation CR :: char where "CR \<equiv> CHR 0x0D"
abbreviation NUL :: char where "NUL \<equiv> CHR 0x00"

definition js_slice :: "string \<Rightarrow> nat \<Rightarrow> nat \<Rightarrow> string" where
  "js_slice s i j = take (j - i) (drop i s)"

definition starts_with :: "string \<Rightarrow> string \<Rightarrow> bool" where
  "starts_with p s = (take (length p) s = p)"

definition ends_with :: "string \<Rightarrow> string \<Rightarrow> bool" where
  "ends_with p s = starts_with (rev p) (rev s)"

fun js_includes :: "string \<Rightarrow> string \<Rightarrow> bool" where
  "js_includes p [] = (p = [])"
| "js_includes p (c # cs) = (starts_with p (c # cs) \<or> js_includes p cs)"

text \<open>The characters \<^verbatim>\<open>String.prototype.trim\<close> removes, below code unit 256.\<close>

definition is_space :: "char \<Rightarrow> bool" where
  "is_space c = (c \<in> set [CHR 0x09, CHR 0x0A, CHR 0x0B, CHR 0x0C, CHR 0x0D, CHR 0x20, CHR 0xA0])"

definition js_trim :: "string \<Rightarrow> string" where
  "js_trim s = rev (dropWhile is_space (rev (dropWhile is_space s)))"

lemma trim_dropWhile:
  "dropWhile P (rev (dropWhile P (rev (dropWhile P s)))) = rev (dropWhile P (rev (dropWhile P s)))"
proof (cases "dropWhile P s")
  case (Cons h r)
  then have "\<not> P h" by (simp add: dropWhile_eq_Cons_conv)
  then show ?thesis by (simp add: Cons dropWhile_append)
next
  case Nil
  then show ?thesis unfolding Nil by simp
qed

lemma trim_trim [simp]: "js_trim (js_trim s) = js_trim s"
  by (simp add: js_trim_def trim_dropWhile)

definition to_lower_char :: "char \<Rightarrow> char" where
  "to_lower_char c =
     (let n = (of_char c :: nat) in if 65 \<le> n \<and> n \<le> 90 then char_of (n + 32) else c)"

definition to_upper_char :: "char \<Rightarrow> char" where
  "to_upper_char c =
     (let n = (of_char c :: nat) in if 97 \<le> n \<and> n \<le> 122 then char_of (n - 32) else c)"

definition join :: "string \<Rightarrow> string list \<Rightarrow> string" where
  "join sep xs = (case xs of [] \<Rightarrow> [] | y # ys \<Rightarrow> y @ concat (map (\<lambda>z. sep @ z) ys))"

lemma join_simps [simp]:
  "join sep [] = []"
  "join sep [x] = x"
  "join sep (x # y # ys) = x @ sep @ join sep (y # ys)"
  by (simp_all add: join_def)

lemma js_slice_Suc:
  assumes "i \<le> j" "j < length s"
  shows "js_slice s i (Suc j) = js_slice s i j @ [s ! j]"
  using assms by (simp add: js_slice_def Suc_diff_le take_Suc_conv_app_nth)

lemma js_slice_same [simp]: "js_slice s i i = []"
  by (simp add: js_slice_def)

lemma js_slice_length [simp]: "i \<le> length s \<Longrightarrow> js_slice s i (length s) = drop i s"
  by (simp add: js_slice_def)

lemma length_js_slice: "i \<le> j \<Longrightarrow> j \<le> length s \<Longrightarrow> length (js_slice s i j) = j - i"
  by (simp add: js_slice_def)

section \<open>Regular expressions\<close>

text \<open>
  The source's anchored patterns (\<^verbatim>\<open>/^...$/\<close>, no \<^verbatim>\<open>m\<close> flag, so \<^verbatim>\<open>$\<close> is the end of
  the input only), matched by derivatives.
\<close>

datatype rx = Never | Eps | Cls "char \<Rightarrow> bool" | Seq rx rx | Alt rx rx | Star rx

primrec nullable :: "rx \<Rightarrow> bool" where
  "nullable Never = False"
| "nullable Eps = True"
| "nullable (Cls p) = False"
| "nullable (Seq r s) = (nullable r \<and> nullable s)"
| "nullable (Alt r s) = (nullable r \<or> nullable s)"
| "nullable (Star r) = True"

primrec deriv :: "char \<Rightarrow> rx \<Rightarrow> rx" where
  "deriv c Never = Never"
| "deriv c Eps = Never"
| "deriv c (Cls p) = (if p c then Eps else Never)"
| "deriv c (Seq r s) =
     (if nullable r then Alt (Seq (deriv c r) s) (deriv c s) else Seq (deriv c r) s)"
| "deriv c (Alt r s) = Alt (deriv c r) (deriv c s)"
| "deriv c (Star r) = Seq (deriv c r) (Star r)"

primrec rx_match :: "rx \<Rightarrow> string \<Rightarrow> bool" where
  "rx_match r [] = nullable r"
| "rx_match r (c # cs) = rx_match (deriv c r) cs"

fun rx_seq :: "rx list \<Rightarrow> rx" where
  "rx_seq [] = Eps"
| "rx_seq [r] = r"
| "rx_seq (r # rs) = Seq r (rx_seq rs)"

definition rx_times :: "nat \<Rightarrow> rx \<Rightarrow> rx" where
  "rx_times n r = rx_seq (replicate n r)"

definition rx_opt :: "rx \<Rightarrow> rx" where
  "rx_opt r = Alt r Eps"

definition rx_plus :: "rx \<Rightarrow> rx" where
  "rx_plus r = Seq r (Star r)"

definition rx_lit :: "char \<Rightarrow> rx" where
  "rx_lit c = Cls (\<lambda>d. d = c)"

definition is_digit :: "char \<Rightarrow> bool" where
  "is_digit c = (c \<in> set ''0123456789'')"

definition is_hex :: "char \<Rightarrow> bool" where
  "is_hex c = (c \<in> set ''0123456789abcdefABCDEF'')"

definition is_alnum :: "char \<Rightarrow> bool" where
  "is_alnum c =
     (c \<in> set ''0123456789abcdefghijklmnopqrstuvwxyzABCDEFGHIJKLMNOPQRSTUVWXYZ'')"

text \<open>Every character of a matched string is accepted by some class of the pattern.\<close>

primrec rx_chars :: "rx \<Rightarrow> char \<Rightarrow> bool" where
  "rx_chars Never c = False"
| "rx_chars Eps c = False"
| "rx_chars (Cls p) c = p c"
| "rx_chars (Seq r s) c = (rx_chars r c \<or> rx_chars s c)"
| "rx_chars (Alt r s) c = (rx_chars r c \<or> rx_chars s c)"
| "rx_chars (Star r) c = rx_chars r c"

lemma rx_chars_deriv: "rx_chars (deriv d r) c \<Longrightarrow> rx_chars r c"
  by (induction r) (auto split: if_splits)

lemma rx_match_Never [simp]: "\<not> rx_match Never s"
  by (induction s) auto

lemma rx_match_Alt [simp]: "rx_match (Alt a b) t \<longleftrightarrow> rx_match a t \<or> rx_match b t"
  by (induction t arbitrary: a b) auto

lemma rx_match_Seq_none: "(\<And>u. \<not> rx_match a u) \<Longrightarrow> \<not> rx_match (Seq a b) t"
proof (induction t arbitrary: a)
  case Nil
  then show ?case by (metis nullable.simps(4) rx_match.simps(1))
next
  case (Cons x t)
  have "\<not> nullable a" using Cons.prems [of "[]"] by simp
  moreover have "\<And>u. \<not> rx_match (deriv x a) u" using Cons.prems by (metis rx_match.simps(2))
  ultimately show ?case using Cons.IH by simp
qed

lemma rx_match_deriv_chars: "\<not> rx_chars r d \<Longrightarrow> \<not> rx_match (deriv d r) s"
  by (induction r arbitrary: s) (auto simp: rx_match_Seq_none)

lemma rx_match_chars: "rx_match r s \<Longrightarrow> c \<in> set s \<Longrightarrow> rx_chars r c"
proof (induction s arbitrary: r)
  case (Cons d s)
  show ?case
  proof (cases "c = d")
    case True
    then show ?thesis using Cons.prems(1) rx_match_deriv_chars by auto
  next
    case False
    then have "rx_chars (deriv d r) c" using Cons by auto
    then show ?thesis by (rule rx_chars_deriv)
  qed
qed simp

section \<open>Values of \<^verbatim>\<open>JSON.parse\<close>\<close>

text \<open>
  A value of TypeScript type \<^verbatim>\<open>unknown\<close> that came off the wire. An object is the list of
  its own properties, keys distinct as the parser makes them; reading one that is absent gives
  \<^verbatim>\<open>undefined\<close>, which is \<^const>\<open>None\<close>.
\<close>

datatype json = JNull | JBool bool | JNum number | JStr string
  | JArr "json list" | JObj "(string \<times> json) list"

fun is_object :: "json \<Rightarrow> bool" where
  "is_object (JObj _) = True"
| "is_object _ = False"

fun own_keys :: "json \<Rightarrow> string list" where
  "own_keys (JObj kvs) = map fst kvs"
| "own_keys _ = []"

fun get_prop :: "json \<Rightarrow> string \<Rightarrow> json option" where
  "get_prop (JObj kvs) k = map_of kvs k"
| "get_prop _ k = None"

definition has_own :: "json \<Rightarrow> string \<Rightarrow> bool" where
  "has_own v k = (get_prop v k \<noteq> None)"

lemma has_own_keys: "has_own v k \<longleftrightarrow> k \<in> set (own_keys v)"
proof (cases v)
  case (JObj kvs)
  have "(map_of kvs k \<noteq> None) \<longleftrightarrow> k \<in> fst ` set kvs" by (metis map_of_eq_None_iff)
  with JObj show ?thesis by (simp add: has_own_def)
qed (simp_all add: has_own_def)

text \<open>JavaScript truthiness of a value that may be \<^verbatim>\<open>undefined\<close>.\<close>

fun truthy :: "json option \<Rightarrow> bool" where
  "truthy None = False"
| "truthy (Some JNull) = False"
| "truthy (Some (JBool b)) = b"
| "truthy (Some (JNum x)) = (x \<noteq> NaN \<and> x \<noteq> Fin 0)"
| "truthy (Some (JStr s)) = (s \<noteq> [])"
| "truthy (Some _) = True"

lemma find_Some_mem: "find P xs = Some x \<Longrightarrow> x \<in> set xs \<and> P x"
  by (auto simp: find_Some_iff)

text \<open>A list without its \<open>n\<close>-th element.\<close>

definition drop_nth :: "nat \<Rightarrow> 'a list \<Rightarrow> 'a list" where
  "drop_nth i xs = take i xs @ drop (Suc i) xs"

lemma set_drop_nth: "set (drop_nth n xs) \<subseteq> set xs"
  unfolding drop_nth_def by (auto dest: in_set_takeD in_set_dropD)

lemma distinct_drop_nth:
  assumes "distinct (map f xs)" "n < length xs"
  shows "distinct (map f (drop_nth n xs))" "\<forall>y \<in> set (drop_nth n xs). f y \<noteq> f (xs ! n)"
proof -
  have "distinct (map f (take n xs @ xs ! n # drop (Suc n) xs))"
    using assms(1) by (simp add: id_take_nth_drop[OF assms(2), symmetric])
  then show "distinct (map f (drop_nth n xs))" "\<forall>y \<in> set (drop_nth n xs). f y \<noteq> f (xs ! n)"
    unfolding drop_nth_def by (auto simp: image_iff)
qed

text \<open>The decimal digits of an index.\<close>

fun index_key :: "nat \<Rightarrow> string" where
  "index_key n =
     (if n < 10 then [char_of (48 + n)] else index_key (n div 10) @ [char_of (48 + n mod 10)])"

declare index_key.simps [simp del]

text \<open>\<^verbatim>\<open>{ ...v }\<close>\<close>

fun spread :: "json option \<Rightarrow> (string \<times> json) list" where
  "spread (Some (JObj kvs)) = kvs"
| "spread (Some (JArr vs)) = zip (map index_key [0..<length vs]) vs"
| "spread (Some (JStr s)) = zip (map index_key [0..<length s]) (map (\<lambda>c. JStr [c]) s)"
| "spread _ = []"

definition merge_objects :: "(string \<times> json) list \<Rightarrow> (string \<times> json) list \<Rightarrow> (string \<times> json) list" where
  "merge_objects a b =
     map (\<lambda>(k, v). (k, case map_of b k of Some x \<Rightarrow> x | None \<Rightarrow> v)) a
     @ filter (\<lambda>(k, v). map_of a k = None) b"

lemma map_of_merge:
  "map_of (merge_objects a b) k = (case map_of b k of Some x \<Rightarrow> Some x | None \<Rightarrow> map_of a k)"
proof -
  have "map_of (map (\<lambda>(k, v). (k, case map_of b k of Some x \<Rightarrow> x | None \<Rightarrow> v)) a) k =
      map_option (\<lambda>v. case map_of b k of Some x \<Rightarrow> x | None \<Rightarrow> v) (map_of a k)"
    by (induction a) (auto split: option.split)
  moreover have "map_of (filter (\<lambda>(k, v). map_of a k = None) b) k =
      (if map_of a k = None then map_of b k else None)"
    by (induction b) auto
  ultimately show ?thesis
    by (cases "map_of a k") (auto simp: merge_objects_def map_add_def split: option.splits)
qed

text \<open>\<^verbatim>\<open>===\<close>: no two objects that were parsed are the same object.\<close>

fun strict_eq :: "json option \<Rightarrow> json option \<Rightarrow> bool" where
  "strict_eq (Some (JArr _)) _ = False"
| "strict_eq (Some (JObj _)) _ = False"
| "strict_eq (Some (JNum a)) w = (case w of Some (JNum b) \<Rightarrow> num_eq a b | _ \<Rightarrow> False)"
| "strict_eq v w = (v = w)"

lemma strict_eq_imp: "strict_eq v w \<Longrightarrow> v = w"
proof (cases v)
  case (Some x)
  assume "strict_eq v w"
  then show ?thesis
    by (cases x) (auto simp: Some split: option.splits json.splits elim: num_eq.elims)
qed (simp)

lemma strict_eq_str [simp]: "strict_eq v (Some (JStr s)) \<longleftrightarrow> v = Some (JStr s)"
  by (rule iffI[OF strict_eq_imp]) auto

lemma strict_eq_str' [simp]: "strict_eq (Some (JStr s)) w \<longleftrightarrow> w = Some (JStr s)"
  by auto

text \<open>\<^verbatim>\<open>v?.k\<close>\<close>

definition opt_prop :: "json option \<Rightarrow> string \<Rightarrow> json option" where
  "opt_prop v k = (case v of None \<Rightarrow> None | Some x \<Rightarrow> get_prop x k)"

lemma opt_prop_simps [simp]: "opt_prop None k = None" "opt_prop (Some x) k = get_prop x k"
  by (simp_all add: opt_prop_def)

section \<open>Programs with state, exceptions and suspension\<close>

text \<open>
  The result of running a piece of asynchronous code: it returned, it threw, or it is still
  suspended at an \<^verbatim>\<open>await\<close> that the environment has not settled.
\<close>

datatype ('e, 'a) res = Ret 'a | Throw 'e | Waiting

type_synonym ('s, 'e, 'a) act = "'s \<Rightarrow> ('e, 'a) res \<times> 's"

definition ret :: "'a \<Rightarrow> ('s, 'e, 'a) act" where
  "ret x = (\<lambda>s. (Ret x, s))"

definition throw :: "'e \<Rightarrow> ('s, 'e, 'a) act" where
  "throw e = (\<lambda>s. (Throw e, s))"

definition bnd :: "('s, 'e, 'a) act \<Rightarrow> ('a \<Rightarrow> ('s, 'e, 'b) act) \<Rightarrow> ('s, 'e, 'b) act" where
  "bnd m f = (\<lambda>s. case m s of (Ret x, t) \<Rightarrow> f x t | (Throw e, t) \<Rightarrow> (Throw e, t)
                            | (Waiting, t) \<Rightarrow> (Waiting, t))"

definition try_catch :: "('s, 'e, 'a) act \<Rightarrow> ('e \<Rightarrow> ('s, 'e, 'a) act) \<Rightarrow> ('s, 'e, 'a) act" where
  "try_catch m h = (\<lambda>s. case m s of (Throw e, t) \<Rightarrow> h e t | (Ret x, t) \<Rightarrow> (Ret x, t)
                                  | (Waiting, t) \<Rightarrow> (Waiting, t))"

text \<open>\<^verbatim>\<open>try { m } finally { f }\<close> for a synchronous \<^verbatim>\<open>f\<close> that does not throw.\<close>

definition try_finally :: "('s, 'e, 'a) act \<Rightarrow> ('s \<Rightarrow> 's) \<Rightarrow> ('s, 'e, 'a) act" where
  "try_finally m f = (\<lambda>s. case m s of (Ret x, t) \<Rightarrow> (Ret x, f t) | (Throw e, t) \<Rightarrow> (Throw e, f t)
                                    | (Waiting, t) \<Rightarrow> (Waiting, t))"

text \<open>
  A \<^verbatim>\<open>catch\<close> that always leaves the function, followed by the code after the
  \<^verbatim>\<open>try\<close>.
\<close>

definition try_else ::
  "('s, 'e, 'a) act \<Rightarrow> ('e \<Rightarrow> ('s, 'e, 'b) act) \<Rightarrow> ('a \<Rightarrow> ('s, 'e, 'b) act) \<Rightarrow> ('s, 'e, 'b) act" where
  "try_else m h k = (\<lambda>s. case m s of (Ret x, t) \<Rightarrow> k x t | (Throw e, t) \<Rightarrow> h e t
                                 | (Waiting, t) \<Rightarrow> (Waiting, t))"

definition gets :: "('s \<Rightarrow> 'a) \<Rightarrow> ('s, 'e, 'a) act" where
  "gets f = (\<lambda>s. (Ret (f s), s))"

definition modify :: "('s \<Rightarrow> 's) \<Rightarrow> ('s, 'e, unit) act" where
  "modify f = (\<lambda>s. (Ret (), f s))"

definition when_do :: "bool \<Rightarrow> ('s, 'e, unit) act \<Rightarrow> ('s, 'e, unit) act" where
  "when_do b m = (if b then m else ret ())"

text \<open>
  \<^verbatim>\<open>wp m Q R W s\<close>: started in \<^verbatim>\<open>s\<close>, the program ends in \<^verbatim>\<open>Q\<close> when it returns, in
  \<^verbatim>\<open>R\<close> when it throws and in \<^verbatim>\<open>W\<close> when it is suspended.
\<close>

definition wp ::
  "('s, 'e, 'a) act \<Rightarrow> ('a \<Rightarrow> 's \<Rightarrow> bool) \<Rightarrow> ('e \<Rightarrow> 's \<Rightarrow> bool) \<Rightarrow> ('s \<Rightarrow> bool) \<Rightarrow> 's \<Rightarrow> bool" where
  "wp m Q R W s = (case m s of (Ret x, t) \<Rightarrow> Q x t | (Throw e, t) \<Rightarrow> R e t | (Waiting, t) \<Rightarrow> W t)"

lemma wp_ret [wp_rules]: "wp (ret x) Q R W s = Q x s"
  by (simp add: wp_def ret_def)

lemma wp_ret_eta: "wp (ret x) Q R W = Q x"
  by (simp add: fun_eq_iff wp_ret)

lemma wp_throw [wp_rules]: "wp (throw e) Q R W s = R e s"
  by (simp add: wp_def throw_def)

lemma wp_gets [wp_rules]: "wp (gets f) Q R W s = Q (f s) s"
  by (simp add: wp_def gets_def)

lemma wp_modify [wp_rules]: "wp (modify f) Q R W s = Q () (f s)"
  by (simp add: wp_def modify_def)

lemma wp_bnd [wp_rules]: "wp (bnd m f) Q R W s = wp m (\<lambda>x. wp (f x) Q R W) R W s"
  by (simp add: wp_def bnd_def split: prod.splits res.splits)

lemma wp_try_catch [wp_rules]:
  "wp (try_catch m h) Q R W s = wp m Q (\<lambda>e. wp (h e) Q R W) W s"
  by (simp add: wp_def try_catch_def split: prod.splits res.splits)

lemma wp_try_else [wp_rules]:
  "wp (try_else m h k) Q R W s = wp m (\<lambda>x. wp (k x) Q R W) (\<lambda>e. wp (h e) Q R W) W s"
  by (simp add: wp_def try_else_def split: prod.splits res.splits)

lemma wp_try_finally [wp_rules]:
  "wp (try_finally m f) Q R W s = wp m (\<lambda>x t. Q x (f t)) (\<lambda>e t. R e (f t)) W s"
  by (simp add: wp_def try_finally_def split: prod.splits res.splits)

lemma wp_when [wp_rules]: "wp (when_do b m) Q R W s = (if b then wp m Q R W s else Q () s)"
  by (simp add: when_do_def wp_ret)

lemma wp_mono:
  "wp m Q R W s \<Longrightarrow> (\<And>x t. Q x t \<Longrightarrow> Q' x t) \<Longrightarrow> (\<And>e t. R e t \<Longrightarrow> R' e t) \<Longrightarrow>
    (\<And>t. W t \<Longrightarrow> W' t) \<Longrightarrow> wp m Q' R' W' s"
  by (simp add: wp_def split: prod.splits res.splits)

lemma wp_run:
  "wp m Q R W s \<longleftrightarrow> (\<forall>r t. m s = (r, t) \<longrightarrow>
     (case r of Ret x \<Rightarrow> Q x t | Throw e \<Rightarrow> R e t | Waiting \<Rightarrow> W t))"
  by (simp add: wp_def split: prod.splits res.splits)

lemma wp_conj:
  "wp m Q R W s \<Longrightarrow> wp m Q' R' W' s \<Longrightarrow>
    wp m (\<lambda>x t. Q x t \<and> Q' x t) (\<lambda>e t. R e t \<and> R' e t) (\<lambda>t. W t \<and> W' t) s"
  by (simp add: wp_def split: prod.splits res.splits)

named_theorems run_rules \<open>executing a program step by step\<close>

lemma run_basic [run_rules]:
  "ret x s = (Ret x, s)" "throw e s = (Throw e, s)" "gets f s = (Ret (f s), s)"
  "modify h s = (Ret (), h s)" "bnd (ret x) k s = k x s" "bnd (throw e) k s = (Throw e, s)"
  "bnd (gets f) k s = k (f s) s" "bnd (modify h) k' s = k' () (h s)"
  "bnd (bnd m f') g s = bnd m (\<lambda>x. bnd (f' x) g) s"
  by (simp_all add: ret_def throw_def gets_def modify_def bnd_def split: prod.split res.split)

lemma bnd_run: "m s = (Ret x, t) \<Longrightarrow> bnd m k s = k x t"
  by (simp add: bnd_def)

lemma bnd_throws: "m s = (Throw e, t) \<Longrightarrow> bnd m k s = (Throw e, t)"
  by (simp add: bnd_def)

lemma bnd_waits: "m s = (Waiting, t) \<Longrightarrow> bnd m k s = (Waiting, t)"
  by (simp add: bnd_def)

lemma fst_try_finally [simp]: "fst (try_finally m g s) = fst (m s)"
  by (simp add: try_finally_def split: prod.split res.split)

lemmas run_defs = ret_def throw_def bnd_def try_catch_def try_finally_def gets_def modify_def when_do_def

section \<open>Programs that wait only for their environment\<close>

text \<open>
  \<^verbatim>\<open>honest left n m\<close>: where \<^verbatim>\<open>left\<close> counts the settlements the environment still has to
  offer, the program started with fewer than \<^verbatim>\<open>n\<close> of them never gains any, and it is suspended
  only when none is left.
\<close>

definition honest :: "('s \<Rightarrow> nat) \<Rightarrow> nat \<Rightarrow> ('s, 'e, 'a) act \<Rightarrow> bool" where
  "honest left n m \<longleftrightarrow> (\<forall>s r t. left s < n \<longrightarrow> m s = (r, t) \<longrightarrow>
     left t \<le> left s \<and> (r = Waiting \<longrightarrow> left t = 0))"

named_theorems honest_rules \<open>programs that wait only for their environment\<close>

lemma honestI:
  "(\<And>s r t. left s < n \<Longrightarrow> m s = (r, t) \<Longrightarrow> left t \<le> left s \<and> (r = Waiting \<longrightarrow> left t = 0)) \<Longrightarrow>
    honest left n m"
  unfolding honest_def by blast

lemma honestD:
  "honest left n m \<Longrightarrow> left s < n \<Longrightarrow> m s = (r, t) \<Longrightarrow>
    left t \<le> left s \<and> (r = Waiting \<longrightarrow> left t = 0)"
  unfolding honest_def by blast

lemma honest_basic [honest_rules]:
  "honest left n (ret x)" "honest left n (throw e)" "honest left n (gets f)"
  by (auto simp: honest_def run_defs)

lemma honest_modify [honest_rules]: "(\<And>s. left (f s) = left s) \<Longrightarrow> honest left n (modify f)"
  by (auto simp: honest_def modify_def)

lemma honest_bnd [honest_rules]:
  assumes "honest left n m" "\<And>x. honest left n (f x)"
  shows "honest left n (bnd m f)"
proof (rule honestI)
  fix s r t assume lt: "left s < n" and run: "bnd m f s = (r, t)"
  obtain r1 s1 where m: "m s = (r1, s1)" by (cases "m s")
  note first = honestD [OF assms(1) lt m]
  show "left t \<le> left s \<and> (r = Waiting \<longrightarrow> left t = 0)"
  proof (cases r1)
    case (Ret x)
    with m run have "f x s1 = (r, t)" by (simp add: bnd_def)
    from honestD [OF assms(2) _ this] first lt show ?thesis by auto
  qed (use m run first in \<open>auto simp: bnd_def\<close>)
qed

lemma honest_try_catch [honest_rules]:
  assumes "honest left n m" "\<And>e. honest left n (h e)"
  shows "honest left n (try_catch m h)"
proof (rule honestI)
  fix s r t assume lt: "left s < n" and run: "try_catch m h s = (r, t)"
  obtain r1 s1 where m: "m s = (r1, s1)" by (cases "m s")
  note first = honestD [OF assms(1) lt m]
  show "left t \<le> left s \<and> (r = Waiting \<longrightarrow> left t = 0)"
  proof (cases r1)
    case (Throw e)
    with m run have "h e s1 = (r, t)" by (simp add: try_catch_def)
    from honestD [OF assms(2) _ this] first lt show ?thesis by auto
  qed (use m run first in \<open>auto simp: try_catch_def\<close>)
qed

lemma honest_try_finally [honest_rules]:
  assumes "honest left n m" "\<And>s. left (g s) = left s"
  shows "honest left n (try_finally m g)"
proof (rule honestI)
  fix s r t assume lt: "left s < n" and run: "try_finally m g s = (r, t)"
  obtain r1 s1 where m: "m s = (r1, s1)" by (cases "m s")
  from honestD [OF assms(1) lt m] m run assms(2)
  show "left t \<le> left s \<and> (r = Waiting \<longrightarrow> left t = 0)"
    by (auto simp: try_finally_def split: res.splits)
qed

lemma honest_if [honest_rules]:
  "(b \<Longrightarrow> honest left n m) \<Longrightarrow> (\<not> b \<Longrightarrow> honest left n k) \<Longrightarrow> honest left n (if b then m else k)"
  by simp

lemma honest_when [honest_rules]: "(b \<Longrightarrow> honest left n m) \<Longrightarrow> honest left n (when_do b m)"
  by (simp add: when_do_def honest_basic)

section \<open>Histories that follow an abstract machine\<close>

text \<open>
  A protocol is a partial step function on abstract states; \<^verbatim>\<open>accepts\<close> runs it over a history
  and is \<^const>\<open>None\<close> when some entry is not allowed where it occurs.
\<close>

fun accepts :: "('p \<Rightarrow> 'e \<Rightarrow> 'p option) \<Rightarrow> 'p \<Rightarrow> 'e list \<Rightarrow> 'p option" where
  "accepts f z [] = Some z"
| "accepts f z (x # xs) = (case f z x of None \<Rightarrow> None | Some z' \<Rightarrow> accepts f z' xs)"

lemma accepts_append:
  "accepts f z (xs @ ys) = (case accepts f z xs of None \<Rightarrow> None | Some z' \<Rightarrow> accepts f z' ys)"
  by (induction xs arbitrary: z) (auto split: option.splits)

lemma accepts_snoc:
  "accepts f z (xs @ [x]) = (case accepts f z xs of None \<Rightarrow> None | Some z' \<Rightarrow> f z' x)"
  by (auto simp: accepts_append split: option.splits)

end
