(* ===== verification/EventStream.thy ===== *)
theory EventStream
  imports Prelude
begin

text \<open>
  The server-sent-event parser of \<^verbatim>\<open>web/lib/api/event-stream.ts\<close>. A parser belongs to one
  connection and is fed the chunks the network delivers; its closure variables are the record
  \<^verbatim>\<open>parser\<close>, a call of \<^verbatim>\<open>push\<close> is \<^verbatim>\<open>push_chunk\<close>, the calls of \<^verbatim>\<open>onFrame\<close> are
  the list of frames it delivers, and the thrown size error is \<^verbatim>\<open>Inl Oversized\<close>.

  A character-at-a-time reference machine (\<^verbatim>\<open>feed\<close>) is what the index arithmetic of the
  source is proved equal to; the properties about chunking, line endings and buffering follow
  from it.
\<close>

section \<open>State and operations\<close>

record frame =
  ftype :: string
  fdata :: "string option"
  fid :: "string option"

record parser =
  p_line :: string
  p_skipLF :: bool
  p_frameLength :: nat
  p_type :: string
  p_id :: "string option"
  p_data :: "string list"

datatype stream_error = Oversized

definition MAX_EVENT_FRAME_LENGTH :: nat where
  "MAX_EVENT_FRAME_LENGTH = 1024 * 1024"

definition createEventStreamParser :: parser where
  "createEventStreamParser =
     \<lparr>p_line = [], p_skipLF = False, p_frameLength = 0, p_type = [], p_id = None, p_data = []\<rparr>"

definition count_units :: "nat \<Rightarrow> parser \<Rightarrow> stream_error + parser" where
  "count_units n p =
     (let p' = p\<lparr>p_frameLength := p_frameLength p + n\<rparr>
      in if MAX_EVENT_FRAME_LENGTH < p_frameLength p' then Inl Oversized else Inr p')"

text \<open>
  A finished line: an empty one dispatches the frame, a comment is ignored, anything else is a
  field whose value starts after the first colon and one optional space.
\<close>

definition field_name :: "string \<Rightarrow> string" where
  "field_name l = takeWhile (\<lambda>c. c \<noteq> CHR '':'') l"

definition field_value :: "string \<Rightarrow> string" where
  "field_value l =
     (let v = drop (Suc (length (field_name l))) l
      in if starts_with '' '' v then drop 1 v else v)"

definition finishLine :: "parser \<Rightarrow> frame list \<times> parser" where
  "finishLine p =
     (let current = p_line p; p1 = p\<lparr>p_line := []\<rparr> in
      if current = [] then
        (let f = \<lparr>ftype = (if p_type p1 = [] then ''message'' else p_type p1),
                  fdata = (if p_data p1 = [] then None else Some (join [LF] (p_data p1))),
                  fid = p_id p1\<rparr>;
             p2 = p1\<lparr>p_frameLength := 0, p_type := [], p_id := None, p_data := []\<rparr>
         in (if fid f \<noteq> None \<or> fdata f \<noteq> None then [f] else [], p2))
      else if starts_with '':'' current then ([], p1)
      else
        (let field = field_name current; value = field_value current in
         ([], if field = ''data'' then p1\<lparr>p_data := p_data p1 @ [value]\<rparr>
              else if field = ''event'' then p1\<lparr>p_type := value\<rparr>
              else if field = ''id'' \<and> NUL \<notin> set value then p1\<lparr>p_id := Some value\<rparr>
              else p1)))"

text \<open>
  The loop of \<^verbatim>\<open>push\<close>, with the source's \<^verbatim>\<open>index\<close> and \<^verbatim>\<open>start\<close>: the unfinished
  line is the slice from \<^verbatim>\<open>start\<close>, counted in one piece when it ends.
\<close>

function push_from ::
  "string \<Rightarrow> nat \<Rightarrow> nat \<Rightarrow> parser \<Rightarrow> frame list \<times> (stream_error + parser)" where
  "push_from chunk index start p =
     (if index < length chunk then
        (let char = chunk ! index in
         if p_skipLF p \<and> char = LF
         then push_from chunk (Suc index) (Suc index) (p\<lparr>p_skipLF := False\<rparr>)
         else
           (let p = p\<lparr>p_skipLF := False\<rparr> in
            if char \<noteq> CR \<and> char \<noteq> LF then push_from chunk (Suc index) start p
            else (case count_units (index - start + 1) p of
                Inl e \<Rightarrow> ([], Inl e)
              | Inr p1 \<Rightarrow>
                  (let p2 = p1\<lparr>p_line := p_line p1 @ js_slice chunk start index,
                               p_skipLF := (char = CR)\<rparr>;
                       (fs, p3) = finishLine p2;
                       (fs', r) = push_from chunk (Suc index) (Suc index) p3
                   in (fs @ fs', r)))))
      else (case count_units (length chunk - start) p of
          Inl e \<Rightarrow> ([], Inl e)
        | Inr p1 \<Rightarrow>
            ([], Inr (p1\<lparr>p_line := p_line p1 @ js_slice chunk start (length chunk)\<rparr>))))"
  by pat_completeness auto
termination
  by (relation "measure (\<lambda>(chunk, index, start, p). length chunk - index)") auto

declare push_from.simps [simp del]

definition push_chunk :: "parser \<Rightarrow> string \<Rightarrow> frame list \<times> (stream_error + parser)" where
  "push_chunk p chunk = push_from chunk 0 0 p"

text \<open>
  What a connection delivers: the caller pushes one decoded chunk after the other and stops at
  the first error.
\<close>

fun push_all :: "parser \<Rightarrow> string list \<Rightarrow> frame list \<times> (stream_error + parser)" where
  "push_all p [] = ([], Inr p)"
| "push_all p (c # cs) =
     (case push_chunk p c of
        (fs, Inl e) \<Rightarrow> (fs, Inl e)
      | (fs, Inr p') \<Rightarrow> (let (fs', r) = push_all p' cs in (fs @ fs', r)))"

section \<open>The reference machine\<close>

definition feed :: "parser \<Rightarrow> char \<Rightarrow> frame list \<times> (stream_error + parser)" where
  "feed p c =
     (if p_skipLF p \<and> c = LF then ([], Inr (p\<lparr>p_skipLF := False\<rparr>))
      else (case count_units 1 (p\<lparr>p_skipLF := False\<rparr>) of
          Inl e \<Rightarrow> ([], Inl e)
        | Inr p1 \<Rightarrow>
            if c = CR \<or> c = LF
            then (let (fs, p2) = finishLine (p1\<lparr>p_skipLF := (c = CR)\<rparr>) in (fs, Inr p2))
            else ([], Inr (p1\<lparr>p_line := p_line p1 @ [c]\<rparr>))))"

fun feeds :: "parser \<Rightarrow> string \<Rightarrow> frame list \<times> (stream_error + parser)" where
  "feeds p [] = ([], Inr p)"
| "feeds p (c # cs) =
     (case feed p c of
        (fs, Inl e) \<Rightarrow> (fs, Inl e)
      | (fs, Inr p') \<Rightarrow> (let (fs', r) = feeds p' cs in (fs @ fs', r)))"

definition within_limit :: "parser \<Rightarrow> bool" where
  "within_limit p \<longleftrightarrow> p_frameLength p \<le> MAX_EVENT_FRAME_LENGTH"

lemma finishLine_frameLength: "finishLine p = (fs, q) \<Longrightarrow> p_frameLength q \<le> p_frameLength p"
  by (auto simp: finishLine_def Let_def split: if_splits)

lemma feed_within_limit: "feed p c = (fs, Inr q) \<Longrightarrow> within_limit p \<Longrightarrow> within_limit q"
  by (auto simp: feed_def count_units_def within_limit_def Let_def
      split: if_splits prod.splits dest!: finishLine_frameLength)

lemma feeds_append:
  "feeds p (xs @ ys) =
     (case feeds p xs of
        (fs, Inl e) \<Rightarrow> (fs, Inl e)
      | (fs, Inr q) \<Rightarrow> (let (fs', r) = feeds q ys in (fs @ fs', r)))"
  by (induction xs arbitrary: p) (auto split: prod.splits sum.splits)

lemma feeds_within_limit: "feeds p cs = (fs, Inr q) \<Longrightarrow> within_limit p \<Longrightarrow> within_limit q"
proof (induction cs arbitrary: p fs)
  case (Cons c cs)
  then show ?case
    by (auto split: prod.splits sum.splits dest: feed_within_limit)
qed simp

text \<open>
  The state the source's variables stand for in the middle of a chunk: the slice that
  \<^verbatim>\<open>push\<close> has scanned but not yet counted or copied.
\<close>

definition scanned :: "parser \<Rightarrow> string \<Rightarrow> parser" where
  "scanned p s = p\<lparr>p_frameLength := p_frameLength p + length s, p_line := p_line p @ s\<rparr>"

lemma scanned_Nil [simp]: "scanned p [] = p"
  by (simp add: scanned_def)

lemma unskip: "\<not> p_skipLF p \<Longrightarrow> p\<lparr>p_skipLF := False\<rparr> = p"
  by (cases p) simp

lemma push_from_overflow:
  assumes "start \<le> index" "index \<le> length chunk" "\<not> p_skipLF p"
    and "MAX_EVENT_FRAME_LENGTH < p_frameLength p + (index - start)"
  shows "push_from chunk index start p = ([], Inl Oversized)"
  using assms
proof (induction chunk index start p rule: push_from.induct)
  case (1 chunk index start p)
  note same = unskip [OF "1.prems"(3)]
  show ?case
  proof (cases "index < length chunk \<and> chunk ! index \<noteq> CR \<and> chunk ! index \<noteq> LF")
    case True
    then have "push_from chunk (Suc index) start p = ([], Inl Oversized)"
      using "1.IH"(2) [OF _ refl _ refl] "1.prems" same by simp
    with True "1.prems"(3) show ?thesis
      by (subst push_from.simps) (simp add: same)
  next
    case False
    with "1.prems" same show ?thesis
      by (auto simp: push_from.simps [of chunk index start p] count_units_def)
  qed
qed

lemma push_from_feeds:
  assumes "start \<le> index" "index \<le> length chunk" "p_skipLF p \<Longrightarrow> start = index"
    and "p_frameLength p + (index - start) \<le> MAX_EVENT_FRAME_LENGTH"
  shows "push_from chunk index start p =
           feeds (scanned p (js_slice chunk start index)) (drop index chunk)"
  using assms
proof (induction chunk index start p rule: push_from.induct)
  case (1 chunk index start p)
  let ?c = "chunk ! index" and ?s = "js_slice chunk start index"
  have len: "length ?s = index - start" using "1.prems" by (simp add: length_js_slice)
  show ?case
  proof (cases "index < length chunk")
    case done_scan: False
    with "1.prems" have at: "index = length chunk" by simp
    show ?thesis
      using "1.prems" unfolding at
      by (simp add: push_from.simps [of chunk "length chunk" start p] count_units_def
          scanned_def length_js_slice)
  next
    case more: True
    then have rest: "drop index chunk = ?c # drop (Suc index) chunk"
      by (simp add: Cons_nth_drop_Suc)
    have ext: "js_slice chunk start (Suc index) = ?s @ [?c]"
      using more "1.prems"(1) by (rule js_slice_Suc [rotated])
    consider (skip) "p_skipLF p" "?c = LF"
      | (char) "\<not> (p_skipLF p \<and> ?c = LF)" "?c \<noteq> CR" "?c \<noteq> LF"
      | (line) "\<not> (p_skipLF p \<and> ?c = LF)" "?c = CR \<or> ?c = LF" by blast
    then show ?thesis
    proof cases
      case skip
      with "1.prems" "1.IH"(1) [OF more refl] more show ?thesis
        by (subst push_from.simps) (simp add: rest feed_def)
    next
      case char
      show ?thesis
      proof (cases "p_frameLength p + Suc (index - start) \<le> MAX_EVENT_FRAME_LENGTH")
        case True
        with char "1.prems" "1.IH"(2) [OF more refl char(1) refl] more show ?thesis
          by (simp add: push_from.simps [of chunk index start p] rest feed_def ext
              count_units_def scanned_def Suc_diff_le len)
      next
        case False
        with "1.prems" more char
        have "push_from chunk (Suc index) start (p\<lparr>p_skipLF := False\<rparr>) = ([], Inl Oversized)"
          by (intro push_from_overflow) (auto simp: Suc_diff_le)
        with False char more len show ?thesis
          by (simp add: push_from.simps [of chunk index start p] rest feed_def
              count_units_def scanned_def)
      qed
    next
      case line
      show ?thesis
      proof (cases "p_frameLength p + Suc (index - start) \<le> MAX_EVENT_FRAME_LENGTH")
        case True
        define p0 where "p0 = p\<lparr>p_skipLF := False, p_frameLength := p_frameLength p + Suc (index - start)\<rparr>"
        define p1 where "p1 = p0\<lparr>p_line := p_line p0 @ ?s, p_skipLF := (?c = CR)\<rparr>"
        have cnt: "count_units (index - start + 1) (p\<lparr>p_skipLF := False\<rparr>) = Inr p0"
          using True by (simp add: count_units_def p0_def)
        obtain fs p2 where fin: "finishLine p1 = (fs, p2)" by fastforce
        have bound: "p_frameLength p2 \<le> MAX_EVENT_FRAME_LENGTH"
          using finishLine_frameLength [OF fin] True by (simp add: p1_def p0_def)
        have "\<not> (?c \<noteq> CR \<and> ?c \<noteq> LF)" using line by blast
        from "1.IH"(3) [OF more refl line(1) refl this cnt p1_def fin [symmetric] refl] bound more
        have "push_from chunk (Suc index) (Suc index) p2 = feeds p2 (drop (Suc index) chunk)"
          by simp
        moreover have "finishLine (p\<lparr>p_line := p_line p @ ?s,
            p_frameLength := Suc (p_frameLength p + (index - start)), p_skipLF := (?c = CR)\<rparr>) = (fs, p2)"
          using fin by (cases p) (simp add: p1_def p0_def)
        ultimately show ?thesis
          using True line more fin len
          by (auto simp: push_from.simps [of chunk index start p] rest feed_def p1_def p0_def
              count_units_def scanned_def)
      next
        case False
        with line more len show ?thesis
          by (auto simp: push_from.simps [of chunk index start p] rest feed_def
              count_units_def scanned_def)
      qed
    qed
  qed
qed

lemma push_chunk_feeds: "within_limit p \<Longrightarrow> push_chunk p cs = feeds p cs"
  by (simp add: push_chunk_def push_from_feeds within_limit_def)

lemma push_all_feeds: "within_limit p \<Longrightarrow> push_all p cs = feeds p (concat cs)"
proof (induction cs arbitrary: p)
  case (Cons c cs)
  show ?case
  proof (cases "feeds p c")
    case (Pair fs r)
    with Cons show ?thesis
      by (cases r) (auto simp: push_chunk_feeds feeds_append dest: feeds_within_limit)
  qed
qed simp

lemma within_limit_create [simp]: "within_limit createEventStreamParser"
  by (simp add: within_limit_def createEventStreamParser_def)

section \<open>Buffered text stays bounded\<close>

definition buffered :: "parser \<Rightarrow> nat" where
  "buffered p = length (p_line p) + sum_list (map (\<lambda>d. Suc (length d)) (p_data p)) +
     length (p_type p) + (case p_id p of None \<Rightarrow> 0 | Some i \<Rightarrow> length i)"

definition frame_units :: "frame \<Rightarrow> nat" where
  "frame_units f = (case fdata f of None \<Rightarrow> 0 | Some d \<Rightarrow> length d) +
     (case fid f of None \<Rightarrow> 0 | Some i \<Rightarrow> length i)"

definition frame_bounded :: "frame \<Rightarrow> bool" where
  "frame_bounded f \<longleftrightarrow> frame_units f \<le> MAX_EVENT_FRAME_LENGTH \<and>
     length (ftype f) \<le> MAX_EVENT_FRAME_LENGTH"

definition counted :: "parser \<Rightarrow> bool" where
  "counted p \<longleftrightarrow> buffered p \<le> p_frameLength p \<and> within_limit p"

lemma length_join_LF: "length (join [LF] ds) \<le> sum_list (map (\<lambda>d. Suc (length d)) ds)"
  by (induction ds rule: induct_list012) auto

lemma length_field_value: "length (field_value l) < length l \<or> l = []"
  by (cases l) (auto simp: field_value_def Let_def)

lemma length_field_value_le: "l \<noteq> [] \<Longrightarrow> Suc (length (field_value l)) \<le> length l"
  using length_field_value [of l] by auto

lemma finishLine_counted:
  assumes "finishLine p = (fs, q)" "buffered p \<le> p_frameLength p" "within_limit p"
  shows "buffered q \<le> p_frameLength q \<and> list_all frame_bounded fs"
proof (cases "p_line p = []")
  case True
  have "length (join [LF] (p_data p)) \<le> sum_list (map (\<lambda>d. Suc (length d)) (p_data p))"
    by (rule length_join_LF)
  with True assms show ?thesis
    by (auto simp: finishLine_def Let_def buffered_def frame_bounded_def frame_units_def
        within_limit_def MAX_EVENT_FRAME_LENGTH_def split: if_splits option.splits)
next
  case False
  with assms length_field_value_le [OF False] show ?thesis
    by (auto simp: finishLine_def Let_def buffered_def split: if_splits option.splits)
qed

lemma feed_counted:
  assumes "feed p c = (fs, r)" "counted p"
  shows "list_all frame_bounded fs \<and> (case r of Inl _ \<Rightarrow> True | Inr q \<Rightarrow> counted q)"
proof (cases "p_skipLF p \<and> c = LF")
  case True
  with assms show ?thesis by (auto simp: feed_def counted_def buffered_def within_limit_def)
next
  case False
  show ?thesis
  proof (cases "count_units 1 (p\<lparr>p_skipLF := False\<rparr>)")
    case (Inl e)
    then have "feed p c = ([], Inl e)" using False by (simp add: feed_def)
    with assms(1) have "fs = []" "r = Inl e" by simp_all
    then show ?thesis by simp
  next
    case (Inr p1)
    then have p1: "p1 = p\<lparr>p_skipLF := False, p_frameLength := Suc (p_frameLength p)\<rparr>"
      and w1: "within_limit p1"
      by (auto simp: count_units_def within_limit_def Let_def split: if_splits)
    show ?thesis
    proof (cases "c = CR \<or> c = LF")
      case True
      obtain q where fin: "finishLine (p1\<lparr>p_skipLF := (c = CR)\<rparr>) = (fs, q)" and "r = Inr q"
        using assms(1) False Inr True by (auto simp: feed_def Let_def split: prod.splits)
      with finishLine_counted [OF fin] finishLine_frameLength [OF fin] assms(2) p1 w1
      show ?thesis by (auto simp: counted_def buffered_def within_limit_def)
    next
      case plain: False
      with assms False Inr p1 w1 show ?thesis
        by (auto simp: feed_def counted_def buffered_def within_limit_def)
    qed
  qed
qed

lemma feeds_counted:
  "counted p \<Longrightarrow> list_all frame_bounded (fst (feeds p cs)) \<and>
     (case snd (feeds p cs) of Inl _ \<Rightarrow> True | Inr q \<Rightarrow> counted q)"
proof (induction cs arbitrary: p)
  case (Cons c cs)
  show ?case
  proof (cases "feed p c")
    case (Pair fs r)
    show ?thesis
    proof (cases r)
      case (Inr q)
      with feed_counted [OF Pair Cons.prems] Cons.IH [of q] Pair show ?thesis
        by (cases "feeds q cs") simp
    qed (use feed_counted [OF Pair Cons.prems] Pair in simp)
  qed
qed simp

lemma counted_create [simp]: "counted createEventStreamParser"
  by (simp add: counted_def buffered_def) (simp add: createEventStreamParser_def)

section \<open>Line endings\<close>

definition crlf :: "string \<Rightarrow> string" where
  "crlf s = concat (map (\<lambda>c. if c = LF then [CR, LF] else [c]) s)"

lemma finishLine_skipLF:
  "finishLine (p\<lparr>p_skipLF := b\<rparr>) = (let (fs, q) = finishLine p in (fs, q\<lparr>p_skipLF := b\<rparr>))"
  by (cases p) (simp add: finishLine_def Let_def)

lemma finishLine_keeps_skipLF: "finishLine p = (fs, q) \<Longrightarrow> p_skipLF q = p_skipLF p"
  by (auto simp: finishLine_def Let_def split: if_splits)

lemma feed_skipLF: "feed p c = (fs, Inr q) \<Longrightarrow> c \<noteq> CR \<Longrightarrow> \<not> p_skipLF q"
  by (auto simp: feed_def count_units_def Let_def dest!: finishLine_keeps_skipLF
      split: if_splits prod.splits)

lemma feeds_CRLF: "\<not> p_skipLF p \<Longrightarrow> feeds p [CR, LF] = feeds p [LF]"
  by (cases "finishLine (p\<lparr>p_frameLength := Suc (p_frameLength p)\<rparr>)")
    (auto simp: feed_def count_units_def Let_def finishLine_skipLF unskip split: prod.splits
      dest!: finishLine_keeps_skipLF)

lemma feeds_crlf:
  "\<not> p_skipLF p \<Longrightarrow> CR \<notin> set s \<Longrightarrow> feeds p (crlf s) = feeds p s"
proof (induction s arbitrary: p)
  case (Cons c s)
  have tail: "feeds q (crlf s) = feeds q s" if "feed p c = (fs, Inr q)" for fs q
    using that Cons by (auto dest: feed_skipLF)
  have "feeds p (crlf (c # s)) = feeds p ((if c = LF then [CR, LF] else [c]) @ crlf s)"
    by (simp add: crlf_def)
  also have "\<dots> = feeds p ([c] @ crlf s)"
  proof -
    have "feeds p (if c = LF then [CR, LF] else [c]) = feeds p [c]"
      using feeds_CRLF [OF Cons.prems(1)] by (cases "c = LF") (simp_all del: feeds.simps)
    then show ?thesis by (simp only: feeds_append)
  qed
  also have "\<dots> = feeds p (c # s)"
    using tail by (auto split: prod.splits sum.splits)
  finally show ?case .
qed (simp add: crlf_def)

section \<open>Encoding a frame\<close>

text \<open>
  The wire form the event-stream format prescribes, to state the round trip: one \<^verbatim>\<open>data\<close>
  line per line of the data.
\<close>

fun split_lf :: "string \<Rightarrow> string list" where
  "split_lf [] = [[]]"
| "split_lf (c # cs) =
     (if c = LF then [] # split_lf cs
      else (case split_lf cs of [] \<Rightarrow> [[c]] | l # ls \<Rightarrow> (c # l) # ls))"

definition sse_line :: "string \<Rightarrow> string \<Rightarrow> string" where
  "sse_line field value = field @ '': '' @ value @ [LF]"

definition encode_frame :: "frame \<Rightarrow> string" where
  "encode_frame f = sse_line ''event'' (ftype f) @
     (case fid f of None \<Rightarrow> [] | Some i \<Rightarrow> sse_line ''id'' i) @
     (case fdata f of None \<Rightarrow> [] | Some d \<Rightarrow> concat (map (sse_line ''data'') (split_lf d))) @ [LF]"

definition encodable :: "frame \<Rightarrow> bool" where
  "encodable f \<longleftrightarrow> ftype f \<noteq> [] \<and> CR \<notin> set (ftype f) \<and> LF \<notin> set (ftype f) \<and>
     (case fid f of None \<Rightarrow> True | Some i \<Rightarrow> CR \<notin> set i \<and> LF \<notin> set i \<and> NUL \<notin> set i) \<and>
     (case fdata f of None \<Rightarrow> fid f \<noteq> None | Some d \<Rightarrow> CR \<notin> set d) \<and>
     length (encode_frame f) \<le> MAX_EVENT_FRAME_LENGTH"

lemma split_lf_ne [simp]: "split_lf s \<noteq> []"
  by (cases s) (auto split: list.splits)

lemma join_split_lf: "join [LF] (split_lf s) = s"
proof (induction s)
  case (Cons c s)
  then show ?case
    by (cases "split_lf s") (auto simp: join_def)
qed simp

lemma set_split_lf: "l \<in> set (split_lf s) \<Longrightarrow> LF \<notin> set l \<and> set l \<subseteq> set s"
proof (induction s arbitrary: l)
  case (Cons c s)
  then show ?case by (cases "split_lf s") (fastforce split: if_splits)+
qed simp

lemma feeds_plain:
  assumes "CR \<notin> set l" "LF \<notin> set l" "\<not> p_skipLF p"
    and "p_frameLength p + length l \<le> MAX_EVENT_FRAME_LENGTH"
  shows "feeds p l = ([], Inr (scanned p l))"
  using assms
proof (induction l arbitrary: p)
  case (Cons c l)
  have "feed p c = ([], Inr (scanned p [c]))"
    using Cons.prems by (auto simp: feed_def count_units_def unskip scanned_def)
  moreover have "feeds (scanned p [c]) l = ([], Inr (scanned p (c # l)))"
    using Cons.prems Cons.IH [of "scanned p [c]"] by (simp add: scanned_def)
  ultimately show ?case by simp
qed simp

lemma feeds_line:
  assumes "CR \<notin> set l" "LF \<notin> set l" "\<not> p_skipLF p"
    and "p_frameLength p + length l < MAX_EVENT_FRAME_LENGTH"
  shows "feeds p (l @ [LF]) =
    (let (fs, q) = finishLine (p\<lparr>p_frameLength := p_frameLength p + Suc (length l), p_line := p_line p @ l\<rparr>)
     in (fs, Inr q))"
proof -
  have "feeds p l = ([], Inr (scanned p l))" using assms by (simp add: feeds_plain)
  with assms show ?thesis
    by (cases p) (auto simp: feeds_append feed_def count_units_def scanned_def split: prod.splits)
qed

lemma field_name_sse: "CHR '':'' \<notin> set f \<Longrightarrow> field_name (f @ '': '' @ v) = f"
  by (induction f) (auto simp: field_name_def)

lemma field_value_sse: "CHR '':'' \<notin> set f \<Longrightarrow> field_value (f @ '': '' @ v) = v"
proof -
  assume "CHR '':'' \<notin> set f"
  then have "field_name (f @ '': '' @ v) = f" by (rule field_name_sse)
  then show ?thesis by (simp add: field_value_def starts_with_def)
qed

text \<open>Feeding one encoded line stores its value in the field it names.\<close>

definition store_field :: "string \<Rightarrow> string \<Rightarrow> parser \<Rightarrow> parser" where
  "store_field f v p =
     (if f = ''data'' then p\<lparr>p_data := p_data p @ [v]\<rparr>
      else if f = ''event'' then p\<lparr>p_type := v\<rparr>
      else if f = ''id'' \<and> NUL \<notin> set v then p\<lparr>p_id := Some v\<rparr> else p)"

lemma feeds_sse_line:
  assumes "CHR '':'' \<notin> set f" "f \<noteq> []" "CR \<notin> set f" "LF \<notin> set f"
    and "CR \<notin> set v" "LF \<notin> set v" "\<not> p_skipLF p" "p_line p = []"
    and "p_frameLength p + length (sse_line f v) \<le> MAX_EVENT_FRAME_LENGTH"
  shows "feeds p (sse_line f v) =
    ([], Inr (store_field f v (p\<lparr>p_frameLength := p_frameLength p + length (sse_line f v)\<rparr>)))"
proof -
  have "feeds p ((f @ '': '' @ v) @ [LF]) =
    (let (fs, q) = finishLine (p\<lparr>p_frameLength := p_frameLength p + Suc (length (f @ '': '' @ v)),
       p_line := p_line p @ (f @ '': '' @ v)\<rparr>) in (fs, Inr q))"
    using assms by (intro feeds_line) (auto simp: sse_line_def)
  moreover have "\<not> starts_with '':'' (f @ '': '' @ v)"
    using assms(1,2) by (cases f) (auto simp: starts_with_def)
  ultimately show ?thesis
    using assms field_name_sse [OF assms(1), of v] field_value_sse [OF assms(1), of v]
    by (cases p) (simp add: finishLine_def sse_line_def store_field_def Let_def)
qed

definition add_length :: "nat \<Rightarrow> parser \<Rightarrow> parser" where
  "add_length n p = p\<lparr>p_frameLength := p_frameLength p + n\<rparr>"

lemma feeds_data_lines:
  assumes "\<And>l. l \<in> set ls \<Longrightarrow> CR \<notin> set l \<and> LF \<notin> set l" "\<not> p_skipLF p" "p_line p = []"
    and "p_frameLength p + length (concat (map (sse_line ''data'') ls)) \<le> MAX_EVENT_FRAME_LENGTH"
  shows "feeds p (concat (map (sse_line ''data'') ls)) =
    ([], Inr (add_length (length (concat (map (sse_line ''data'') ls))) (p\<lparr>p_data := p_data p @ ls\<rparr>)))"
  using assms
proof (induction ls arbitrary: p)
  case (Cons l ls)
  define q where "q = add_length (length (sse_line ''data'' l)) (p\<lparr>p_data := p_data p @ [l]\<rparr>)"
  have "feeds p (sse_line ''data'' l) = ([], Inr q)"
    using Cons.prems by (subst feeds_sse_line) (auto simp: store_field_def q_def add_length_def)
  moreover have "feeds q (concat (map (sse_line ''data'') ls)) =
      ([], Inr (add_length (length (concat (map (sse_line ''data'') ls))) (q\<lparr>p_data := p_data q @ ls\<rparr>)))"
    using Cons.prems by (intro Cons.IH) (auto simp: q_def add_length_def)
  ultimately show ?case
    by (cases p) (simp add: feeds_append q_def add_length_def)
qed (simp add: add_length_def)

lemma feeds_encode_frame:
  assumes "encodable f"
  shows "feeds createEventStreamParser (encode_frame f) = ([f], Inr createEventStreamParser)"
proof -
  let ?e = "sse_line ''event'' (ftype f)"
  let ?i = "case fid f of None \<Rightarrow> [] | Some i \<Rightarrow> sse_line ''id'' i"
  let ?d = "case fdata f of None \<Rightarrow> [] | Some d \<Rightarrow> concat (map (sse_line ''data'') (split_lf d))"
  note enc = assms [unfolded encodable_def encode_frame_def]
  define p1 where "p1 = add_length (length ?e) (createEventStreamParser\<lparr>p_type := ftype f\<rparr>)"
  define p2 where "p2 = add_length (length ?i) (p1\<lparr>p_id := fid f\<rparr>)"
  define p3 where "p3 = add_length (length ?d)
    (p2\<lparr>p_data := (case fdata f of None \<Rightarrow> [] | Some d \<Rightarrow> split_lf d)\<rparr>)"
  have s1: "feeds createEventStreamParser ?e = ([], Inr p1)"
    using enc by (subst feeds_sse_line)
      (auto simp: createEventStreamParser_def store_field_def p1_def add_length_def)
  have s2: "feeds p1 ?i = ([], Inr p2)"
  proof (cases "fid f")
    case None
    then show ?thesis by (simp add: p2_def p1_def add_length_def createEventStreamParser_def)
  next
    case (Some i)
    with enc show ?thesis
      by (simp, subst feeds_sse_line)
        (auto simp: createEventStreamParser_def store_field_def p1_def p2_def add_length_def)
  qed
  have s3: "feeds p2 ?d = ([], Inr p3)"
  proof (cases "fdata f")
    case None
    then show ?thesis by (simp add: p3_def p2_def p1_def add_length_def createEventStreamParser_def)
  next
    case (Some d)
    have "\<And>l. l \<in> set (split_lf d) \<Longrightarrow> CR \<notin> set l \<and> LF \<notin> set l"
      using enc Some set_split_lf by fastforce
    with enc Some show ?thesis
      by (simp, subst feeds_data_lines)
        (auto simp: createEventStreamParser_def p1_def p2_def p3_def add_length_def)
  qed
  have s4: "feeds p3 [LF] = ([f], Inr createEventStreamParser)"
    using enc by (auto simp: feed_def count_units_def p1_def p2_def p3_def add_length_def
        createEventStreamParser_def finishLine_def join_split_lf split: option.splits)
  show ?thesis
    by (simp only: encode_frame_def feeds_append s1 s2 s3 s4 prod.case sum.case Let_def append_Nil)
qed

lemma feeds_encode_frames:
  "list_all encodable fs \<Longrightarrow>
    feeds createEventStreamParser (concat (map encode_frame fs)) = (fs, Inr createEventStreamParser)"
  by (induction fs) (simp_all add: feeds_append feeds_encode_frame)

section \<open>Properties\<close>

text \<open>
  C26: the index arithmetic of \<^verbatim>\<open>push\<close> computes the character-at-a-time machine on the whole
  text, however the network cut it into chunks: same frames, same final state, same size error.
\<close>

theorem event_stream_chunking:
  "push_all createEventStreamParser chunks = feeds createEventStreamParser (concat chunks)"
  by (simp add: push_all_feeds)

text \<open>
  C27: frames written in the event-stream format and delivered in any chunking are parsed back to
  exactly those frames, in order, leaving the parser in its initial state.
\<close>

theorem event_stream_roundtrip:
  assumes "list_all encodable fs" and "concat chunks = concat (map encode_frame fs)"
  shows "push_all createEventStreamParser chunks = (fs, Inr createEventStreamParser)"
  using assms by (simp add: push_all_feeds feeds_encode_frames)

definition example_frame :: frame where
  "example_frame = \<lparr>ftype = ''changed'', fdata = Some (''a'' @ [LF] @ ''b''), fid = Some ''7''\<rparr>"

theorem event_stream_roundtrip_witness:
  "push_all createEventStreamParser
     [''event: chan'', ''ged'' @ [LF] @ ''id: 7'' @ [LF] @ ''data: a'' @ [LF] @ ''da'',
      ''ta: b'' @ [LF], [LF]] = ([example_frame], Inr createEventStreamParser)"
proof (rule event_stream_roundtrip)
  show "list_all encodable [example_frame]"
    by (simp add: encodable_def example_frame_def encode_frame_def sse_line_def
        MAX_EVENT_FRAME_LENGTH_def)
qed (simp add: example_frame_def encode_frame_def sse_line_def)

text \<open>
  C33: whatever the server sends, a delivered frame carries at most the frame limit of data and
  identifier text, and the text a parser holds for an unfinished frame never exceeds the limit.
\<close>

theorem event_stream_bounded:
  "list_all frame_bounded (fst (push_all createEventStreamParser chunks)) \<and>
   (case snd (push_all createEventStreamParser chunks) of
      Inl _ \<Rightarrow> True | Inr p \<Rightarrow> buffered p \<le> MAX_EVENT_FRAME_LENGTH)"
  using feeds_counted [OF counted_create, of "concat chunks"]
  by (simp add: push_all_feeds [OF within_limit_create] counted_def within_limit_def
      split: sum.splits)

text \<open>
  A stream whose lines end in CRLF gives what the same stream with LF ends gives, also when
  the two characters arrive in different chunks, and counts each ending once towards the limit.
\<close>

lemma event_stream_line_endings:
  assumes "CR \<notin> set body" and "concat chunks = body" and "concat chunks' = crlf body"
  shows "push_all createEventStreamParser chunks' = push_all createEventStreamParser chunks"
  using assms feeds_crlf [of createEventStreamParser body]
  by (simp add: push_all_feeds) (simp add: createEventStreamParser_def)

lemma event_stream_line_endings_example:
  "push_all createEventStreamParser [''data: x'' @ [CR], [LF, CR], [LF]] =
   push_all createEventStreamParser [''data: x'' @ [LF, LF]]"
  by (rule event_stream_line_endings [where body = "''data: x'' @ [LF, LF]"])
    (simp_all add: crlf_def)

end
