(* ===== verification/Session.thy ===== *)
theory Session
  imports Prelude
begin

text \<open>
  The browser session of \<^verbatim>\<open>web/lib/session.ts\<close>: the identity kept in
  \<^verbatim>\<open>localStorage\<close>, the scope derived from it, and the leases
  (\<^verbatim>\<open>sessionRequest\<close>) that abort in-flight work when the scope changes.

  A stored text is \<^verbatim>\<open>Raw s\<close> (the text itself), \<^verbatim>\<open>Json v\<close> (what
  \<^verbatim>\<open>JSON.stringify(v)\<close> wrote, so that \<^verbatim>\<open>JSON.parse\<close> reads \<^verbatim>\<open>v\<close> back), or
  \<^verbatim>\<open>Coerced v\<close> (a value that is not a string, converted by \<^verbatim>\<open>setItem\<close>).
  The scope text \<^verbatim>\<open>JSON.stringify([epoch, id, role, tenant])\<close> is compared only for
  equality; the model keeps the four components it prints.
\<close>

section \<open>State\<close>

datatype item = Raw string | Json json | Coerced "json option"

datatype scope = ServerScope | Scope "item option" json json "item option"

datatype exn = DOMException string | Err string | Api json

text \<open>One call of \<^verbatim>\<open>sessionRequest\<close>: its controller and its two event listeners.\<close>

record lease =
  l_scope :: scope
  l_aborted :: bool
  l_pending :: bool
  l_listening :: bool

record session =
  s_window :: bool
  s_storage :: "string \<Rightarrow> item option"
  s_leases :: "lease list"
  s_random :: "nat \<Rightarrow> string"
  s_drawn :: nat

definition EPOCH :: string where "EPOCH = ''tabmail_session_epoch''"
definition TOKEN_KEY :: string where "TOKEN_KEY = ''tabmail_access_token''"
definition USER_KEY :: string where "USER_KEY = ''tabmail_user''"
definition TENANT_KEY :: string where "TENANT_KEY = ''tabmail_tenant_id''"

definition session_keys :: "string list" where
  "session_keys = [EPOCH, USER_KEY, TENANT_KEY]"

lemmas key_defs = EPOCH_def TOKEN_KEY_def USER_KEY_def TENANT_KEY_def

lemma keys_distinct [simp]:
  "EPOCH \<noteq> TOKEN_KEY" "EPOCH \<noteq> USER_KEY" "EPOCH \<noteq> TENANT_KEY"
  "TOKEN_KEY \<noteq> USER_KEY" "TOKEN_KEY \<noteq> TENANT_KEY" "USER_KEY \<noteq> TENANT_KEY"
  "TOKEN_KEY \<noteq> EPOCH" "USER_KEY \<noteq> EPOCH" "TENANT_KEY \<noteq> EPOCH"
  "USER_KEY \<noteq> TOKEN_KEY" "TENANT_KEY \<noteq> TOKEN_KEY" "TENANT_KEY \<noteq> USER_KEY"
  by (simp_all add: key_defs)

section \<open>Scope\<close>

text \<open>
  \<^verbatim>\<open>JSON.parse\<close> of the stored user; unreadable text is anonymous. A coerced value that
  parses at all is a primitive, which has neither \<^verbatim>\<open>id\<close> nor \<^verbatim>\<open>role\<close>.
\<close>

fun parsed_user :: "item option \<Rightarrow> json option" where
  "parsed_user (Some (Json v)) = Some v"
| "parsed_user _ = None"

definition user_field :: "json option \<Rightarrow> string \<Rightarrow> json" where
  "user_field u k = (case u of None \<Rightarrow> JNull
     | Some v \<Rightarrow> (case get_prop v k of None \<Rightarrow> JNull | Some x \<Rightarrow> x))"

definition sessionScope :: "'a session_scheme \<Rightarrow> scope" where
  "sessionScope s =
     (if \<not> s_window s then ServerScope
      else let user = parsed_user (s_storage s USER_KEY)
           in Scope (s_storage s EPOCH) (user_field user ''id'') (user_field user ''role'')
                (s_storage s TENANT_KEY))"

definition assertSession :: "scope \<Rightarrow> ('a session_scheme, exn, unit) act" where
  "assertSession scope =
     (\<lambda>s. if scope \<noteq> sessionScope s then throw (DOMException ''AbortError'') s else ret () s)"

section \<open>Operations\<close>

text \<open>The listener every undisposed lease has on \<^verbatim>\<open>storage\<close> and \<^verbatim>\<open>AUTH_EVENT\<close>.\<close>

definition changed :: "'a session_scheme \<Rightarrow> lease \<Rightarrow> lease" where
  "changed s l =
     (if l_listening l \<and> l_scope l \<noteq> sessionScope s then l\<lparr>l_aborted := True\<rparr> else l)"

definition dispatch_auth :: "'a session_scheme \<Rightarrow> 'a session_scheme" where
  "dispatch_auth s = s\<lparr>s_leases := map (changed s) (s_leases s)\<rparr>"

definition abort_pending :: "lease \<Rightarrow> lease" where
  "abort_pending l = (if l_pending l then l\<lparr>l_aborted := True, l_pending := False\<rparr> else l)"

definition advanceSession :: "'a session_scheme \<Rightarrow> 'a session_scheme" where
  "advanceSession s =
     (if \<not> s_window s then s
      else dispatch_auth (s\<lparr>s_leases := map abort_pending (s_leases s),
             s_storage := (s_storage s)(EPOCH \<mapsto> Raw (s_random s (s_drawn s))),
             s_drawn := Suc (s_drawn s)\<rparr>))"

text \<open>
  \<^verbatim>\<open>sessionRequest(signal)\<close>: the new lease is the last element of the list, its index the
  handle the caller keeps. \<^verbatim>\<open>aborted\<close> is the caller's signal at the call.
\<close>

definition sessionRequest :: "bool \<Rightarrow> 'a session_scheme \<Rightarrow> nat \<times> 'a session_scheme" where
  "sessionRequest aborted s =
     (length (s_leases s),
      s\<lparr>s_leases := s_leases s @ [\<lparr>l_scope = sessionScope s, l_aborted = aborted,
                                   l_pending = True, l_listening = s_window s\<rparr>]\<rparr>)"

definition dispose :: "nat \<Rightarrow> 'a session_scheme \<Rightarrow> 'a session_scheme" where
  "dispose i s =
     s\<lparr>s_leases := (s_leases s)[i := (s_leases s ! i)\<lparr>l_pending := False, l_listening := False\<rparr>]\<rparr>"

definition abort_lease :: "nat \<Rightarrow> 'a session_scheme \<Rightarrow> 'a session_scheme" where
  "abort_lease i s = s\<lparr>s_leases := (s_leases s)[i := (s_leases s ! i)\<lparr>l_aborted := True\<rparr>]\<rparr>"

definition remove_items :: "string list \<Rightarrow> 'a session_scheme \<Rightarrow> 'a session_scheme" where
  "remove_items ks s = s\<lparr>s_storage := (\<lambda>k. if k \<in> set ks then None else s_storage s k)\<rparr>"

definition set_item :: "string \<Rightarrow> item \<Rightarrow> 'a session_scheme \<Rightarrow> 'a session_scheme" where
  "set_item k v s = s\<lparr>s_storage := (s_storage s)(k \<mapsto> v)\<rparr>"

definition clearSessionCredentials :: "'a session_scheme \<Rightarrow> 'a session_scheme" where
  "clearSessionCredentials s =
     (if \<not> s_window s then s
      else advanceSession
             (remove_items (TOKEN_KEY # filter (\<lambda>k. k \<noteq> EPOCH) session_keys) s))"

fun coerce :: "json option \<Rightarrow> item" where
  "coerce (Some (JStr t)) = Raw t"
| "coerce v = Coerced v"

definition installSession :: "json \<Rightarrow> json \<Rightarrow> 'a session_scheme \<Rightarrow> 'a session_scheme" where
  "installSession accessToken user s =
     (if (case s_storage s TOKEN_KEY of Some (Raw t) \<Rightarrow> accessToken = JStr t | _ \<Rightarrow> False)
         \<and> s_storage s USER_KEY = Some (Json user)
      then s
      else advanceSession
        (remove_items [''tabmail_mailbox_token'', ''tabmail_mailbox_address'',
                       ''tabmail_mailbox_api_key'', ''tabmail_mailbox_api_key_address'']
          (set_item TENANT_KEY (coerce (get_prop user ''tenant_id''))
            (set_item USER_KEY (Json user)
              (set_item TOKEN_KEY (coerce (Some accessToken)) s)))))"

text \<open>
  \<^verbatim>\<open>subscribe\<close>: whether a storage event of another tab re-reads the scope
  (\<^const>\<open>None\<close> is a cleared store).
\<close>

definition onStorage :: "string option \<Rightarrow> bool" where
  "onStorage key = (key = None \<or> the key \<in> set session_keys)"

text \<open>
  Another tab writes the store they share. The write is visible here at once; its storage events are
  queued by the browser, and each is delivered later to the listeners of the leases.
\<close>

definition foreign_write ::
  "(string \<Rightarrow> item option) \<Rightarrow> 'a session_scheme \<Rightarrow> 'a session_scheme" where
  "foreign_write st s = s\<lparr>s_storage := st\<rparr>"

definition storage_event :: "'a session_scheme \<Rightarrow> 'a session_scheme" where
  "storage_event s = s\<lparr>s_leases := map (changed s) (s_leases s)\<rparr>"

section \<open>The contract of a session guard\<close>

text \<open>
  What the callers of \<^verbatim>\<open>assertSession\<close> rely on: it changes nothing, passes in the scope it
  was given and throws an abort in every other. The request transport, the draft writer and the
  editors are its clients.
\<close>

locale scope_guard =
  fixes scope_of :: "'s \<Rightarrow> scope"
    and guard :: "scope \<Rightarrow> ('s, exn, unit) act"
  assumes guard_pass: "scope_of s = c \<Longrightarrow> guard c s = (Ret (), s)"
    and guard_stop: "scope_of s \<noteq> c \<Longrightarrow> guard c s = (Throw (DOMException ''AbortError''), s)"
begin

lemma wp_guard:
  "wp (guard c) Q R W s =
     (if scope_of s = c then Q () s else R (DOMException ''AbortError'') s)"
  by (simp add: wp_def guard_pass guard_stop)

lemma guard_returns_iff: "fst (guard c s) = Ret () \<longleftrightarrow> scope_of s = c"
  by (cases "scope_of s = c") (simp_all add: guard_pass guard_stop)

lemma guard_Ret: "guard c s = (Ret u, t) \<longleftrightarrow> scope_of s = c \<and> t = s"
  by (cases "scope_of s = c") (auto simp: guard_pass guard_stop)

lemma guard_frame: "snd (guard c s) = s"
  by (cases "scope_of s = c") (simp_all add: guard_pass guard_stop)

text \<open>Work that is checked after it settles: a result gets through only in the same scope.\<close>

lemma guarded_result:
  assumes "bnd m (\<lambda>x. bnd (guard c) (\<lambda>_. ret x)) s = (Ret y, t)"
  shows "scope_of t = c"
  using assms
  by (auto simp: bnd_def ret_def guard_Ret split: prod.splits res.splits)

end

interpretation session: scope_guard sessionScope assertSession
  by unfold_locales (simp_all add: assertSession_def throw_def ret_def)

lemmas wp_assertSession [wp_rules] = session.wp_guard

section \<open>Leases follow the scope\<close>

definition lease_current :: "scope \<Rightarrow> lease \<Rightarrow> bool" where
  "lease_current c l \<longleftrightarrow> (if l_listening l then l_aborted l \<or> l_scope l = c else True)"

definition leases_current :: "'a session_scheme \<Rightarrow> bool" where
  "leases_current s \<longleftrightarrow> list_all (lease_current (sessionScope s)) (s_leases s)"

lemma sessionScope_cong:
  "s_window s = s_window t \<Longrightarrow> s_storage s = s_storage t \<Longrightarrow> sessionScope s = sessionScope t"
  by (simp add: sessionScope_def)

lemma sessionScope_leases [simp]: "sessionScope (s\<lparr>s_leases := ls\<rparr>) = sessionScope s"
  by (simp add: sessionScope_def)

lemma sessionScope_dispatch [simp]: "sessionScope (dispatch_auth s) = sessionScope s"
  by (simp add: dispatch_auth_def)

lemma leases_current_dispatch [simp]: "leases_current (dispatch_auth s)"
  by (auto simp: leases_current_def dispatch_auth_def changed_def lease_current_def list_all_iff)

lemma leases_current_advance: "leases_current s \<Longrightarrow> leases_current (advanceSession s)"
  by (simp add: advanceSession_def)

lemma leases_current_advance_window: "s_window s \<Longrightarrow> leases_current (advanceSession s)"
  by (simp add: advanceSession_def)

lemma leases_current_request: "leases_current s \<Longrightarrow> leases_current (snd (sessionRequest a s))"
  by (simp add: sessionRequest_def leases_current_def lease_current_def)

lemma leases_current_update:
  "leases_current s \<Longrightarrow> lease_current (sessionScope s) l \<Longrightarrow>
    leases_current (s\<lparr>s_leases := (s_leases s)[i := l]\<rparr>)"
  by (cases "i < length (s_leases s)")
    (auto simp: leases_current_def list_all_iff dest!: set_update_subset_insert [THEN subsetD])

lemma leases_current_dispose: "leases_current s \<Longrightarrow> leases_current (dispose i s)"
  unfolding dispose_def by (rule leases_current_update) (simp_all add: lease_current_def)

lemma leases_current_abort: "leases_current s \<Longrightarrow> leases_current (abort_lease i s)"
  unfolding abort_lease_def by (rule leases_current_update) (simp_all add: lease_current_def)

text \<open>
  The ways the store and the leases change: the operations above, the end of a lease, the
  caller's own abort, another tab's write that keeps the epoch (a token rotation), its login, logout or
  tenant switch, which draws its own random epoch, and the delivery of a storage event. The number
  counts the storage events that are queued and not delivered yet; a write queues at least one.
\<close>

type_synonym browser = "session \<times> nat"

inductive session_step :: "browser \<Rightarrow> browser \<Rightarrow> bool" where
  install: "session_step (s, q) (installSession token user s, q)"
| clear: "session_step (s, q) (clearSessionCredentials s, q)"
| advance: "session_step (s, q) (advanceSession s, q)"
| request: "session_step (s, q) (snd (sessionRequest a s), q)"
| finish: "i < length (s_leases s) \<Longrightarrow> session_step (s, q) (dispose i s, q)"
| caller_abort: "i < length (s_leases s) \<Longrightarrow> session_step (s, q) (abort_lease i s, q)"
| rotate: "st EPOCH = s_storage s EPOCH \<Longrightarrow> session_step (s, q) (foreign_write st s, q + Suc n)"
| other_tab: "session_step (s, q) (foreign_write (st(EPOCH \<mapsto> Raw (s_random s (s_drawn s))))
                (s\<lparr>s_drawn := Suc (s_drawn s)\<rparr>), q + Suc n)"
| deliver: "session_step (s, Suc q) (storage_event s, q)"

inductive_cases session_stepE: "session_step b c"

abbreviation session_run :: "browser \<Rightarrow> browser \<Rightarrow> bool" where
  "session_run \<equiv> session_step\<^sup>*\<^sup>*"

lemma window_ops [simp]:
  "s_window (advanceSession s) = s_window s"
  "s_window (clearSessionCredentials s) = s_window s"
  "s_window (installSession tok u s) = s_window s"
  "s_window (dispatch_auth s) = s_window s"
  "s_window (snd (sessionRequest a s)) = s_window s"
  "s_window (dispose i s) = s_window s" "s_window (abort_lease i s) = s_window s"
  "s_window (foreign_write st s) = s_window s" "s_window (storage_event s) = s_window s"
  "s_window (set_item k v s) = s_window s" "s_window (remove_items ks s) = s_window s"
  by (simp_all add: advanceSession_def clearSessionCredentials_def installSession_def
      dispatch_auth_def sessionRequest_def dispose_def abort_lease_def foreign_write_def storage_event_def
      set_item_def remove_items_def)

lemma session_step_window: "session_step b c \<Longrightarrow> s_window (fst c) = s_window (fst b)"
  by (auto elim!: session_stepE)

text \<open>While no storage event is queued, every listening lease is of the current scope or aborted.\<close>

definition browser_current :: "browser \<Rightarrow> bool" where
  "browser_current b \<longleftrightarrow> (snd b = 0 \<longrightarrow> leases_current (fst b))"

lemma leases_current_storage_event: "leases_current (storage_event s)"
  using leases_current_dispatch[of s] by (simp add: storage_event_def dispatch_auth_def)

lemma session_step_current:
  assumes "session_step b c" "browser_current b" "s_window (fst b)"
  shows "browser_current c"
  using assms
  by (cases rule: session_step.cases)
    (auto simp: browser_current_def clearSessionCredentials_def installSession_def leases_current_storage_event
      intro: leases_current_advance_window leases_current_request leases_current_dispose
        leases_current_abort)

lemma session_run_current:
  "session_run b c \<Longrightarrow> browser_current b \<Longrightarrow> s_window (fst b) \<Longrightarrow> browser_current c \<and> s_window (fst c)"
  by (induction rule: rtranclp_induct) (auto simp: session_step_window dest: session_step_current)

section \<open>Epochs are never reused\<close>

definition epoch_since :: "session \<Rightarrow> session \<Rightarrow> bool" where
  "epoch_since s t \<longleftrightarrow> s_random t = s_random s \<and> s_drawn s \<le> s_drawn t \<and>
     (if s_drawn t = s_drawn s then s_storage t EPOCH = s_storage s EPOCH
      else \<exists>k. s_drawn s \<le> k \<and> k < s_drawn t \<and> s_storage t EPOCH = Some (Raw (s_random s k)))"

lemma epoch_since_refl: "epoch_since s s"
  by (simp add: epoch_since_def)

lemma epoch_since_keep:
  "epoch_since s t \<Longrightarrow> s_random u = s_random t \<Longrightarrow> s_drawn u = s_drawn t \<Longrightarrow>
    s_storage u EPOCH = s_storage t EPOCH \<Longrightarrow> epoch_since s u"
  by (simp add: epoch_since_def)

lemma epoch_since_draw:
  "epoch_since s t \<Longrightarrow> s_random u = s_random t \<Longrightarrow> s_drawn u = Suc (s_drawn t) \<Longrightarrow>
    s_storage u EPOCH = Some (Raw (s_random t (s_drawn t))) \<Longrightarrow> epoch_since s u"
  by (auto simp: epoch_since_def)

lemma advance_fields:
  "s_window s \<Longrightarrow> s_random (advanceSession s) = s_random s"
  "s_window s \<Longrightarrow> s_drawn (advanceSession s) = Suc (s_drawn s)"
  "s_window s \<Longrightarrow> s_storage (advanceSession s) = (s_storage s)(EPOCH \<mapsto> Raw (s_random s (s_drawn s)))"
  by (simp_all add: advanceSession_def dispatch_auth_def)

lemma epoch_since_advance:
  assumes "epoch_since s t" "s_window u" "s_random u = s_random t" "s_drawn u = s_drawn t"
  shows "epoch_since s (advanceSession u)"
  using assms by (intro epoch_since_draw [OF assms(1)]) (simp_all add: advance_fields)

lemma item_ops [simp]:
  "s_random (set_item k v s) = s_random s" "s_drawn (set_item k v s) = s_drawn s"
  "s_random (remove_items ks s) = s_random s" "s_drawn (remove_items ks s) = s_drawn s"
  "s_leases (set_item k v s) = s_leases s" "s_leases (remove_items ks s) = s_leases s"
  "s_storage (set_item k v s) = (s_storage s)(k \<mapsto> v)"
  by (simp_all add: set_item_def remove_items_def)

lemma session_step_epoch:
  assumes "session_step b c" "epoch_since s (fst b)" "s_window (fst b)"
  shows "epoch_since s (fst c)"
  using assms
proof (cases rule: session_step.cases)
  case (install s' q token user)
  with assms show ?thesis
    by (auto simp: installSession_def intro!: epoch_since_advance)
next
  case clear
  with assms show ?thesis
    by (auto simp: clearSessionCredentials_def intro!: epoch_since_advance)
next
  case advance
  with assms show ?thesis by (simp add: epoch_since_advance)
next
  case (other_tab s' q st n)
  then show ?thesis
    by (simp, intro epoch_since_draw [OF assms(2)]) (simp_all add: foreign_write_def)
qed (auto intro!: epoch_since_keep [OF assms(2)]
      simp: sessionRequest_def dispose_def abort_lease_def foreign_write_def storage_event_def)

lemma session_run_epoch:
  "session_run b c \<Longrightarrow> s_window (fst b) \<Longrightarrow> epoch_since (fst b) (fst c) \<and> s_window (fst c)"
  by (induction rule: rtranclp_induct)
    (auto simp: epoch_since_refl session_step_window dest: session_step_epoch)

section \<open>Properties\<close>

text \<open>
  C24: in every state a browser session can reach, a lease that is neither disposed nor aborted was
  taken in the scope that is current now, except between a write of another tab and the delivery of
  its storage event; in that window the scope check already rejects what such a lease brings, and the
  event that is queued aborts it.
\<close>

theorem live_lease_has_current_scope:
  assumes "session_run (s, 0) (t, q)" "s_leases s = []" "s_window s"
    and "l \<in> set (s_leases t)" "l_listening l" "\<not> l_aborted l"
  shows "l_scope l = sessionScope t \<or>
    (0 < q \<and> assertSession (l_scope l) t = (Throw (DOMException ''AbortError''), t) \<and> l_aborted (changed t l))"
proof -
  have "browser_current (s, 0)" using assms(2) by (simp add: browser_current_def leases_current_def)
  with session_run_current[OF assms(1)] assms(3) have "q = 0 \<Longrightarrow> leases_current t" by (simp add: browser_current_def)
  with assms(4-6) have "q = 0 \<Longrightarrow> l_scope l = sessionScope t"
    by (auto simp: leases_current_def lease_current_def list_all_iff)
  with assms(5) show ?thesis by (cases "q = 0") (auto simp: session.guard_stop changed_def)
qed

definition fresh_browser :: session where
  "fresh_browser = \<lparr>s_window = True, s_storage = Map.empty, s_leases = [],
     s_random = (\<lambda>n. replicate n CHR ''e''), s_drawn = 0\<rparr>"

definition example_user :: json where
  "example_user = JObj [(''id'', JStr ''u1''), (''role'', JStr ''user''), (''tenant_id'', JStr ''t1'')]"

definition logged_in :: session where
  "logged_in = installSession (JStr ''tok'') example_user fresh_browser"

definition pending_request :: session where
  "pending_request = snd (sessionRequest False logged_in)"

text \<open>A request is under way when another tab logs out: its event aborts the request.\<close>

theorem live_lease_has_current_scope_witness:
  "list_all (\<lambda>l. l_aborted (changed (foreign_write (Map.empty(EPOCH \<mapsto> Raw ''e'')) (pending_request\<lparr>s_drawn := 2\<rparr>)) l))
     (s_leases pending_request)"
proof -
  let ?t = "foreign_write (Map.empty(EPOCH \<mapsto> Raw (s_random pending_request (s_drawn pending_request))))
    (pending_request\<lparr>s_drawn := Suc (s_drawn pending_request)\<rparr>)"
  let ?l = "\<lparr>l_scope = sessionScope logged_in, l_aborted = False, l_pending = True,
              l_listening = s_window logged_in\<rparr>"
  have win: "s_window logged_in" by (simp add: logged_in_def fresh_browser_def)
  have run: "session_run (fresh_browser, 0) (?t, 0 + Suc 0)"
    unfolding logged_in_def pending_request_def
    by (rule rtranclp.rtrancl_into_rtrancl [OF rtranclp.rtrancl_into_rtrancl [OF r_into_rtranclp]])
      (rule session_step.intros)+
  have leases: "s_leases pending_request = [?l]" "s_leases ?t = [?l]"
    by (simp_all add: pending_request_def sessionRequest_def foreign_write_def)
      (simp_all add: logged_in_def installSession_def fresh_browser_def advanceSession_def dispatch_auth_def)
  have drawn: "s_drawn pending_request = 1" "s_random pending_request 1 = ''e''"
    by (simp_all add: pending_request_def sessionRequest_def logged_in_def installSession_def fresh_browser_def advance_fields)
  have "s_storage logged_in EPOCH = Some (Raw [])"
    by (simp add: logged_in_def installSession_def fresh_browser_def advance_fields remove_items_def set_item_def)
  then have "sessionScope ?t \<noteq> sessionScope logged_in"
    using win drawn by (simp add: sessionScope_def foreign_write_def pending_request_def sessionRequest_def Let_def)
  then have "l_aborted (changed ?t ?l)"
    using live_lease_has_current_scope [OF run _ _ _ _ _, of ?l] win leases by (simp add: fresh_browser_def)
  then show ?thesis using drawn leases(1) by (simp add: numeral_2_eq_2)
qed

text \<open>
  A scope that was left never comes back. Once any login, logout, tenant switch or other tab
  has advanced the session, the earlier scope differs from the current one for good, so
  \<^verbatim>\<open>assertSession\<close> rejects every result obtained under it.
\<close>

lemma left_scope_never_returns:
  assumes "session_run (s, p) (t, q)" "s_window s" "s_drawn s < s_drawn t"
    and "\<And>k. s_drawn s \<le> k \<Longrightarrow> s_storage s EPOCH \<noteq> Some (Raw (s_random s k))"
  shows "sessionScope t \<noteq> sessionScope s \<and>
    assertSession (sessionScope s) t = (Throw (DOMException ''AbortError''), t)"
proof -
  from session_run_epoch[OF assms(1)] assms(2) have "epoch_since s t" and win: "s_window t"
    by simp_all
  with assms(3,4) have "s_storage t EPOCH \<noteq> s_storage s EPOCH"
    by (auto simp: epoch_since_def split: if_splits)
  with assms(2) win have "sessionScope t \<noteq> sessionScope s"
    by (simp add: sessionScope_def Let_def)
  then show ?thesis by (simp add: session.guard_stop)
qed

lemma left_scope_never_returns_example:
  "sessionScope (clearSessionCredentials logged_in) \<noteq> sessionScope logged_in \<and>
   assertSession (sessionScope logged_in) (clearSessionCredentials logged_in) =
     (Throw (DOMException ''AbortError''), clearSessionCredentials logged_in)"
proof (rule left_scope_never_returns)
  show "session_run (logged_in, 0) (clearSessionCredentials logged_in, 0)"
    by (rule r_into_rtranclp) (rule session_step.intros)
  have store: "s_storage logged_in EPOCH = Some (Raw [])" "s_drawn logged_in = 1"
    and rand: "s_random logged_in = (\<lambda>n. replicate n CHR ''e'')"
    by (simp_all add: logged_in_def installSession_def fresh_browser_def advance_fields key_defs
        remove_items_def set_item_def)
  then show "s_storage logged_in EPOCH \<noteq> Some (Raw (s_random logged_in k))"
    if "s_drawn logged_in \<le> k" for k
    using that by auto
  show "s_window logged_in" by (simp add: logged_in_def fresh_browser_def)
  then show "s_drawn logged_in < s_drawn (clearSessionCredentials logged_in)"
    by (simp add: clearSessionCredentials_def advance_fields)
qed

lemma advance_retires_leases:
  "s_window s \<Longrightarrow> list_all2 (\<lambda>l l'. \<not> l_pending l' \<and> (if l_pending l then l_aborted l' else True))
     (s_leases s) (s_leases (advanceSession s))"
  by (auto simp: list_all2_conv_all_nth advanceSession_def dispatch_auth_def abort_pending_def
      changed_def)

text \<open>The store \<^verbatim>\<open>installSession\<close> leaves before it advances the session.\<close>

definition stored_identity :: "json \<Rightarrow> json \<Rightarrow> session \<Rightarrow> session" where
  "stored_identity accessToken user s =
     remove_items [''tabmail_mailbox_token'', ''tabmail_mailbox_address'',
                   ''tabmail_mailbox_api_key'', ''tabmail_mailbox_api_key_address'']
       (set_item TENANT_KEY (coerce (get_prop user ''tenant_id''))
         (set_item USER_KEY (Json user) (set_item TOKEN_KEY (coerce (Some accessToken)) s)))"

lemma stored_identity_fields:
  "s_window (stored_identity tok u s) = s_window s"
  "s_leases (stored_identity tok u s) = s_leases s"
  "s_random (stored_identity tok u s) = s_random s"
  "s_drawn (stored_identity tok u s) = s_drawn s"
  "s_storage (stored_identity tok u s) TOKEN_KEY = Some (coerce (Some tok))"
  "s_storage (stored_identity tok u s) USER_KEY = Some (Json u)"
  "s_storage (stored_identity tok u s) TENANT_KEY = Some (coerce (get_prop u ''tenant_id''))"
  "s_storage (stored_identity tok u s) ''tabmail_mailbox_token'' = None"
  "s_storage (stored_identity tok u s) ''tabmail_mailbox_address'' = None"
  "s_storage (stored_identity tok u s) ''tabmail_mailbox_api_key'' = None"
  "s_storage (stored_identity tok u s) ''tabmail_mailbox_api_key_address'' = None"
  by (simp_all add: stored_identity_def remove_items_def set_item_def key_defs)

lemma mailbox_keys_not_epoch [simp]:
  "EPOCH \<noteq> ''tabmail_mailbox_token''" "EPOCH \<noteq> ''tabmail_mailbox_address''"
  "EPOCH \<noteq> ''tabmail_mailbox_api_key''" "EPOCH \<noteq> ''tabmail_mailbox_api_key_address''"
  "''tabmail_mailbox_token'' \<noteq> EPOCH" "''tabmail_mailbox_address'' \<noteq> EPOCH"
  "''tabmail_mailbox_api_key'' \<noteq> EPOCH" "''tabmail_mailbox_api_key_address'' \<noteq> EPOCH"
  by (simp_all add: EPOCH_def)

text \<open>
  Login installs exactly one identity. Either the same token and user were already stored and
  nothing changes, or afterwards the store holds the new token, user and tenant, none of the four
  legacy mailbox credentials is left, the epoch is a fresh random value, and every request that
  was in flight has been aborted.
\<close>

lemma install_session_result:
  fixes s :: session
  assumes "s_window s" and "installSession (JStr token) user s = t"
  shows "t = s \<and> s_storage s TOKEN_KEY = Some (Raw token) \<and> s_storage s USER_KEY = Some (Json user) \<or>
    s_storage t TOKEN_KEY = Some (Raw token) \<and> s_storage t USER_KEY = Some (Json user) \<and>
    s_storage t TENANT_KEY = Some (coerce (get_prop user ''tenant_id'')) \<and>
    s_storage t EPOCH = Some (Raw (s_random s (s_drawn s))) \<and>
    list_all (\<lambda>k. s_storage t k = None)
      [''tabmail_mailbox_token'', ''tabmail_mailbox_address'', ''tabmail_mailbox_api_key'',
       ''tabmail_mailbox_api_key_address''] \<and>
    list_all2 (\<lambda>l l'. \<not> l_pending l' \<and> (if l_pending l then l_aborted l' else True))
      (s_leases s) (s_leases t)"
proof (cases "s_storage s TOKEN_KEY = Some (Raw token) \<and> s_storage s USER_KEY = Some (Json user)")
  case True
  with assms(2) show ?thesis by (simp add: installSession_def)
next
  case False
  then have "t = advanceSession (stored_identity (JStr token) user s)"
    using assms(2) by (auto simp: installSession_def stored_identity_def split: option.splits item.splits)
  with assms(1) show ?thesis
    using advance_retires_leases [of "stored_identity (JStr token) user s"]
    by (simp add: advance_fields stored_identity_fields)
qed

lemma install_session_result_example:
  "s_storage logged_in TOKEN_KEY = Some (Raw ''tok'') \<and> s_storage logged_in TENANT_KEY = Some (Raw ''t1'')"
  using install_session_result [of fresh_browser "''tok''" example_user logged_in]
  by (simp add: logged_in_def fresh_browser_def example_user_def)

end
