(* ===== verification/ApiBase.thy ===== *)
theory ApiBase
  imports Session
begin

text \<open>
  The HTTP transport of \<^verbatim>\<open>web/lib/api/base.ts\<close>: header construction, ordinary and
  credential requests, and the single-flight refresh of an expired access token.

  A program runs in a \<^verbatim>\<open>world\<close>: the browser session, the module variable
  \<^verbatim>\<open>refreshOperation\<close>, the calls sent so far, and a script of what the environment does at
  each \<^verbatim>\<open>await\<close>. One script entry settles one \<^verbatim>\<open>await\<close>: first other code of the page
  and other tabs change the session and \<^verbatim>\<open>refreshOperation\<close> in any way and may abort the
  caller's signal, then the awaited operation gives its reply. When the script is used up the program is suspended.
\<close>

section \<open>The world of a request\<close>

record response =
  r_status :: int
  r_statusText :: string
  r_type :: string
  r_json :: "json option"
  r_text :: string
  r_body :: bool

text \<open>
  \<^verbatim>\<open>r_json\<close> is \<^const>\<open>None\<close> when \<^verbatim>\<open>json()\<close> rejects. A reply \<^verbatim>\<open>Settled b\<close>
  resumes an await of something that is not a response (a lock, a body, a shared refresh), and
  \<^verbatim>\<open>Chunk\<close> a read of a body stream: decoded text, or \<^const>\<open>None\<close> at its end.
\<close>

datatype reply = Response response | Rejected exn | Settled bool | Chunk "string option"

datatype body = JsonBody json | FormBody nat

record call =
  c_method :: string
  c_base :: string
  c_path :: string
  c_headers :: "string \<Rightarrow> string option"
  c_params :: "(string \<times> string) list"
  c_body :: "body option"
  c_scope :: scope  \<comment> \<open>ghost: the session scope at the moment of sending\<close>

record tick =
  t_env :: "session \<Rightarrow> session"
  t_refresh :: "(scope \<times> nat) option \<Rightarrow> (scope \<times> nat) option"
  t_abort :: bool
  t_reply :: reply

record world =
  w_session :: session
  w_refresh :: "(scope \<times> nat) option"
  w_promises :: nat
  w_aborted :: bool
  w_locks :: bool
  w_api_url :: "string option"
  w_text :: "item \<Rightarrow> string"
  w_script :: "tick list"
  w_trace :: "call list"

type_synonym 'a io = "(world, exn, 'a) act"

abbreviation wscope :: "world \<Rightarrow> scope" where
  "wscope w \<equiv> sessionScope (w_session w)"

definition assert_scope :: "scope \<Rightarrow> unit io" where
  "assert_scope c = (\<lambda>w. (fst (assertSession c (w_session w)), w))"

interpretation transport: scope_guard wscope assert_scope
  by unfold_locales (simp_all add: assert_scope_def session.guard_pass session.guard_stop)

lemmas wp_assert_scope [wp_rules] = transport.wp_guard

definition modify_session :: "(session \<Rightarrow> session) \<Rightarrow> unit io" where
  "modify_session f = modify (\<lambda>w. w\<lparr>w_session := f (w_session w)\<rparr>)"

definition open_lease :: "bool \<Rightarrow> nat io" where
  "open_lease aborted = (\<lambda>w. let (i, s) = sessionRequest aborted (w_session w)
     in (Ret i, w\<lparr>w_session := s\<rparr>))"

definition close_lease :: "nat \<Rightarrow> world \<Rightarrow> world" where
  "close_lease i w = w\<lparr>w_session := dispose i (w_session w)\<rparr>"

text \<open>Settle one await.\<close>

definition await :: "reply io" where
  "await = (\<lambda>w. case w_script w of [] \<Rightarrow> (Waiting, w)
     | t # ts \<Rightarrow>
        (let w' = w\<lparr>w_session := t_env t (w_session w), w_refresh := t_refresh t (w_refresh w),
                    w_aborted := (w_aborted w \<or> t_abort t), w_script := ts\<rparr>
         in case t_reply t of Rejected e \<Rightarrow> (Throw e, w') | r \<Rightarrow> (Ret r, w')))"

definition lease_aborted :: "nat \<Rightarrow> world \<Rightarrow> bool" where
  "lease_aborted i w = l_aborted (s_leases (w_session w) ! i)"

text \<open>
  \<^verbatim>\<open>fetch\<close>: an already aborted signal rejects without sending. A reply of another kind
  cannot settle it, which the model turns into a rejection.
\<close>

definition fetch :: "nat option \<Rightarrow> call \<Rightarrow> response io" where
  "fetch signal c = (\<lambda>w.
     if (case signal of None \<Rightarrow> False | Some i \<Rightarrow> lease_aborted i w)
     then (Throw (DOMException ''AbortError''), w)
     else bnd await (\<lambda>r. case r of Response res \<Rightarrow> ret res | _ \<Rightarrow> throw (Err ''Failed to fetch''))
            (w\<lparr>w_trace := w_trace w @ [c\<lparr>c_scope := wscope w\<rparr>]\<rparr>))"

definition response_ok :: "response \<Rightarrow> bool" where
  "response_ok r = (200 \<le> r_status r \<and> r_status r \<le> 299)"

definition read_json :: "response \<Rightarrow> json io" where
  "read_json r = bnd await (\<lambda>_. case r_json r of Some v \<Rightarrow> ret v | None \<Rightarrow> throw (Err ''SyntaxError''))"

definition api_error :: "string \<Rightarrow> string \<Rightarrow> json" where
  "api_error code message =
     JObj [(''error'', JObj [(''code'', JStr code), (''message'', JStr message)])]"

section \<open>Headers\<close>

type_synonym headers = "string \<Rightarrow> string option"

definition item_text :: "(item \<Rightarrow> string) \<Rightarrow> item \<Rightarrow> string" where
  "item_text tx i = (case i of Raw t \<Rightarrow> t | _ \<Rightarrow> tx i)"

definition getBaseUrl :: "world \<Rightarrow> string" where
  "getBaseUrl w =
     (let configured = (case w_api_url w of None \<Rightarrow> [] | Some u \<Rightarrow> u) in
      if s_window (w_session w) then configured
      else if configured = [] then ''http://localhost:8080'' else configured)"

definition getStoredKey :: "world \<Rightarrow> string \<Rightarrow> string option" where
  "getStoredKey w key =
     (if \<not> s_window (w_session w) then None
      else map_option (item_text (w_text w)) (s_storage (w_session w) key))"

definition nonempty :: "string option \<Rightarrow> bool" where
  "nonempty v = (v \<noteq> None \<and> v \<noteq> Some [])"

definition hasExplicitAuthHeader :: "headers \<Rightarrow> bool" where
  "hasExplicitAuthHeader h = (nonempty (h ''Authorization'') \<or> nonempty (h ''authorization'') \<or>
     nonempty (h ''X-API-Key'') \<or> nonempty (h ''x-api-key''))"

definition requestUsedAccessToken :: "headers \<Rightarrow> world \<Rightarrow> bool" where
  "requestUsedAccessToken h w =
     (case getStoredKey w TOKEN_KEY of
        None \<Rightarrow> False
      | Some t \<Rightarrow> t \<noteq> [] \<and> h ''Authorization'' = Some (''Bearer '' @ t))"

definition public_paths :: "string list" where
  "public_paths = [''/api/v1/auth/login'', ''/api/v1/auth/register'', ''/api/v1/company/activate'']"

definition buildHeaders :: "string \<Rightarrow> headers \<Rightarrow> world \<Rightarrow> headers" where
  "buildHeaders path extra w =
     (if hasExplicitAuthHeader extra then extra
      else if path \<in> set public_paths then extra
      else
        (case getStoredKey w TOKEN_KEY of
           None \<Rightarrow> extra
         | Some t \<Rightarrow>
             if t = [] then extra
             else (let h = extra(''Authorization'' \<mapsto> ''Bearer '' @ t) in
                   case getStoredKey w TENANT_KEY of
                     None \<Rightarrow> h
                   | Some n \<Rightarrow> if n = [] then h else h(''X-Tenant-ID'' \<mapsto> n))))"

definition bearer_of :: "headers \<Rightarrow> string" where
  "bearer_of h = (case h ''Authorization'' of None \<Rightarrow> [] | Some v \<Rightarrow> drop 7 v)"

section \<open>Refresh of the access token\<close>

definition REFRESH :: string where "REFRESH = ''/api/v1/auth/refresh''"

definition no_headers :: headers where "no_headers = (\<lambda>_. None)"

definition refresh_call :: "world \<Rightarrow> call" where
  "refresh_call w = \<lparr>c_method = ''POST'', c_base = getBaseUrl w, c_path = REFRESH,
     c_headers = no_headers(''Content-Type'' \<mapsto> ''application/json''), c_params = [],
     c_body = None, c_scope = wscope w\<rparr>"

definition still_mine :: "scope \<Rightarrow> string \<Rightarrow> world \<Rightarrow> bool" where
  "still_mine scope token w =
     (scope = wscope w \<and> getStoredKey w TOKEN_KEY = Some token)"

text \<open>
  The stored user as \<^verbatim>\<open>currentUser?.id\<close> sees it; \<^const>\<open>None\<close> when
  \<^verbatim>\<open>JSON.parse\<close> throws.
\<close>

fun stored_user_id :: "item option \<Rightarrow> json option option" where
  "stored_user_id None = Some None"
| "stored_user_id (Some (Raw [])) = Some None"
| "stored_user_id (Some (Json v)) = Some (get_prop v ''id'')"
| "stored_user_id _ = None"

definition store_renewed :: "string \<Rightarrow> json option \<Rightarrow> session \<Rightarrow> session" where
  "store_renewed token user s =
     (let s1 = set_item TOKEN_KEY (Raw token) s;
          s2 = (if truthy user then set_item USER_KEY (Json (the user)) s1 else s1)
      in dispatch_auth s2)"

definition accept_renewed :: "json \<Rightarrow> bool io" where
  "accept_renewed data =
     (let inner = get_prop data ''data'';
          user = opt_prop inner ''user'' in
      case opt_prop inner ''access_token'' of
        Some (JStr token) \<Rightarrow>
          if token = [] then ret False
          else bnd (gets (\<lambda>w. stored_user_id (s_storage (w_session w) USER_KEY))) (\<lambda>current.
            case current of
              None \<Rightarrow> ret False
            | Some ident \<Rightarrow>
                if truthy user \<and> \<not> strict_eq (opt_prop user ''id'') ident then ret False
                else bnd (modify_session (store_renewed token user)) (\<lambda>_. ret True))
      | _ \<Rightarrow> ret False)"

definition refresh_outcome :: "scope \<Rightarrow> string \<Rightarrow> response \<Rightarrow> bool io" where
  "refresh_outcome scope token res =
     bnd (gets (still_mine scope token)) (\<lambda>mine.
     if \<not> mine then ret False
     else if \<not> response_ok res then
       bnd (when_do (r_status res = 401 \<or> r_status res = 403)
              (modify_session clearSessionCredentials)) (\<lambda>_. ret False)
     else
       bnd (read_json res) (\<lambda>data.
       bnd (gets (still_mine scope token)) (\<lambda>mine.
       if \<not> mine then ret False else accept_renewed data)))"

definition doRefreshToken :: "scope \<Rightarrow> string \<Rightarrow> bool io" where
  "doRefreshToken scope token =
     bnd (open_lease False) (\<lambda>lease.
       try_finally
         (try_catch
           (bnd (gets refresh_call) (\<lambda>c.
            bnd (fetch (Some lease) c) (refresh_outcome scope token)))
           (\<lambda>_. ret False))
         (close_lease lease))"

definition release_refresh :: "nat \<Rightarrow> world \<Rightarrow> world" where
  "release_refresh p w =
     (case w_refresh w of
        Some (_, q) \<Rightarrow> if q = p then w\<lparr>w_refresh := None\<rparr> else w
      | None \<Rightarrow> w)"

text \<open>The callback that runs once the shared lock is held.\<close>

definition refresh_locked :: "scope \<Rightarrow> string \<Rightarrow> bool io" where
  "refresh_locked scope failedToken =
     bnd (gets (\<lambda>w. (wscope w, getStoredKey w TOKEN_KEY))) (\<lambda>(now, current).
       if scope \<noteq> now then ret False
       else if \<not> nonempty current then ret False
       else if current \<noteq> Some failedToken then ret True
       else doRefreshToken scope failedToken)"

definition start_refresh :: "scope \<Rightarrow> unit io" where
  "start_refresh scope =
     modify (\<lambda>w. w\<lparr>w_refresh := Some (scope, w_promises w), w_promises := Suc (w_promises w)\<rparr>)"

fun shared_result :: "reply \<Rightarrow> bool io" where
  "shared_result (Settled b) = ret b"
| "shared_result _ = throw (Err ''refresh failed'')"

definition tryRefreshToken :: "string \<Rightarrow> scope \<Rightarrow> bool io" where
  "tryRefreshToken failedToken scope =
     bnd (gets (\<lambda>w. (wscope w, w_refresh w, w_locks w, w_promises w))) (\<lambda>(now, running, locks, p).
       if scope \<noteq> now then ret False
       else if (case running of Some (s, _) \<Rightarrow> s = scope | None \<Rightarrow> False)
       then bnd await shared_result
       else if \<not> locks then ret False
       else
         bnd (start_refresh scope) (\<lambda>_.
           try_finally (bnd await (\<lambda>_. refresh_locked scope failedToken)) (release_refresh p)))"

section \<open>Ordinary requests\<close>

datatype kind = JsonKind | BlobKind | TextKind

datatype payload = PJson json | PBlob string | PText string

record options =
  o_kind :: kind
  o_method :: "string option"
  o_body :: "body option"
  o_headers :: headers
  o_params :: "(string \<times> string option) list"

definition nonempty_or :: "string option \<Rightarrow> string \<Rightarrow> string" where
  "nonempty_or v d = (case v of Some t \<Rightarrow> if t = [] then d else t | None \<Rightarrow> d)"

fun defined_params :: "(string \<times> string option) list \<Rightarrow> (string \<times> string) list" where
  "defined_params [] = []"
| "defined_params ((k, Some v) # ps) = (k, v) # defined_params ps"
| "defined_params ((k, None) # ps) = defined_params ps"

definition typed_headers :: "body option \<Rightarrow> headers \<Rightarrow> headers" where
  "typed_headers b h =
     (case b of Some (JsonBody _) \<Rightarrow> h(''Content-Type'' \<mapsto> ''application/json'') | _ \<Rightarrow> h)"

definition request_call :: "string \<Rightarrow> string \<Rightarrow> options \<Rightarrow> headers \<Rightarrow> call" where
  "request_call base path opts h =
     \<lparr>c_method = nonempty_or (o_method opts) ''GET'', c_base = base, c_path = path,
      c_headers = h, c_params = defined_params (o_params opts), c_body = o_body opts,
      c_scope = ServerScope\<rparr>"

definition safe_read :: "options \<Rightarrow> bool" where
  "safe_read opts = (map to_upper_char (nonempty_or (o_method opts) ''GET'')
                       \<in> set [''GET'', ''HEAD'', ''OPTIONS''])"

definition idempotent :: "string \<Rightarrow> options \<Rightarrow> bool" where
  "idempotent path opts =
     (nonempty (o_headers opts ''Idempotency-Key'') \<or> path = ''/api/v1/auth/logout'')"

definition execute :: "nat \<Rightarrow> scope \<Rightarrow> call \<Rightarrow> response io" where
  "execute lease scope c = bnd (assert_scope scope) (\<lambda>_. fetch (Some lease) c)"

definition api_failure :: "string \<Rightarrow> response \<Rightarrow> json io" where
  "api_failure code res =
     try_catch (read_json res) (\<lambda>_. ret (api_error code (r_statusText res)))"

definition read_payload :: "kind \<Rightarrow> response \<Rightarrow> payload io" where
  "read_payload k res =
     (if k = BlobKind then bnd await (\<lambda>_. ret (PBlob (r_text res)))
      else if k = TextKind \<or> js_includes ''message/rfc822'' (r_type res)
              \<or> js_includes ''text/plain'' (r_type res)
      then bnd await (\<lambda>_. ret (PText (r_text res)))
      else bnd (read_json res) (\<lambda>v. ret (PJson v)))"

definition retry_required :: json where
  "retry_required = api_error ''RETRY_REQUIRED'' ''Session renewed. Review and submit again.''"

text \<open>What follows a 401 to a request that carried the stored token.\<close>

definition renew_and_replay ::
  "nat \<Rightarrow> scope \<Rightarrow> string \<Rightarrow> string \<Rightarrow> options \<Rightarrow> headers \<Rightarrow> response \<Rightarrow> response io" where
  "renew_and_replay lease scope base path opts headers res =
     bnd (tryRefreshToken (bearer_of headers) scope) (\<lambda>renewed.
     bnd (assert_scope scope) (\<lambda>_.
     if \<not> renewed then ret res
     else if \<not> safe_read opts \<and> \<not> idempotent path opts then throw (Api retry_required)
     else
       bnd (gets (buildHeaders path (o_headers opts))) (\<lambda>fresh.
       bnd (execute lease scope (request_call base path opts (typed_headers (o_body opts) fresh)))
         (\<lambda>res2.
       bnd (assert_scope scope) (\<lambda>_. ret res2)))))"

definition finish_request :: "scope \<Rightarrow> options \<Rightarrow> response \<Rightarrow> payload io" where
  "finish_request scope opts res =
     (if \<not> response_ok res then
        bnd (api_failure ''UNKNOWN'' res) (\<lambda>err.
        bnd (assert_scope scope) (\<lambda>_. throw (Api err)))
      else if r_status res = 204 then ret (PJson (JObj []))
      else
        bnd (read_payload (o_kind opts) res) (\<lambda>result.
        bnd (assert_scope scope) (\<lambda>_. ret result)))"

definition plain_request :: "string \<Rightarrow> options \<Rightarrow> payload io" where
  "plain_request path opts =
     bnd (gets wscope) (\<lambda>scope.
     bnd (gets w_aborted) (\<lambda>aborted.
     bnd (open_lease aborted) (\<lambda>lease.
       try_finally
         (bnd (gets getBaseUrl) (\<lambda>base.
          bnd (gets (buildHeaders path (o_headers opts))) (\<lambda>built.
          let headers = typed_headers (o_body opts) built in
          bnd (gets (requestUsedAccessToken headers)) (\<lambda>used.
          bnd (execute lease scope (request_call base path opts headers)) (\<lambda>res.
          bnd (assert_scope scope) (\<lambda>_.
          bnd (if r_status res = 401 \<and> used
               then renew_and_replay lease scope base path opts headers res
               else ret res) (\<lambda>res.
          finish_request scope opts res)))))))
         (close_lease lease))))"

section \<open>Requests that change the cookie\<close>

definition cookiePaths :: "string list" where
  "cookiePaths = [''/api/v1/auth/login'', ''/api/v1/auth/register'', ''/api/v1/auth/logout'',
     ''/api/v1/auth/change-password'']"

text \<open>\<^verbatim>\<open>JSON.stringify(opts.body ?? {})\<close>: null becomes an empty object, and a form prints as one.\<close>

definition credential_body :: "body option \<Rightarrow> json" where
  "credential_body b =
     (case b of Some (JsonBody v) \<Rightarrow> if v = JNull then JObj [] else v | _ \<Rightarrow> JObj [])"

definition credential_call :: "string \<Rightarrow> string \<Rightarrow> options \<Rightarrow> headers \<Rightarrow> string \<Rightarrow> call" where
  "credential_call base path opts h meth =
     \<lparr>c_method = meth, c_base = base, c_path = path,
      c_headers = h(''Content-Type'' \<mapsto> ''application/json''), c_params = [],
      c_body = Some (JsonBody (credential_body (o_body opts))),
      c_scope = ServerScope\<rparr>"

text \<open>The retry of a logout; \<^const>\<open>None\<close> is the early return of an empty object.\<close>

definition renew_credential ::
  "scope \<Rightarrow> string \<Rightarrow> options \<Rightarrow> headers \<Rightarrow> bool \<Rightarrow> response \<Rightarrow> response option io" where
  "renew_credential scope path opts headers isLogout res =
     bnd (doRefreshToken scope (bearer_of headers)) (\<lambda>renewed.
     bnd (gets (\<lambda>w. (wscope w, getStoredKey w TOKEN_KEY))) (\<lambda>(now, token).
     if scope \<noteq> now \<and> isLogout \<and> \<not> nonempty token then ret None
     else bnd (when_do (scope \<noteq> now) (assert_scope scope)) (\<lambda>_.
       if \<not> renewed then ret (Some res)
       else if \<not> isLogout then throw (Api retry_required)
       else
         bnd (gets getBaseUrl) (\<lambda>base.
         bnd (gets (buildHeaders path no_headers)) (\<lambda>fresh.
         bnd (fetch None (credential_call base path opts fresh ''POST'')) (\<lambda>res2.
         ret (Some res2)))))))"

definition incomplete_login :: json where
  "incomplete_login = api_error ''INVALID_RESPONSE'' ''Incomplete login response''"

definition finish_login :: "json \<Rightarrow> unit io" where
  "finish_login data =
     (let inner = get_prop data ''data'';
          token = opt_prop inner ''access_token'';
          user = opt_prop inner ''user'' in
      if \<not> truthy token \<or> \<not> truthy (opt_prop user ''id'') then throw (Api incomplete_login)
      else modify_session (installSession (the token) (the user)))"

definition finish_credential :: "scope \<Rightarrow> string \<Rightarrow> bool \<Rightarrow> response \<Rightarrow> payload io" where
  "finish_credential scope path isLogout res =
     bnd (if r_status res = 204 then ret (JObj [])
          else api_failure ''INVALID_RESPONSE'' res) (\<lambda>data.
     bnd (assert_scope scope) (\<lambda>_.
     if \<not> response_ok res then throw (Api data)
     else
       bnd (if isLogout \<or> ends_with ''/change-password'' path
            then modify_session clearSessionCredentials
            else finish_login data) (\<lambda>_. ret (PJson data))))"

definition credential_run :: "scope \<Rightarrow> string \<Rightarrow> options \<Rightarrow> payload io" where
  "credential_run scope path opts =
     bnd (assert_scope scope) (\<lambda>_.
     bnd (gets w_aborted) (\<lambda>aborted.
     if aborted then throw (DOMException ''AbortError'')
     else
       bnd (gets (\<lambda>w. (getBaseUrl w, buildHeaders path (o_headers opts) w))) (\<lambda>(base, built).
       let isLogout = ends_with ''/logout'' path;
           c = credential_call base path opts built (nonempty_or (o_method opts) ''POST'') in
       bnd (fetch None c) (\<lambda>res.
       bnd (assert_scope scope) (\<lambda>_.
       bnd (gets (requestUsedAccessToken (c_headers c))) (\<lambda>used.
       bnd (if r_status res = 401 \<and> used
            then renew_credential scope path opts (c_headers c) isLogout res
            else ret (Some res)) (\<lambda>final.
       case final of
         None \<Rightarrow> ret (PJson (JObj []))
       | Some res \<Rightarrow> finish_credential scope path isLogout res)))))))"

definition secure_context_required :: json where
  "secure_context_required =
     api_error ''SECURE_CONTEXT_REQUIRED'' ''Use HTTPS and a browser supporting Web Locks.''"

definition credentialRequest :: "string \<Rightarrow> options \<Rightarrow> payload io" where
  "credentialRequest path opts =
     bnd (gets wscope) (\<lambda>scope.
     bnd (gets w_locks) (\<lambda>locks.
     if \<not> locks then throw (Api secure_context_required)
     else bnd await (\<lambda>_. credential_run scope path opts)))"

definition request :: "string \<Rightarrow> options \<Rightarrow> payload io" where
  "request path opts =
     (if path \<in> set cookiePaths then credentialRequest path opts else plain_request path opts)"

section \<open>What each piece sends\<close>

lemma wp_await:
  "wp await Q R W w =
     (case w_script w of [] \<Rightarrow> W w
      | t # ts \<Rightarrow>
         (let w' = w\<lparr>w_session := t_env t (w_session w), w_refresh := t_refresh t (w_refresh w),
                     w_aborted := (w_aborted w \<or> t_abort t), w_script := ts\<rparr>
          in case t_reply t of Rejected e \<Rightarrow> R e w' | r \<Rightarrow> Q r w'))"
  by (simp add: wp_def await_def Let_def split: list.splits reply.splits)

lemma wp_open_lease [wp_rules]:
  "wp (open_lease a) Q R W w =
     Q (length (s_leases (w_session w))) (w\<lparr>w_session := snd (sessionRequest a (w_session w))\<rparr>)"
  by (simp add: wp_def open_lease_def sessionRequest_def)

lemma wp_modify_session [wp_rules]:
  "wp (modify_session f) Q R W w = Q () (w\<lparr>w_session := f (w_session w)\<rparr>)"
  by (simp add: modify_session_def wp_modify)

text \<open>\<^verbatim>\<open>silent\<close>: sends nothing, whatever the environment does at its awaits.\<close>

definition silent :: "'a io \<Rightarrow> bool" where
  "silent m \<longleftrightarrow> (\<forall>w. w_trace (snd (m w)) = w_trace w)"

named_theorems silent_rules \<open>programs that send nothing\<close>

lemma silentD: "silent m \<Longrightarrow> m w = (r, t) \<Longrightarrow> w_trace t = w_trace w"
  unfolding silent_def by (metis snd_conv)

lemma silent_basic [silent_rules]:
  "silent (ret x)" "silent (throw e)" "silent (gets f)" "silent (modify_session g)"
  "silent (open_lease a)" "silent (assert_scope c)" "silent await" "silent (start_refresh c)"
  by (simp_all add: silent_def run_defs start_refresh_def modify_session_def open_lease_def sessionRequest_def
      assert_scope_def await_def Let_def split: list.splits reply.splits)

lemma silent_bnd [silent_rules]: "silent m \<Longrightarrow> (\<And>x. silent (f x)) \<Longrightarrow> silent (bnd m f)"
  by (auto simp: silent_def bnd_def split: prod.split res.split) (metis snd_conv)+

lemma silent_try_catch [silent_rules]:
  "silent m \<Longrightarrow> (\<And>e. silent (h e)) \<Longrightarrow> silent (try_catch m h)"
  by (auto simp: silent_def try_catch_def split: prod.split res.split) (metis snd_conv)+

lemma silent_when [silent_rules]: "(b \<Longrightarrow> silent m) \<Longrightarrow> silent (when_do b m)"
  by (simp add: when_do_def silent_basic)

lemma silent_if [silent_rules]: "(b \<Longrightarrow> silent m) \<Longrightarrow> (\<not> b \<Longrightarrow> silent n) \<Longrightarrow> silent (if b then m else n)"
  by simp

lemma silent_shared [silent_rules]: "silent (shared_result r)"
  by (cases r) (simp_all add: silent_rules)

lemma silent_pieces [silent_rules]:
  "silent (read_json r)" "silent (api_failure c r)" "silent (read_payload k r)"
  "silent (accept_renewed d)" "silent (finish_request s q r)" "silent (finish_login d)"
  "silent (finish_credential s p b r)" "silent (refresh_outcome s tok r)"
proof -
  show json: "silent (read_json r)" for r
    unfolding read_json_def by (auto intro!: silent_rules split: option.split)
  show fail: "silent (api_failure c r)" for c r
    unfolding api_failure_def by (intro silent_rules json)
  show pay: "silent (read_payload k r)" for k r
    unfolding read_payload_def by (intro silent_rules json)
  show accept: "silent (accept_renewed d)" for d
    unfolding accept_renewed_def Let_def
    by (auto intro!: silent_rules split: option.split json.split)
  show "silent (finish_request s q r)"
    unfolding finish_request_def by (intro silent_rules pay fail)
  show login: "silent (finish_login d)" for d
    unfolding finish_login_def Let_def by (intro silent_rules)
  show "silent (finish_credential s p b r)"
    unfolding finish_credential_def by (intro silent_rules fail login)
  show "silent (refresh_outcome s tok r)"
    unfolding refresh_outcome_def by (intro silent_rules json accept)
qed

lemma close_lease_simps [simp]:
  "w_trace (close_lease i w) = w_trace w" "wscope (close_lease i w) = wscope w"
  "w_script (close_lease i w) = w_script w"
  by (simp_all add: close_lease_def dispose_def sessionScope_def)

lemma request_scope [simp]:
  "sessionScope (snd (sessionRequest a s)) = sessionScope s"
  "s_storage (snd (sessionRequest a s)) = s_storage s"
  "s_window (snd (sessionRequest a s)) = s_window s"
  by (simp_all add: sessionRequest_def sessionScope_def)

lemma release_refresh_simps [simp]:
  "w_trace (release_refresh p w) = w_trace w" "w_session (release_refresh p w) = w_session w"
  by (simp_all add: release_refresh_def split: option.splits prod.splits)

text \<open>\<^verbatim>\<open>traced m T w\<close>: the trace after running \<^verbatim>\<open>m\<close> satisfies \<^verbatim>\<open>T\<close>.\<close>

definition traced :: "'a io \<Rightarrow> (call list \<Rightarrow> bool) \<Rightarrow> world \<Rightarrow> bool" where
  "traced m T w = T (w_trace (snd (m w)))"

named_theorems traced_rules \<open>what programs send\<close>

lemma traced_silent: "silent m \<Longrightarrow> T (w_trace w) \<Longrightarrow> traced m T w"
  by (simp add: traced_def silent_def)

lemma traced_last:
  "traced m T w \<Longrightarrow> (\<And>x. silent (f x)) \<Longrightarrow> traced (bnd m f) T w"
  by (auto simp: traced_def silent_def bnd_def split: prod.splits res.splits)

lemma traced_first:
  "silent m \<Longrightarrow> T (w_trace w) \<Longrightarrow> (\<And>x t. w_trace t = w_trace w \<Longrightarrow> traced (f x) T t) \<Longrightarrow>
    traced (bnd m f) T w"
  by (auto simp: traced_def bnd_def silent_def split: prod.splits res.splits) (metis snd_conv)+

lemma traced_then:
  "traced m (\<lambda>l. S l \<and> T l) w \<Longrightarrow> (\<And>x t. S (w_trace t) \<Longrightarrow> T (w_trace t) \<Longrightarrow> traced (f x) T t) \<Longrightarrow>
    traced (bnd m f) T w"
  by (auto simp: traced_def bnd_def split: prod.splits res.splits)

lemma traced_gets: "traced (f (g w)) T w \<Longrightarrow> traced (bnd (gets g) f) T w"
  by (simp add: traced_def bnd_def gets_def)

lemma traced_assert:
  "T (w_trace w) \<Longrightarrow> (wscope w = c \<Longrightarrow> traced (f ()) T w) \<Longrightarrow> traced (bnd (assert_scope c) f) T w"
  by (cases "wscope w = c") (simp_all add: traced_def bnd_def transport.guard_pass transport.guard_stop)

lemma traced_if:
  "(b \<Longrightarrow> traced m T w) \<Longrightarrow> (\<not> b \<Longrightarrow> traced n T w) \<Longrightarrow> traced (if b then m else n) T w"
  by simp

lemma traced_open:
  "traced (f (length (s_leases (w_session w)))) T
     (w\<lparr>w_session := snd (sessionRequest a (w_session w))\<rparr>) \<Longrightarrow> traced (bnd (open_lease a) f) T w"
  by (simp add: traced_def bnd_def open_lease_def sessionRequest_def Let_def)

lemma traced_finally:
  "(\<And>t. w_trace (g t) = w_trace t) \<Longrightarrow> traced m T w \<Longrightarrow> traced (try_finally m g) T w"
  by (auto simp: traced_def try_finally_def split: prod.splits res.splits)

lemma traced_catch:
  "traced m T w \<Longrightarrow> (\<And>e. silent (h e)) \<Longrightarrow> traced (try_catch m h) T w"
  by (auto simp: traced_def silent_def try_catch_def split: prod.splits res.splits)

lemma traced_mono: "traced m S w \<Longrightarrow> (\<And>l. S l \<Longrightarrow> T l) \<Longrightarrow> traced m T w"
  by (simp add: traced_def)

lemma traced_fetch:
  "T (w_trace w) \<Longrightarrow> T (w_trace w @ [c\<lparr>c_scope := wscope w\<rparr>]) \<Longrightarrow> traced (fetch sig c) T w"
  by (auto simp: traced_def fetch_def bnd_def await_def ret_def throw_def Let_def
      split: list.splits reply.splits option.splits)

text \<open>
  The calls sent beyond \<^verbatim>\<open>pre\<close>: at most \<^verbatim>\<open>n\<close> of them, at most \<^verbatim>\<open>d\<close> of those not to
  the refresh endpoint, all of them sent while \<^verbatim>\<open>scope\<close> was the session's scope.
\<close>

definition sent_within :: "scope \<Rightarrow> call list \<Rightarrow> nat \<Rightarrow> nat \<Rightarrow> call list \<Rightarrow> bool" where
  "sent_within scope pre d n l \<longleftrightarrow>
     (\<exists>cs. l = pre @ cs \<and> length (filter (\<lambda>c. c_path c \<noteq> REFRESH) cs) \<le> d \<and> length cs \<le> n \<and>
           list_all (\<lambda>c. c_scope c = scope) cs)"

lemma sent_within_refl [simp]: "sent_within scope l d n l"
  by (auto simp: sent_within_def)

lemma sent_within_mono:
  assumes "sent_within scope pre d n l" "d \<le> d'" "n \<le> n'"
  shows "sent_within scope pre d' n' l"
proof -
  from assms(1) obtain cs where "l = pre @ cs" "length (filter (\<lambda>c. c_path c \<noteq> REFRESH) cs) \<le> d"
    "length cs \<le> n" "list_all (\<lambda>c. c_scope c = scope) cs"
    by (auto simp: sent_within_def)
  with assms(2,3) show ?thesis
    unfolding sent_within_def by (intro exI [of _ cs]) simp
qed

lemma sent_within_call:
  "sent_within scope pre d n l \<Longrightarrow> c_scope c = scope \<Longrightarrow> sent_within scope pre (Suc d) (Suc n) (l @ [c])"
  by (force simp: sent_within_def)

lemma sent_within_refresh:
  "sent_within scope pre d n l \<Longrightarrow> c_scope c = scope \<Longrightarrow> c_path c = REFRESH \<Longrightarrow>
    sent_within scope pre d (Suc n) (l @ [c])"
  by (force simp: sent_within_def)

lemma traced_call:
  assumes "sent_within scope pre d n (w_trace w)" "wscope w = scope"
  shows "traced (fetch sig c) (sent_within scope pre (Suc d) (Suc n)) w"
  using assms by (intro traced_fetch sent_within_call) (auto elim: sent_within_mono)

lemma traced_refresh_call:
  assumes "sent_within scope pre d n (w_trace w)" "wscope w = scope" "c_path c = REFRESH"
  shows "traced (fetch sig c) (sent_within scope pre d (Suc n)) w"
  using assms by (intro traced_fetch sent_within_refresh) (auto elim: sent_within_mono)

lemma traced_doRefreshToken:
  assumes "sent_within scope pre d n (w_trace w)" "wscope w = scope"
  shows "traced (doRefreshToken scope token) (sent_within scope pre d (Suc n)) w"
  unfolding doRefreshToken_def
  by (intro traced_open traced_finally traced_catch traced_gets traced_last [OF traced_refresh_call])
    (simp_all add: assms refresh_call_def silent_rules)

lemma traced_refresh_locked:
  assumes "sent_within scope pre d n (w_trace w)"
  shows "traced (refresh_locked scope token) (sent_within scope pre d (Suc n)) w"
proof -
  have "sent_within scope pre d (Suc n) (w_trace w)"
    using assms by (rule sent_within_mono) simp_all
  with assms show ?thesis
    unfolding refresh_locked_def
    by (intro traced_gets) (auto intro!: traced_silent silent_rules traced_doRefreshToken)
qed

lemma traced_tryRefreshToken:
  assumes "sent_within scope pre d n (w_trace w)"
  shows "traced (tryRefreshToken token scope) (sent_within scope pre d (Suc n)) w"
proof -
  have here: "sent_within scope pre d (Suc n) (w_trace w)"
    using assms by (rule sent_within_mono) simp_all
  have queue: "traced (bnd (start_refresh scope) (\<lambda>_.
      try_finally (bnd await (\<lambda>_. refresh_locked scope token)) (release_refresh p)))
      (sent_within scope pre d (Suc n)) w" for p
    using assms here
    by (intro traced_first traced_finally silent_rules) (auto intro!: traced_refresh_locked)
  show ?thesis
    unfolding tryRefreshToken_def
    by (intro traced_gets, simp only: prod.case, intro traced_if)
      (rule queue | intro traced_silent silent_rules here)+
qed

lemma traced_execute:
  assumes "sent_within scope pre d n (w_trace w)"
  shows "traced (execute lease scope c) (sent_within scope pre (Suc d) (Suc n)) w"
  unfolding execute_def using assms
  by (intro traced_assert traced_call) (auto elim: sent_within_mono)

definition replays :: "string \<Rightarrow> options \<Rightarrow> bool" where
  "replays path opts = (safe_read opts \<or> idempotent path opts)"

definition quota :: "string \<Rightarrow> options \<Rightarrow> nat" where
  "quota path opts = (if replays path opts then 2 else 1)"

lemma quota_mono:
  "sent_within scope pre 1 1 l \<Longrightarrow> sent_within scope pre (quota path opts) 3 l"
  "sent_within scope pre 1 2 l \<Longrightarrow> sent_within scope pre (quota path opts) 3 l"
  "replays path opts \<Longrightarrow> sent_within scope pre 2 3 l \<Longrightarrow> sent_within scope pre (quota path opts) 3 l"
  unfolding quota_def by (auto elim: sent_within_mono)

lemma sent_succ:
  "sent_within scope pre (Suc 0) (Suc 0) l = sent_within scope pre 1 1 l"
  "sent_within scope pre 1 (Suc 1) l = sent_within scope pre 1 2 l"
  "sent_within scope pre (Suc 1) (Suc 2) l = sent_within scope pre 2 3 l"
  by (simp_all add: numeral_2_eq_2 numeral_3_eq_3)

lemma traced_renew_and_replay:
  assumes "sent_within scope pre 1 1 (w_trace w)"
  shows "traced (renew_and_replay lease scope base path opts h res)
    (sent_within scope pre (quota path opts) 3) w"
    (is "traced _ ?bound w")
proof -
  have first: "traced (tryRefreshToken tok scope) (\<lambda>l. sent_within scope pre 1 2 l \<and> ?bound l) w" for tok
    using traced_tryRefreshToken [OF assms]
    by (rule traced_mono) (simp only: sent_succ quota_mono simp_thms)
  have again: "traced (execute lease scope c) ?bound t"
    if "sent_within scope pre 1 2 (w_trace t)" "replays path opts" for t c
    using traced_execute [OF that(1)] by (rule traced_mono) (simp only: sent_succ quota_mono that(2))
  have replay: "traced (bnd (gets (buildHeaders path (o_headers opts))) (\<lambda>fresh.
       bnd (execute lease scope (request_call base path opts (typed_headers (o_body opts) fresh)))
         (\<lambda>res2. bnd (assert_scope scope) (\<lambda>_. ret res2)))) ?bound t"
    if "sent_within scope pre 1 2 (w_trace t)" "\<not> (\<not> safe_read opts \<and> \<not> idempotent path opts)" for t
    using that by (intro traced_gets traced_last silent_rules again) (auto simp: replays_def)
  show ?thesis
    unfolding renew_and_replay_def
    by (rule traced_then [OF first], intro traced_assert traced_if)
      (assumption | rule replay | intro traced_silent silent_rules)+
qed

lemma traced_plain_request:
  "traced (plain_request path opts)
     (sent_within (wscope w) (w_trace w) (quota path opts) 3) w"
proof -
  let ?pre = "w_trace w" and ?scope = "wscope w"
  let ?S = "sent_within ?scope ?pre (quota path opts) 3"
  have send: "traced (execute lease ?scope c) (\<lambda>l. sent_within ?scope ?pre 1 1 l \<and> ?S l) t"
    if "w_trace t = ?pre" for lease c t
    by (rule traced_mono [OF traced_execute [where d = 0 and n = 0 and pre = ?pre]])
      (simp only: that sent_within_refl, simp only: sent_succ quota_mono simp_thms)
  have rest: "traced (bnd (if r_status res = 401 \<and> used
        then renew_and_replay lease ?scope base path opts h res else ret res)
        (finish_request ?scope opts)) ?S t"
    if "sent_within ?scope ?pre 1 1 (w_trace t)" for res used lease base h t
    by (intro traced_last silent_rules traced_if traced_renew_and_replay [OF that]
        traced_silent quota_mono(1) [OF that])
  have body: "traced (bnd (execute lease ?scope c) (\<lambda>res. bnd (assert_scope ?scope) (\<lambda>_.
       bnd (if r_status res = 401 \<and> used
            then renew_and_replay lease ?scope base path opts h res else ret res)
         (finish_request ?scope opts)))) ?S t"
    if "w_trace t = ?pre" for lease c used base h t
    by (rule traced_then [OF send [OF that]], intro traced_assert) (assumption | rule rest)+
  show ?thesis
    unfolding plain_request_def Let_def
    by (intro traced_gets traced_open traced_finally body) simp_all
qed

lemma traced_renew_credential:
  assumes "sent_within scope pre 1 1 (w_trace w)" "wscope w = scope"
    and "isLogout \<Longrightarrow> replays path opts"
  shows "traced (renew_credential scope path opts h isLogout res)
    (sent_within scope pre (quota path opts) 3) w" (is "traced _ ?bound w")
proof -
  have first: "traced (doRefreshToken scope tok) (\<lambda>l. sent_within scope pre 1 2 l \<and> ?bound l) w" for tok
    using traced_doRefreshToken [OF assms(1,2)]
    by (rule traced_mono) (simp only: sent_succ quota_mono simp_thms)
  have again: "traced (bnd (fetch None c) (\<lambda>r. ret (Some r))) ?bound t"
    if "sent_within scope pre 1 2 (w_trace t)" "wscope t = scope" "\<not> \<not> isLogout" for t c
    using that(3) assms(3)
    by (intro traced_last silent_rules traced_mono [OF traced_call [OF that(1,2)]])
      (simp only: sent_succ quota_mono simp_thms)
  have guarded: "traced (bnd (when_do (scope \<noteq> wscope t) (assert_scope scope)) (\<lambda>_. m)) ?bound t"
    if "wscope t = scope \<Longrightarrow> traced m ?bound t" "?bound (w_trace t)" for m :: "'z io" and t
    using that
    by (cases "wscope t = scope")
      (simp_all add: when_do_def traced_def bnd_def ret_def transport.guard_stop)
  show ?thesis
    unfolding renew_credential_def
    by (rule traced_then [OF first], intro traced_gets, simp only: prod.case,
        intro traced_if guarded traced_gets)
      (assumption | rule again | intro traced_silent silent_rules)+
qed

lemma traced_credential_run:
  assumes "w_trace w = pre" "ends_with ''/logout'' path \<Longrightarrow> replays path opts"
  shows "traced (credential_run scope path opts) (sent_within scope pre (quota path opts) 3) w"
    (is "traced _ ?S w")
proof -
  have here: "?S (w_trace w)" using assms(1) by simp
  have send: "traced (fetch None c) (\<lambda>l. sent_within scope pre 1 1 l \<and> ?S l) w" if "wscope w = scope" for c
    by (rule traced_mono [OF traced_call [where d = 0 and n = 0 and pre = pre and scope = scope]])
      (simp only: that assms(1) sent_within_refl, rule that, simp only: sent_succ quota_mono simp_thms)
  have finish: "silent (case x of None \<Rightarrow> ret y | Some r \<Rightarrow> finish_credential scope path b r)" for x y b
    by (cases x) (simp_all add: silent_rules)
  have rest: "traced (bnd (assert_scope scope) (\<lambda>_. bnd (gets g) (\<lambda>used.
      bnd (if r_status res = 401 \<and> used then renew_credential scope path opts h
             (ends_with ''/logout'' path) res else ret (Some res)) (\<lambda>final.
       case final of None \<Rightarrow> ret (PJson (JObj []))
       | Some r \<Rightarrow> finish_credential scope path (ends_with ''/logout'' path) r)))) ?S t"
    if "sent_within scope pre 1 1 (w_trace t)" for res g h t
    using that assms(2)
    by (intro traced_assert traced_gets traced_last finish traced_if traced_renew_credential
        traced_silent silent_rules quota_mono(1))
  show ?thesis
    unfolding credential_run_def Let_def
    by (intro traced_assert traced_gets traced_if here traced_silent [OF silent_basic(2)],
        simp only: prod.case, intro traced_then [OF send] traced_gets)
      (assumption | rule rest | simp)+
qed

lemma traced_request:
  "traced (request path opts) (sent_within (wscope w) (w_trace w) (quota path opts) 3) w"
proof (cases "path \<in> set cookiePaths")
  case True
  then have logout: "replays path opts" if "ends_with ''/logout'' path"
    using that by (auto simp: cookiePaths_def replays_def idempotent_def ends_with_def starts_with_def)
  have "traced (credentialRequest path opts)
      (sent_within (wscope w) (w_trace w) (quota path opts) 3) w"
    unfolding credentialRequest_def
    by (intro traced_gets traced_if traced_first silent_rules traced_silent [OF silent_basic(2)]
        sent_within_refl traced_credential_run logout)
  with True show ?thesis by (simp add: request_def)
qed (simp add: request_def traced_plain_request)

section \<open>Results stay in their session\<close>

lemma wp_Ret: "m w = (Ret x, t) \<Longrightarrow> wp m Q R W w \<Longrightarrow> Q x t"
  by (simp add: wp_def)

lemma wp_true: "wp m (\<lambda>_ _. True) (\<lambda>_ _. True) (\<lambda>_. True) w"
  by (simp add: wp_def split: prod.split res.split)

lemma wp_after:
  "(\<And>x t. wp (f x) Q (\<lambda>_ _. True) (\<lambda>_. True) t) \<Longrightarrow> wp (bnd m f) Q (\<lambda>_ _. True) (\<lambda>_. True) w"
  by (auto simp: wp_bnd intro: wp_mono [OF wp_true])

lemma wp_if: "(b \<Longrightarrow> wp m Q R W w) \<Longrightarrow> (\<not> b \<Longrightarrow> wp n Q R W w) \<Longrightarrow> wp (if b then m else n) Q R W w"
  by simp

lemma wp_after_assert:
  "(\<And>t. wscope t = c \<Longrightarrow> wp (f ()) Q (\<lambda>_ _. True) (\<lambda>_. True) t) \<Longrightarrow>
    wp (bnd (assert_scope c) f) Q (\<lambda>_ _. True) (\<lambda>_. True) w"
  by (simp add: wp_rules)

lemma renew_and_replay_scope:
  "wp (renew_and_replay lease scope base path opts h res) (\<lambda>_ t. wscope t = scope)
     (\<lambda>_ _. True) (\<lambda>_. True) w"
  unfolding renew_and_replay_def
  by (rule wp_after, rule wp_after_assert) (auto simp: wp_ret wp_throw intro!: wp_after wp_after_assert)

lemma finish_request_scope:
  "wscope w = scope \<Longrightarrow>
    wp (finish_request scope opts res) (\<lambda>_ t. wscope t = scope) (\<lambda>_ _. True) (\<lambda>_. True) w"
  unfolding finish_request_def
  by (auto simp: wp_ret wp_throw intro!: wp_after wp_after_assert)

lemma plain_request_scope:
  "wp (plain_request path opts) (\<lambda>_ t. wscope t = wscope w) (\<lambda>_ _. True) (\<lambda>_. True) w"
proof -
  have replay: "wp (if b then renew_and_replay lease c base path opts h res else ret res)
      (\<lambda>_ t. wscope t = c) (\<lambda>_ _. True) (\<lambda>_. True) t" if "wscope t = c" for b lease c base h res t
    using that by (simp add: renew_and_replay_scope wp_ret)
  have "wp (bnd (execute lease c k) (\<lambda>res. bnd (assert_scope c) (\<lambda>_.
       bnd (if r_status res = 401 \<and> used then renew_and_replay lease c base path opts h res else ret res)
         (finish_request c opts)))) (\<lambda>_ t. wscope t = c) (\<lambda>_ _. True) (\<lambda>_. True) t"
    for lease c k used base h t
    apply (rule wp_after, rule wp_after_assert, subst wp_bnd)
    apply (rule wp_mono [OF replay])
    apply (auto intro: finish_request_scope)
    done
  then show ?thesis
    unfolding plain_request_def Let_def
    by (simp add: wp_gets wp_bnd [of "gets _"] wp_bnd [of "open_lease _"] wp_open_lease wp_try_finally)
qed

section \<open>Properties\<close>

text \<open>
  C1: whatever the environment does between the awaits (token rotations, logouts, other tabs), a
  request sends at most one call besides the single refresh, two if it is a safe read, carries an
  idempotency key or is the logout; and every call it sends goes out while the session is still
  the one the request was started in.
\<close>

theorem request_calls_bounded:
  "\<exists>cs. w_trace (snd (request path opts w)) = w_trace w @ cs \<and>
     list_all (\<lambda>c. c_scope c = wscope w) cs \<and> length cs \<le> 3 \<and>
     length (filter (\<lambda>c. c_path c \<noteq> REFRESH) cs)
       \<le> (if safe_read opts \<or> idempotent path opts then 2 else 1)"
  using traced_request [of path opts w]
  unfolding traced_def sent_within_def quota_def replays_def by blast

text \<open>
  C2: a request that is not one of the four cookie-changing ones returns data only in the session
  it was started in: if account, role, tenant or epoch changed at any await, it does not return.
\<close>

theorem request_result_in_scope:
  assumes "path \<notin> set cookiePaths" "request path opts w = (Ret result, t)"
  shows "wscope t = wscope w"
  using assms wp_Ret [OF _ plain_request_scope] by (simp add: request_def)

text \<open>A reply that comes while nothing else happens in the browser.\<close>

definition calm :: "reply \<Rightarrow> tick" where
  "calm r = \<lparr>t_env = (\<lambda>s. s), t_refresh = (\<lambda>p. p), t_abort = False, t_reply = r\<rparr>"

definition example_response :: response where
  "example_response = \<lparr>r_status = 200, r_statusText = ''OK'', r_type = ''application/json'',
     r_json = Some (JObj [(''data'', JNum (Fin 1))]), r_text = [],
     r_body = True\<rparr>"

definition example_world :: world where
  "example_world = \<lparr>w_session = logged_in, w_refresh = None, w_promises = 0, w_aborted = False,
     w_locks = True, w_api_url = None, w_text = (\<lambda>_. []),
     w_script = [calm (Response example_response), calm (Settled True)], w_trace = []\<rparr>"

definition get_options :: options where
  "get_options = \<lparr>o_kind = JsonKind, o_method = None, o_body = None, o_headers = no_headers,
     o_params = []\<rparr>"

text \<open>What a response other than a renewable 401 means to the caller, given the reply that
  settles the read of its body.\<close>

fun outcome :: "kind \<Rightarrow> response \<Rightarrow> reply list \<Rightarrow> (exn, payload) res" where
  "outcome k res replies =
     (if response_ok res \<and> r_status res = 204 then Ret (PJson (JObj []))
      else case replies of
        [] \<Rightarrow> Waiting
      | reply # _ \<Rightarrow>
          if \<not> response_ok res then
            (case (reply, r_json res) of
               (Rejected _, _) \<Rightarrow> Throw (Api (api_error ''UNKNOWN'' (r_statusText res)))
             | (_, None) \<Rightarrow> Throw (Api (api_error ''UNKNOWN'' (r_statusText res)))
             | (_, Some err) \<Rightarrow> Throw (Api err))
          else (case reply of
             Rejected e \<Rightarrow> Throw e
           | _ \<Rightarrow>
               if k = BlobKind then Ret (PBlob (r_text res))
               else if k = TextKind \<or> js_includes ''message/rfc822'' (r_type res) \<or>
                       js_includes ''text/plain'' (r_type res)
               then Ret (PText (r_text res))
               else (case r_json res of Some v \<Rightarrow> Ret (PJson v) | None \<Rightarrow> Throw (Err ''SyntaxError''))))"

lemma await_calm:
  "w_script w = calm r # ts \<Longrightarrow>
    await w = (case r of Rejected e \<Rightarrow> (Throw e, w\<lparr>w_script := ts\<rparr>) | _ \<Rightarrow> (Ret r, w\<lparr>w_script := ts\<rparr>))"
  by (cases w; cases r) (auto simp: await_def calm_def Let_def)

lemma await_done: "w_script w = [] \<Longrightarrow> await w = (Waiting, w)"
  by (simp add: await_def)

lemma bnd_open:
  "bnd (open_lease a) k w =
     k (length (s_leases (w_session w))) (w\<lparr>w_session := snd (sessionRequest a (w_session w))\<rparr>)"
  by (simp add: bnd_def open_lease_def sessionRequest_def)

lemma bnd_assert: "wscope w = c \<Longrightarrow> bnd (assert_scope c) k w = k () w"
  by (simp add: bnd_def transport.guard_pass)

lemma finish_request_outcome:
  assumes "wscope w = scope" "w_script w = map calm rs"
  shows "fst (finish_request scope opts res w) = outcome (o_kind opts) res rs"
proof (cases rs)
  case Nil
  with assms show ?thesis
    by (simp add: finish_request_def read_payload_def api_failure_def read_json_def run_defs
        await_done)
next
  case (Cons r rs')
  then have aw: "await w = (case r of Rejected e \<Rightarrow> (Throw e, w\<lparr>w_script := map calm rs'\<rparr>)
      | _ \<Rightarrow> (Ret r, w\<lparr>w_script := map calm rs'\<rparr>))"
    using assms(2) by (intro await_calm) simp
  with assms Cons show ?thesis
    by (cases r; cases "r_json res")
      (simp_all add: finish_request_def read_payload_def api_failure_def read_json_def run_defs
        transport.guard_pass)
qed

lemma quiet_request:
  assumes "path \<notin> set cookiePaths" "\<not> w_aborted w"
    and "w_script w = map calm (Response res # replies)"
    and "r_status res \<noteq> 401 \<or> \<not> requestUsedAccessToken
           (typed_headers (o_body opts) (buildHeaders path (o_headers opts) w)) w"
  shows "fst (request path opts w) = outcome (o_kind opts) res replies"
proof -
  let ?w1 = "w\<lparr>w_session := snd (sessionRequest False (w_session w))\<rparr>"
  let ?i = "length (s_leases (w_session w))"
  let ?h = "typed_headers (o_body opts) (buildHeaders path (o_headers opts) ?w1)"
  let ?c = "request_call (getBaseUrl ?w1) path opts ?h"
  let ?w2 = "?w1\<lparr>w_trace := w_trace w @ [?c\<lparr>c_scope := wscope w\<rparr>], w_script := map calm replies\<rparr>"
  have keys: "getStoredKey ?w1 = getStoredKey w" by (simp add: getStoredKey_def fun_eq_iff)
  have eqs: "buildHeaders path h ?w1 = buildHeaders path h w"
    "requestUsedAccessToken h ?w1 = requestUsedAccessToken h w" for h
    unfolding buildHeaders_def requestUsedAccessToken_def keys by (rule refl)+
  have sent: "bnd (execute ?i (wscope w) ?c) k ?w1 = k res ?w2" for k
    using assms(3)
    by (simp add: execute_def bnd_def transport.guard_pass fetch_def lease_aborted_def
        sessionRequest_def await_calm ret_def)
  have renew: "\<not> (r_status res = 401 \<and> requestUsedAccessToken ?h ?w1)"
    using assms(4) by (auto simp: eqs)
  have "fst (finish_request (wscope w) opts res ?w2) = outcome (o_kind opts) res replies"
    by (rule finish_request_outcome) simp_all
  moreover have "fst (plain_request path opts w) = fst (finish_request (wscope w) opts res ?w2)"
    using renew assms(2)
    by (auto simp: plain_request_def Let_def run_rules bnd_open sent bnd_assert)
  ultimately show ?thesis using assms(1) by (simp add: request_def)
qed

text \<open>
  C32: when nothing else happens in the browser, a request that is not answered by a renewable 401
  gives its caller exactly the outcome of the response: the error body (or UNKNOWN with the status
  text when it cannot be read) as an exception for every status outside 200..299, an empty object
  for 204, and otherwise the body decoded as the caller's response type or the content type asks.
\<close>

theorem request_outcome:
  assumes "path \<notin> set cookiePaths" "\<not> w_aborted w"
    and "w_script w = map calm (Response res # replies)"
    and "r_status res \<noteq> 401 \<or> \<not> requestUsedAccessToken
           (typed_headers (o_body opts) (buildHeaders path (o_headers opts) w)) w"
  shows "fst (request path opts w) = outcome (o_kind opts) res replies"
  using assms by (rule quiet_request)

theorem request_outcome_witness:
  "fst (request ''/api/v1/company/me'' get_options example_world) =
     Ret (PJson (JObj [(''data'', JNum (Fin 1))]))"
  using request_outcome [of "''/api/v1/company/me''" example_world example_response "[Settled True]" get_options]
  by (simp add: cookiePaths_def example_world_def example_response_def get_options_def response_ok_def
      starts_with_def)

theorem request_result_in_scope_witness:
  "wscope (snd (request ''/api/v1/company/me'' get_options example_world)) = wscope example_world"
proof -
  let ?r = "request ''/api/v1/company/me'' get_options example_world"
  have "fst ?r = Ret (PJson (JObj [(''data'', JNum (Fin 1))]))"
    by (rule quiet_request [where replies = "[Settled True]" and res = example_response, THEN trans])
      (simp_all add: cookiePaths_def example_world_def example_response_def get_options_def
        response_ok_def starts_with_def)
  then have "?r = (Ret (PJson (JObj [(''data'', JNum (Fin 1))])), snd ?r)" by (metis prod.collapse)
  then show ?thesis
    by (rule request_result_in_scope [rotated]) (simp add: cookiePaths_def)
qed

text \<open>
  What happens to the session until the \<^verbatim>\<open>n\<close>th await of a run has settled, when the run itself
  writes nothing before.
\<close>

definition session_after :: "nat \<Rightarrow> world \<Rightarrow> session \<Rightarrow> session" where
  "session_after n w s = fold t_env (take n (w_script w)) s"

abbreviation returns :: "'a io \<Rightarrow> ('a \<Rightarrow> world \<Rightarrow> bool) \<Rightarrow> world \<Rightarrow> bool" where
  "returns m Q w \<equiv> wp m Q (\<lambda>_ _. True) (\<lambda>_. True) w"

definition settled :: "tick \<Rightarrow> tick list \<Rightarrow> world \<Rightarrow> world" where
  "settled i ts w = w\<lparr>w_session := t_env i (w_session w), w_refresh := t_refresh i (w_refresh w),
     w_aborted := (w_aborted w \<or> t_abort i), w_script := ts\<rparr>"

lemma settled_fields [simp]:
  "w_session (settled i ts w) = t_env i (w_session w)" "w_script (settled i ts w) = ts" "w_text (settled i ts w) = w_text w"
  by (simp_all add: settled_def)

lemma returns_await:
  assumes "\<And>i ts. w_script w = i # ts \<Longrightarrow> \<forall>e. t_reply i \<noteq> Rejected e \<Longrightarrow> Q (t_reply i) (settled i ts w)"
  shows "returns await Q w"
  using assms by (auto simp: wp_await Let_def settled_def split: list.split reply.split)

lemma returns_fetch:
  assumes "\<And>i ts res. w_script w = i # ts \<Longrightarrow> t_reply i = Response res \<Longrightarrow>
     Q res (settled i ts (w\<lparr>w_trace := w_trace w @ [c\<lparr>c_scope := wscope w\<rparr>]\<rparr>))"
  shows "returns (fetch l c) Q w"
proof (cases "case l of None \<Rightarrow> False | Some i \<Rightarrow> lease_aborted i w")
  case True
  then show ?thesis by (simp add: wp_def fetch_def)
next
  case False
  have "returns (bnd await (\<lambda>r. case r of Response res \<Rightarrow> ret res | _ \<Rightarrow> throw (Err ''Failed to fetch''))) Q
      (w\<lparr>w_trace := w_trace w @ [c\<lparr>c_scope := wscope w\<rparr>]\<rparr>)"
    unfolding wp_bnd by (rule returns_await) (auto simp: wp_rules assms split: reply.split)
  with False show ?thesis by (simp add: wp_def fetch_def)
qed

lemma returns_json:
  assumes "\<And>i ts v. w_script w = i # ts \<Longrightarrow> r_json res = Some v \<Longrightarrow> Q v (settled i ts w)"
  shows "returns (read_json res) Q w"
  unfolding read_json_def wp_bnd
  by (rule returns_await) (auto simp: wp_rules assms split: option.split)

lemma returns_impossible: "returns m (\<lambda>_ _. False) w \<Longrightarrow> returns m Q w"
  by (erule wp_mono) auto

lemma returns_assert:
  "(wscope w = c \<Longrightarrow> returns (f ()) Q w) \<Longrightarrow> returns (bnd (assert_scope c) f) Q w"
  by (simp add: wp_rules)

lemma returns_gets: "returns (f (g w)) Q w \<Longrightarrow> returns (bnd (gets g) f) Q w"
  by (simp add: wp_rules)

text \<open>The token that a session holds, as the transport reads it.\<close>

definition holds_token :: "world \<Rightarrow> string \<Rightarrow> session \<Rightarrow> bool" where
  "holds_token w token s = (getStoredKey (w\<lparr>w_session := s\<rparr>) TOKEN_KEY = Some token)"

lemma holds_token_at: "still_mine scope token u \<longleftrightarrow> wscope u = scope \<and> holds_token u token (w_session u)"
  by (auto simp: still_mine_def holds_token_def)

lemma holds_token_text: "w_text u = w_text w \<Longrightarrow> holds_token u = holds_token w"
  by (intro ext) (simp add: holds_token_def getStoredKey_def)

text \<open>What an accepted renewal may change between two sessions, given the body of its response.\<close>

definition renewal :: "json \<Rightarrow> session \<Rightarrow> session \<Rightarrow> bool" where
  "renewal data s t \<longleftrightarrow>
     (\<exists>token. opt_prop (get_prop data ''data'') ''access_token'' = Some (JStr token) \<and> token \<noteq> [] \<and>
        s_storage t TOKEN_KEY = Some (Raw token)) \<and>
     (\<forall>k. k = TOKEN_KEY \<or> k = USER_KEY \<or> s_storage t k = s_storage s k) \<and>
     (s_storage t USER_KEY = s_storage s USER_KEY \<or>
      (\<exists>user. opt_prop (get_prop data ''data'') ''user'' = Some user \<and> s_storage t USER_KEY = Some (Json user) \<and>
         stored_user_id (s_storage s USER_KEY) \<noteq> None \<and>
         strict_eq (get_prop user ''id'') (the (stored_user_id (s_storage s USER_KEY)))))"

lemma store_renewed_renewal:
  assumes "opt_prop (get_prop d ''data'') ''access_token'' = Some (JStr token)" "token \<noteq> []"
    and "stored_user_id (s_storage s USER_KEY) = Some ident" "user = opt_prop (get_prop d ''data'') ''user''"
    and "truthy user \<Longrightarrow> strict_eq (opt_prop user ''id'') ident"
  shows "renewal d s (store_renewed token user s)"
proof (cases "truthy user")
  case True
  then obtain v where v: "user = Some v" by (cases user) auto
  have "opt_prop (get_prop d ''data'') ''user'' = Some v" using assms(4) v by simp
  with assms(1-3,5) True v show ?thesis
    by (auto simp: renewal_def store_renewed_def dispatch_auth_def opt_prop_def[of "Some v"] Let_def)
next
  case False
  with assms(1,2) show ?thesis
    by (auto simp: renewal_def store_renewed_def dispatch_auth_def Let_def)
qed

lemma accept_renewed_returns:
  "returns (accept_renewed d) (\<lambda>b t. if b then renewal d (w_session w) (w_session t) else True) w"
  by (auto simp: accept_renewed_def Let_def wp_rules store_renewed_renewal
      split: option.split json.split)

lemma renewal_dispose: "renewal d s t \<Longrightarrow> renewal d s (dispose i t)"
  by (simp add: renewal_def dispose_def)

text \<open>The renewal as the body of its response and the two sessions that it looks at determine it.\<close>

definition renewed_from :: "scope \<Rightarrow> string \<Rightarrow> response \<Rightarrow> world \<Rightarrow> world \<Rightarrow> bool" where
  "renewed_from scope token res w t \<longleftrightarrow>
     response_ok res \<and> 1 \<le> length (w_script w) \<and> still_mine scope token w \<and>
     sessionScope (session_after 1 w (w_session w)) = scope \<and>
     holds_token w token (session_after 1 w (w_session w)) \<and>
     (\<exists>data. r_json res = Some data \<and> renewal data (session_after 1 w (w_session w)) (w_session t))"

lemma refresh_outcome_returns:
  "returns (refresh_outcome scope token res) (\<lambda>b t. b \<longrightarrow> renewed_from scope token res w t) w"
proof (cases "still_mine scope token w \<and> response_ok res")
  case True
  have "returns (bnd (gets (still_mine scope token)) (\<lambda>mine. if \<not> mine then ret False else accept_renewed d))
      (\<lambda>b t. b \<longrightarrow> renewed_from scope token res w t) (settled i ts w)"
    if "w_script w = i # ts" "r_json res = Some d" for i ts d
    using that True holds_token_text[of "settled i ts w" w]
    by (auto simp: wp_bnd wp_gets wp_ret holds_token_at renewed_from_def session_after_def
        intro!: wp_mono[OF accept_renewed_returns])
  then show ?thesis
    using True unfolding refresh_outcome_def by (auto simp: wp_bnd wp_gets intro!: returns_json)
next
  case False
  then show ?thesis by (auto simp: refresh_outcome_def wp_rules)
qed

text \<open>
  C21: a renewal that is accepted was answered with success, in two awaits; after each of them, that is
  when the answer had arrived and when its body had been read, the session was still the one that asked
  and still held the token that failed. Between the latter session and the one it leaves, it replaces the
  token by that of the body and, for the same user id, the user record by that of the body, and nothing
  else: never the tenant, the epoch or another account.
\<close>

theorem refresh_keeps_identity:
  assumes "doRefreshToken scope token w = (Ret True, t)"
  shows "2 \<le> length (w_script w) \<and>
    list_all (\<lambda>s. sessionScope s = scope \<and> holds_token w token s)
      [session_after 1 w (snd (sessionRequest False (w_session w))),
       session_after 2 w (snd (sessionRequest False (w_session w)))] \<and>
    (\<exists>res data. t_reply (w_script w ! 0) = Response res \<and> response_ok res \<and> r_json res = Some data \<and>
       renewal data (session_after 2 w (snd (sessionRequest False (w_session w)))) (w_session t))"
    (is "?G t")
proof -
  have sent: "returns (bnd (fetch (Some l) c) (refresh_outcome scope token)) (\<lambda>b t. b \<longrightarrow> ?G (close_lease j t))
      (w\<lparr>w_session := snd (sessionRequest False (w_session w))\<rparr>)" for l c j
    unfolding wp_bnd
  proof (rule returns_fetch, goal_cases)
    case (1 i ts res)
    then show ?case
      using holds_token_text[of "settled i ts (w\<lparr>w_session := snd (sessionRequest False (w_session w)), w_trace := x\<rparr>)" w for x]
      by (intro wp_mono[OF refresh_outcome_returns])
        (auto simp: renewed_from_def holds_token_at session_after_def close_lease_def renewal_dispose neq_Nil_conv Suc_le_eq)
  qed
  have "returns (doRefreshToken scope token) (\<lambda>b t. b \<longrightarrow> ?G t) w"
    unfolding doRefreshToken_def wp_bnd [of "open_lease _"] wp_open_lease wp_try_finally wp_try_catch
      wp_bnd [of "gets _"] wp_gets
    by (rule wp_mono[OF sent]) (simp_all add: wp_ret)
  from wp_Ret [OF assms this] show ?thesis by simp
qed

definition renewed_response :: response where
  "renewed_response = example_response\<lparr>r_json := Some (JObj [(''data'',
     JObj [(''access_token'', JStr ''tok2''), (''user'', example_user)])])\<rparr>"

definition renewing_world :: world where
  "renewing_world = example_world\<lparr>w_script := [calm (Response renewed_response), calm (Settled True)]\<rparr>"

theorem refresh_keeps_identity_witness:
  "holds_token renewing_world ''tok'' (session_after 2 renewing_world (snd (sessionRequest False (w_session renewing_world)))) \<and>
   s_storage (w_session (snd (doRefreshToken (wscope renewing_world) ''tok'' renewing_world))) TOKEN_KEY = Some (Raw ''tok2'')"
proof -
  let ?r = "doRefreshToken (wscope renewing_world) ''tok'' renewing_world"
  have "fst ?r = Ret True" by code_simp
  then have r: "?r = (Ret True, snd ?r)" by (metis prod.collapse)
  show ?thesis using refresh_keeps_identity [OF r]
    by (auto simp: renewal_def renewing_world_def renewed_response_def calm_def opt_prop_def)
qed

text \<open>How a logout or a change of the password that returns leaves the session.\<close>

definition signs_out :: "string \<Rightarrow> bool" where
  "signs_out path = (ends_with ''/logout'' path \<or> ends_with ''/change-password'' path)"

definition signed_out :: "world \<Rightarrow> bool" where
  "signed_out t = (\<not> nonempty (getStoredKey t TOKEN_KEY))"

lemma cleared_token: "signed_out (w\<lparr>w_session := clearSessionCredentials s\<rparr>)"
  by (simp add: signed_out_def getStoredKey_def clearSessionCredentials_def nonempty_def advance_fields
      remove_items_def)

lemma finish_signs_out:
  assumes "signs_out path" "isLogout = ends_with ''/logout'' path"
  shows "returns (finish_credential scope path isLogout res) (\<lambda>_. signed_out) w"
  unfolding finish_credential_def
  by (rule wp_after, rule wp_after_assert)
    (use assms in \<open>auto simp: signs_out_def wp_bnd wp_throw wp_ret_eta wp_modify_session cleared_token\<close>)

lemma renew_credential_result:
  "returns (renew_credential scope path opts h isLogout res)
     (\<lambda>final t. (final = None \<longrightarrow> isLogout \<and> signed_out t) \<and> (\<not> isLogout \<longrightarrow> final = Some res)) w"
    (is "wp _ ?Q _ _ _")
proof -
  have again: "returns (if \<not> renewed then ret (Some res) else if \<not> isLogout then throw (Api retry_required)
       else bnd (gets getBaseUrl) (\<lambda>base. bnd (gets (buildHeaders path no_headers)) (\<lambda>fresh.
         bnd (fetch None (credential_call base path opts fresh ''POST'')) (\<lambda>res2. ret (Some res2)))))
     ?Q t" for renewed t
    by (auto simp: wp_ret wp_throw intro!: wp_after)
  show ?thesis
    unfolding renew_credential_def
    by (rule wp_after, subst wp_bnd, subst wp_gets, simp only: prod.case split: if_split)
      (auto simp: wp_ret wp_throw signed_out_def intro!: wp_after again)
qed

lemma credential_run_signs_out:
  assumes "signs_out path"
  shows "returns (credential_run scope path opts) (\<lambda>_. signed_out) w"
proof -
  have last: "returns (case final of None \<Rightarrow> ret (PJson (JObj []))
      | Some r \<Rightarrow> finish_credential scope path (ends_with ''/logout'' path) r) (\<lambda>_. signed_out) t"
    if "final = None \<longrightarrow> signed_out t" for final t
    using that assms by (cases final) (simp_all add: wp_ret finish_signs_out)
  have final: "returns (bnd (if b then renew_credential scope path opts h (ends_with ''/logout'' path) res
      else ret (Some res)) (\<lambda>final. case final of None \<Rightarrow> ret (PJson (JObj []))
      | Some r \<Rightarrow> finish_credential scope path (ends_with ''/logout'' path) r))
      (\<lambda>_. signed_out) t" for b h res t
  proof (cases b)
    case True
    show ?thesis unfolding if_P[OF True] wp_bnd
      by (rule wp_mono [OF renew_credential_result], rule last) simp_all
  next
    case False
    show ?thesis unfolding if_not_P[OF False] wp_bnd wp_ret by (rule last) simp
  qed
  show ?thesis
    unfolding credential_run_def Let_def
    by (rule wp_after, rule wp_after, rule wp_if, simp add: wp_throw, rule wp_after,
        simp only: prod.case split: prod.split, intro allI impI wp_after final)
qed

text \<open>The session that the login of a body makes out of another.\<close>

definition installed :: "json \<Rightarrow> session \<Rightarrow> session \<Rightarrow> bool" where
  "installed data s t \<longleftrightarrow>
     (\<exists>token user. opt_prop (get_prop data ''data'') ''access_token'' = Some token \<and>
        opt_prop (get_prop data ''data'') ''user'' = Some user \<and> truthy (Some token) \<and> truthy (get_prop user ''id'') \<and>
        t = installSession token user s)"

lemma finish_login_installs: "returns (finish_login d) (\<lambda>_ t. installed d (w_session w) (w_session t)) w"
proof -
  let ?token = "opt_prop (get_prop d ''data'') ''access_token''"
  let ?user = "opt_prop (get_prop d ''data'') ''user''"
  show ?thesis
  proof (cases "truthy ?token \<and> truthy (opt_prop ?user ''id'')")
    case True
    then obtain token user where "?token = Some token" "?user = Some user"
      by (cases ?token; cases ?user) (auto simp: opt_prop_def [of None])
    with True show ?thesis
      by (auto simp: finish_login_def wp_modify_session installed_def opt_prop_def [of "Some user"])
  next
    case False
    then show ?thesis by (auto simp: finish_login_def Let_def wp_throw)
  qed
qed

lemma nothing_installed: "\<not> installed (JObj []) s t" "\<not> installed (api_error a b) s t"
  by (simp_all add: installed_def opt_prop_def api_error_def)

lemma returns_api_failure:
  assumes "\<And>i ts v. w_script w = i # ts \<Longrightarrow> r_json res = Some v \<Longrightarrow> Q v (settled i ts w)"
    and "\<And>t. Q (api_error code (r_statusText res)) t"
  shows "returns (api_failure code res) Q w"
  using assms
  by (auto simp: api_failure_def read_json_def wp_try_catch wp_bnd wp_await wp_ret wp_throw Let_def settled_def
      split: list.split reply.split option.split)

definition login_from :: "scope \<Rightarrow> response \<Rightarrow> world \<Rightarrow> payload \<Rightarrow> world \<Rightarrow> bool" where
  "login_from scope res w result t \<longleftrightarrow>
     response_ok res \<and> 1 \<le> length (w_script w) \<and> sessionScope (session_after 1 w (w_session w)) = scope \<and>
     (\<exists>data. r_json res = Some data \<and> result = PJson data \<and> installed data (session_after 1 w (w_session w)) (w_session t))"

lemma finish_credential_installs:
  assumes "\<not> ends_with ''/change-password'' path"
  shows "returns (finish_credential scope path False res) (login_from scope res w) w"
proof -
  have stop: "returns (bnd (assert_scope scope) (\<lambda>_. if \<not> response_ok res then throw (Api d)
      else bnd (if False \<or> ends_with ''/change-password'' path then modify_session clearSessionCredentials
        else finish_login d) (\<lambda>_. ret (PJson d)))) Q t"
    if "\<And>u. wscope t = scope \<Longrightarrow> response_ok res \<Longrightarrow> installed d (w_session t) (w_session u) \<Longrightarrow> Q (PJson d) u" for d Q t
    using that assms
    by (auto simp: wp_bnd wp_assert_scope wp_throw wp_ret_eta intro!: wp_mono[OF finish_login_installs])
  show ?thesis
  proof (cases "r_status res = 204")
    case True
    show ?thesis unfolding finish_credential_def if_P[OF True] wp_bnd[of "ret _"] wp_ret
      by (rule stop) (simp add: nothing_installed)
  next
    case False
    then show ?thesis unfolding finish_credential_def if_not_P[OF False]
      unfolding wp_bnd[of "api_failure _ _"]
      by (intro returns_api_failure stop)
        (auto simp: nothing_installed login_from_def session_after_def)
  qed
qed

text \<open>
  A login that returns: the second await was its response, the third the body of that response; the user
  and the token of the body were installed on the session as it was then.
\<close>

definition login_installed :: "world \<Rightarrow> payload \<Rightarrow> world \<Rightarrow> bool" where
  "login_installed w result t \<longleftrightarrow>
     3 \<le> length (w_script w) \<and> sessionScope (session_after 3 w (w_session w)) = wscope w \<and>
     (\<exists>res data. t_reply (w_script w ! 1) = Response res \<and> response_ok res \<and> r_json res = Some data \<and>
        result = PJson data \<and> installed data (session_after 3 w (w_session w)) (w_session t))"

lemma credential_run_installs:
  assumes "\<not> signs_out path"
  shows "returns (credential_run scope path opts)
    (\<lambda>result t. 2 \<le> length (w_script w) \<and> sessionScope (session_after 2 w (w_session w)) = scope \<and>
       (\<exists>res data. t_reply (w_script w ! 0) = Response res \<and> response_ok res \<and> r_json res = Some data \<and>
          result = PJson data \<and> installed data (session_after 2 w (w_session w)) (w_session t))) w"
    (is "wp _ ?Q _ _ _")
proof -
  have no: "\<not> ends_with ''/logout'' path" "\<not> ends_with ''/change-password'' path"
    using assms by (simp_all add: signs_out_def)
  have answered: "returns (bnd (if r_status res = 401 \<and> used then renew_credential scope path opts h False res else ret (Some res))
      (\<lambda>final. case final of None \<Rightarrow> ret (PJson (JObj [])) | Some res \<Rightarrow> finish_credential scope path False res)) ?Q u"
    if w: "w_script w = i # ts" "t_reply i = Response res" "w_script u = ts" "w_session u = t_env i (w_session w)"
    for i ts res used h u
  proof (cases "r_status res = 401 \<and> used")
    case True
    then have "\<not> response_ok res" by (simp add: response_ok_def)
    then have "returns (finish_credential scope path False res) ?Q t" for t
      by (intro wp_mono[OF finish_credential_installs[OF no(2)]]) (auto simp: login_from_def)
    then show ?thesis using True by (auto simp: wp_bnd intro!: wp_mono[OF renew_credential_result])
  next
    case False
    then show ?thesis using w
      by (auto simp: wp_bnd wp_ret login_from_def session_after_def neq_Nil_conv Suc_le_eq
          intro!: wp_mono[OF finish_credential_installs[OF no(2)]])
  qed
  have sent: "returns (bnd (fetch None c) (\<lambda>res. bnd (assert_scope scope) (\<lambda>_. bnd (gets (requestUsedAccessToken (c_headers c)))
      (\<lambda>used. bnd (if r_status res = 401 \<and> used then renew_credential scope path opts (c_headers c) False res else ret (Some res))
      (\<lambda>final. case final of None \<Rightarrow> ret (PJson (JObj [])) | Some res \<Rightarrow> finish_credential scope path False res))))) ?Q w" for c
    unfolding wp_bnd[of "fetch _ _"]
    by (rule returns_fetch, rule returns_assert, rule returns_gets, rule answered) simp_all
  have e: "ends_with ''/logout'' path = False" using no(1) by simp
  show ?thesis
    unfolding credential_run_def Let_def e
    by (rule returns_assert, rule returns_gets, rule wp_if, simp add: wp_throw, rule returns_gets,
        simp only: prod.case, rule sent)
qed

text \<open>
  C18: a logout or password change that returns has left no access token behind. A login or
  registration that returns gives back the body of its own response, a successful one, and has installed
  the user and the token of that body, the user with an id, on the session as it was when the body had
  been read, which was still in the scope the request was started in, whatever happened while it was waiting.
\<close>

theorem credential_request_result:
  assumes "path \<in> set cookiePaths" "request path opts w = (Ret result, t)"
  shows "if ends_with ''/logout'' path \<or> ends_with ''/change-password'' path
    then \<not> nonempty (getStoredKey t TOKEN_KEY)
    else login_installed w result t"
proof -
  have run: "credentialRequest path opts w = (Ret result, t)" using assms by (simp add: request_def)
  show ?thesis
  proof (cases "signs_out path")
    case True
    have "returns (credentialRequest path opts) (\<lambda>_. signed_out) w"
      unfolding credentialRequest_def
      by (auto simp: wp_bnd [of "gets _"] wp_gets wp_throw intro!: wp_after credential_run_signs_out True)
    from wp_Ret [OF run this] True show ?thesis by (simp add: signs_out_def signed_out_def)
  next
    case False
    have "returns (credentialRequest path opts) (login_installed w) w"
      unfolding credentialRequest_def
      by (auto simp: wp_bnd wp_gets wp_throw login_installed_def session_after_def numeral_3_eq_3 numeral_2_eq_2 Suc_le_eq
          intro!: returns_await wp_mono [OF credential_run_installs [OF False]])
    from wp_Ret [OF run this] False show ?thesis by (auto simp: signs_out_def)
  qed
qed

definition logout_world :: world where
  "logout_world = example_world\<lparr>w_script :=
     [calm (Settled True), calm (Response (example_response\<lparr>r_status := 204\<rparr>))]\<rparr>"

definition login_world :: world where
  "login_world = example_world\<lparr>w_script :=
     [calm (Settled True), calm (Response renewed_response), calm (Settled True)]\<rparr>"

theorem credential_request_result_witness:
  "\<not> nonempty (getStoredKey (snd (request ''/api/v1/auth/logout'' get_options logout_world)) TOKEN_KEY) \<and>
   login_installed login_world (PJson (the (r_json renewed_response)))
     (snd (request ''/api/v1/auth/login'' get_options login_world))"
proof -
  let ?r = "request ''/api/v1/auth/logout'' get_options logout_world"
  have "fst ?r = Ret (PJson (JObj []))" by code_simp
  then have r: "?r = (Ret (PJson (JObj [])), snd ?r)" by (metis prod.collapse)
  let ?l = "request ''/api/v1/auth/login'' get_options login_world"
  have "fst ?l = Ret (PJson (the (r_json renewed_response)))" by code_simp
  then have l: "?l = (Ret (PJson (the (r_json renewed_response))), snd ?l)" by (metis prod.collapse)
  have "ends_with ''/logout'' ''/api/v1/auth/logout''" "\<not> ends_with ''/logout'' ''/api/v1/auth/login''"
    "\<not> ends_with ''/change-password'' ''/api/v1/auth/login''" by code_simp+
  with credential_request_result [OF _ r] credential_request_result [OF _ l]
  show ?thesis by (simp add: cookiePaths_def)
qed

end
