(* ===== verification/LiveStream.thy ===== *)
theory LiveStream
  imports ApiBase EventStream
begin

text \<open>
  \<^verbatim>\<open>streamEvents\<close> of \<^verbatim>\<open>web/lib/api/base.ts\<close>: the loop that keeps one event stream
  connected, with its cursor, its renewal of an expired token, its back-off and its delivery of
  frames to the page.

  The loops run on fuel; every round of either loop settles at least one \<^verbatim>\<open>await\<close>, so the
  length of the environment's script is enough (\<^verbatim>\<open>stream_suspended\<close>).
\<close>

section \<open>State\<close>

record event =
  e_type :: string
  e_data :: json

text \<open>A ghost log of what the loop did, in order.\<close>

datatype entry = Sent scope "string option" | Resynced scope | Got "string option"
  | Delivered scope event | Handled | Slept nat

record stream =
  st_cursor :: string
  st_failures :: nat
  st_log :: "entry list"

text \<open>
  What the caller passes in: its listener, which may change the session and may throw, and its
  optional transformer; \<^verbatim>\<open>h_parse\<close> is \<^verbatim>\<open>JSON.parse\<close>.
\<close>

record handler =
  h_event :: "event \<Rightarrow> session \<Rightarrow> exn option \<times> session"
  h_transform :: "(json \<Rightarrow> json) option"
  h_parse :: "string \<Rightarrow> json option"

type_synonym 'a sio = "(world \<times> stream, exn, 'a) act"

definition lift_io :: "'a io \<Rightarrow> 'a sio" where
  "lift_io m = (\<lambda>(w, st). case m w of (r, t) \<Rightarrow> (r, (t, st)))"

definition note_entry :: "entry \<Rightarrow> unit sio" where
  "note_entry x = modify (\<lambda>(w, st). (w, st\<lparr>st_log := st_log st @ [x]\<rparr>))"

text \<open>\<^verbatim>\<open>finally\<close> with an await in it; its own rejection is swallowed.\<close>

definition finally_await :: "'a sio \<Rightarrow> 'a sio" where
  "finally_await m = (\<lambda>s. case m s of
      (Waiting, t) \<Rightarrow> (Waiting, t)
    | (r, t) \<Rightarrow> (case lift_io await t of (Waiting, u) \<Rightarrow> (Waiting, u) | (_, u) \<Rightarrow> (r, u)))"

section \<open>Operations\<close>

definition abort_error :: exn where "abort_error = DOMException ''AbortError''"
definition not_allowed :: exn where "not_allowed = DOMException ''NotAllowedError''"

definition assert_current :: "nat \<Rightarrow> scope \<Rightarrow> unit sio" where
  "assert_current lease scope =
     bnd (lift_io (assert_scope scope)) (\<lambda>_.
     bnd (gets (\<lambda>(w, st). lease_aborted lease w)) (\<lambda>aborted.
     if aborted then throw abort_error else ret ()))"

definition call_listener :: "handler \<Rightarrow> event \<Rightarrow> unit sio" where
  "call_listener h e = (\<lambda>(w, st).
     case h_event h e (w_session w) of
       (None, s) \<Rightarrow> (Ret (), (w\<lparr>w_session := s\<rparr>, st))
     | (Some x, s) \<Rightarrow> (Throw x, (w\<lparr>w_session := s\<rparr>, st)))"

definition resync :: "handler \<Rightarrow> unit sio" where
  "resync h =
     bnd (gets (\<lambda>(w, st). wscope w)) (\<lambda>c.
     bnd (note_entry (Resynced c)) (\<lambda>_.
     call_listener h \<lparr>e_type = ''resync'', e_data = JNull\<rparr>))"

definition event_of :: "handler \<Rightarrow> string \<Rightarrow> string \<Rightarrow> event" where
  "event_of h type text =
     (let data = (case h_parse h text of Some v \<Rightarrow> v | None \<Rightarrow> JStr text)
      in \<lparr>e_type = type,
          e_data = (case h_transform h of Some f \<Rightarrow> f data | None \<Rightarrow> data)\<rparr>)"

definition hand_over :: "handler \<Rightarrow> event \<Rightarrow> unit sio" where
  "hand_over h e =
     bnd (gets (\<lambda>(w, st). wscope w)) (\<lambda>c.
     bnd (note_entry (Delivered c e)) (\<lambda>_.
     bnd (call_listener h e) (\<lambda>_.
     bnd (note_entry Handled) (\<lambda>_.
     modify (\<lambda>(w, st). (w, st\<lparr>st_failures := 0\<rparr>))))))"

definition move_cursor :: "string option \<Rightarrow> unit sio" where
  "move_cursor i =
     bnd (note_entry (Got i)) (\<lambda>_.
     modify (\<lambda>(w, st). (w, case i of Some x \<Rightarrow> st\<lparr>st_cursor := x\<rparr> | None \<Rightarrow> st)))"

definition on_frame :: "handler \<Rightarrow> nat \<Rightarrow> scope \<Rightarrow> frame \<Rightarrow> unit sio" where
  "on_frame h lease scope f =
     bnd (assert_current lease scope) (\<lambda>_.
     bnd (move_cursor (fid f)) (\<lambda>_.
     case fdata f of
       None \<Rightarrow> ret ()
     | Some text \<Rightarrow> hand_over h (event_of h (ftype f) text)))"

fun on_frames :: "handler \<Rightarrow> nat \<Rightarrow> scope \<Rightarrow> frame list \<Rightarrow> unit sio" where
  "on_frames h lease scope [] = ret ()"
| "on_frames h lease scope (f # fs) = bnd (on_frame h lease scope f) (\<lambda>_. on_frames h lease scope fs)"

fun read_loop :: "nat \<Rightarrow> handler \<Rightarrow> nat \<Rightarrow> scope \<Rightarrow> parser \<Rightarrow> unit sio" where
  "read_loop 0 h lease scope p = (\<lambda>s. (Waiting, s))"
| "read_loop (Suc n) h lease scope p =
     bnd (gets (\<lambda>(w, st). lease_aborted lease w)) (\<lambda>aborted.
     if aborted then ret ()
     else
       bnd (lift_io await) (\<lambda>r.
       bnd (assert_current lease scope) (\<lambda>_.
       case r of
         Chunk None \<Rightarrow> ret ()
       | Chunk (Some text) \<Rightarrow>
           (case push_chunk p text of
              (fs, Inl Oversized) \<Rightarrow>
                bnd (on_frames h lease scope fs) (\<lambda>_. throw (Err ''Oversized event stream frame''))
            | (fs, Inr q) \<Rightarrow>
                bnd (on_frames h lease scope fs) (\<lambda>_. read_loop n h lease scope q))
       | _ \<Rightarrow> throw (Err ''read failed''))))"

definition stream_call :: "string \<Rightarrow> string \<Rightarrow> headers \<Rightarrow> call" where
  "stream_call base path h =
     \<lparr>c_method = ''GET'', c_base = base, c_path = path, c_headers = h, c_params = [],
      c_body = None, c_scope = ServerScope\<rparr>"

definition with_cursor :: "headers \<Rightarrow> string \<Rightarrow> headers" where
  "with_cursor h cursor = (if cursor = [] then h else h(''Last-Event-ID'' \<mapsto> cursor))"

definition open_stream :: "nat \<Rightarrow> string \<Rightarrow> headers \<Rightarrow> response sio" where
  "open_stream lease path headers =
     bnd (gets (\<lambda>(w, st). (getBaseUrl w, with_cursor headers (st_cursor st), wscope w)))
       (\<lambda>(base, h, c).
     bnd (note_entry (Sent c (h ''Last-Event-ID''))) (\<lambda>_.
     lift_io (fetch (Some lease) (stream_call base path h))))"

definition stream_unavailable :: exn where
  "stream_unavailable = Err ''Stream temporarily unavailable''"

text \<open>After a 401 to a stream that carried the stored token.\<close>

definition renew_stream :: "nat \<Rightarrow> scope \<Rightarrow> string \<Rightarrow> headers \<Rightarrow> response sio" where
  "renew_stream lease scope path headers =
     bnd (lift_io (tryRefreshToken (bearer_of headers) scope)) (\<lambda>renewed.
     bnd (assert_current lease scope) (\<lambda>_.
     if \<not> renewed then
       bnd (gets (\<lambda>(w, st). \<not> w_locks w \<or> \<not> nonempty (getStoredKey w TOKEN_KEY))) (\<lambda>gone.
       throw (if gone then not_allowed else Err ''Stream authentication temporarily unavailable''))
     else
       bnd (gets (\<lambda>(w, st). buildHeaders path no_headers w)) (\<lambda>retry.
       open_stream lease path retry)))"

definition receive :: "nat \<Rightarrow> handler \<Rightarrow> nat \<Rightarrow> scope \<Rightarrow> response \<Rightarrow> unit sio" where
  "receive fuel h lease scope res =
     bnd (assert_current lease scope) (\<lambda>_.
     if r_status res = 401 \<or> r_status res = 403 then throw not_allowed
     else if \<not> response_ok res \<or> \<not> r_body res then throw stream_unavailable
     else
       bnd (resync h) (\<lambda>_.
       finally_await (read_loop fuel h lease scope createEventStreamParser)))"

definition connection :: "nat \<Rightarrow> handler \<Rightarrow> nat \<Rightarrow> scope \<Rightarrow> string \<Rightarrow> unit sio" where
  "connection fuel h lease scope path =
     bnd (gets (\<lambda>(w, st). (buildHeaders path no_headers w,
                            requestUsedAccessToken (buildHeaders path no_headers w) w)))
       (\<lambda>(headers, used).
     bnd (open_stream lease path headers) (\<lambda>res.
     bnd (assert_current lease scope) (\<lambda>_.
     bnd (if r_status res = 401 \<and> used then renew_stream lease scope path headers else ret res)
       (receive fuel h lease scope))))"

definition backoff :: "nat \<Rightarrow> nat" where
  "backoff failures = min 15000 (1000 * 2 ^ min failures 4)"

definition delay :: "nat \<Rightarrow> nat \<Rightarrow> unit sio" where
  "delay lease ms =
     bnd (note_entry (Slept ms)) (\<lambda>_.
     bnd (gets (\<lambda>(w, st). lease_aborted lease w)) (\<lambda>aborted.
     if aborted then throw abort_error
     else
       bnd (lift_io await) (\<lambda>_.
       bnd (gets (\<lambda>(w, st). lease_aborted lease w)) (\<lambda>aborted.
       if aborted then throw abort_error else ret ()))))"

definition survive :: "nat \<Rightarrow> scope \<Rightarrow> exn \<Rightarrow> unit sio" where
  "survive lease scope e =
     bnd (lift_io (assert_scope scope)) (\<lambda>_.
     bnd (gets (\<lambda>(w, st). lease_aborted lease w)) (\<lambda>aborted.
     if aborted \<or> e = not_allowed then throw e else ret ()))"

definition pause :: "nat \<Rightarrow> unit sio" where
  "pause lease =
     bnd (gets (\<lambda>(w, st). backoff (st_failures st))) (\<lambda>ms.
     bnd (modify (\<lambda>(w, st). (w, st\<lparr>st_failures := Suc (st_failures st)\<rparr>))) (\<lambda>_.
     delay lease ms))"

fun stream_loop :: "nat \<Rightarrow> nat \<Rightarrow> handler \<Rightarrow> nat \<Rightarrow> scope \<Rightarrow> string \<Rightarrow> unit sio" where
  "stream_loop 0 fuel h lease scope path = (\<lambda>s. (Waiting, s))"
| "stream_loop (Suc n) fuel h lease scope path =
     bnd (gets (\<lambda>(w, st). lease_aborted lease w)) (\<lambda>aborted.
     if aborted then ret ()
     else
       bnd (assert_current lease scope) (\<lambda>_.
       bnd (try_catch (connection fuel h lease scope path) (survive lease scope)) (\<lambda>_.
       bnd (pause lease) (\<lambda>_.
       stream_loop n fuel h lease scope path))))"

declare stream_loop.simps [simp del] read_loop.simps [simp del]

definition fresh_stream :: stream where
  "fresh_stream = \<lparr>st_cursor = [], st_failures = 0, st_log = []\<rparr>"

definition streamEvents :: "handler \<Rightarrow> string \<Rightarrow> world \<Rightarrow> (exn, unit) res \<times> world \<times> stream" where
  "streamEvents h path w =
     (let scope = wscope w;
          n = Suc (length (w_script w));
          lease = length (s_leases (w_session w));
          w1 = w\<lparr>w_session := snd (sessionRequest (w_aborted w) (w_session w))\<rparr>
      in case stream_loop n n h lease scope path (w1, fresh_stream) of
           (Waiting, s) \<Rightarrow> (Waiting, s)
         | (r, (w2, st)) \<Rightarrow> (r, (close_lease lease w2, st)))"

section \<open>The protocol of a stream\<close>

text \<open>
  An abstract machine that reads the log: the phase of the connection, the id a reconnect must
  send, and the number of failures since the last event that was handled.
\<close>

datatype phase = Idle | Connecting | Live

type_synonym protocol = "phase \<times> string \<times> nat"

fun protocol_step :: "scope \<Rightarrow> protocol \<Rightarrow> entry \<Rightarrow> protocol option" where
  "protocol_step scope (ph, cursor, k) (Sent c ident) =
     (if c = scope \<and> ph \<noteq> Live \<and> ident = (if cursor = [] then None else Some cursor)
      then Some (Connecting, cursor, k) else None)"
| "protocol_step scope (ph, cursor, k) (Resynced c) =
     (if c = scope \<and> ph = Connecting then Some (Live, cursor, k) else None)"
| "protocol_step scope (ph, cursor, k) (Got i) =
     (if ph = Live then Some (Live, case i of Some x \<Rightarrow> x | None \<Rightarrow> cursor, k) else None)"
| "protocol_step scope (ph, cursor, k) (Delivered c e) =
     (if c = scope \<and> ph = Live then Some (Live, cursor, k) else None)"
| "protocol_step scope (ph, cursor, k) Handled =
     (if ph = Live then Some (Live, cursor, 0) else None)"
| "protocol_step scope (ph, cursor, k) (Slept ms) =
     (if ms = backoff k then Some (Idle, cursor, Suc k) else None)"

abbreviation protocol_run :: "scope \<Rightarrow> protocol \<Rightarrow> entry list \<Rightarrow> protocol option" where
  "protocol_run scope \<equiv> accepts (protocol_step scope)"

definition following :: "scope \<Rightarrow> phase \<Rightarrow> world \<times> stream \<Rightarrow> bool" where
  "following scope ph s \<longleftrightarrow>
     protocol_run scope (Idle, [], 0) (st_log (snd s)) = Some (ph, st_cursor (snd s), st_failures (snd s))"

definition lawful :: "scope \<Rightarrow> world \<times> stream \<Rightarrow> bool" where
  "lawful scope s \<longleftrightarrow> (\<exists>ph. following scope ph s)"

lemma lawfulI: "following scope ph s \<Longrightarrow> lawful scope s"
  by (auto simp: lawful_def)

lemma following_world: "following scope ph (w, st) = following scope ph (w', st)"
  by (simp add: following_def)

abbreviation keeps :: "scope \<Rightarrow> 'a sio \<Rightarrow> ('a \<Rightarrow> world \<times> stream \<Rightarrow> bool) \<Rightarrow> world \<times> stream \<Rightarrow> bool" where
  "keeps scope m Q s \<equiv> wp m Q (\<lambda>_. lawful scope) (lawful scope) s"

lemma keeps_lift:
  assumes "following scope ph (w, st)" "\<And>x t. following scope ph (t, st) \<Longrightarrow> Q x (t, st)"
  shows "keeps scope (lift_io m) Q (w, st)"
proof -
  have "following scope ph (t, st)" for t using assms(1) by (simp add: following_def)
  then show ?thesis
    using assms(2) by (auto simp: wp_def lift_io_def lawful_def split: prod.split res.split)
qed

lemma keeps_bnd: "keeps scope m (\<lambda>x. keeps scope (f x) Q) s \<Longrightarrow> keeps scope (bnd m f) Q s"
  by (simp add: wp_bnd)

lemma wp_lift_assert:
  "wp (lift_io (assert_scope c)) Q R W (w, st) =
     (if wscope w = c then Q () (w, st) else R abort_error (w, st))"
  by (simp add: wp_def lift_io_def transport.guard_pass transport.guard_stop abort_error_def)

lemma wp_assert_current:
  "wp (assert_current l c) Q R W (w, st) =
     (if wscope w = c \<and> \<not> lease_aborted l w then Q () (w, st) else R abort_error (w, st))"
  by (simp add: assert_current_def wp_bnd wp_lift_assert wp_gets wp_throw wp_ret)

lemma wp_note:
  "wp (note_entry x) Q R W (w, st) = Q () (w, st\<lparr>st_log := st_log st @ [x]\<rparr>)"
  by (simp add: note_entry_def wp_modify)

lemma keeps_listener:
  assumes "following scope ph (w, st)" "\<And>t. following scope ph (t, st) \<Longrightarrow> Q () (t, st)"
  shows "keeps scope (call_listener h e) Q (w, st)"
proof -
  have "following scope ph (t, st)" for t using assms(1) by (simp add: following_def)
  then show ?thesis
    using assms(2)
    by (auto simp: wp_def call_listener_def lawful_def split: prod.split option.split)
qed

lemma following_note:
  "following scope ph (w, st) \<Longrightarrow> protocol_step scope (ph, st_cursor st, st_failures st) x =
      Some (ph', st_cursor st', st_failures st') \<Longrightarrow> st_log st' = st_log st @ [x] \<Longrightarrow>
    following scope ph' (w', st')"
  by (simp add: following_def accepts_append)

lemma keeps_note:
  assumes "following scope ph (w, st)"
    and "protocol_step scope (ph, st_cursor st, st_failures st) x = Some (ph', st_cursor st, st_failures st)"
    and "\<And>st'. following scope ph' (w, st') \<Longrightarrow> st_cursor st' = st_cursor st \<Longrightarrow>
           st_failures st' = st_failures st \<Longrightarrow> Q () (w, st')"
  shows "keeps scope (note_entry x) Q (w, st)"
  unfolding wp_note using assms(2) by (intro assms(3) following_note [OF assms(1)]) simp_all

lemma keeps_hand_over:
  assumes "following scope Live (w, st)" "wscope w = scope"
  shows "keeps scope (hand_over h e) (\<lambda>_. following scope Live) (w, st)"
proof -
  have done_: "keeps scope (bnd (note_entry Handled) (\<lambda>_. modify (\<lambda>(w, st). (w, st\<lparr>st_failures := 0\<rparr>))))
      (\<lambda>_. following scope Live) (t, st')" if "following scope Live (t, st')" for t st'
    unfolding wp_bnd wp_note wp_modify prod.case
    by (rule following_note [OF that, where x = Handled]) simp_all
  show ?thesis
    unfolding hand_over_def
    by (rule keeps_bnd, subst wp_gets, simp only: prod.case assms(2),
        rule keeps_bnd, rule keeps_note [OF assms(1)], simp,
        rule keeps_bnd, rule keeps_listener, assumption, rule done_, assumption)
qed

lemma keeps_move_cursor:
  assumes "following scope Live (w, st)" "\<And>st'. following scope Live (w, st') \<Longrightarrow> Q () (w, st')"
  shows "keeps scope (move_cursor i) Q (w, st)"
  unfolding move_cursor_def wp_bnd wp_note wp_modify prod.case
  by (rule assms(2), rule following_note [OF assms(1), where x = "Got i"]) (simp_all split: option.split)

lemma keeps_on_frame:
  assumes "following scope Live (w, st)"
  shows "keeps scope (on_frame h l scope f) (\<lambda>_. following scope Live) (w, st)"
  using lawfulI [OF assms]
  by (auto simp: on_frame_def wp_bnd wp_assert_current wp_ret keeps_hand_over
      intro!: keeps_move_cursor [OF assms] split: option.split)

lemma keeps_on_frames:
  "following scope Live s \<Longrightarrow> keeps scope (on_frames h l scope fs) (\<lambda>_. following scope Live) s"
proof (induction fs arbitrary: s)
  case (Cons f fs)
  obtain w st where s: "s = (w, st)" by (cases s)
  show ?case
    using wp_mono [OF keeps_on_frame [OF Cons.prems [unfolded s]]] Cons.IH
    by (simp add: wp_bnd s)
qed (simp add: wp_ret)

lemma keeps_read_loop:
  "following scope Live s \<Longrightarrow> keeps scope (read_loop n h l scope p) (\<lambda>_. following scope Live) s"
proof (induction n arbitrary: s p)
  case 0
  then show ?case by (auto simp: wp_def read_loop.simps intro: lawfulI)
next
  case (Suc n)
  obtain w st where s: "s = (w, st)" by (cases s)
  have law: "lawful scope (t, st)" for t
    using Suc.prems s following_world lawfulI by metis
  have frames: "keeps scope (on_frames h l scope fs) (\<lambda>_. following scope Live) (t, st)" for t fs
    using Suc.prems s following_world keeps_on_frames by metis
  have next_: "keeps scope (bnd (on_frames h l scope fs) (\<lambda>_. read_loop n h l scope q))
      (\<lambda>_. following scope Live) (t, st)" for t fs q
    by (rule keeps_bnd, rule wp_mono [OF frames]) (auto intro: Suc.IH)
  have stop: "keeps scope (bnd (on_frames h l scope fs) (\<lambda>_. throw e))
      (\<lambda>_. following scope Live) (t, st)" for t fs e
    by (rule keeps_bnd, rule wp_mono [OF frames]) (auto simp: wp_throw intro: lawfulI)
  have handle: "keeps scope (bnd (assert_current l scope) (\<lambda>_. case r of
         Chunk None \<Rightarrow> ret ()
       | Chunk (Some text) \<Rightarrow>
           (case push_chunk p text of
              (fs, Inl Oversized) \<Rightarrow>
                bnd (on_frames h l scope fs) (\<lambda>_. throw (Err ''Oversized event stream frame''))
            | (fs, Inr q) \<Rightarrow> bnd (on_frames h l scope fs) (\<lambda>_. read_loop n h l scope q))
       | _ \<Rightarrow> throw (Err ''read failed''))) (\<lambda>_. following scope Live) (t, st)" for r t
    using law Suc.prems s following_world
    by (auto simp: wp_bnd [of "assert_current _ _"] wp_assert_current wp_throw wp_ret stop next_
        split: reply.split option.split prod.split sum.split stream_error.split) metis
  show ?case
    unfolding s read_loop.simps
    using Suc.prems s
    by (auto simp: wp_bnd [of "gets _"] wp_gets wp_ret
        intro!: keeps_bnd keeps_lift handle)
qed

lemma keeps_finally:
  assumes "keeps scope m (\<lambda>_. following scope Live) s"
  shows "keeps scope (finally_await m) (\<lambda>_. following scope Live) s"
  using assms
  by (auto simp: wp_def finally_await_def lift_io_def lawful_def following_def
      split: prod.splits res.splits)

lemma no_event_id: "buildHeaders path no_headers w ''Last-Event-ID'' = None"
  by (simp add: buildHeaders_def no_headers_def hasExplicitAuthHeader_def nonempty_def Let_def
      split: option.split)

lemma keeps_open_stream:
  assumes "following scope ph (w, st)" "ph \<noteq> Live" "wscope w = scope"
    and "headers ''Last-Event-ID'' = None"
  shows "keeps scope (open_stream l path headers) (\<lambda>_. following scope Connecting) (w, st)"
  unfolding open_stream_def
  by (rule keeps_bnd, subst wp_gets, simp only: prod.case assms(3),
      rule keeps_bnd, rule keeps_note [OF assms(1)], simp add: assms(2,4) with_cursor_def,
      rule keeps_lift, assumption, assumption)

lemma keeps_renew_stream:
  assumes "following scope Connecting (w, st)"
  shows "keeps scope (renew_stream l scope path headers) (\<lambda>_. following scope Connecting) (w, st)"
proof -
  have again: "keeps scope (bnd (gets (\<lambda>(w, st). buildHeaders path no_headers w)) (open_stream l path))
      (\<lambda>_. following scope Connecting) (t, st)" if "following scope Connecting (t, st)" "wscope t = scope" for t
    by (rule keeps_bnd, subst wp_gets, simp only: prod.case,
        rule keeps_open_stream [OF that(1) _ that(2)]) (simp_all add: no_event_id)
  show ?thesis
    unfolding renew_stream_def
  proof (rule keeps_bnd, rule keeps_lift [OF assms])
    fix renewed t
    assume f: "following scope Connecting (t, st)"
    then show "keeps scope (bnd (assert_current l scope) (\<lambda>_. if \<not> renewed
        then bnd (gets (\<lambda>(w, st). \<not> w_locks w \<or> \<not> nonempty (getStoredKey w TOKEN_KEY)))
          (\<lambda>gone. throw (if gone then not_allowed else Err ''Stream authentication temporarily unavailable''))
        else bnd (gets (\<lambda>(w, st). buildHeaders path no_headers w)) (open_stream l path)))
        (\<lambda>_. following scope Connecting) (t, st)"
      using again [OF f] lawfulI [OF f]
      by (simp add: wp_bnd [of "assert_current _ _"] wp_assert_current)
        (simp add: wp_bnd wp_gets wp_throw)
  qed
qed

lemma keeps_resync:
  assumes "following scope Connecting (w, st)" "wscope w = scope"
  shows "keeps scope (resync h) (\<lambda>_. following scope Live) (w, st)"
  unfolding resync_def
  by (rule keeps_bnd, subst wp_gets, simp only: prod.case assms(2),
      rule keeps_bnd, rule keeps_note [OF assms(1)], simp, rule keeps_listener, assumption, assumption)

lemma keeps_receive:
  assumes f: "following scope Connecting (w, st)"
  shows "keeps scope (receive fuel h l scope res) (\<lambda>_. following scope Live) (w, st)"
proof -
  have "keeps scope (bnd (resync h) (\<lambda>_. finally_await (read_loop fuel h l scope createEventStreamParser)))
      (\<lambda>_. following scope Live) (w, st)" if "wscope w = scope"
    by (rule keeps_bnd, rule wp_mono [OF keeps_resync [OF f that]])
      (auto intro: keeps_finally keeps_read_loop)
  with lawfulI [OF f] show ?thesis
    by (auto simp: receive_def wp_bnd [of "assert_current _ _"] wp_assert_current wp_throw)
qed

lemma keeps_connection:
  assumes "following scope ph (w, st)" "ph \<noteq> Live" "wscope w = scope"
  shows "keeps scope (connection fuel h l scope path) (\<lambda>_. following scope Live) (w, st)"
proof -
  have renew: "keeps scope (bnd (if b then renew_stream l scope path hs else ret res) (receive fuel h l scope))
      (\<lambda>_. following scope Live) (t, u)" if f: "following scope Connecting (t, u)" for b hs res t u
  proof -
    have "keeps scope (if b then renew_stream l scope path hs else ret res)
        (\<lambda>_. following scope Connecting) (t, u)"
      using f keeps_renew_stream by (simp add: wp_ret)
    then show ?thesis
      by (intro keeps_bnd) (erule wp_mono, auto intro: keeps_receive)
  qed
  have rest: "keeps scope (bnd (assert_current l scope) (\<lambda>_.
      bnd (if b then renew_stream l scope path hs else ret res) (receive fuel h l scope)))
     (\<lambda>_. following scope Live) s" if f: "following scope Connecting s" for b hs res s
    using renew [of "fst s" "snd s"] f lawfulI [OF f]
    by (cases s) (simp add: wp_bnd [of "assert_current _ _"] wp_assert_current)
  show ?thesis
    unfolding connection_def
    by (rule keeps_bnd, subst wp_gets, simp only: prod.case, rule keeps_bnd,
        rule wp_mono [OF keeps_open_stream [OF assms]], rule no_event_id)
      (erule rest, assumption+)
qed

lemma keeps_pause:
  assumes "following scope ph (w, st)"
  shows "keeps scope (pause l) (\<lambda>_. following scope Idle) (w, st)"
proof -
  let ?st = "st\<lparr>st_failures := Suc (st_failures st),
      st_log := st_log st @ [Slept (backoff (st_failures st))]\<rparr>"
  have f: "following scope Idle (t, ?st)" for t
    by (rule following_note [OF assms, where x = "Slept (backoff (st_failures st))"]) simp_all
  have "keeps scope (bnd (lift_io await) (\<lambda>_. bnd (gets (\<lambda>(w, st). lease_aborted l w)) (\<lambda>aborted.
      if aborted then throw abort_error else ret ()))) (\<lambda>_. following scope Idle) (w, ?st)"
    by (rule keeps_bnd, rule keeps_lift [OF f]) (auto simp: wp_bnd wp_gets wp_throw wp_ret intro: lawfulI)
  with lawfulI [OF f] show ?thesis
    unfolding pause_def delay_def
    by (simp add: wp_bnd [of "gets _"] wp_bnd [of "modify _"] wp_bnd [of "note_entry _"] wp_gets
        wp_modify wp_note wp_throw)
qed

lemma keeps_survive:
  assumes "lawful scope s"
  shows "keeps scope (survive l scope e) (\<lambda>_. lawful scope) s"
  using assms
  by (cases s) (auto simp: survive_def wp_bnd wp_lift_assert wp_gets wp_throw wp_ret)

lemma keeps_stream_loop:
  "following scope Idle s \<Longrightarrow> keeps scope (stream_loop n fuel h l scope path) (\<lambda>_. lawful scope) s"
proof (induction n arbitrary: s)
  case 0
  then show ?case by (auto simp: wp_def stream_loop.simps intro: lawfulI)
next
  case (Suc n)
  obtain w st where s: "s = (w, st)" by (cases s)
  have round: "keeps scope (bnd (pause l) (\<lambda>_. stream_loop n fuel h l scope path)) (\<lambda>_. lawful scope) s'"
    if "lawful scope s'" for s'
  proof -
    obtain w' st' where s': "s' = (w', st')" by (cases s')
    with that obtain ph where "following scope ph (w', st')" by (auto simp: lawful_def)
    then show ?thesis
      unfolding s' by (intro keeps_bnd wp_mono [OF keeps_pause]) (auto intro: Suc.IH)
  qed
  have attempt: "keeps scope (try_catch (connection fuel h l scope path) (survive l scope))
      (\<lambda>_. lawful scope) (w, st)" if "wscope w = scope"
    unfolding wp_try_catch
    by (rule wp_mono [OF keeps_connection [OF Suc.prems [unfolded s] _ that]])
      (auto intro: keeps_survive lawfulI)
  have "keeps scope (bnd (try_catch (connection fuel h l scope path) (survive l scope))
      (\<lambda>_. bnd (pause l) (\<lambda>_. stream_loop n fuel h l scope path))) (\<lambda>_. lawful scope) (w, st)"
    if "wscope w = scope"
    by (rule keeps_bnd, rule wp_mono [OF attempt [OF that]]) (auto intro: round)
  with lawfulI [OF Suc.prems] show ?case
    unfolding s stream_loop.simps
    by (simp add: wp_bnd [of "gets _"] wp_bnd [of "assert_current _ _"] wp_gets wp_ret
        wp_assert_current)
qed

text \<open>
  C4: whatever the server and the rest of the page do, a stream only ever talks and delivers in
  the session it was opened in; a reconnect sends exactly the id of the last frame that carried
  one; a resync is delivered before the frames of every connection and none without it; and the
  pause before each reconnect is 1000 * 2^min(k,4) ms, at most 15 s, where k counts the pauses
  since an event was last handled.
\<close>

theorem stream_follows_protocol:
  "protocol_run (wscope w) (Idle, [], 0) (st_log (snd (snd (streamEvents h path w)))) \<noteq> None"
proof -
  let ?w1 = "w\<lparr>w_session := snd (sessionRequest (w_aborted w) (w_session w))\<rparr>"
  have "following (wscope w) Idle (?w1, fresh_stream)"
    by (simp add: following_def fresh_stream_def)
  from keeps_stream_loop [OF this, of "Suc (length (w_script w))" "Suc (length (w_script w))" h
      "length (s_leases (w_session w))" path]
  show ?thesis
    by (auto simp: streamEvents_def Let_def wp_def lawful_def following_def
        split: prod.splits res.splits)
qed

section \<open>The fuel is enough\<close>

abbreviation script_left :: "world \<Rightarrow> nat" where
  "script_left w \<equiv> length (w_script w)"

abbreviation left_over :: "world \<times> stream \<Rightarrow> nat" where
  "left_over s \<equiv> script_left (fst s)"

lemma honest_await [honest_rules]: "honest script_left n await"
  by (rule honestI) (auto simp: await_def Let_def split: list.splits reply.splits)

lemma honest_io_basic [honest_rules]:
  "honest script_left n (modify_session g)" "honest script_left n (assert_scope c)"
  "honest script_left n (open_lease a)" "honest script_left n (start_refresh c)"
  unfolding modify_session_def start_refresh_def
  by (intro honest_rules; simp)
    (auto simp: honest_def assert_scope_def assertSession_def throw_def ret_def open_lease_def
      sessionRequest_def modify_def)

lemma honest_shared [honest_rules]: "honest script_left n (shared_result r)"
  by (cases r) (simp_all add: honest_basic)

lemma honest_lift [honest_rules]:
  assumes "honest script_left n m"
  shows "honest left_over n (lift_io m)"
proof (rule honestI)
  fix s r t assume lt: "left_over s < n" and run: "lift_io m s = (r, t)"
  obtain w st where s: "s = (w, st)" by (cases s)
  obtain r1 w1 where m: "m w = (r1, w1)" by (cases "m w")
  with run s have "r = r1" "t = (w1, st)" by (simp_all add: lift_io_def)
  with honestD [OF assms _ m] lt s show "left_over t \<le> left_over s \<and> (r = Waiting \<longrightarrow> left_over t = 0)"
    by simp
qed

lemma honest_stream_basic [honest_rules]:
  "honest left_over n (note_entry y)" "honest left_over n (call_listener h ev)"
  by (auto simp: honest_def run_defs note_entry_def call_listener_def split: prod.splits option.splits)

lemma honest_case_prod [honest_rules]:
  "(\<And>a b. p = (a, b) \<Longrightarrow> honest left n (f a b)) \<Longrightarrow> honest left n (case p of (a, b) \<Rightarrow> f a b)"
  by (cases p) simp

lemma honest_case_option [honest_rules]:
  "(x = None \<Longrightarrow> honest left n m) \<Longrightarrow> (\<And>y. x = Some y \<Longrightarrow> honest left n (f y)) \<Longrightarrow>
    honest left n (case x of None \<Rightarrow> m | Some y \<Rightarrow> f y)"
  by (cases x) simp_all

lemma honest_fetch [honest_rules]: "honest script_left n (fetch sig c)"
proof (rule honestI)
  fix s r t assume lt: "script_left s < n" and run: "fetch sig c s = (r, t)"
  have body: "honest script_left n (bnd await (\<lambda>r. case r of Response res \<Rightarrow> ret res
      | _ \<Rightarrow> throw (Err ''Failed to fetch'')))"
    by (intro honest_rules) (auto intro: honest_rules split: reply.split)
  show "script_left t \<le> script_left s \<and> (r = Waiting \<longrightarrow> script_left t = 0)"
  proof (cases "case sig of None \<Rightarrow> False | Some i \<Rightarrow> lease_aborted i s")
    case True
    with run show ?thesis by (auto simp: fetch_def throw_def)
  next
    case False
    with run have "bnd await (\<lambda>r. case r of Response res \<Rightarrow> ret res | _ \<Rightarrow> throw (Err ''Failed to fetch''))
        (s\<lparr>w_trace := w_trace s @ [c\<lparr>c_scope := wscope s\<rparr>]\<rparr>) = (r, t)"
      by (simp add: fetch_def)
    from honestD [OF body _ this] lt show ?thesis by simp
  qed
qed

lemma honest_refresh [honest_rules]: "honest script_left n (tryRefreshToken token c)"
proof -
  have json: "honest script_left n (read_json r)" for r
    unfolding read_json_def by (intro honest_rules)
  have accept: "honest script_left n (accept_renewed d)" for d
    unfolding accept_renewed_def Let_def by (auto intro!: honest_rules split: option.split json.split)
  have outcome: "honest script_left n (refresh_outcome c token r)" for r
    unfolding refresh_outcome_def by (intro honest_rules json accept)
  have do: "honest script_left n (doRefreshToken c token)"
    unfolding doRefreshToken_def by (intro honest_rules outcome) simp
  have locked: "honest script_left n (refresh_locked c token)"
    unfolding refresh_locked_def by (intro honest_rules do)
  have release: "script_left (release_refresh p w) = script_left w" for p w
    by (simp add: release_refresh_def split: prod.split option.split)
  show ?thesis
    unfolding tryRefreshToken_def by (intro honest_rules locked release)
qed

lemma honest_stream_pieces [honest_rules]:
  "honest left_over n (assert_current l c)" "honest left_over n (resync h)"
  "honest left_over n (on_frame h l c f)" "honest left_over n (open_stream l path hs)"
  "honest left_over n (renew_stream l c path hs)" "honest left_over n (survive l c e)"
  "honest left_over n (pause l)"
proof -
  show cur: "honest left_over n (assert_current l c)"
    unfolding assert_current_def by (intro honest_rules)
  show "honest left_over n (resync h)"
    unfolding resync_def by (intro honest_rules)
  show "honest left_over n (on_frame h l c f)"
    unfolding on_frame_def move_cursor_def hand_over_def
    by (intro honest_rules cur) (simp_all split: prod.split)
  show open_: "honest left_over n (open_stream l path hs)" for hs
    unfolding open_stream_def by (intro honest_rules)
  show "honest left_over n (renew_stream l c path hs)"
    unfolding renew_stream_def by (intro honest_rules cur open_)
  show "honest left_over n (survive l c e)"
    unfolding survive_def by (intro honest_rules)
  show "honest left_over n (pause l)"
    unfolding pause_def delay_def by (intro honest_rules) (simp split: prod.split)
qed

lemma honest_on_frames [honest_rules]: "honest left_over n (on_frames h l c fs)"
  by (induction fs) (auto intro: honest_rules)

text \<open>An await that returns has used up one settlement.\<close>

lemma honest_await_then:
  assumes "\<And>x. honest left_over n (f x)"
  shows "honest left_over (Suc n) (bnd (lift_io await) f)"
proof (rule honestI)
  fix s r t assume lt: "left_over s < Suc n" and run: "bnd (lift_io await) f s = (r, t)"
  obtain w st where s: "s = (w, st)" by (cases s)
  show "left_over t \<le> left_over s \<and> (r = Waiting \<longrightarrow> left_over t = 0)"
  proof (cases "w_script w")
    case Nil
    with s run show ?thesis by (auto simp: bnd_def lift_io_def await_def)
  next
    case (Cons k ks)
    let ?w = "w\<lparr>w_session := t_env k (w_session w), w_refresh := t_refresh k (w_refresh w),
                w_aborted := (w_aborted w \<or> t_abort k), w_script := ks\<rparr>"
    from run s Cons have "(\<exists>x. f x (?w, st) = (r, t)) \<or> (\<exists>e. r = Throw e \<and> t = (?w, st))"
      by (auto simp: bnd_def lift_io_def await_def Let_def split: reply.splits)
    then show ?thesis
    proof
      assume "\<exists>x. f x (?w, st) = (r, t)"
      then obtain x where "f x (?w, st) = (r, t)" by blast
      from honestD [OF assms _ this] lt s Cons show ?thesis by simp
    qed (use s Cons in auto)
  qed
qed

lemma honest_read_loop: "honest left_over n (read_loop n h l c p)"
proof (induction n arbitrary: p)
  case 0
  then show ?case by (simp add: honest_def)
next
  case (Suc n)
  have frames: "honest left_over n (case push_chunk p chunk of
        (fs, Inl Oversized) \<Rightarrow> bnd (on_frames h l c fs) (\<lambda>_. throw (Err ''Oversized event stream frame''))
      | (fs, Inr q) \<Rightarrow> bnd (on_frames h l c fs) (\<lambda>_. read_loop n h l c q))" for chunk
    by (auto intro!: honest_bnd honest_on_frames honest_basic Suc.IH
        split: prod.split sum.split stream_error.split)
  show ?case
    unfolding read_loop.simps
    by (intro honest_bnd honest_basic honest_if honest_await_then honest_stream_pieces)
      (auto intro: honest_basic frames split: reply.split option.split)
qed

lemma honest_finally_await:
  assumes "honest left_over n m"
  shows "honest left_over n (finally_await m)"
proof (rule honestI)
  fix s r t assume lt: "left_over s < n" and run: "finally_await m s = (r, t)"
  obtain r1 s1 where m: "m s = (r1, s1)" by (cases "m s")
  obtain r2 s2 where a: "lift_io await s1 = (r2, s2)" by (cases "lift_io await s1")
  have "left_over s2 \<le> left_over s1 \<and> (r2 = Waiting \<longrightarrow> left_over s2 = 0)"
    by (rule honestD [OF honest_lift [OF honest_await [of "Suc (left_over s1)"]] _ a]) simp
  with honestD [OF assms lt m] m a run show "left_over t \<le> left_over s \<and> (r = Waiting \<longrightarrow> left_over t = 0)"
    by (auto simp: finally_await_def split: res.splits)
qed

lemma honest_connection: "honest left_over n (connection n h l c path)"
proof -
  have "honest left_over n (receive n h l c res)" for res
    unfolding receive_def
    by (intro honest_bnd honest_basic honest_if honest_stream_pieces honest_finally_await honest_read_loop)
  then show ?thesis
    unfolding connection_def
    by (intro honest_bnd honest_basic honest_if honest_stream_pieces honest_case_prod)
qed

lemma honest_mono: "honest left n m \<Longrightarrow> k \<le> n \<Longrightarrow> honest left k m"
  by (rule honestI, drule honestD) auto

text \<open>A pause that returns has used up one settlement.\<close>

lemma pause_uses: "pause l s = (Ret u, t) \<Longrightarrow> left_over t < left_over s"
  by (cases s) (auto simp: pause_def delay_def note_entry_def lift_io_def await_def run_defs Let_def
      split: list.splits reply.splits if_splits)

lemma honest_stream_loop:
  "n \<le> fuel \<Longrightarrow> honest left_over n (stream_loop n fuel h l c path)"
proof (induction n)
  case 0
  then show ?case by (simp add: honest_def)
next
  case (Suc n)
  let ?attempt = "try_catch (connection fuel h l c path) (survive l c)"
  have attempt: "honest left_over (Suc n) ?attempt"
    using Suc.prems by (intro honest_try_catch honest_stream_pieces honest_mono [OF honest_connection])
  have round: "honest left_over (Suc n) (bnd (pause l) (\<lambda>_. stream_loop n fuel h l c path))"
  proof (rule honestI)
    fix s r t assume lt: "left_over s < Suc n" and run: "bnd (pause l) (\<lambda>_. stream_loop n fuel h l c path) s = (r, t)"
    obtain r1 s1 where p: "pause l s = (r1, s1)" by (cases "pause l s")
    note first = honestD [OF honest_stream_pieces(7) lt p]
    show "left_over t \<le> left_over s \<and> (r = Waiting \<longrightarrow> left_over t = 0)"
    proof (cases r1)
      case (Ret u)
      with p run have run': "stream_loop n fuel h l c path s1 = (r, t)" by (simp add: bnd_def)
      from pause_uses [OF p [unfolded Ret]] lt have "left_over s1 < n" by simp
      from honestD [OF Suc.IH this run'] Suc.prems first show ?thesis by simp
    qed (use p run first in \<open>auto simp: bnd_def\<close>)
  qed
  show ?case
    unfolding stream_loop.simps
    by (intro honest_bnd honest_basic honest_if honest_stream_pieces attempt round)
qed

text \<open>
  The fuel of the two loops is never what stops them: a stream that is still suspended has
  used up everything the environment offered.
\<close>

lemma stream_suspended:
  assumes "streamEvents h path w = (Waiting, t, st)"
  shows "w_script t = []"
proof -
  let ?n = "Suc (length (w_script w))"
  let ?s = "(w\<lparr>w_session := snd (sessionRequest (w_aborted w) (w_session w))\<rparr>, fresh_stream)"
  let ?run = "stream_loop ?n ?n h (length (s_leases (w_session w))) (wscope w) path ?s"
  have "?run = (Waiting, t, st)"
    using assms by (auto simp: streamEvents_def Let_def split: prod.splits res.splits)
  from honestD [OF honest_stream_loop [of ?n ?n] _ this] show ?thesis by simp
qed

definition silent_handler :: handler where
  "silent_handler = \<lparr>h_event = (\<lambda>e s. (None, s)), h_transform = None, h_parse = (\<lambda>_. None)\<rparr>"

lemma stream_suspended_example:
  "fst (streamEvents silent_handler ''/events'' example_world) = Waiting \<and>
    w_script (fst (snd (streamEvents silent_handler ''/events'' example_world))) = []"
proof -
  let ?r = "streamEvents silent_handler ''/events'' example_world"
  have "fst ?r = Waiting" by code_simp
  then have "?r = (Waiting, fst (snd ?r), snd (snd ?r))" by (metis prod.collapse)
  from stream_suspended [OF this] \<open>fst ?r = Waiting\<close> show ?thesis by simp
qed

end
