(* ===== verification/ErrorCode.thy ===== *)
theory ErrorCode
  imports ApiBase
begin

text \<open>
  Reading codes and texts off whatever was thrown: \<^verbatim>\<open>web/lib/error-code.ts\<close> and
  \<^verbatim>\<open>errorText\<close> of \<^verbatim>\<open>web/lib/company.ts\<close>. A thrown value is a parsed error body
  (\<^const>\<open>Api\<close>, any JSON value), an \<^verbatim>\<open>Error\<close> or a \<^verbatim>\<open>DOMException\<close>.
\<close>

section \<open>Codes\<close>

fun is_js_object :: "json option \<Rightarrow> bool" where
  "is_js_object (Some (JObj _)) = True"
| "is_js_object (Some (JArr _)) = True"
| "is_js_object _ = False"

fun errorPayload :: "exn \<Rightarrow> json option" where
  "errorPayload (Api v) =
     (if is_js_object (Some v) \<and> is_js_object (get_prop v ''error'') then get_prop v ''error'' else None)"
| "errorPayload _ = None"

definition nonempty_text :: "json option \<Rightarrow> string option" where
  "nonempty_text v = (case v of Some (JStr t) \<Rightarrow> if t = [] then None else Some t | _ \<Rightarrow> None)"

definition errorCode :: "exn \<Rightarrow> string option" where
  "errorCode e = nonempty_text (opt_prop (errorPayload e) ''code'')"

definition errorReason :: "exn \<Rightarrow> string option" where
  "errorReason e = nonempty_text (opt_prop (errorPayload e) ''reason'')"

definition isConflict :: "exn \<Rightarrow> bool" where
  "isConflict e = (errorCode e = Some ''CONFLICT'')"

definition DETERMINISTIC_ERROR_CODES :: "string list" where
  "DETERMINISTIC_ERROR_CODES = [''CONFLICT'', ''FORBIDDEN'', ''NOT_FOUND'', ''UNAUTHORIZED'']"

definition isDeterministicErrorCode :: "string option \<Rightarrow> bool" where
  "isDeterministicErrorCode code =
     (case code of None \<Rightarrow> False | Some c \<Rightarrow> c \<noteq> [] \<and> c \<in> set DETERMINISTIC_ERROR_CODES)"

text \<open>\<^verbatim>\<open>dom_message\<close> is the browser's message of a \<^verbatim>\<open>DOMException\<close>.\<close>

fun errorText :: "(string \<Rightarrow> string) \<Rightarrow> exn \<Rightarrow> json" where
  "errorText dom_message (Api v) =
     (case opt_prop (get_prop v ''error'') ''message'' of
        Some m \<Rightarrow> if truthy (Some m) then m else JStr ''Request failed''
      | None \<Rightarrow> JStr ''Request failed'')"
| "errorText dom_message (Err m) = JStr m"
| "errorText dom_message (DOMException n) = JStr (dom_message n)"

lemma errorCode_nonempty: "errorCode e \<noteq> Some []"
  by (auto simp: errorCode_def nonempty_text_def split: option.splits json.splits)

lemma errorCode_api_error: "errorCode (Api (api_error code message)) = (if code = [] then None else Some code)"
  by (simp add: errorCode_def api_error_def opt_prop_def nonempty_text_def)

lemma errorCode_thrown [simp]: "errorCode (Err m) = None" "errorCode (DOMException n) = None"
  by (simp_all add: errorCode_def opt_prop_def nonempty_text_def)

lemma conflict_deterministic: "isConflict e \<Longrightarrow> isDeterministicErrorCode (errorCode e)"
  by (simp add: isConflict_def isDeterministicErrorCode_def DETERMINISTIC_ERROR_CODES_def)

end
