(* ===== verification/Numerals.thy ===== *)
theory Numerals
  imports Prelude "HOL-Library.Log_Nat"
begin

text \<open>
  What the forms of the source use of JavaScript's numbers: \<^verbatim>\<open>Number(text)\<close> with its grammar
  of numeric strings and its rounding to the nearest double (ties to even), and the decimal text
  of an integer. The sign of zero is not kept: no comparison or printed request tells
  \<^verbatim>\<open>-0\<close> from \<^verbatim>\<open>0\<close>.
\<close>

section \<open>Rounding\<close>

definition round_even :: "rat \<Rightarrow> int" where
  "round_even q =
     (let f = \<lfloor>q\<rfloor>; d = q - of_int f
      in if d < 1 / 2 then f else if d > 1 / 2 then f + 1 else if even f then f else f + 1)"

definition pow2 :: "int \<Rightarrow> rat" where
  "pow2 e = (if 0 \<le> e then 2 ^ nat e else 1 / 2 ^ nat (- e))"

text \<open>The binary exponent of a positive rational.\<close>

definition exponent :: "rat \<Rightarrow> int" where
  "exponent q =
     (case quotient_of q of (a, b) \<Rightarrow>
        let e = int (floorlog 2 (nat a)) - int (floorlog 2 (nat b))
        in if pow2 e \<le> q then e else e - 1)"

definition magnitude :: "rat \<Rightarrow> number" where
  "magnitude q =
     (if q = 0 then Fin 0
      else let u = pow2 (max (exponent q) (- 1022) - 52); r = of_int (round_even (q / u)) * u
           in if r < pow2 1024 then Fin r else PosInf)"

definition negative :: "number \<Rightarrow> number" where
  "negative x = (case x of Fin q \<Rightarrow> Fin (- q) | PosInf \<Rightarrow> NegInf | NegInf \<Rightarrow> PosInf | NaN \<Rightarrow> NaN)"

section \<open>Numeric strings\<close>

definition digit_value :: "char \<Rightarrow> nat" where
  "digit_value c = (let n = (of_char c :: nat) in
     if n \<le> 57 then n - 48 else if n \<le> 90 then n - 55 else n - 87)"

definition digits_nat :: "nat \<Rightarrow> string \<Rightarrow> nat" where
  "digits_nat base s = foldl (\<lambda>a c. base * a + digit_value c) 0 s"

definition all_digits :: "string \<Rightarrow> bool" where
  "all_digits s = (s \<noteq> [] \<and> list_all is_digit s)"

text \<open>The exponent part, with the letter removed.\<close>

definition signed_digits :: "string \<Rightarrow> int option" where
  "signed_digits s =
     (case s of
        [] \<Rightarrow> None
      | c # cs \<Rightarrow>
          if c = CHR ''-'' then (if all_digits cs then Some (- int (digits_nat 10 cs)) else None)
          else if c = CHR ''+'' then (if all_digits cs then Some (int (digits_nat 10 cs)) else None)
          else (if all_digits s then Some (int (digits_nat 10 s)) else None))"

definition pow10 :: "int \<Rightarrow> rat" where
  "pow10 e = (if 0 \<le> e then 10 ^ nat e else 1 / 10 ^ nat (- e))"

text \<open>An unsigned decimal literal: \<^verbatim>\<open>1\<close>, \<^verbatim>\<open>1.\<close>, \<^verbatim>\<open>1.5\<close>, \<^verbatim>\<open>.5\<close>, each with an exponent.\<close>

definition unsigned_decimal :: "string \<Rightarrow> number option" where
  "unsigned_decimal s =
     (let is_e = (\<lambda>c. c = CHR ''e'' \<or> c = CHR ''E'');
          mant = takeWhile (\<lambda>c. \<not> is_e c) s; rest = dropWhile (\<lambda>c. \<not> is_e c) s;
          whole = takeWhile (\<lambda>c. c \<noteq> CHR ''.'') mant; tail = dropWhile (\<lambda>c. c \<noteq> CHR ''.'') mant;
          frac = drop 1 tail
      in if \<not> list_all is_digit whole \<or> \<not> list_all is_digit frac \<or> whole @ frac = [] then None
         else case (if rest = [] then Some 0 else signed_digits (drop 1 rest)) of
           None \<Rightarrow> None
         | Some e \<Rightarrow> Some (magnitude (of_nat (digits_nat 10 (whole @ frac)) * pow10 (e - int (length frac)))))"

definition radix_literal :: "string \<Rightarrow> number option" where
  "radix_literal s =
     (let base = (if starts_with ''0x'' s \<or> starts_with ''0X'' s then 16
                  else if starts_with ''0o'' s \<or> starts_with ''0O'' s then 8
                  else if starts_with ''0b'' s \<or> starts_with ''0B'' s then 2 else (0::nat));
          ds = drop 2 s
      in if base = 0 then None
         else if ds \<noteq> [] \<and> list_all (\<lambda>c. is_hex c \<and> digit_value c < base) ds
         then Some (magnitude (of_nat (digits_nat base ds))) else Some NaN)"

definition js_number :: "string \<Rightarrow> number" where
  "js_number text0 =
     (let s = js_trim text0 in
      if s = [] then Fin 0
      else case radix_literal s of
        Some x \<Rightarrow> x
      | None \<Rightarrow>
          let neg = starts_with ''-'' s; body = (if neg \<or> starts_with ''+'' s then drop 1 s else s);
              x = (if body = ''Infinity'' then Some PosInf else unsigned_decimal body)
          in case x of None \<Rightarrow> NaN | Some y \<Rightarrow> if neg then negative y else y)"

text \<open>\<^verbatim>\<open>String(n)\<close> for an integer of at most sixteen digits.\<close>

definition js_of_nat :: "nat \<Rightarrow> string" where
  "js_of_nat n = index_key n"

section \<open>Integers are read back\<close>

lemma round_even_int [simp]: "round_even (of_int n) = n"
  by (simp add: round_even_def)

lemma pow2_pos [simp]: "0 < pow2 e"
  by (simp add: pow2_def)

lemma floorlog_bounds:
  assumes "0 < n" shows "2 ^ (floorlog 2 n - 1) \<le> n" "n < 2 ^ floorlog 2 n" "0 < floorlog 2 n"
  using floorlog_bounds[of n 2] assms by (auto simp: floorlog_def)

lemma exponent_nat:
  assumes "0 < n" shows "exponent (of_nat n) = int (floorlog 2 n) - 1"
proof -
  have q: "quotient_of (of_nat n) = (int n, 1)"
    using quotient_of_int[of "int n"] by simp
  have one: "floorlog 2 (Suc 0) = Suc 0" by (simp add: floorlog_def)
  have "(2::rat) ^ (floorlog 2 n - 1) = of_nat (2 ^ (floorlog 2 n - 1))" by simp
  also have "\<dots> \<le> of_nat n" using floorlog_bounds(1)[OF assms] by (simp only: of_nat_le_iff)
  finally have "pow2 (int (floorlog 2 n) - 1) \<le> of_nat n"
    using floorlog_bounds(3)[OF assms] by (simp add: pow2_def nat_diff_distrib)
  then show ?thesis by (simp add: exponent_def q one Let_def)
qed

lemma magnitude_nat:
  assumes "n \<le> 9007199254740991" shows "magnitude (of_nat n) = Fin (of_nat n)"
proof (cases "n = 0")
  case False
  let ?e = "exponent (of_nat n)"
  have "floorlog 2 n \<le> 53"
  proof (rule ccontr)
    assume "\<not> floorlog 2 n \<le> 53"
    then have "(2::nat) ^ 53 \<le> 2 ^ (floorlog 2 n - 1)" by (intro power_increasing) auto
    with floorlog_bounds(1)[of n] False assms show False by simp
  qed
  then have e: "0 \<le> ?e" "?e \<le> 52"
    using False floorlog_bounds(3)[of n] by (auto simp: exponent_nat)
  have m: "max ?e (- 1022) = ?e" using e by simp
  have u: "pow2 (?e - 52) = 1 / 2 ^ nat (52 - ?e)"
    using e by (cases "?e = 52") (auto simp: pow2_def)
  have "of_nat n / pow2 (?e - 52) = of_int (int n * 2 ^ nat (52 - ?e))" by (simp add: u)
  then have "of_int (round_even (of_nat n / pow2 (?e - 52))) * pow2 (?e - 52) = (of_nat n :: rat)"
    by (simp only: round_even_int u) simp
  moreover have "of_nat n < pow2 1024"
  proof -
    have "(of_nat n :: rat) \<le> of_nat 9007199254740991" using assms by (simp only: of_nat_le_iff)
    also have "\<dots> < pow2 1024" by (simp add: pow2_def)
    finally show ?thesis .
  qed
  ultimately show ?thesis using False by (simp add: magnitude_def m Let_def)
qed (simp add: magnitude_def)

lemma digit_char:
  assumes "m < (10::nat)" shows "is_digit (char_of (48 + m)) \<and> digit_value (char_of (48 + m)) = m"
proof -
  have "\<forall>m\<in>set [0, 1, 2, 3, 4, 5, 6, 7, 8, 9 :: nat].
      is_digit (char_of (48 + m)) \<and> digit_value (char_of (48 + m)) = m"
    by code_simp
  moreover have "m \<in> set [0, 1, 2, 3, 4, 5, 6, 7, 8, 9]" using assms by auto
  ultimately show ?thesis by blast
qed

lemma index_key_digits: "all_digits (index_key n)"
proof (induction n rule: index_key.induct)
  case (1 n)
  show ?case
    using 1 digit_char[of n] digit_char[of "n mod 10"] by (subst index_key.simps) (simp add: all_digits_def)
qed

lemma index_key_value: "digits_nat 10 (index_key n) = n"
proof (induction n rule: index_key.induct)
  case (1 n)
  show ?case
    using 1 digit_char[of n] digit_char[of "n mod 10"] by (subst index_key.simps) (simp add: digits_nat_def)
qed

lemma digit_facts:
  assumes "is_digit c"
  shows "\<not> is_space c" "c \<noteq> CHR ''.''" "c \<noteq> CHR ''e''" "c \<noteq> CHR ''E''" "c \<noteq> CHR ''-''"
    "c \<noteq> CHR ''+''" "c \<noteq> CHR ''x''" "c \<noteq> CHR ''X''" "c \<noteq> CHR ''o''" "c \<noteq> CHR ''O''"
    "c \<noteq> CHR ''b''" "c \<noteq> CHR ''B''" "c \<noteq> CHR ''I''"
  using assms by (auto simp: is_digit_def is_space_def)

lemma digits_trim: "all_digits s \<Longrightarrow> js_trim s = s"
proof -
  assume a: "all_digits s"
  then have "\<forall>c\<in>set s. \<not> is_space c" by (auto simp: all_digits_def list_all_iff digit_facts)
  moreover have "(\<forall>c\<in>set t. \<not> is_space c) \<Longrightarrow> dropWhile is_space t = t" for t by (cases t) auto
  ultimately have "dropWhile is_space s = s" "dropWhile is_space (rev s) = rev s"
    by (metis set_rev)+
  then show ?thesis by (simp add: js_trim_def)
qed

lemma digits_number:
  assumes "all_digits s" shows "js_number s = magnitude (of_nat (digits_nat 10 s))"
proof -
  have d: "c \<in> set s \<Longrightarrow> is_digit c" for c using assms by (simp add: all_digits_def list_all_iff)
  obtain c cs where s: "s = c # cs" using assms by (cases s) (auto simp: all_digits_def)
  have t: "(\<forall>c\<in>set t. P c) \<Longrightarrow> takeWhile P t = t \<and> dropWhile P t = []" for P and t :: string
    by (induction t) auto
  have e: "takeWhile (\<lambda>c. \<not> (c = CHR ''e'' \<or> c = CHR ''E'')) s = s"
    "dropWhile (\<lambda>c. \<not> (c = CHR ''e'' \<or> c = CHR ''E'')) s = []"
    "takeWhile (\<lambda>c. c \<noteq> CHR ''.'') s = s" "dropWhile (\<lambda>c. c \<noteq> CHR ''.'') s = []"
  proof -
    have "\<forall>c\<in>set s. \<not> (c = CHR ''e'' \<or> c = CHR ''E'')" "\<forall>c\<in>set s. c \<noteq> CHR ''.''"
      using d digit_facts(2,3,4) by blast+
    from this[THEN t] show "takeWhile (\<lambda>c. \<not> (c = CHR ''e'' \<or> c = CHR ''E'')) s = s"
      "dropWhile (\<lambda>c. \<not> (c = CHR ''e'' \<or> c = CHR ''E'')) s = []"
      "takeWhile (\<lambda>c. c \<noteq> CHR ''.'') s = s" "dropWhile (\<lambda>c. c \<noteq> CHR ''.'') s = []"
      by simp_all
  qed
  have u: "unsigned_decimal s = Some (magnitude (of_nat (digits_nat 10 s)))"
    using assms by (simp only: unsigned_decimal_def Let_def e) (simp add: all_digits_def pow10_def)
  have r: "radix_literal s = None"
  proof (cases cs)
    case (Cons b bs)
    then show ?thesis using d digit_facts[of b] by (simp add: radix_literal_def starts_with_def s)
  qed (simp add: radix_literal_def starts_with_def s)
  have "\<not> starts_with ''-'' s" "\<not> starts_with ''+'' s" "s \<noteq> ''Infinity''"
    using d[of c] digit_facts[of c] by (auto simp: s starts_with_def)
  moreover have "s \<noteq> []" using s by simp
  ultimately show ?thesis
    using u r unfolding js_number_def digits_trim[OF assms] by (simp add: Let_def)
qed

lemma js_number_of_nat: "n \<le> 9007199254740991 \<Longrightarrow> js_number (js_of_nat n) = Fin (of_nat n)"
  by (simp add: js_of_nat_def digits_number index_key_digits index_key_value magnitude_nat)

lemma js_of_nat_nonempty: "js_of_nat n \<noteq> []" "js_trim (js_of_nat n) = js_of_nat n"
  using index_key_digits[of n] by (auto simp: js_of_nat_def all_digits_def digits_trim)

end
