(* ===== verification/DraftWriter.thy ===== *)
theory DraftWriter
  imports ErrorCode Numerals "HOL-Library.List_Lexorder" "HOL-Library.Char_ord"
begin

text \<open>
  The single-lane draft writer of \<^verbatim>\<open>web/features/mail/draft-writer.ts\<close>.

  Drafts are the JSON objects that travel; an object that was cloned is the same value here.
  The transport is the environment: each of its promises is settled by one entry of the
  script, together with what the rest of the page did meanwhile (session changes, closing the
  editor). Saves and reloads chained on \<^verbatim>\<open>tail\<close> run one after the other, which is
  \<^verbatim>\<open>run_lane\<close>.
\<close>

section \<open>Drafts\<close>

record draft_input =
  i_mailbox_id :: json
  i_payload :: json

definition length_falsy :: "json option \<Rightarrow> bool" where
  "length_falsy v = (case v of Some (JArr vs) \<Rightarrow> vs = [] | Some (JStr s) \<Rightarrow> s = []
     | Some (JObj kvs) \<Rightarrow> \<not> truthy (map_of kvs ''length'') | _ \<Rightarrow> True)"

text \<open>The values \<^verbatim>\<open>JSON.stringify\<close> prints, with the keys of every object sorted.\<close>

primrec canonical :: "json \<Rightarrow> json" where
  "canonical JNull = JNull"
| "canonical (JBool b) = JBool b"
| "canonical (JNum x) = (case x of Fin q \<Rightarrow> JNum (Fin q) | _ \<Rightarrow> JNull)"
| "canonical (JStr s) = JStr s"
| "canonical (JArr vs) = JArr (map canonical vs)"
| "canonical (JObj kvs) = JObj (sort_key fst (map (map_prod id canonical) kvs))"

definition drops_key :: "(string \<times> json) list \<Rightarrow> string \<Rightarrow> bool" where
  "drops_key p k =
     (if k \<in> set [''cc'', ''bcc'', ''attachment_ids''] then length_falsy (map_of p k)
      else if k \<in> set [''html_body'', ''template_version_id''] then \<not> truthy (map_of p k)
      else if k \<in> set [''headers'', ''template_vars''] then
        spread (map_of p k) = []
      else False)"

text \<open>
  The key is kept as the value that is printed; two keys are the same text exactly when these
  values are the same.
\<close>

definition draftKey :: "json \<Rightarrow> json option \<times> json" where
  "draftKey input =
     (let p = spread (get_prop input ''payload'')
      in (map_option canonical (get_prop input ''mailbox_id''),
          canonical (JObj (filter (\<lambda>(k, v). \<not> drops_key p k) p))))"

definition input_json :: "draft_input \<Rightarrow> json" where
  "input_json i = JObj [(''mailbox_id'', i_mailbox_id i), (''payload'', i_payload i)]"

section \<open>State\<close>

record command =
  m_draft :: json
  m_create :: bool
  m_uncertain :: bool

text \<open>A ghost log of what the lane did.\<close>

datatype lane_entry = Wrote json bool scope bool | Acked json | Refused | Unknown | Latched | Reloaded json

record draft_tick =
  dt_env :: "session \<Rightarrow> session"
  dt_close :: bool
  dt_result :: "exn + json option"

record draft_world =
  d_session :: session
  d_scope :: scope
  d_snapshot :: json
  d_confirmed :: "json option"
  d_closed :: bool
  d_conflict :: "exn option"
  d_pending :: "command option"
  d_script :: "draft_tick list"
  d_log :: "lane_entry list"

type_synonym 'a dio = "(draft_world, exn, 'a) act"

definition d_current :: "draft_world \<Rightarrow> scope" where
  "d_current d = sessionScope (d_session d)"

definition d_assert :: "scope \<Rightarrow> unit dio" where
  "d_assert c = (\<lambda>d. (fst (assertSession c (d_session d)), d))"

interpretation drafts: scope_guard d_current d_assert
  by unfold_locales (simp_all add: d_assert_def d_current_def session.guard_pass session.guard_stop)

definition construct :: "json \<Rightarrow> string \<Rightarrow> session \<Rightarrow> draft_tick list \<Rightarrow> draft_world" where
  "construct initial uuid s script =
     (let ident = get_prop initial ''id'';
          own = (if truthy ident then the ident else JStr uuid)
      in \<lparr>d_session = s, d_scope = sessionScope s,
          d_snapshot = JObj (merge_objects (spread (Some initial)) [(''id'', own)]),
          d_confirmed = (if has_own initial ''updated_at'' then Some initial else None),
          d_closed = False, d_conflict = None, d_pending = None, d_script = script, d_log = []\<rparr>)"

definition draft_id :: "json \<Rightarrow> json option" where
  "draft_id d = get_prop d ''id''"

definition revision :: "json \<Rightarrow> json option" where
  "revision d = get_prop d ''revision''"

fun safe_revision :: "json option \<Rightarrow> int option" where
  "safe_revision (Some (JNum (Fin q))) =
     (if is_safe_integer (Fin q) then Some \<lfloor>q\<rfloor> else None)"
| "safe_revision _ = None"

section \<open>Operations\<close>

definition check :: "unit dio" where
  "check =
     bnd (gets d_scope) (\<lambda>c.
     bnd (d_assert c) (\<lambda>_.
     bnd (gets d_closed) (\<lambda>closed.
     if closed then throw (DOMException ''AbortError'') else ret ())))"

definition d_note :: "lane_entry \<Rightarrow> unit dio" where
  "d_note x = modify (\<lambda>d. d\<lparr>d_log := d_log d @ [x]\<rparr>)"

definition d_await :: "json option dio" where
  "d_await = (\<lambda>d. case d_script d of [] \<Rightarrow> (Waiting, d)
     | t # ts \<Rightarrow>
        (let d' = d\<lparr>d_session := dt_env t (d_session d), d_closed := (d_closed d \<or> dt_close t),
                    d_script := ts\<rparr>
         in case dt_result t of Inl e \<Rightarrow> (Throw e, d') | Inr v \<Rightarrow> (Ret v, d')))"

definition transport_write :: "command \<Rightarrow> json option dio" where
  "transport_write c =
     bnd (gets (\<lambda>d. (d_current d, d_closed d))) (\<lambda>(now, closed).
     bnd (d_note (Wrote (m_draft c) (m_create c) now closed)) (\<lambda>_. d_await))"

definition acknowledgementMatches :: "json \<Rightarrow> command \<Rightarrow> bool" where
  "acknowledgementMatches observed c =
     (case (safe_revision (revision (m_draft c)), safe_revision (revision observed)) of
        (Some sent, Some seen) \<Rightarrow>
          sent \<ge> 0 \<and> seen \<ge> 1 \<and> strict_eq (draft_id observed) (draft_id (m_draft c)) \<and>
          seen = sent + 1 \<and> draftKey observed = draftKey (m_draft c)
      | _ \<Rightarrow> False)"

definition accept :: "json \<Rightarrow> json dio" where
  "accept saved =
     bnd (d_note (Acked saved)) (\<lambda>_.
     bnd (modify (\<lambda>d. d\<lparr>d_snapshot := saved, d_confirmed := Some saved, d_pending := None\<rparr>)) (\<lambda>_.
     ret saved))"

definition changed_elsewhere :: exn where
  "changed_elsewhere =
     Api (api_error ''CONFLICT'' ''Draft changed elsewhere; reload or keep a new private copy'')"

definition unconfirmed :: exn where
  "unconfirmed = Err ''Draft save is still unconfirmed; retry the original request when connected''"

text \<open>A failed readback is no observation.\<close>

definition read_back :: "json option dio" where
  "read_back = try_catch d_await (\<lambda>_. ret None)"

text \<open>
  \<^verbatim>\<open>observed.revision > command.draft.revision\<close> for whatever came off the wire: two texts (an
  object prints as one) compare as texts, everything else as the numbers it converts to. An array is
  compared by its number also against a text.
\<close>

fun to_number :: "json \<Rightarrow> number" where
  "to_number JNull = Fin 0"
| "to_number (JBool b) = Fin (of_bool b)"
| "to_number (JNum x) = x"
| "to_number (JStr s) = js_number s"
| "to_number (JObj kvs) = NaN"
| "to_number (JArr []) = Fin 0"
| "to_number (JArr [JBool b]) = NaN"
| "to_number (JArr [v]) = to_number v"
| "to_number (JArr (v # w # vs)) = NaN"

fun as_text :: "json option \<Rightarrow> string option" where
  "as_text (Some (JStr s)) = Some s"
| "as_text (Some (JObj kvs)) = Some ''[object Object]''"
| "as_text _ = None"

definition js_greater :: "json option \<Rightarrow> json option \<Rightarrow> bool" where
  "js_greater a b =
     (case (as_text a, as_text b) of
        (Some s, Some t) \<Rightarrow> t < s
      | _ \<Rightarrow> (case (a, b) of (Some v, Some w) \<Rightarrow> num_less (to_number w) (to_number v) | _ \<Rightarrow> False))"

definition newer :: "json \<Rightarrow> command \<Rightarrow> bool" where
  "newer observed c = js_greater (revision observed) (revision (m_draft c))"

definition settle_unknown :: "command \<Rightarrow> exn \<Rightarrow> bool \<Rightarrow> json dio" where
  "settle_unknown c e mayReplayConflict =
     bnd (d_note Unknown) (\<lambda>_.
     bnd (modify (\<lambda>d. d\<lparr>d_pending := Some (c\<lparr>m_uncertain := True\<rparr>)\<rparr>)) (\<lambda>_.
     bnd read_back (\<lambda>answer.
     bnd check (\<lambda>_.
     bnd (gets d_snapshot) (\<lambda>snapshot.
     case answer of
       Some observed \<Rightarrow>
         if truthy (Some observed) \<and> acknowledgementMatches observed c then accept observed
         else if truthy (Some observed) \<and>
                 (\<not> strict_eq (draft_id observed) (draft_id snapshot) \<or> newer observed c)
         then bnd (d_note Latched) (\<lambda>_.
              bnd (modify (\<lambda>d. d\<lparr>d_conflict := Some changed_elsewhere\<rparr>)) (\<lambda>_.
              throw changed_elsewhere))
         else throw (if mayReplayConflict then unconfirmed else e)
     | None \<Rightarrow> throw (if mayReplayConflict then unconfirmed else e))))))"

definition refuse :: "exn \<Rightarrow> json dio" where
  "refuse e =
     bnd (d_note (if isDeterministicErrorCode (errorCode e) then Latched else Refused)) (\<lambda>_.
     bnd (modify (\<lambda>d. d\<lparr>d_conflict := (if isDeterministicErrorCode (errorCode e) then Some e
                                       else d_conflict d),
                        d_pending := None\<rparr>)) (\<lambda>_.
     throw e))"

definition write_failed :: "command \<Rightarrow> exn \<Rightarrow> json dio" where
  "write_failed c e =
     bnd check (\<lambda>_.
     let code = errorCode e;
         unknown = (code = None \<or> code = Some ''INTERNAL_ERROR'' \<or> code = Some ''INTERNAL'');
         mayReplayConflict = (m_uncertain c \<and> isConflict e) in
     if unknown \<or> mayReplayConflict then settle_unknown c e mayReplayConflict
     else refuse e)"

definition submit :: "command \<Rightarrow> json dio" where
  "submit c =
     bnd (transport_write c) (\<lambda>answer.
     bnd check (\<lambda>_.
     case answer of
       Some saved \<Rightarrow>
         if acknowledgementMatches saved c then ret saved
         else throw (Err ''Draft acknowledgement does not match the submitted revision'')
     | None \<Rightarrow> throw (Err ''TypeError'')))"

definition persist :: "command \<Rightarrow> json dio" where
  "persist c = bnd check (\<lambda>_. try_else (submit c) (write_failed c) accept)"

definition save_command :: "json \<Rightarrow> draft_input \<Rightarrow> bool \<Rightarrow> command" where
  "save_command snapshot i create =
     \<lparr>m_draft = JObj (merge_objects (spread (Some snapshot)) (spread (Some (input_json i)))),
      m_create = create, m_uncertain = False\<rparr>"

definition unsafe_revision :: exn where
  "unsafe_revision = Err ''Draft revision cannot be represented safely in this editor''"

definition unsafe_next :: exn where
  "unsafe_next = Err ''Draft next revision cannot be represented safely in this editor''"

text \<open>The part of a save after the pending write.\<close>

definition save_rest :: "draft_input \<Rightarrow> json dio" where
  "save_rest i =
     bnd check (\<lambda>_.
     bnd (gets (\<lambda>d. (d_snapshot d, d_confirmed d))) (\<lambda>(snapshot, confirmed).
     case safe_revision (revision snapshot) of
       None \<Rightarrow> throw unsafe_revision
     | Some r \<Rightarrow>
         if r < 0 then throw unsafe_revision
         else if confirmed \<noteq> None \<and> r > 0 \<and> draftKey (input_json i) = draftKey snapshot
         then ret (the confirmed)
         else if of_int r = max_safe_integer then throw unsafe_next
         else persist (save_command snapshot i (r = 0))))"

definition save :: "draft_input \<Rightarrow> json dio" where
  "save i =
     bnd check (\<lambda>_.
     bnd (gets (\<lambda>d. (d_conflict d, d_pending d))) (\<lambda>(conflict, pending).
     case conflict of
       Some e \<Rightarrow> throw e
     | None \<Rightarrow>
         bnd (case pending of Some c \<Rightarrow> bnd (persist c) (\<lambda>_. ret ()) | None \<Rightarrow> ret ())
           (\<lambda>_. save_rest i)))"

definition mismatch :: exn where
  "mismatch = Err ''Draft readback identity does not match this editor''"

definition reload :: "json dio" where
  "reload =
     bnd check (\<lambda>_.
     bnd d_await (\<lambda>answer.
     bnd check (\<lambda>_.
     bnd (gets d_snapshot) (\<lambda>snapshot.
     case answer of
       None \<Rightarrow> throw (Err ''TypeError'')
     | Some observed \<Rightarrow>
         (case safe_revision (revision observed) of
            None \<Rightarrow> throw mismatch
          | Some r \<Rightarrow>
              if \<not> strict_eq (draft_id observed) (draft_id snapshot) \<or> r < 1 then throw mismatch
              else
                bnd (d_note (Reloaded observed)) (\<lambda>_.
                bnd (modify (\<lambda>d. d\<lparr>d_snapshot := observed, d_confirmed := Some observed,
                                   d_conflict := None, d_pending := None\<rparr>)) (\<lambda>_.
                ret observed)))))))"

definition close :: "draft_world \<Rightarrow> draft_world" where
  "close d = d\<lparr>d_closed := True\<rparr>"

section \<open>The lane\<close>

text \<open>\<^verbatim>\<open>Page f\<close> is other code of the page changing the session between two operations.\<close>

datatype job = Save draft_input | Reload | Close | Page "session \<Rightarrow> session"

definition run_job :: "job \<Rightarrow> draft_world \<Rightarrow> (exn, json) res option \<times> draft_world" where
  "run_job j d =
     (case j of
        Save i \<Rightarrow> (case save i d of (r, d') \<Rightarrow> (Some r, d'))
      | Reload \<Rightarrow> (case reload d of (r, d') \<Rightarrow> (Some r, d'))
      | Close \<Rightarrow> (None, close d)
      | Page f \<Rightarrow> (None, d\<lparr>d_session := f (d_session d)\<rparr>))"

text \<open>
  The queue behind \<^verbatim>\<open>tail\<close>: an operation starts when the one before it has settled, however
  it settled; one that is suspended holds up every later one.
\<close>

fun run_lane :: "job list \<Rightarrow> draft_world \<Rightarrow> (exn, json) res list \<times> draft_world" where
  "run_lane [] d = ([], d)"
| "run_lane (j # js) d =
     (case run_job j d of
        (Some Waiting, d') \<Rightarrow> ([Waiting], d')
      | (Some r, d') \<Rightarrow> (case run_lane js d' of (rs, d'') \<Rightarrow> (r # rs, d''))
      | (None, d') \<Rightarrow> run_lane js d')"

section \<open>Draft keys and merged drafts\<close>

lemma draftKey_cong:
  "get_prop a ''mailbox_id'' = get_prop b ''mailbox_id'' \<Longrightarrow> get_prop a ''payload'' = get_prop b ''payload'' \<Longrightarrow>
    draftKey a = draftKey b"
  by (simp add: draftKey_def)

lemma map_of_filter_key:
  "map_of (filter (\<lambda>(k, v). P k) b) k = (if P k then map_of b k else None)"
  by (induction b) auto

lemma map_of_map_snd:
  "map_of (map (\<lambda>(k, v). (k, g k v)) a) k = map_option (g k) (map_of a k)"
  by (induction a) auto

lemma get_prop_merge:
  "get_prop (JObj (merge_objects (spread (Some (JObj a))) b)) k =
     (case map_of b k of Some x \<Rightarrow> Some x | None \<Rightarrow> get_prop (JObj a) k)"
  by (simp add: map_of_merge split: option.split)

lemma get_prop_obj: "get_prop v k \<noteq> None \<Longrightarrow> \<exists>kvs. v = JObj kvs"
  by (cases v) auto

lemma save_command_props:
  assumes "revision snapshot \<noteq> None"
  shows "draft_id (m_draft (save_command snapshot i create)) = draft_id snapshot"
    and "revision (m_draft (save_command snapshot i create)) = revision snapshot"
    and "draftKey (m_draft (save_command snapshot i create)) = draftKey (input_json i)"
proof -
  obtain kvs where s: "snapshot = JObj kvs"
    using assms get_prop_obj by (auto simp: revision_def)
  show "draft_id (m_draft (save_command snapshot i create)) = draft_id snapshot"
    and "revision (m_draft (save_command snapshot i create)) = revision snapshot"
    by (simp_all add: s save_command_def draft_id_def revision_def input_json_def map_of_merge)
  show "draftKey (m_draft (save_command snapshot i create)) = draftKey (input_json i)"
    by (rule draftKey_cong) (simp_all add: s save_command_def input_json_def map_of_merge)
qed

section \<open>The protocol of the lane\<close>

text \<open>
  An abstract machine that reads the log: the last known draft, the write that must be repeated
  exactly because its outcome is unknown, whether a conflict has latched the lane, and the write
  in flight.
\<close>

type_synonym lane = "json \<times> (json \<times> bool) option \<times> bool \<times> (json \<times> bool) option"

definition fresh_write :: "json \<Rightarrow> json \<Rightarrow> bool \<Rightarrow> bool" where
  "fresh_write snapshot d create \<longleftrightarrow>
     draft_id d = draft_id snapshot \<and> revision d = revision snapshot \<and>
     (case safe_revision (revision d) of
        Some r \<Rightarrow> 0 \<le> r \<and> of_int r \<noteq> max_safe_integer \<and> create = (r = 0)
      | None \<Rightarrow> False)"

fun lane_step :: "scope \<Rightarrow> lane \<Rightarrow> lane_entry \<Rightarrow> lane option" where
  "lane_step scope (snap, pend, latched, flight) (Wrote d create now shut) =
     (if now = scope \<and> \<not> shut \<and> \<not> latched \<and>
         (case pend of Some p \<Rightarrow> p = (d, create) | None \<Rightarrow> fresh_write snap d create)
      then Some (snap, pend, latched, Some (d, create)) else None)"
| "lane_step scope (snap, pend, latched, flight) (Acked s) =
     (case flight of
        Some (d, create) \<Rightarrow>
          if acknowledgementMatches s \<lparr>m_draft = d, m_create = create, m_uncertain = False\<rparr>
          then Some (s, None, latched, None) else None
      | None \<Rightarrow> None)"
| "lane_step scope (snap, pend, latched, flight) Unknown =
     (if flight = None then None else Some (snap, flight, latched, flight))"
| "lane_step scope (snap, pend, latched, flight) Refused =
     (if flight = None then None else Some (snap, None, latched, None))"
| "lane_step scope (snap, pend, latched, flight) Latched =
     (if flight = None then None else Some (snap, None, True, None))"
| "lane_step scope (snap, pend, latched, flight) (Reloaded s) =
     (if strict_eq (draft_id s) (draft_id snap) \<and>
         (case safe_revision (revision s) of Some r \<Rightarrow> 1 \<le> r | None \<Rightarrow> False)
      then Some (s, None, False, None) else None)"

abbreviation lane_run :: "scope \<Rightarrow> lane \<Rightarrow> lane_entry list \<Rightarrow> lane option" where
  "lane_run scope \<equiv> accepts (lane_step scope)"

definition pend_of :: "draft_world \<Rightarrow> (json \<times> bool) option" where
  "pend_of d = map_option (\<lambda>c. (m_draft c, m_create c)) (d_pending d)"

definition on_lane :: "scope \<Rightarrow> json \<Rightarrow> (json \<times> bool) option \<Rightarrow> draft_world \<Rightarrow> bool" where
  "on_lane scope s0 flight d \<longleftrightarrow> d_scope d = scope \<and>
     (\<exists>pend. lane_run scope (s0, None, False, None) (d_log d) =
        Some (d_snapshot d, pend, d_conflict d \<noteq> None, flight) \<and>
        (d_conflict d = None \<longrightarrow> pend = pend_of d)) \<and>
     (\<forall>c. d_confirmed d = Some c \<longrightarrow> draftKey c = draftKey (d_snapshot d))"

definition orderly :: "scope \<Rightarrow> json \<Rightarrow> draft_world \<Rightarrow> bool" where
  "orderly scope s0 d \<longleftrightarrow> (\<exists>flight. on_lane scope s0 flight d)"

lemma orderlyI: "on_lane scope s0 flight d \<Longrightarrow> orderly scope s0 d"
  by (auto simp: orderly_def)

lemma wp_check:
  "wp check Q R W d =
     (if d_current d = d_scope d \<and> \<not> d_closed d then Q () d else R (DOMException ''AbortError'') d)"
  by (simp add: check_def wp_rules drafts.wp_guard)

lemma wp_d_note [wp_rules]: "wp (d_note x) Q R W d = Q () (d\<lparr>d_log := d_log d @ [x]\<rparr>)"
  by (simp add: d_note_def wp_modify)

text \<open>What an await leaves alone.\<close>

definition same_lane :: "draft_world \<Rightarrow> draft_world \<Rightarrow> bool" where
  "same_lane d t \<longleftrightarrow> d_scope t = d_scope d \<and> d_snapshot t = d_snapshot d \<and>
     d_confirmed t = d_confirmed d \<and> d_conflict t = d_conflict d \<and> d_pending t = d_pending d \<and>
     d_log t = d_log d"

lemma same_lane_refl [simp]: "same_lane d d"
  by (simp add: same_lane_def)

lemma same_lane_on: "same_lane d t \<Longrightarrow> on_lane scope s0 fl d \<Longrightarrow> on_lane scope s0 fl t"
  by (auto simp: same_lane_def on_lane_def pend_of_def)

lemma wp_d_await:
  assumes "W d" "\<And>t v. same_lane d t \<Longrightarrow> Q v t" "\<And>t e. same_lane d t \<Longrightarrow> R e t"
  shows "wp d_await Q R W d"
  using assms
  by (auto simp: wp_def d_await_def Let_def same_lane_def split: list.split sum.split)

lemma wp_read_back:
  assumes "W d" "\<And>t v. same_lane d t \<Longrightarrow> Q v t"
  shows "wp read_back Q R W d"
  unfolding read_back_def wp_try_catch wp_ret
  by (rule wp_d_await) (use assms in auto)

lemma on_lane_note:
  assumes "on_lane scope s0 fl d"
    and "\<And>pend. (d_conflict d = None \<Longrightarrow> pend = pend_of d) \<Longrightarrow>
          lane_step scope (d_snapshot d, pend, d_conflict d \<noteq> None, fl) x =
            Some (d_snapshot t, h pend, d_conflict t \<noteq> None, fl')"
    and "\<And>pend. d_conflict t = None \<Longrightarrow> (d_conflict d = None \<Longrightarrow> pend = pend_of d) \<Longrightarrow> h pend = pend_of t"
    and "d_log t = d_log d @ [x]" "d_scope t = d_scope d"
    and "\<And>c. d_confirmed t = Some c \<Longrightarrow> draftKey c = draftKey (d_snapshot t)"
  shows "on_lane scope s0 fl' t"
proof -
  from assms(1) obtain pend where
    run: "lane_run scope (s0, None, False, None) (d_log d) =
        Some (d_snapshot d, pend, d_conflict d \<noteq> None, fl)"
    and p: "d_conflict d = None \<Longrightarrow> pend = pend_of d" and "d_scope d = scope"
    by (auto simp: on_lane_def)
  moreover note assms(2) [of pend] assms(3) [of pend] assms(4-6)
  ultimately show ?thesis
    by (auto simp: on_lane_def accepts_append)
qed

definition legit :: "command \<Rightarrow> draft_world \<Rightarrow> bool" where
  "legit c d \<longleftrightarrow> (case d_pending d of
     Some p \<Rightarrow> m_draft c = m_draft p \<and> m_create c = m_create p
   | None \<Rightarrow> fresh_write (d_snapshot d) (m_draft c) (m_create c))"

abbreviation flight_of :: "command \<Rightarrow> (json \<times> bool) option" where
  "flight_of c \<equiv> Some (m_draft c, m_create c)"

definition settled :: "scope \<Rightarrow> json \<Rightarrow> command \<Rightarrow> json \<Rightarrow> draft_world \<Rightarrow> bool" where
  "settled scope s0 c x t \<longleftrightarrow> on_lane scope s0 None t \<and> d_snapshot t = x \<and> d_confirmed t = Some x \<and>
     d_conflict t = None \<and> d_pending t = None \<and> acknowledgementMatches x c"

lemma on_lane_wrote:
  assumes "on_lane scope s0 fl d" "d_conflict d = None" "legit c d" "d_current d = d_scope d"
    "\<not> d_closed d"
  shows "on_lane scope s0 (flight_of c) (d\<lparr>d_log := d_log d @ [Wrote (m_draft c) (m_create c) (d_current d) (d_closed d)]\<rparr>)"
proof (rule on_lane_note [OF assms(1), where h = "\<lambda>p. p"
        and x = "Wrote (m_draft c) (m_create c) (d_current d) (d_closed d)"], goal_cases)
  case (1 pend)
  have "d_scope d = scope" using assms(1) by (simp add: on_lane_def)
  with 1 assms show ?case
    by (simp add: legit_def pend_of_def split: option.splits)
next
  case (2 pend)
  with assms(2) show ?case by (simp add: pend_of_def)
qed (use assms in \<open>auto simp: on_lane_def\<close>)

lemma ack_draft: "m_draft c = m_draft c' \<Longrightarrow> acknowledgementMatches x c = acknowledgementMatches x c'"
  by (simp add: acknowledgementMatches_def split: option.split)

lemma wp_accept:
  assumes "on_lane scope s0 (flight_of c) d" "d_conflict d = None" "acknowledgementMatches x c"
  shows "wp (accept x) (settled scope s0 c) R W d"
proof -
  let ?t = "d\<lparr>d_log := d_log d @ [Acked x], d_snapshot := x, d_confirmed := Some x, d_pending := None\<rparr>"
  have "acknowledgementMatches x \<lparr>m_draft = m_draft c, m_create = m_create c, m_uncertain = False\<rparr>"
    using assms(3) by (subst ack_draft [of _ c]) simp_all
  then have "on_lane scope s0 None ?t"
    by (intro on_lane_note [OF assms(1), where h = "\<lambda>p. None" and x = "Acked x"])
      (use assms(1,2) in \<open>auto simp: pend_of_def on_lane_def\<close>)
  with assms(2,3) show ?thesis
    by (simp add: accept_def wp_rules settled_def)
qed

lemma on_lane_unknown:
  assumes "on_lane scope s0 (flight_of c) d" "d_conflict d = None"
  shows "on_lane scope s0 (flight_of c)
    (d\<lparr>d_log := d_log d @ [Unknown], d_pending := Some (c\<lparr>m_uncertain := True\<rparr>)\<rparr>)"
  by (rule on_lane_note [OF assms(1), where h = "\<lambda>p. flight_of c" and x = Unknown])
    (use assms in \<open>auto simp: pend_of_def on_lane_def\<close>)

lemma on_lane_latched:
  assumes "on_lane scope s0 (flight_of c) d"
  shows "on_lane scope s0 None (d\<lparr>d_log := d_log d @ [Latched], d_conflict := Some e, d_pending := p\<rparr>)"
  by (rule on_lane_note [OF assms(1), where h = "\<lambda>p. None" and x = Latched])
    (use assms in \<open>auto simp: on_lane_def\<close>)

lemma on_lane_refused:
  assumes "on_lane scope s0 (flight_of c) d" "d_conflict d = None"
  shows "on_lane scope s0 None (d\<lparr>d_log := d_log d @ [Refused], d_conflict := None, d_pending := None\<rparr>)"
  by (rule on_lane_note [OF assms(1), where h = "\<lambda>p. None" and x = Refused])
    (use assms in \<open>auto simp: on_lane_def pend_of_def\<close>)

lemma wp_settle_unknown:
  assumes "on_lane scope s0 (flight_of c) d" "d_conflict d = None"
  shows "wp (settle_unknown c e b) (settled scope s0 c) (\<lambda>_. orderly scope s0) (orderly scope s0) d"
proof -
  let ?d = "d\<lparr>d_log := d_log d @ [Unknown], d_pending := Some (c\<lparr>m_uncertain := True\<rparr>)\<rparr>"
  note here = on_lane_unknown [OF assms]
  have later: "wp (bnd check (\<lambda>_. bnd (gets d_snapshot) (\<lambda>snapshot.
     case answer of
       Some observed \<Rightarrow>
         if truthy (Some observed) \<and> acknowledgementMatches observed c then accept observed
         else if truthy (Some observed) \<and>
                 (\<not> strict_eq (draft_id observed) (draft_id snapshot) \<or> newer observed c)
         then bnd (d_note Latched) (\<lambda>_.
              bnd (modify (\<lambda>d. d\<lparr>d_conflict := Some changed_elsewhere\<rparr>)) (\<lambda>_.
              throw changed_elsewhere))
         else throw (if b then unconfirmed else e)
     | None \<Rightarrow> throw (if b then unconfirmed else e))))
     (settled scope s0 c) (\<lambda>_. orderly scope s0) (orderly scope s0) t"
    if "same_lane ?d t" for t answer
  proof -
    have t: "on_lane scope s0 (flight_of c) t" using same_lane_on [OF that here] .
    have none: "d_conflict t = None" using that assms(2) by (simp add: same_lane_def)
    have "on_lane scope s0 None (t\<lparr>d_log := d_log t @ [Latched], d_conflict := Some changed_elsewhere\<rparr>)"
      using on_lane_latched [OF t, where e = changed_elsewhere and p = "d_pending t"] by (cases t) simp
    then show ?thesis
      using t none
      by (auto simp: wp_check wp_rules wp_accept orderlyI split: option.split)
  qed
  have "wp (bnd read_back (\<lambda>answer. bnd check (\<lambda>_. bnd (gets d_snapshot) (\<lambda>snapshot.
     case answer of
       Some observed \<Rightarrow>
         if truthy (Some observed) \<and> acknowledgementMatches observed c then accept observed
         else if truthy (Some observed) \<and>
                 (\<not> strict_eq (draft_id observed) (draft_id snapshot) \<or> newer observed c)
         then bnd (d_note Latched) (\<lambda>_.
              bnd (modify (\<lambda>d. d\<lparr>d_conflict := Some changed_elsewhere\<rparr>)) (\<lambda>_.
              throw changed_elsewhere))
         else throw (if b then unconfirmed else e)
     | None \<Rightarrow> throw (if b then unconfirmed else e)))))
     (settled scope s0 c) (\<lambda>_. orderly scope s0) (orderly scope s0) ?d"
    unfolding wp_bnd [of read_back]
    by (rule wp_read_back) (use here later in \<open>auto intro: orderlyI\<close>)
  then show ?thesis
    by (simp add: settle_unknown_def wp_bnd [of "d_note _"] wp_bnd [of "modify _"] wp_d_note wp_modify)
qed

lemma wp_write_failed:
  assumes "on_lane scope s0 (flight_of c) d" "d_conflict d = None"
  shows "wp (write_failed c e) (settled scope s0 c) (\<lambda>_. orderly scope s0) (orderly scope s0) d"
proof -
  have refused: "orderly scope s0 (d\<lparr>d_log := d_log d @ [Refused], d_pending := None\<rparr>)"
    using on_lane_refused [OF assms] assms(2) by (cases d) (auto intro: orderlyI)
  have latched: "orderly scope s0 (d\<lparr>d_log := d_log d @ [Latched], d_conflict := Some e, d_pending := None\<rparr>)"
    using on_lane_latched [OF assms(1)] by (rule orderlyI)
  have "wp (refuse e) (settled scope s0 c) (\<lambda>_. orderly scope s0) (orderly scope s0) d"
    using refused latched assms(2) by (cases d) (simp add: refuse_def wp_rules)
  with assms show ?thesis
    by (auto simp: write_failed_def wp_bnd wp_check Let_def wp_settle_unknown intro: orderlyI)
qed

definition sent_with :: "command \<Rightarrow> draft_world \<Rightarrow> draft_world" where
  "sent_with c d = d\<lparr>d_log := d_log d @ [Wrote (m_draft c) (m_create c) (d_current d) (d_closed d)]\<rparr>"

lemma wp_transport:
  "wp (transport_write c) Q R W d = wp d_await Q R W (sent_with c d)"
  by (simp add: transport_write_def wp_bnd wp_gets wp_d_note sent_with_def)

lemma wp_submit:
  assumes "W (sent_with c d)"
    and "\<And>t saved. same_lane (sent_with c d) t \<Longrightarrow> acknowledgementMatches saved c \<Longrightarrow> Q saved t"
    and "\<And>t e. same_lane (sent_with c d) t \<Longrightarrow> R e t"
  shows "wp (submit c) Q R W d"
  unfolding submit_def wp_bnd [of "transport_write c"] wp_transport
  by (rule wp_d_await) (use assms in \<open>auto simp: wp_bnd wp_check wp_ret wp_throw split: option.split\<close>)

lemma wp_persist:
  assumes "on_lane scope s0 fl d" "d_conflict d = None" "legit c d"
  shows "wp (persist c) (settled scope s0 c) (\<lambda>_. orderly scope s0) (orderly scope s0) d"
proof -
  have "wp (try_else (submit c) (write_failed c) accept) (settled scope s0 c)
      (\<lambda>_. orderly scope s0) (orderly scope s0) d" if "d_current d = d_scope d" "\<not> d_closed d"
  proof -
    have w: "on_lane scope s0 (flight_of c) (sent_with c d)"
      unfolding sent_with_def by (rule on_lane_wrote [OF assms that])
    have t: "on_lane scope s0 (flight_of c) t \<and> d_conflict t = None" if "same_lane (sent_with c d) t" for t
      using same_lane_on [OF that w] that assms(2) by (simp add: same_lane_def sent_with_def)
    show ?thesis
      unfolding wp_try_else
      by (rule wp_submit) (use orderlyI [OF w] t in \<open>auto intro: wp_accept wp_write_failed\<close>)
  qed
  with orderlyI [OF assms(1)] show ?thesis
    by (simp add: persist_def wp_bnd [of check] wp_check)
qed

lemma settled_on: "settled scope s0 c x t \<Longrightarrow> on_lane scope s0 None t \<and> d_conflict t = None \<and> d_pending t = None"
  by (simp add: settled_def)

definition saved :: "scope \<Rightarrow> json \<Rightarrow> draft_input \<Rightarrow> json \<Rightarrow> draft_world \<Rightarrow> bool" where
  "saved scope s0 i x t \<longleftrightarrow> orderly scope s0 t \<and> draftKey x = draftKey (input_json i) \<and>
     draftKey (d_snapshot t) = draftKey x \<and> d_confirmed t = Some x"

lemma settled_saved:
  assumes "settled scope s0 (save_command snapshot i create) x t" "revision snapshot \<noteq> None"
  shows "saved scope s0 i x t"
  using assms save_command_props(3) [OF assms(2)]
  by (auto simp: settled_def saved_def acknowledgementMatches_def orderlyI split: option.splits)

lemma safe_revision_Some: "safe_revision x = Some r \<Longrightarrow> x \<noteq> None"
  by (cases x) auto

lemma wp_save_rest:
  assumes "on_lane scope s0 fl d" "d_conflict d = None" "d_pending d = None"
  shows "wp (save_rest i) (saved scope s0 i) (\<lambda>_. orderly scope s0) (orderly scope s0) d"
proof (cases "safe_revision (revision (d_snapshot d))")
  case None
  with orderlyI [OF assms(1)] show ?thesis
    by (simp add: save_rest_def wp_bnd wp_check wp_gets wp_throw)
next
  case (Some r)
  note some = safe_revision_Some [OF Some]
  have kept: "saved scope s0 i c d" if "d_confirmed d = Some c" "draftKey (input_json i) = draftKey (d_snapshot d)" for c
    using that assms(1) orderlyI [OF assms(1)] by (auto simp: saved_def on_lane_def)
  have "legit (save_command (d_snapshot d) i (r = 0)) d" if "0 \<le> r" "of_int r \<noteq> max_safe_integer"
    using that assms(3) Some save_command_props(1,2) [OF some]
    by (simp add: legit_def fresh_write_def) (simp add: save_command_def)
  then have "wp (persist (save_command (d_snapshot d) i (r = 0))) (saved scope s0 i)
      (\<lambda>_. orderly scope s0) (orderly scope s0) d" if "0 \<le> r" "of_int r \<noteq> max_safe_integer"
    using that by (intro wp_mono [OF wp_persist [OF assms(1,2)]]) (auto intro: settled_saved [OF _ some])
  with orderlyI [OF assms(1)] kept Some show ?thesis
    by (auto simp: save_rest_def wp_bnd wp_check wp_gets wp_throw wp_ret)
qed

lemma wp_save:
  assumes "orderly scope s0 d"
  shows "wp (save i) (saved scope s0 i) (\<lambda>_. orderly scope s0) (orderly scope s0) d"
proof -
  from assms obtain fl where on: "on_lane scope s0 fl d" by (auto simp: orderly_def)
  have fresh: "wp (save_rest i) (saved scope s0 i) (\<lambda>_. orderly scope s0) (orderly scope s0) d"
    if "d_conflict d = None" "d_pending d = None"
    by (rule wp_save_rest [OF on that])
  have replay: "wp (bnd (bnd (persist c) (\<lambda>_. ret ())) (\<lambda>_. save_rest i)) (saved scope s0 i)
      (\<lambda>_. orderly scope s0) (orderly scope s0) d" if "d_conflict d = None" "d_pending d = Some c" for c
  proof -
    have "legit c d" using that(2) by (simp add: legit_def)
    then show ?thesis
      unfolding wp_bnd wp_ret_eta
      by (intro wp_mono [OF wp_persist [OF on that(1)]]) (auto dest!: settled_on intro: wp_save_rest)
  qed
  from assms fresh replay show ?thesis
    unfolding save_def
    by (auto simp: wp_bnd [of check] wp_check wp_bnd [of "gets _"] wp_gets wp_throw
        wp_bnd [of "ret _"] wp_ret split: option.split)
qed

lemma on_lane_reloaded:
  assumes "on_lane scope s0 fl d" "strict_eq (draft_id x) (draft_id (d_snapshot d))"
    and "safe_revision (revision x) = Some r" "1 \<le> r"
  shows "on_lane scope s0 None (d\<lparr>d_log := d_log d @ [Reloaded x], d_snapshot := x,
    d_confirmed := Some x, d_conflict := None, d_pending := None\<rparr>)"
  by (rule on_lane_note [OF assms(1), where h = "\<lambda>p. None" and x = "Reloaded x"])
    (use assms in \<open>auto simp: on_lane_def pend_of_def\<close>)

lemma wp_reload:
  assumes "orderly scope s0 d"
  shows "wp reload (\<lambda>x t. orderly scope s0 t \<and> d_snapshot t = x \<and> d_conflict t = None \<and> d_pending t = None)
    (\<lambda>_. orderly scope s0) (orderly scope s0) d"
proof -
  from assms obtain fl where on: "on_lane scope s0 fl d" by (auto simp: orderly_def)
  have after: "wp (bnd check (\<lambda>_. bnd (gets d_snapshot) (\<lambda>snapshot.
     case answer of
       None \<Rightarrow> throw (Err ''TypeError'')
     | Some observed \<Rightarrow>
         (case safe_revision (revision observed) of
            None \<Rightarrow> throw mismatch
          | Some r \<Rightarrow>
              if \<not> strict_eq (draft_id observed) (draft_id snapshot) \<or> r < 1 then throw mismatch
              else
                bnd (d_note (Reloaded observed)) (\<lambda>_.
                bnd (modify (\<lambda>d. d\<lparr>d_snapshot := observed, d_confirmed := Some observed,
                                   d_conflict := None, d_pending := None\<rparr>)) (\<lambda>_.
                ret observed))))))
     (\<lambda>x t. orderly scope s0 t \<and> d_snapshot t = x \<and> d_conflict t = None \<and> d_pending t = None)
     (\<lambda>_. orderly scope s0) (orderly scope s0) t" if "same_lane d t" for answer t
  proof -
    note t = same_lane_on [OF that on]
    from orderlyI [OF t] orderlyI [OF on_lane_reloaded [OF t]] show ?thesis
      by (auto simp: wp_bnd wp_check wp_gets wp_throw wp_ret wp_d_note wp_modify
          split: option.split)
  qed
  have "wp (bnd d_await (\<lambda>answer. bnd check (\<lambda>_. bnd (gets d_snapshot) (\<lambda>snapshot.
     case answer of
       None \<Rightarrow> throw (Err ''TypeError'')
     | Some observed \<Rightarrow>
         (case safe_revision (revision observed) of
            None \<Rightarrow> throw mismatch
          | Some r \<Rightarrow>
              if \<not> strict_eq (draft_id observed) (draft_id snapshot) \<or> r < 1 then throw mismatch
              else
                bnd (d_note (Reloaded observed)) (\<lambda>_.
                bnd (modify (\<lambda>d. d\<lparr>d_snapshot := observed, d_confirmed := Some observed,
                                   d_conflict := None, d_pending := None\<rparr>)) (\<lambda>_.
                ret observed)))))))
     (\<lambda>x t. orderly scope s0 t \<and> d_snapshot t = x \<and> d_conflict t = None \<and> d_pending t = None)
     (\<lambda>_. orderly scope s0) (orderly scope s0) d"
    unfolding wp_bnd [of d_await]
    by (rule wp_d_await) (use assms after same_lane_on [OF _ on] in \<open>auto intro: orderlyI\<close>)
  with assms show ?thesis
    by (simp add: reload_def wp_bnd [of check] wp_check)
qed

lemma wp_state:
  "wp m Q (\<lambda>_. P) P s \<Longrightarrow> (\<And>x t. Q x t \<Longrightarrow> P t) \<Longrightarrow> m s = (r, t) \<Longrightarrow> P t"
  by (cases r) (auto simp: wp_def)

lemma orderly_job:
  assumes "orderly scope s0 d" "run_job j d = (r, t)"
  shows "orderly scope s0 t"
proof (cases j)
  case (Save i)
  with assms(2) obtain r' where "save i d = (r', t)" by (auto simp: run_job_def split: prod.splits)
  from wp_state [OF wp_save [OF assms(1)] _ this] show ?thesis by (simp add: saved_def)
next
  case Reload
  with assms(2) obtain r' where "reload d = (r', t)" by (auto simp: run_job_def split: prod.splits)
  from wp_state [OF wp_reload [OF assms(1)] _ this] show ?thesis by simp
qed (use assms in \<open>auto simp: run_job_def close_def orderly_def on_lane_def pend_of_def\<close>)

lemma orderly_lane: "orderly scope s0 d \<Longrightarrow> orderly scope s0 (snd (run_lane js d))"
proof (induction js arbitrary: d)
  case (Cons j js)
  obtain r t where j: "run_job j d = (r, t)" by (cases "run_job j d")
  note t = orderly_job [OF Cons.prems j]
  show ?case
  proof (cases r)
    case None
    with j Cons.IH [OF t] show ?thesis by simp
  next
    case (Some x)
    with j t Cons.IH [OF t] show ?thesis by (cases x) (auto split: prod.splits)
  qed
qed simp

lemma construct_orderly:
  "orderly (sessionScope s) (d_snapshot (construct initial uuid s script)) (construct initial uuid s script)"
proof -
  have "draftKey initial = draftKey (d_snapshot (construct initial uuid s script))"
    if "has_own initial ''updated_at''"
  proof -
    from that obtain kvs where "initial = JObj kvs" using get_prop_obj by (auto simp: has_own_def)
    then show ?thesis
      by (intro draftKey_cong) (simp_all add: construct_def Let_def map_of_merge)
  qed
  then show ?thesis
    by (auto simp: orderly_def on_lane_def pend_of_def construct_def Let_def)
qed

section \<open>Properties\<close>

text \<open>
  C3: whatever the user types, the transport answers and the page does, the lane keeps its
  protocol: every write goes out in the session of the editor and before it is closed; it carries
  the id and the revision of the last known draft, or, while the outcome of an earlier write is
  unknown, exactly that earlier write again; nothing is written while a conflict latches the lane;
  and the last known draft is replaced only by the acknowledgement of the write in flight, one
  revision later with the same content, or by an explicit reload of the same draft.
\<close>

theorem draft_lane_protocol:
  "lane_run (sessionScope s) (d_snapshot (construct initial uuid s script), None, False, None)
     (d_log (snd (run_lane js (construct initial uuid s script)))) \<noteq> None"
  using orderly_lane [OF construct_orderly, of s initial uuid script js]
  by (auto simp: orderly_def on_lane_def)

text \<open>
  C22: a save that returns gives back a draft with exactly the mailbox and content that were
  submitted, and that draft is what the editor now holds as confirmed.
\<close>

theorem draft_save_acknowledged:
  assumes "save i (snd (run_lane js (construct initial uuid s script))) = (Ret x, t)"
  shows "draftKey x = draftKey (input_json i) \<and> d_confirmed t = Some x \<and>
    draftKey (d_snapshot t) = draftKey (input_json i)"
  using wp_Ret [OF assms wp_save [OF orderly_lane [OF construct_orderly]]]
  by (simp add: saved_def)

definition example_draft :: json where
  "example_draft = JObj [(''mailbox_id'', JStr ''m1''),
     (''payload'', JObj [(''subject'', JStr ''hi''), (''cc'', JArr [])]), (''revision'', JNum (Fin 0))]"

definition example_input :: draft_input where
  "example_input = \<lparr>i_mailbox_id = JStr ''m1'', i_payload = JObj [(''subject'', JStr ''hi'')]\<rparr>"

definition example_ack :: draft_tick where
  "example_ack = \<lparr>dt_env = (\<lambda>s. s), dt_close = False,
     dt_result = Inr (Some (JObj [(''id'', JStr ''d1''), (''mailbox_id'', JStr ''m1''),
       (''payload'', JObj [(''cc'', JArr []), (''subject'', JStr ''hi'')]), (''revision'', JNum (Fin 1)),
       (''updated_at'', JStr ''now'')]))\<rparr>"

theorem draft_save_acknowledged_witness:
  "case fst (save example_input (snd (run_lane [] (construct example_draft ''d1'' logged_in [example_ack])))) of
     Ret x \<Rightarrow> draftKey x = draftKey (input_json example_input) | _ \<Rightarrow> False"
proof -
  let ?r = "save example_input (snd (run_lane [] (construct example_draft ''d1'' logged_in [example_ack])))"
  have "case fst ?r of Ret x \<Rightarrow> True | _ \<Rightarrow> False" by code_simp
  then obtain x where x: "fst ?r = Ret x" by (auto split: res.splits)
  then have "?r = (Ret x, snd ?r)" by (metis prod.collapse)
  from draft_save_acknowledged [OF this] x show ?thesis by simp
qed

text \<open>
  A conflict latches the editor: whatever is saved afterwards, nothing is sent until an
  explicit reload.
\<close>

lemma draft_conflict_latches:
  assumes "d_conflict d \<noteq> None" "Reload \<notin> set js"
  shows "d_log (snd (run_lane js d)) = d_log d \<and> d_conflict (snd (run_lane js d)) = d_conflict d"
  using assms
proof (induction js arbitrary: d)
  case (Cons j js)
  obtain r t where j: "run_job j d = (r, t)" by (cases "run_job j d")
  have keep: "d_log t = d_log d \<and> d_conflict t = d_conflict d"
  proof (cases j)
    case (Save i)
    obtain e where "d_conflict d = Some e" using Cons.prems(1) by auto
    then have "wp (save i) (\<lambda>_ t. t = d) (\<lambda>_ t. t = d) (\<lambda>t. t = d) d"
      by (simp add: save_def wp_bnd wp_check wp_gets wp_throw)
    then have "snd (save i d) = d" by (auto simp: wp_def split: prod.splits res.splits)
    with Save j show ?thesis by (auto simp: run_job_def split: prod.splits)
  qed (use j Cons.prems in \<open>auto simp: run_job_def close_def\<close>)
  with Cons.prems have t: "d_conflict t \<noteq> None" "Reload \<notin> set js" by auto
  show ?case
  proof (cases r)
    case None
    with j keep Cons.IH [OF t] show ?thesis by simp
  next
    case (Some x)
    with j keep Cons.IH [OF t] show ?thesis by (cases x) (auto split: prod.splits)
  qed
qed simp

lemma draft_conflict_latches_example:
  "d_log (snd (run_lane [Save example_input, Close]
     ((construct example_draft ''d1'' logged_in [example_ack])\<lparr>d_conflict := Some changed_elsewhere\<rparr>))) = []"
  using draft_conflict_latches [of "(construct example_draft ''d1'' logged_in [example_ack])
      \<lparr>d_conflict := Some changed_elsewhere\<rparr>" "[Save example_input, Close]"]
  by (simp add: construct_def Let_def)

end
