(* ===== verification/Wire.thy ===== *)
theory Wire
  imports Prelude
begin

text \<open>
  The checks the closed response schemas share (\<^verbatim>\<open>web/lib/receipt-types.ts\<close>,
  \<^verbatim>\<open>web/lib/outbound-inspection-types.ts\<close>, \<^verbatim>\<open>web/lib/api/company-events.ts\<close>) and the
  contract a closed decoder keeps. Every failed check throws the same fixed error, which is
  \<^const>\<open>None\<close> here.

  \<^verbatim>\<open>Number.isFinite(Date.parse(s))\<close> depends on the engine's calendar; it is the argument
  \<^verbatim>\<open>finite_date\<close> of the parsers that use it.
\<close>

named_theorems wire_simps \<open>reading wire values\<close>

section \<open>Checks that throw\<close>

text \<open>
  A validator either throws, \<^verbatim>\<open>Inl\<close> with the message, or returns. \<^verbatim>\<open>demand\<close> is a
  check with its \<^verbatim>\<open>throw\<close>, \<^verbatim>\<open>each\<close> the loop that stops at the first throw.
\<close>

type_synonym 'a checked = "string + 'a"

definition demand :: "bool \<Rightarrow> string \<Rightarrow> unit checked" where
  "demand b message = (if b then Inr () else Inl message)"

definition andthen :: "'a checked \<Rightarrow> ('a \<Rightarrow> 'b checked) \<Rightarrow> 'b checked" where
  "andthen x f = (case x of Inl m \<Rightarrow> Inl m | Inr y \<Rightarrow> f y)"

fun each :: "('a \<Rightarrow> unit checked) \<Rightarrow> 'a list \<Rightarrow> unit checked" where
  "each f [] = Inr ()"
| "each f (x # xs) = andthen (f x) (\<lambda>_. each f xs)"

lemma demand_Inr [simp]: "demand b m = Inr u \<longleftrightarrow> b"
  by (simp add: demand_def)

lemma andthen_Inr [simp]: "andthen x f = Inr y \<longleftrightarrow> (\<exists>z. x = Inr z \<and> f z = Inr y)"
  by (cases x) (simp_all add: andthen_def)

lemma each_Inr [simp]: "each f xs = Inr u \<longleftrightarrow> (\<forall>x\<in>set xs. f x = Inr ())"
  by (induction xs) auto

definition nullish :: "json option \<Rightarrow> bool" where
  "nullish v = (v = None \<or> v = Some JNull)"

text \<open>\<^verbatim>\<open>v.k\<close>, which throws when \<^verbatim>\<open>v\<close> is null or undefined.\<close>

definition deref :: "json option \<Rightarrow> string \<Rightarrow> json option checked" where
  "deref v k = (if nullish v then Inl ''TypeError'' else Inr (opt_prop v k))"

lemma deref_Inr [simp]: "deref v k = Inr w \<longleftrightarrow> \<not> nullish v \<and> w = opt_prop v k"
  by (auto simp: deref_def)

fun is_js_bool :: "json option \<Rightarrow> bool" where
  "is_js_bool (Some (JBool b)) = True"
| "is_js_bool _ = False"

fun is_js_string :: "json option \<Rightarrow> bool" where
  "is_js_string (Some (JStr s)) = True"
| "is_js_string _ = False"

lemma is_js_bool_iff: "is_js_bool v \<longleftrightarrow> (\<exists>b. v = Some (JBool b))"
  by (cases v rule: is_js_bool.cases) auto

lemma is_js_string_iff: "is_js_string v \<longleftrightarrow> (\<exists>s. v = Some (JStr s))"
  by (cases v rule: is_js_string.cases) auto

section \<open>Scalars\<close>

definition ensure :: "bool \<Rightarrow> 'a option \<Rightarrow> 'a option" where
  "ensure b x = (if b then x else None)"

lemma ensure_Some [simp]: "ensure b x = Some y \<longleftrightarrow> b \<and> x = Some y"
  by (simp add: ensure_def)

definition bind_opt :: "'a option \<Rightarrow> ('a \<Rightarrow> 'b option) \<Rightarrow> 'b option" where
  "bind_opt x f = (case x of None \<Rightarrow> None | Some y \<Rightarrow> f y)"

lemma bind_opt_Some [simp]: "bind_opt x f = Some y \<longleftrightarrow> (\<exists>z. x = Some z \<and> f z = Some y)"
  by (cases x) (simp_all add: bind_opt_def)

lemma bind_opt_eqs [simp]: "bind_opt (Some z) f = f z" "bind_opt None f = None"
  by (simp_all add: bind_opt_def)

fun all_opt :: "('a \<Rightarrow> bool) \<Rightarrow> 'a option \<Rightarrow> bool" where
  "all_opt P None = True"
| "all_opt P (Some x) = P x"

definition uuid_rx :: rx where
  "uuid_rx = rx_seq [rx_times 8 (Cls is_hex), rx_lit (CHR ''-''), rx_times 4 (Cls is_hex),
     rx_lit (CHR ''-''), rx_times 4 (Cls is_hex), rx_lit (CHR ''-''), rx_times 4 (Cls is_hex),
     rx_lit (CHR ''-''), rx_times 12 (Cls is_hex)]"

definition nil_uuid :: string where
  "nil_uuid = ''00000000-0000-0000-0000-000000000000''"

definition valid_id :: "string \<Rightarrow> bool" where
  "valid_id s = (rx_match uuid_rx s \<and> s \<noteq> nil_uuid)"

fun wire_string :: "json option \<Rightarrow> string option" where
  "wire_string (Some (JStr s)) = Some s"
| "wire_string _ = None"

definition wire_id :: "json option \<Rightarrow> string option" where
  "wire_id v = bind_opt (wire_string v) (\<lambda>s. ensure (valid_id s) (Some s))"

fun wire_bool :: "json option \<Rightarrow> bool option" where
  "wire_bool (Some (JBool b)) = Some b"
| "wire_bool _ = None"

fun wire_nat :: "json option \<Rightarrow> nat option" where
  "wire_nat (Some (JNum (Fin q))) =
     (if is_safe_integer (Fin q) \<and> 0 \<le> q then Some (nat \<lfloor>q\<rfloor>) else None)"
| "wire_nat _ = None"

fun wire_strings :: "json option \<Rightarrow> string list option" where
  "wire_strings (Some (JArr vs)) =
     (if list_all (\<lambda>v. wire_string (Some v) \<noteq> None) vs
      then Some (map (\<lambda>v. the (wire_string (Some v))) vs) else None)"
| "wire_strings _ = None"

definition safe_nat :: "nat \<Rightarrow> bool" where
  "safe_nat n = (n \<le> 9007199254740991)"

definition json_nat :: "nat \<Rightarrow> json" where
  "json_nat n = JNum (Fin (of_nat n))"

lemma wire_string_Some [wire_simps]: "wire_string v = Some s \<longleftrightarrow> v = Some (JStr s)"
  by (cases v rule: wire_string.cases) auto

lemma wire_id_Some [wire_simps]: "wire_id v = Some s \<longleftrightarrow> v = Some (JStr s) \<and> valid_id s"
  by (auto simp: wire_id_def wire_string_Some)

lemma wire_bool_Some [wire_simps]: "wire_bool v = Some b \<longleftrightarrow> v = Some (JBool b)"
  by (cases v rule: wire_bool.cases) auto

lemma wire_nat_Some [wire_simps]: "wire_nat v = Some n \<longleftrightarrow> v = Some (json_nat n) \<and> safe_nat n"
proof
  assume n: "wire_nat v = Some n"
  then obtain q where v: "v = Some (JNum (Fin q))" and safe: "is_safe_integer (Fin q)" "0 \<le> q"
    and nq: "n = nat \<lfloor>q\<rfloor>"
    by (cases v rule: wire_nat.cases) (auto split: if_splits)
  from safe obtain k :: int where k: "q = of_int k" "\<bar>k\<bar> \<le> 9007199254740991"
    using is_safe_integer_iff [of "Fin q"] by auto
  then show "v = Some (json_nat n) \<and> safe_nat n"
    using v nq safe by (auto simp: json_nat_def safe_nat_def)
next
  assume n: "v = Some (json_nat n) \<and> safe_nat n"
  then have "is_safe_integer (Fin (of_nat n :: rat))"
    unfolding is_safe_integer_iff by (intro exI [of _ "int n"]) (simp add: safe_nat_def)
  with n show "wire_nat v = Some n" by (simp add: json_nat_def)
qed

lemma wire_strings_Some [wire_simps]: "wire_strings v = Some ss \<longleftrightarrow> v = Some (JArr (map JStr ss))"
proof
  assume s: "wire_strings v = Some ss"
  then obtain vs where v: "v = Some (JArr vs)"
    and all: "list_all (\<lambda>v. wire_string (Some v) \<noteq> None) vs"
    and ss: "ss = map (\<lambda>v. the (wire_string (Some v))) vs"
    by (cases v rule: wire_strings.cases) (auto split: if_splits)
  have "map JStr (map (\<lambda>v. the (wire_string (Some v))) vs) = vs"
    using all by (induction vs) (auto simp: wire_string_Some)
  with v ss show "v = Some (JArr (map JStr ss))" by simp
qed (simp add: list_all_iff comp_def)

section \<open>Categories\<close>

text \<open>
  A category of the source is a string out of a fixed list; the model's constructor is looked up
  in the table of the category.
\<close>

fun category_of :: "(string \<times> 'c) list \<Rightarrow> json option \<Rightarrow> 'c option" where
  "category_of table (Some (JStr s)) = map_of table s"
| "category_of table _ = None"

definition name_of :: "(string \<times> 'c) list \<Rightarrow> 'c \<Rightarrow> string" where
  "name_of table c = (case find (\<lambda>(s, d). d = c) table of Some (s, d) \<Rightarrow> s | None \<Rightarrow> [])"

definition is_table :: "(string \<times> 'c) list \<Rightarrow> bool" where
  "is_table table \<longleftrightarrow> distinct (map fst table) \<and> distinct (map snd table)"

lemma find_snd:
  "distinct (map snd t) \<Longrightarrow> (s, c) \<in> set t \<Longrightarrow> find (\<lambda>(s, d). d = c) t = Some (s, c)"
proof (induction t)
  case (Cons x t)
  obtain s' c' where x: "x = (s', c')" by (cases x)
  show ?case
  proof (cases "c' = c")
    case True
    then have "(s, c) \<notin> set t" using Cons.prems(1) x by (auto simp: image_iff)
    with Cons.prems(2) x True show ?thesis by simp
  next
    case False
    with Cons x show ?thesis by simp
  qed
qed simp

lemma category_name:
  assumes "is_table t"
  shows "category_of t v = Some c \<longleftrightarrow> v = Some (JStr (name_of t c)) \<and> c \<in> set (map snd t)"
proof
  assume "category_of t v = Some c"
  then obtain s where v: "v = Some (JStr s)" and "map_of t s = Some c"
    by (cases v; cases "the v") auto
  then have "(s, c) \<in> set t" by (simp add: map_of_SomeD)
  with find_snd assms v show "v = Some (JStr (name_of t c)) \<and> c \<in> set (map snd t)"
    by (force simp: name_of_def is_table_def)
next
  assume r: "v = Some (JStr (name_of t c)) \<and> c \<in> set (map snd t)"
  then obtain s where "(s, c) \<in> set t" by auto
  moreover from this have "name_of t c = s"
    using find_snd assms by (force simp: name_of_def is_table_def)
  ultimately show "category_of t v = Some c" using r assms by (simp add: is_table_def)
qed

section \<open>Records\<close>

text \<open>An object with all the required keys and no key that is neither required nor optional.\<close>

definition closed_record :: "string list \<Rightarrow> string list \<Rightarrow> json option \<Rightarrow> json option" where
  "closed_record required optional v =
     (case v of
        Some (JObj kvs) \<Rightarrow>
          ensure (list_all (\<lambda>k. has_own (JObj kvs) k) required \<and>
                  list_all (\<lambda>k. k \<in> set required \<or> k \<in> set optional) (map fst kvs))
            (Some (JObj kvs))
      | _ \<Rightarrow> None)"

lemma closed_record_Some:
  "closed_record required optional v = Some r \<longleftrightarrow>
     v = Some r \<and> is_object r \<and> set required \<subseteq> set (own_keys r) \<and>
     set (own_keys r) \<subseteq> set required \<union> set optional"
proof (cases v)
  case (Some w)
  then show ?thesis
    by (cases w) (force simp: closed_record_def list_all_iff has_own_keys image_iff)+
qed (auto simp: closed_record_def)

text \<open>A field that is absent, or present and well formed.\<close>

definition optional_field :: "json \<Rightarrow> string \<Rightarrow> (json option \<Rightarrow> 'a option) \<Rightarrow> 'a option option" where
  "optional_field v k f =
     (if has_own v k then bind_opt (f (get_prop v k)) (\<lambda>x. Some (Some x)) else Some None)"

lemma optional_field_Some:
  "optional_field v k f = Some r \<longleftrightarrow>
     (case r of None \<Rightarrow> get_prop v k = None | Some x \<Rightarrow> get_prop v k \<noteq> None \<and> f (get_prop v k) = Some x)"
  by (auto simp: optional_field_def has_own_def split: option.split)

definition field :: "string \<Rightarrow> ('a \<Rightarrow> json) \<Rightarrow> 'a option \<Rightarrow> (string \<times> json) list" where
  "field k enc x = (case x of Some y \<Rightarrow> [(k, enc y)] | None \<Rightarrow> [])"

lemma map_of_field: "map_of (field k enc x) j = (if j = k then map_option enc x else None)"
  by (auto simp: field_def split: option.split)

lemma keys_field: "fst ` set (field k enc x) \<subseteq> {k}"
  by (auto simp: field_def split: option.split)

section \<open>Rows\<close>

text \<open>Every row of a list is decoded, or the whole list is refused.\<close>

definition all_rows :: "(json \<Rightarrow> 'a option) \<Rightarrow> json list \<Rightarrow> 'a list option" where
  "all_rows decode vs =
     (if list_all (\<lambda>v. decode v \<noteq> None) vs then Some (map (\<lambda>v. the (decode v)) vs) else None)"

lemma all_rows_Some: "all_rows decode vs = Some xs \<longleftrightarrow> list_all2 (\<lambda>v x. decode v = Some x) vs xs"
proof -
  have "list_all (\<lambda>v. decode v \<noteq> None) vs \<and> xs = map (\<lambda>v. the (decode v)) vs \<longleftrightarrow>
      list_all2 (\<lambda>v x. decode v = Some x) vs xs"
    by (auto simp: list_all2_conv_all_nth list_all_length intro!: nth_equalityI)
  then show ?thesis by (auto simp: all_rows_def)
qed

lemma all_rows_all:
  "all_rows decode vs = Some xs \<Longrightarrow> (\<And>v x. decode v = Some x \<Longrightarrow> P x) \<Longrightarrow> list_all P xs"
  by (auto simp: all_rows_Some list_all2_conv_all_nth list_all_length)

lemma all_rows_length: "all_rows decode vs = Some xs \<Longrightarrow> length xs = length vs"
  by (auto simp: all_rows_Some list_all2_lengthD)

section \<open>The contract of a closed decoder\<close>

locale closed_decoder =
  fixes decode :: "json \<Rightarrow> 'a option"
    and encode :: "'a \<Rightarrow> json"
    and valid :: "'a \<Rightarrow> bool"
    and known :: "string list"
  assumes decode_closed: "decode v = Some x \<Longrightarrow> is_object v \<and> set (own_keys v) \<subseteq> set known"
    and decode_valid: "decode v = Some x \<Longrightarrow> valid x"
    and encode_decode: "valid x \<Longrightarrow> decode (encode x) = Some x"
begin

lemma decode_stable: "decode v = Some x \<Longrightarrow> decode (encode x) = Some x"
  by (simp add: decode_valid encode_decode)

lemma unknown_key_rejected: "k \<in> set (own_keys v) \<Longrightarrow> k \<notin> set known \<Longrightarrow> decode v = None"
  using decode_closed by (cases "decode v") auto

lemma rows_valid: "all_rows decode vs = Some xs \<Longrightarrow> list_all valid xs"
  by (erule all_rows_all) (rule decode_valid)

lemma rows_encode: "list_all valid xs \<Longrightarrow> all_rows decode (map encode xs) = Some xs"
  by (simp add: all_rows_Some list_all2_conv_all_nth list_all_length encode_decode)

lemma rows_stable: "all_rows decode vs = Some xs \<Longrightarrow> all_rows decode (map encode xs) = Some xs"
  by (simp add: rows_valid rows_encode)

end

end
