(* ===== verification/Receipts.thy ===== *)
theory Receipts
  imports Wire
begin

text \<open>
  The closed schemas of \<^verbatim>\<open>web/lib/receipt-types.ts\<close>: ordinary receipts, their list pages
  and the live content of a submission.
\<close>

section \<open>Types\<close>

datatype receipt_state = StPending | StProcessing | StSent | StRetry | StFailed | StDead
  | StCancelled | StUnknown

datatype receipt_status = Cancelled | Submitted | Sending | PartiallyAccepted | Accepted
  | NeedsAttention

datatype block_reason = NoReason | DeliveryUncertain | StateNotRetryable | SenderAuthority
  | UnknownReason

record capabilities =
  view_content :: bool
  retry :: bool
  retry_block_reason :: block_reason

record counts =
  total :: nat
  accepted :: nat
  pending :: nat
  temporary :: nat
  permanent :: nat
  uncertain :: nat

datatype progress = UnknownProgress | Known counts

record receipt =
  r_id :: string
  r_tenant_id :: "string option"
  r_state :: receipt_state
  r_status :: receipt_status
  r_progress :: progress
  r_created_at :: "string option"
  r_updated_at :: "string option"
  r_next_retry :: "string option"
  r_attempt_count :: "nat option"
  r_delivery_uncertain :: bool
  r_capabilities :: "capabilities option"

text \<open>
  The scope a response must belong to; \<^verbatim>\<open>Some None\<close> is a \<^verbatim>\<open>null\<close> tenant (nobody is
  signed in), \<^const>\<open>None\<close> is \<^verbatim>\<open>undefined\<close> (not checked).
\<close>

record receipt_scope =
  sc_id :: "string option"
  sc_tenant :: "string option option"

definition receipt_states :: "(string \<times> receipt_state) list" where
  "receipt_states = [(''pending'', StPending), (''processing'', StProcessing), (''sent'', StSent),
     (''retry'', StRetry), (''failed'', StFailed), (''dead'', StDead), (''cancelled'', StCancelled),
     (''unknown'', StUnknown)]"

definition receipt_statuses :: "(string \<times> receipt_status) list" where
  "receipt_statuses = [(''cancelled'', Cancelled), (''submitted'', Submitted), (''sending'', Sending),
     (''partially_accepted'', PartiallyAccepted), (''accepted'', Accepted),
     (''needs_attention'', NeedsAttention)]"

definition block_reasons :: "(string \<times> block_reason) list" where
  "block_reasons = [('''', NoReason), (''delivery_uncertain'', DeliveryUncertain),
     (''state_not_retryable'', StateNotRetryable), (''sender_authority'', SenderAuthority),
     (''unknown'', UnknownReason)]"

section \<open>Arithmetic of the counts\<close>

text \<open>
  Addition of two non-negative doubles that hold integers: exact up to 2^53, above it the nearest
  multiple of the spacing, ties to the even one. Sums below 2^56 are all that occur.
\<close>

definition round_to :: "nat \<Rightarrow> nat \<Rightarrow> nat" where
  "round_to u n =
     (let q = n div u; r = n mod u
      in if 2 * r < u \<or> 2 * r = u \<and> even q then q * u else (q + 1) * u)"

definition double_add :: "nat \<Rightarrow> nat \<Rightarrow> nat" where
  "double_add a b =
     (let n = a + b
      in if n \<le> 2 ^ 53 then n else if n \<le> 2 ^ 54 then round_to 2 n
         else if n \<le> 2 ^ 55 then round_to 4 n else round_to 8 n)"

definition count_sum :: "counts \<Rightarrow> nat" where
  "count_sum c = double_add (double_add (double_add (double_add (accepted c) (pending c))
     (temporary c)) (permanent c)) (uncertain c)"

section \<open>Parsers\<close>

definition date_rx :: rx where
  "date_rx = rx_seq [rx_times 4 (Cls is_digit), rx_lit (CHR ''-''), rx_times 2 (Cls is_digit),
     rx_lit (CHR ''-''), rx_times 2 (Cls is_digit), rx_lit (CHR ''T''), rx_times 2 (Cls is_digit),
     rx_lit (CHR '':''), rx_times 2 (Cls is_digit), rx_lit (CHR '':''), rx_times 2 (Cls is_digit),
     rx_opt (Seq (rx_lit (CHR ''.'')) (rx_plus (Cls is_digit))),
     Alt (rx_lit (CHR ''Z''))
       (rx_seq [Cls (\<lambda>c. c = CHR ''+'' \<or> c = CHR ''-''), rx_times 2 (Cls is_digit), rx_lit (CHR '':''),
                rx_times 2 (Cls is_digit)])]"

definition valid_date :: "(string \<Rightarrow> bool) \<Rightarrow> string \<Rightarrow> bool" where
  "valid_date finite_date s = (rx_match date_rx s \<and> finite_date s)"

definition wire_date :: "(string \<Rightarrow> bool) \<Rightarrow> json option \<Rightarrow> string option" where
  "wire_date finite_date v =
     bind_opt (wire_string v) (\<lambda>s. ensure (valid_date finite_date s) (Some s))"

lemma wire_date_Some [wire_simps]:
  "wire_date fd v = Some s \<longleftrightarrow> v = Some (JStr s) \<and> valid_date fd s"
  by (auto simp: wire_date_def wire_simps)

definition count_keys :: "string list" where
  "count_keys = [''total'', ''accepted'', ''pending'', ''temporary'', ''permanent'', ''uncertain'']"

definition parse_counts :: "json option \<Rightarrow> counts option" where
  "parse_counts v =
     bind_opt (closed_record count_keys [] v) (\<lambda>raw.
     bind_opt (wire_nat (get_prop raw ''total'')) (\<lambda>t.
     bind_opt (wire_nat (get_prop raw ''accepted'')) (\<lambda>a.
     bind_opt (wire_nat (get_prop raw ''pending'')) (\<lambda>p.
     bind_opt (wire_nat (get_prop raw ''temporary'')) (\<lambda>m.
     bind_opt (wire_nat (get_prop raw ''permanent'')) (\<lambda>e.
     bind_opt (wire_nat (get_prop raw ''uncertain'')) (\<lambda>u.
     Some \<lparr>total = t, accepted = a, pending = p, temporary = m, permanent = e, uncertain = u\<rparr>)))))))"

definition parse_progress ::
  "receipt_state \<Rightarrow> receipt_status \<Rightarrow> json option \<Rightarrow> progress option" where
  "parse_progress state status v =
     bind_opt (closed_record [''completeness''] [''counts''] v) (\<lambda>source.
     if get_prop source ''completeness'' = Some (JStr ''unknown'') then
       ensure (\<not> has_own source ''counts'' \<and> status = NeedsAttention) (Some UnknownProgress)
     else if get_prop source ''completeness'' = Some (JStr ''known'') then
       bind_opt (parse_counts (get_prop source ''counts'')) (\<lambda>c.
       let sum = count_sum c in
       ensure (safe_nat sum \<and> sum = total c \<and> total c \<noteq> 0 \<and> state \<noteq> StUnknown) (Some (Known c)))
     else None)"

definition capability_keys :: "string list" where
  "capability_keys = [''view_content'', ''retry'', ''retry_block_reason'']"

definition parse_capabilities :: "bool \<Rightarrow> progress \<Rightarrow> json option \<Rightarrow> capabilities option" where
  "parse_capabilities delivery_uncertain progress v =
     bind_opt (closed_record capability_keys [] v) (\<lambda>raw.
     bind_opt (wire_bool (get_prop raw ''view_content'')) (\<lambda>view.
     bind_opt (wire_bool (get_prop raw ''retry'')) (\<lambda>retry.
     bind_opt (category_of block_reasons (get_prop raw ''retry_block_reason'')) (\<lambda>reason.
     ensure (\<not> (retry \<and> (reason \<noteq> NoReason \<or> delivery_uncertain \<or> progress = UnknownProgress)))
       (Some \<lparr>view_content = view, retry = retry, retry_block_reason = reason\<rparr>)))))"

definition receipt_required :: "string list" where
  "receipt_required = [''id'', ''state'', ''status'', ''progress'', ''delivery_uncertain'']"

definition receipt_optional :: "string list" where
  "receipt_optional = [''tenant_id'', ''created_at'', ''updated_at'', ''attempt_count'', ''next_retry'',
     ''capabilities'']"

definition wrong_id :: "receipt_scope \<Rightarrow> string \<Rightarrow> bool" where
  "wrong_id scope i = (case sc_id scope of Some expected \<Rightarrow> i \<noteq> expected | None \<Rightarrow> False)"

definition out_of_tenant :: "receipt_scope \<Rightarrow> string option \<Rightarrow> bool" where
  "out_of_tenant scope tenant =
     (case (tenant, sc_tenant scope) of
        (Some t, Some expected) \<Rightarrow> Some t \<noteq> expected
      | _ \<Rightarrow> False)"

definition uncertain_progress :: "progress \<Rightarrow> bool" where
  "uncertain_progress p = (case p of Known c \<Rightarrow> uncertain c > 0 | UnknownProgress \<Rightarrow> False)"

definition usable :: "capabilities option \<Rightarrow> bool" where
  "usable c = (case c of Some k \<Rightarrow> view_content k \<or> retry k | None \<Rightarrow> False)"

definition parseOrdinaryReceipt ::
  "(string \<Rightarrow> bool) \<Rightarrow> receipt_scope \<Rightarrow> json option \<Rightarrow> receipt option" where
  "parseOrdinaryReceipt finite_date scope v =
     bind_opt (closed_record receipt_required receipt_optional v) (\<lambda>source.
     bind_opt (wire_id (get_prop source ''id'')) (\<lambda>receiptId.
     ensure (\<not> wrong_id scope receiptId)
     (bind_opt (optional_field source ''tenant_id'' wire_id) (\<lambda>tenant.
     ensure (\<not> out_of_tenant scope tenant)
     (bind_opt (category_of receipt_states (get_prop source ''state'')) (\<lambda>state.
     bind_opt (category_of receipt_statuses (get_prop source ''status'')) (\<lambda>status.
     bind_opt (parse_progress state status (get_prop source ''progress'')) (\<lambda>progress.
     bind_opt (wire_bool (get_prop source ''delivery_uncertain'')) (\<lambda>unsure.
     ensure (\<not> (uncertain_progress progress \<and> \<not> unsure))
     (bind_opt (optional_field source ''capabilities'' (parse_capabilities unsure progress)) (\<lambda>caps.
     bind_opt (optional_field source ''created_at'' (wire_date finite_date)) (\<lambda>created.
     bind_opt (optional_field source ''updated_at'' (wire_date finite_date)) (\<lambda>updated.
     bind_opt (optional_field source ''next_retry'' (wire_date finite_date)) (\<lambda>next.
     bind_opt (optional_field source ''attempt_count'' wire_nat) (\<lambda>attempts.
     ensure (\<not> (tenant = None \<and> (progress \<noteq> UnknownProgress \<or> usable caps)))
       (Some \<lparr>r_id = receiptId, r_tenant_id = tenant, r_state = state, r_status = status,
              r_progress = progress, r_created_at = created, r_updated_at = updated,
              r_next_retry = next, r_attempt_count = attempts, r_delivery_uncertain = unsure,
              r_capabilities = caps\<rparr>))))))))))))))))"

definition parseReceiptResponse ::
  "(string \<Rightarrow> bool) \<Rightarrow> receipt_scope \<Rightarrow> json option \<Rightarrow> receipt option" where
  "parseReceiptResponse finite_date scope v =
     bind_opt (closed_record [''data''] [] v) (\<lambda>source.
     parseOrdinaryReceipt finite_date scope (get_prop source ''data''))"

section \<open>Valid receipts\<close>

definition valid_counts :: "counts \<Rightarrow> bool" where
  "valid_counts c \<longleftrightarrow> safe_nat (total c) \<and> total c > 0 \<and>
     total c = accepted c + pending c + temporary c + permanent c + uncertain c"

definition valid_capabilities :: "bool \<Rightarrow> progress \<Rightarrow> capabilities \<Rightarrow> bool" where
  "valid_capabilities unsure p k \<longleftrightarrow>
     (if retry k then retry_block_reason k = NoReason \<and> \<not> unsure \<and> p \<noteq> UnknownProgress else True)"

definition valid_progress :: "receipt_state \<Rightarrow> receipt_status \<Rightarrow> progress \<Rightarrow> bool" where
  "valid_progress state status p =
     (case p of
        UnknownProgress \<Rightarrow> status = NeedsAttention
      | Known c \<Rightarrow> valid_counts c \<and> state \<noteq> StUnknown)"

definition valid_receipt :: "(string \<Rightarrow> bool) \<Rightarrow> receipt_scope \<Rightarrow> receipt \<Rightarrow> bool" where
  "valid_receipt finite_date scope r \<longleftrightarrow>
     valid_id (r_id r) \<and> \<not> wrong_id scope (r_id r) \<and>
     all_opt valid_id (r_tenant_id r) \<and> \<not> out_of_tenant scope (r_tenant_id r) \<and>
     valid_progress (r_state r) (r_status r) (r_progress r) \<and>
     (if uncertain_progress (r_progress r) then r_delivery_uncertain r else True) \<and>
     all_opt (valid_capabilities (r_delivery_uncertain r) (r_progress r)) (r_capabilities r) \<and>
     all_opt (valid_date finite_date) (r_created_at r) \<and>
     all_opt (valid_date finite_date) (r_updated_at r) \<and>
     all_opt (valid_date finite_date) (r_next_retry r) \<and>
     all_opt safe_nat (r_attempt_count r) \<and>
     (if r_tenant_id r = None then r_progress r = UnknownProgress \<and> \<not> usable (r_capabilities r) else True)"

subsection \<open>Rounding cannot hide a wrong sum\<close>

lemma round_to_ge: "u > 0 \<Longrightarrow> u dvd b \<Longrightarrow> b \<le> n \<Longrightarrow> b \<le> round_to u n"
proof -
  assume u: "u > 0" "u dvd b" "b \<le> n"
  then obtain k where k: "b = k * u" by (auto simp: dvd_def mult.commute)
  with u have k': "k \<le> n div u" by (simp add: less_eq_div_iff_mult_less_eq)
  then have "k \<le> n div u + 1" by simp
  then have "k * u \<le> (n div u + 1) * u" by (rule mult_le_mono1)
  with mult_le_mono1 [OF k', of u] k show ?thesis by (simp add: round_to_def Let_def)
qed

lemma double_add_exact: "a + b \<le> 2 ^ 53 \<Longrightarrow> double_add a b = a + b"
  by (simp add: double_add_def)

lemma double_add_big: "2 ^ 53 \<le> a + b \<Longrightarrow> 2 ^ 53 \<le> double_add a b"
  unfolding double_add_def Let_def
  by (auto intro!: round_to_ge simp: dvd_def)

lemma double_add_safe: "safe_nat (double_add a b) \<Longrightarrow> double_add a b = a + b \<and> safe_nat (a + b)"
proof -
  assume s: "safe_nat (double_add a b)"
  have "a + b < 2 ^ 53"
    using double_add_big [of a b] s by (fastforce simp: safe_nat_def)
  then show ?thesis by (simp add: double_add_exact safe_nat_def)
qed

lemma count_sum_exact:
  "safe_nat (count_sum c) \<Longrightarrow>
    count_sum c = accepted c + pending c + temporary c + permanent c + uncertain c"
proof -
  assume "safe_nat (count_sum c)"
  moreover have down: "safe_nat (x + y) \<Longrightarrow> safe_nat x" for x y by (simp add: safe_nat_def)
  ultimately show ?thesis
    unfolding count_sum_def by (metis double_add_safe)
qed

lemma count_sum_valid: "valid_counts c \<Longrightarrow> count_sum c = total c"
  by (simp add: valid_counts_def safe_nat_def count_sum_def double_add_exact)

subsection \<open>Encoders\<close>

definition encode_counts :: "counts \<Rightarrow> json" where
  "encode_counts c = JObj [(''total'', json_nat (total c)), (''accepted'', json_nat (accepted c)),
     (''pending'', json_nat (pending c)), (''temporary'', json_nat (temporary c)),
     (''permanent'', json_nat (permanent c)), (''uncertain'', json_nat (uncertain c))]"

definition encode_progress :: "progress \<Rightarrow> json" where
  "encode_progress p = (case p of
     UnknownProgress \<Rightarrow> JObj [(''completeness'', JStr ''unknown'')]
   | Known c \<Rightarrow> JObj [(''completeness'', JStr ''known''), (''counts'', encode_counts c)])"

definition encode_capabilities :: "capabilities \<Rightarrow> json" where
  "encode_capabilities k = JObj [(''view_content'', JBool (view_content k)), (''retry'', JBool (retry k)),
     (''retry_block_reason'', JStr (name_of block_reasons (retry_block_reason k)))]"

text \<open>The object the parser returns, as a JSON value.\<close>

definition encode_receipt :: "receipt \<Rightarrow> json" where
  "encode_receipt r = JObj (
     [(''id'', JStr (r_id r)), (''state'', JStr (name_of receipt_states (r_state r))),
      (''status'', JStr (name_of receipt_statuses (r_status r))),
      (''progress'', encode_progress (r_progress r)),
      (''delivery_uncertain'', JBool (r_delivery_uncertain r))]
     @ field ''tenant_id'' JStr (r_tenant_id r) @ field ''created_at'' JStr (r_created_at r)
     @ field ''updated_at'' JStr (r_updated_at r) @ field ''next_retry'' JStr (r_next_retry r)
     @ field ''attempt_count'' json_nat (r_attempt_count r)
     @ field ''capabilities'' encode_capabilities (r_capabilities r))"

lemma tables: "is_table receipt_states" "is_table receipt_statuses" "is_table block_reasons"
  by (simp_all add: is_table_def receipt_states_def receipt_statuses_def block_reasons_def)

lemma all_states [simp]: "s \<in> snd ` set receipt_states"
  by (cases s) (simp_all add: receipt_states_def)

lemma all_statuses [simp]: "s \<in> snd ` set receipt_statuses"
  by (cases s) (simp_all add: receipt_statuses_def)

lemma all_reasons [simp]: "s \<in> snd ` set block_reasons"
  by (cases s) (simp_all add: block_reasons_def)

lemma category_Some [wire_simps]:
  "category_of receipt_states v = Some s \<longleftrightarrow> v = Some (JStr (name_of receipt_states s))"
  "category_of receipt_statuses v = Some t \<longleftrightarrow> v = Some (JStr (name_of receipt_statuses t))"
  "category_of block_reasons v = Some b \<longleftrightarrow> v = Some (JStr (name_of block_reasons b))"
  by (simp_all add: category_name tables)

subsection \<open>Soundness and completeness\<close>

lemma parse_counts_sound: "parse_counts v = Some c \<Longrightarrow> list_all safe_nat
    [total c, accepted c, pending c, temporary c, permanent c, uncertain c]"
  by (auto simp: parse_counts_def wire_simps)

lemma parse_progress_cases:
  assumes "parse_progress st ss v = Some p"
  obtains "p = UnknownProgress" "ss = NeedsAttention"
  | c where "p = Known c" "safe_nat (count_sum c)" "count_sum c = total c" "total c \<noteq> 0" "st \<noteq> StUnknown"
  using assms by (auto simp: parse_progress_def Let_def split: if_splits)

lemma parse_progress_valid: "parse_progress st ss v = Some p \<Longrightarrow> valid_progress st ss p"
proof (erule parse_progress_cases)
  fix c assume "p = Known c" and s: "safe_nat (count_sum c)" "count_sum c = total c" "total c \<noteq> 0" "st \<noteq> StUnknown"
  with count_sum_exact [OF s(1)] show ?thesis by (simp add: valid_progress_def valid_counts_def)
qed (simp add: valid_progress_def)

lemma parse_capabilities_valid: "parse_capabilities u p v = Some k \<Longrightarrow> valid_capabilities u p k"
  by (auto simp: parse_capabilities_def valid_capabilities_def)

lemma encode_counts_parse: "valid_counts c \<Longrightarrow> parse_counts (Some (encode_counts c)) = Some c"
  by (cases c) (auto simp: parse_counts_def closed_record_Some encode_counts_def count_keys_def wire_simps
      valid_counts_def safe_nat_def)

lemma encode_progress_parse:
  assumes "valid_progress st ss p"
  shows "parse_progress st ss (Some (encode_progress p)) = Some p"
proof (cases p)
  case (Known c)
  with assms have c: "valid_counts c" "st \<noteq> StUnknown" by (simp_all add: valid_progress_def)
  have "closed_record [''completeness''] [''counts''] (Some (encode_progress p)) = Some (encode_progress p)"
    by (simp add: closed_record_Some encode_progress_def Known)
  moreover have "safe_nat (count_sum c)" "total c > 0"
    by (metis c(1) count_sum_valid valid_counts_def)+
  ultimately show ?thesis
    using c Known
    by (simp add: parse_progress_def encode_progress_def encode_counts_parse count_sum_valid Let_def)
qed (use assms in \<open>simp add: parse_progress_def valid_progress_def encode_progress_def
      closed_record_def has_own_def\<close>)

lemma encode_capabilities_parse:
  "valid_capabilities u p k \<Longrightarrow> parse_capabilities u p (Some (encode_capabilities k)) = Some k"
  by (cases k) (auto simp: parse_capabilities_def valid_capabilities_def encode_capabilities_def
      closed_record_Some capability_keys_def wire_simps split: if_splits)

lemma optional_encoded:
  "optional_field (JObj kvs) k f = Some x" if "map_of kvs k = map_option enc x" "\<And>y. x = Some y \<Longrightarrow> f (Some (enc y)) = Some y"
  using that by (cases x) (auto simp: optional_field_Some)

lemma parse_receipt_parts:
  assumes "parseOrdinaryReceipt fd scope v = Some r"
  shows "\<exists>source. closed_record receipt_required receipt_optional v = Some source \<and>
    wire_id (get_prop source ''id'') = Some (r_id r) \<and> \<not> wrong_id scope (r_id r) \<and>
    optional_field source ''tenant_id'' wire_id = Some (r_tenant_id r) \<and>
    \<not> out_of_tenant scope (r_tenant_id r) \<and>
    parse_progress (r_state r) (r_status r) (get_prop source ''progress'') = Some (r_progress r) \<and>
    (uncertain_progress (r_progress r) \<longrightarrow> r_delivery_uncertain r) \<and>
    optional_field source ''capabilities''
      (parse_capabilities (r_delivery_uncertain r) (r_progress r)) = Some (r_capabilities r) \<and>
    optional_field source ''created_at'' (wire_date fd) = Some (r_created_at r) \<and>
    optional_field source ''updated_at'' (wire_date fd) = Some (r_updated_at r) \<and>
    optional_field source ''next_retry'' (wire_date fd) = Some (r_next_retry r) \<and>
    optional_field source ''attempt_count'' wire_nat = Some (r_attempt_count r) \<and>
    (r_tenant_id r = None \<longrightarrow> r_progress r = UnknownProgress \<and> \<not> usable (r_capabilities r))"
  using assms
  by (simp only: parseOrdinaryReceipt_def bind_opt_Some ensure_Some option.inject, elim exE conjE, hypsubst)
    (rule exI, intro conjI impI, assumption, simp_all)

lemma parse_receipt_valid:
  assumes "parseOrdinaryReceipt fd scope v = Some r"
  shows "valid_receipt fd scope r"
proof -
  from parse_receipt_parts [OF assms] obtain source where
    ident: "wire_id (get_prop source ''id'') = Some (r_id r)" "\<not> wrong_id scope (r_id r)"
    and ten: "optional_field source ''tenant_id'' wire_id = Some (r_tenant_id r)"
      "\<not> out_of_tenant scope (r_tenant_id r)"
    and prog: "parse_progress (r_state r) (r_status r) (get_prop source ''progress'') = Some (r_progress r)"
    and unsure: "uncertain_progress (r_progress r) \<longrightarrow> r_delivery_uncertain r"
    and caps: "optional_field source ''capabilities''
      (parse_capabilities (r_delivery_uncertain r) (r_progress r)) = Some (r_capabilities r)"
    and dates: "optional_field source ''created_at'' (wire_date fd) = Some (r_created_at r)"
      "optional_field source ''updated_at'' (wire_date fd) = Some (r_updated_at r)"
      "optional_field source ''next_retry'' (wire_date fd) = Some (r_next_retry r)"
    and att: "optional_field source ''attempt_count'' wire_nat = Some (r_attempt_count r)"
    and auth: "r_tenant_id r = None \<longrightarrow> r_progress r = UnknownProgress \<and> \<not> usable (r_capabilities r)"
    by (elim exE conjE) (rule that, assumption+)
  have "all_opt valid_id (r_tenant_id r)"
    using ten(1) by (cases "r_tenant_id r") (auto simp: optional_field_Some wire_simps)
  moreover have "all_opt (valid_capabilities (r_delivery_uncertain r) (r_progress r)) (r_capabilities r)"
    using caps by (cases "r_capabilities r") (auto simp: optional_field_Some dest: parse_capabilities_valid)
  moreover have "all_opt (valid_date fd) (r_created_at r)" "all_opt (valid_date fd) (r_updated_at r)"
    "all_opt (valid_date fd) (r_next_retry r)"
    using dates
    by (cases "r_created_at r"; cases "r_updated_at r"; cases "r_next_retry r";
        auto simp: optional_field_Some wire_simps)+
  moreover have "all_opt safe_nat (r_attempt_count r)"
    using att by (cases "r_attempt_count r") (auto simp: optional_field_Some wire_simps)
  ultimately show ?thesis
    using ident ten(2) parse_progress_valid [OF prog] unsure auth
    by (auto simp: valid_receipt_def wire_simps)
qed

lemma encode_receipt_get:
  "get_prop (encode_receipt r) ''id'' = Some (JStr (r_id r))"
  "get_prop (encode_receipt r) ''state'' = Some (JStr (name_of receipt_states (r_state r)))"
  "get_prop (encode_receipt r) ''status'' = Some (JStr (name_of receipt_statuses (r_status r)))"
  "get_prop (encode_receipt r) ''progress'' = Some (encode_progress (r_progress r))"
  "get_prop (encode_receipt r) ''delivery_uncertain'' = Some (JBool (r_delivery_uncertain r))"
  "get_prop (encode_receipt r) ''tenant_id'' = map_option JStr (r_tenant_id r)"
  "get_prop (encode_receipt r) ''created_at'' = map_option JStr (r_created_at r)"
  "get_prop (encode_receipt r) ''updated_at'' = map_option JStr (r_updated_at r)"
  "get_prop (encode_receipt r) ''next_retry'' = map_option JStr (r_next_retry r)"
  "get_prop (encode_receipt r) ''attempt_count'' = map_option json_nat (r_attempt_count r)"
  "get_prop (encode_receipt r) ''capabilities'' = map_option encode_capabilities (r_capabilities r)"
  by (simp_all add: encode_receipt_def map_of_append map_add_def map_of_field split: option.split)

lemma encode_receipt_closed:
  "closed_record receipt_required receipt_optional (Some (encode_receipt r)) = Some (encode_receipt r)"
  by (auto simp: closed_record_Some encode_receipt_def receipt_required_def receipt_optional_def field_def
      split: option.split)

lemma encode_receipt_parse:
  assumes "valid_receipt fd scope r"
  shows "parseOrdinaryReceipt fd scope (Some (encode_receipt r)) = Some r"
proof -
  let ?e = "encode_receipt r"
  note v = assms [unfolded valid_receipt_def]
  have opt: "optional_field ?e k f = Some x"
    if "get_prop ?e k = map_option enc x" "\<And>y. x = Some y \<Longrightarrow> f (Some (enc y)) = Some y" for k f x and enc
    using that by (cases x) (auto simp: optional_field_Some)
  have "optional_field ?e ''tenant_id'' wire_id = Some (r_tenant_id r)"
    by (rule opt [OF encode_receipt_get(6)]) (use v in \<open>simp add: wire_simps\<close>)
  moreover have "optional_field ?e ''created_at'' (wire_date fd) = Some (r_created_at r)"
    by (rule opt [OF encode_receipt_get(7)]) (use v in \<open>simp add: wire_simps\<close>)
  moreover have "optional_field ?e ''updated_at'' (wire_date fd) = Some (r_updated_at r)"
    by (rule opt [OF encode_receipt_get(8)]) (use v in \<open>simp add: wire_simps\<close>)
  moreover have "optional_field ?e ''next_retry'' (wire_date fd) = Some (r_next_retry r)"
    by (rule opt [OF encode_receipt_get(9)]) (use v in \<open>simp add: wire_simps\<close>)
  moreover have "optional_field ?e ''attempt_count'' wire_nat = Some (r_attempt_count r)"
    by (rule opt [OF encode_receipt_get(10)]) (use v in \<open>simp add: wire_simps\<close>)
  moreover have "optional_field ?e ''capabilities'' (parse_capabilities (r_delivery_uncertain r) (r_progress r)) =
      Some (r_capabilities r)"
    by (rule opt [OF encode_receipt_get(11)]) (use v in \<open>simp add: encode_capabilities_parse\<close>)
  moreover have "parse_progress (r_state r) (r_status r) (Some (encode_progress (r_progress r))) = Some (r_progress r)"
    using v by (simp add: encode_progress_parse)
  moreover have "category_of receipt_states (Some (JStr (name_of receipt_states (r_state r)))) = Some (r_state r)"
    "category_of receipt_statuses (Some (JStr (name_of receipt_statuses (r_status r)))) = Some (r_status r)"
    by (simp_all only: category_Some)
  moreover have "wire_id (Some (JStr (r_id r))) = Some (r_id r)"
    using v by (simp add: wire_simps)
  ultimately show ?thesis
    using v
    by (auto simp: parseOrdinaryReceipt_def encode_receipt_closed encode_receipt_get(1-5) split: if_splits)
qed

interpretation receipt_wire: closed_decoder "\<lambda>v. parseOrdinaryReceipt fd scope (Some v)" encode_receipt
  "valid_receipt fd scope" "receipt_required @ receipt_optional" for fd scope
proof
  fix v r assume "parseOrdinaryReceipt fd scope (Some v) = Some r"
  from parse_receipt_parts [OF this]
  show "is_object v \<and> set (own_keys v) \<subseteq> set (receipt_required @ receipt_optional)"
    by (auto simp: closed_record_Some)
qed (simp_all add: parse_receipt_valid encode_receipt_parse)

section \<open>List pages\<close>

record page_meta =
  meta_total :: nat
  meta_page :: nat
  meta_per_page :: nat

definition parse_meta :: "json option \<Rightarrow> page_meta option" where
  "parse_meta v =
     bind_opt (closed_record [''total'', ''page'', ''per_page''] [] v) (\<lambda>raw.
     bind_opt (wire_nat (get_prop raw ''total'')) (\<lambda>t.
     bind_opt (wire_nat (get_prop raw ''page'')) (\<lambda>p.
     bind_opt (wire_nat (get_prop raw ''per_page'')) (\<lambda>n.
     Some \<lparr>meta_total = t, meta_page = p, meta_per_page = n\<rparr>))))"

fun wire_array :: "json option \<Rightarrow> json list option" where
  "wire_array (Some (JArr vs)) = Some vs"
| "wire_array _ = None"

definition parseReceiptListResponse ::
  "(string \<Rightarrow> bool) \<Rightarrow> receipt_scope \<Rightarrow> json option \<Rightarrow> (receipt list \<times> page_meta) option" where
  "parseReceiptListResponse finite_date scope v =
     bind_opt (closed_record [''data'', ''meta''] [] v) (\<lambda>source.
     bind_opt (wire_array (get_prop source ''data'')) (\<lambda>vs.
     bind_opt (all_rows (\<lambda>row. parseOrdinaryReceipt finite_date scope (Some row)) vs) (\<lambda>rows.
     bind_opt (parse_meta (get_prop source ''meta'')) (\<lambda>m.
     ensure (\<not> (meta_page m < 1 \<or> meta_per_page m < 1 \<or> length rows > meta_per_page m \<or>
                length rows > meta_total m))
       (Some (rows, m))))))"

section \<open>Live submission content\<close>

datatype completeness = Complete | LegacyUnknown

record live_content =
  lc_id :: string
  lc_subject :: string
  lc_from :: string
  lc_to :: "string list"
  lc_cc :: "string list option"
  lc_bcc :: "string list option"
  lc_completeness :: completeness
  lc_headers :: "(string \<times> string) list option"
  lc_text_body :: "string option"
  lc_html_body :: "string option"
  lc_created_at :: string

definition completeness_names :: "(string \<times> completeness) list" where
  "completeness_names = [(''complete'', Complete), (''legacy_unknown'', LegacyUnknown)]"

definition blockedHeaders :: "string list" where
  "blockedHeaders = [''from'', ''to'', ''cc'', ''bcc'', ''subject'', ''date'', ''message-id'',
     ''mime-version'', ''content-type'', ''content-transfer-encoding'', ''return-path'', ''sender'',
     ''received'', ''dkim-signature'', ''domainkey-signature'', ''arc-seal'',
     ''arc-message-signature'', ''arc-authentication-results'', ''x-mailer'', ''x-originating-ip'',
     ''x-originating-email'', ''x-google-dkim-signature'', ''authentication-results'',
     ''received-spf'']"

definition header_rx :: rx where
  "header_rx = Seq (Cls is_alnum) (Star (Cls (\<lambda>c. is_alnum c \<or> c = CHR ''-'')))"

definition allowed_header :: "string \<Rightarrow> bool" where
  "allowed_header k = (\<not> (length k > 126 \<or> \<not> rx_match header_rx k \<or>
     map to_lower_char k \<in> set blockedHeaders))"

fun parse_headers :: "json option \<Rightarrow> (string \<times> string) list option" where
  "parse_headers (Some (JObj kvs)) =
     (if list_all (\<lambda>(k, v). allowed_header k \<and> wire_string (Some v) \<noteq> None) kvs
      then Some (map (\<lambda>(k, v). (k, the (wire_string (Some v)))) kvs) else None)"
| "parse_headers _ = None"

definition content_required :: "string list" where
  "content_required = [''id'', ''subject'', ''from'', ''to'', ''bcc'', ''recipient_completeness'',
     ''created_at'', ''content_redacted'']"

definition content_optional :: "string list" where
  "content_optional = [''cc'', ''headers'', ''text_body'', ''html_body'']"

definition parse_bcc :: "completeness \<Rightarrow> json option \<Rightarrow> string list option option" where
  "parse_bcc c v =
     ensure (\<not> (c = LegacyUnknown \<and> v \<noteq> Some JNull \<or> c = Complete \<and> wire_array v = None))
       (if c = Complete then bind_opt (wire_strings v) (\<lambda>ss. Some (Some ss)) else Some None)"

definition parseSubmissionContent ::
  "(string \<Rightarrow> bool) \<Rightarrow> string \<Rightarrow> json option \<Rightarrow> live_content option" where
  "parseSubmissionContent finite_date expectedId v =
     bind_opt (closed_record content_required content_optional v) (\<lambda>raw.
     bind_opt (wire_id (get_prop raw ''id'')) (\<lambda>i.
     ensure (i = expectedId \<and> get_prop raw ''content_redacted'' = Some (JBool False))
     (bind_opt (category_of completeness_names (get_prop raw ''recipient_completeness'')) (\<lambda>c.
     bind_opt (parse_bcc c (get_prop raw ''bcc'')) (\<lambda>bcc.
     bind_opt (wire_string (get_prop raw ''subject'')) (\<lambda>subject.
     bind_opt (wire_string (get_prop raw ''from'')) (\<lambda>from.
     bind_opt (wire_strings (get_prop raw ''to'')) (\<lambda>recipients.
     bind_opt (wire_date finite_date (get_prop raw ''created_at'')) (\<lambda>created.
     bind_opt (optional_field raw ''cc'' wire_strings) (\<lambda>cc.
     bind_opt (optional_field raw ''headers'' parse_headers) (\<lambda>hs.
     bind_opt (optional_field raw ''text_body'' wire_string) (\<lambda>t.
     bind_opt (optional_field raw ''html_body'' wire_string) (\<lambda>h.
     Some \<lparr>lc_id = expectedId, lc_subject = subject, lc_from = from, lc_to = recipients,
           lc_cc = cc, lc_bcc = bcc, lc_completeness = c, lc_headers = hs, lc_text_body = t,
           lc_html_body = h, lc_created_at = created\<rparr>)))))))))))))"

definition parseContentResponse ::
  "(string \<Rightarrow> bool) \<Rightarrow> string \<Rightarrow> json option \<Rightarrow> live_content option" where
  "parseContentResponse finite_date expectedId v =
     bind_opt (closed_record [''data''] [] v) (\<lambda>source.
     parseSubmissionContent finite_date expectedId (get_prop source ''data''))"

lemma parse_headers_Some:
  "parse_headers v = Some hs \<longleftrightarrow>
     v = Some (JObj (map (\<lambda>(k, x). (k, JStr x)) hs)) \<and> list_all (\<lambda>(k, x). allowed_header k) hs"
proof
  assume "parse_headers v = Some hs"
  then obtain kvs where v: "v = Some (JObj kvs)"
    and all: "list_all (\<lambda>(k, v). allowed_header k \<and> wire_string (Some v) \<noteq> None) kvs"
    and hs: "hs = map (\<lambda>(k, v). (k, the (wire_string (Some v)))) kvs"
    by (cases v rule: parse_headers.cases) (auto split: if_splits)
  have "map (\<lambda>(k, x). (k, JStr x)) hs = kvs \<and> list_all (\<lambda>(k, x). allowed_header k) hs"
    using all unfolding hs by (induction kvs) (auto simp: wire_simps)
  with v show "v = Some (JObj (map (\<lambda>(k, x). (k, JStr x)) hs)) \<and> list_all (\<lambda>(k, x). allowed_header k) hs"
    by simp
next
  assume *: "v = Some (JObj (map (\<lambda>(k, x). (k, JStr x)) hs)) \<and> list_all (\<lambda>(k, x). allowed_header k) hs"
  have "list_all (\<lambda>(k, v). allowed_header k \<and> wire_string (Some v) \<noteq> None) (map (\<lambda>(k, x). (k, JStr x)) hs)"
    using * by (auto simp: list_all_iff)
  moreover have "map (\<lambda>(k, v). (k, the (wire_string (Some v)))) (map (\<lambda>(k, x). (k, JStr x)) hs) = hs"
    by (induction hs) auto
  ultimately show "parse_headers v = Some hs" using * by simp
qed

lemma header_name_chars: "allowed_header k \<Longrightarrow> list_all (\<lambda>c. is_alnum c \<or> c = CHR ''-'') k"
  by (auto simp: allowed_header_def header_rx_def list_all_iff dest: rx_match_chars)

section \<open>Properties\<close>

text \<open>
  C20: an accepted receipt is in scope and says nothing the ledger does not back: the id and the
  tenant are the requested ones; known counts add up exactly to a positive total, although the
  code adds them as floating-point numbers; an uncertain count is always flagged; and a retry is
  offered only without a block reason, on a known and certain ledger, inside a tenant.
\<close>

theorem receipt_accepted:
  assumes "parseOrdinaryReceipt finite_date scope v = Some r"
  shows "valid_id (r_id r) \<and> (sc_id scope = None \<or> sc_id scope = Some (r_id r)) \<and>
    (case (r_tenant_id r, sc_tenant scope) of (Some t, Some expected) \<Rightarrow> expected = Some t | _ \<Rightarrow> True) \<and>
    (case r_progress r of
       Known c \<Rightarrow> total c > 0 \<and>
         total c = accepted c + pending c + temporary c + permanent c + uncertain c \<and>
         (uncertain c = 0 \<or> r_delivery_uncertain r) \<and> r_tenant_id r \<noteq> None
     | UnknownProgress \<Rightarrow> r_status r = NeedsAttention) \<and>
    (case r_capabilities r of
       Some k \<Rightarrow> (if retry k then retry_block_reason k = NoReason \<and> \<not> r_delivery_uncertain r \<and>
                       r_progress r \<noteq> UnknownProgress \<and> r_tenant_id r \<noteq> None else True)
     | None \<Rightarrow> True)"
  using parse_receipt_valid [OF assms]
  unfolding valid_receipt_def
  by (cases "r_progress r"; cases "r_capabilities r"; cases "r_tenant_id r"; cases "sc_tenant scope";
      cases "sc_id scope")
    (auto simp: wrong_id_def out_of_tenant_def valid_progress_def valid_counts_def
      uncertain_progress_def valid_capabilities_def usable_def split: if_splits)

definition example_id :: string where "example_id = ''11111111-2222-3333-4444-555555555555''"

definition example_receipt :: receipt where
  "example_receipt = \<lparr>r_id = example_id, r_tenant_id = Some example_id, r_state = StSent,
     r_status = PartiallyAccepted,
     r_progress = Known \<lparr>total = 3, accepted = 2, pending = 0, temporary = 0, permanent = 1, uncertain = 0\<rparr>,
     r_created_at = Some ''2024-01-02T03:04:05.6Z'', r_updated_at = None, r_next_retry = None,
     r_attempt_count = Some 1, r_delivery_uncertain = False,
     r_capabilities = Some \<lparr>view_content = True, retry = True, retry_block_reason = NoReason\<rparr>\<rparr>"

definition example_scope :: receipt_scope where
  "example_scope = \<lparr>sc_id = Some example_id, sc_tenant = Some (Some example_id)\<rparr>"

lemma example_id_valid: "valid_id example_id"
  by code_simp

lemma example_date_valid: "valid_date (\<lambda>_. True) ''2024-01-02T03:04:05.6Z''"
  by code_simp

lemma example_receipt_valid: "valid_receipt (\<lambda>_. True) example_scope example_receipt"
  using example_id_valid example_date_valid
  by (simp add: valid_receipt_def example_receipt_def example_scope_def wrong_id_def out_of_tenant_def
      valid_progress_def valid_counts_def safe_nat_def uncertain_progress_def valid_capabilities_def)

theorem receipt_accepted_witness:
  "parseOrdinaryReceipt (\<lambda>_. True) example_scope (Some (encode_receipt example_receipt)) = Some example_receipt \<and>
   sc_id example_scope = Some (r_id example_receipt)"
  using receipt_accepted [OF encode_receipt_parse [OF example_receipt_valid]]
    encode_receipt_parse [OF example_receipt_valid]
  by (simp add: example_scope_def)

text \<open>
  C30: the parser accepts its own output unchanged: every valid receipt, written as the object the
  parser builds, is read back as itself, so revalidating a receipt never loses or alters it.
\<close>

theorem receipt_roundtrip:
  assumes "valid_receipt finite_date scope r"
  shows "parseOrdinaryReceipt finite_date scope (Some (encode_receipt r)) = Some r"
  using assms by (rule receipt_wire.encode_decode)

theorem receipt_roundtrip_witness:
  "parseReceiptResponse (\<lambda>_. True) example_scope (Some (JObj [(''data'', encode_receipt example_receipt)])) =
    Some example_receipt"
proof -
  have "closed_record [''data''] [] (Some (JObj [(''data'', encode_receipt example_receipt)])) =
      Some (JObj [(''data'', encode_receipt example_receipt)])"
    by (simp add: closed_record_Some)
  with receipt_roundtrip [OF example_receipt_valid] show ?thesis
    by (simp add: parseReceiptResponse_def)
qed

text \<open>
  A page of receipts is refused as a whole unless every row is a receipt of the scope and the
  rows fit the page and the total that the response states.
\<close>

lemma receipt_page_bounds:
  assumes "parseReceiptListResponse finite_date scope v = Some (rows, m)"
  shows "list_all (valid_receipt finite_date scope) rows \<and> length rows \<le> meta_per_page m \<and>
    length rows \<le> meta_total m \<and> 1 \<le> meta_page m"
proof -
  from assms obtain vs where
    "all_rows (\<lambda>row. parseOrdinaryReceipt finite_date scope (Some row)) vs = Some rows"
    and "\<not> (meta_page m < 1 \<or> meta_per_page m < 1 \<or> length rows > meta_per_page m \<or> length rows > meta_total m)"
    by (auto simp: parseReceiptListResponse_def)
  then show ?thesis by (auto dest: receipt_wire.rows_valid)
qed

lemma receipt_page_bounds_example:
  "\<exists>rows m. length rows = 1 \<and> length rows \<le> meta_per_page m \<and>
     parseReceiptListResponse (\<lambda>_. True) example_scope
       (Some (JObj [(''data'', JArr [encode_receipt example_receipt]),
         (''meta'', JObj [(''total'', json_nat 1), (''page'', json_nat 1), (''per_page'', json_nat 20)])]))
     = Some (rows, m)"
proof -
  let ?m = "\<lparr>meta_total = 1, meta_page = 1, meta_per_page = 20\<rparr>"
  let ?meta = "JObj [(''total'', json_nat 1), (''page'', json_nat 1), (''per_page'', json_nat 20)]"
  let ?v = "JObj [(''data'', JArr [encode_receipt example_receipt]), (''meta'', ?meta)]"
  have "all_rows (\<lambda>row. parseOrdinaryReceipt (\<lambda>_. True) example_scope (Some row)) [encode_receipt example_receipt]
      = Some [example_receipt]"
    by (simp add: all_rows_def encode_receipt_parse [OF example_receipt_valid])
  moreover have "parse_meta (Some ?meta) = Some ?m"
    by (auto simp: parse_meta_def closed_record_Some wire_simps safe_nat_def)
  moreover have "closed_record [''data'', ''meta''] [] (Some ?v) = Some ?v"
    by (auto simp: closed_record_Some)
  ultimately have p: "parseReceiptListResponse (\<lambda>_. True) example_scope (Some ?v) = Some ([example_receipt], ?m)"
    by (simp add: parseReceiptListResponse_def)
  from receipt_page_bounds [OF p] p show ?thesis by auto
qed

text \<open>
  Live content is shown only for the submission that was asked for and only unredacted; its
  blind copies come from their own field, never from a header: every header name kept consists of
  letters, digits and dashes and is none of the blocked names, From, To, Cc, Bcc and Subject among
  them, in any capitalisation.
\<close>

lemma content_headers_safe:
  assumes "parseSubmissionContent finite_date expected v = Some c"
  shows "lc_id c = expected \<and>
    (case lc_completeness c of Complete \<Rightarrow> lc_bcc c \<noteq> None | LegacyUnknown \<Rightarrow> lc_bcc c = None) \<and>
    (case lc_headers c of
       Some hs \<Rightarrow> list_all (\<lambda>(k, x). map to_lower_char k \<notin> set blockedHeaders \<and>
                     list_all (\<lambda>a. is_alnum a \<or> a = CHR ''-'') k) hs
     | None \<Rightarrow> True)"
proof -
  have bcc: "b \<noteq> None" if "parse_bcc Complete x = Some b" for x b
    using that by (auto simp: parse_bcc_def)
  have legacy: "b = None" if "parse_bcc LegacyUnknown x = Some b" for x b
    using that by (auto simp: parse_bcc_def)
  have heads: "list_all (\<lambda>(k, x). map to_lower_char k \<notin> set blockedHeaders \<and>
                     list_all (\<lambda>a. is_alnum a \<or> a = CHR ''-'') k) hs"
    if "optional_field raw ''headers'' parse_headers = Some (Some hs)" for raw hs
    using that header_name_chars
    by (fastforce simp: optional_field_Some parse_headers_Some list_all_iff allowed_header_def)
  from assms show ?thesis
    unfolding parseSubmissionContent_def
    by (auto simp: wire_simps dest: bcc legacy heads split: option.split completeness.split)
qed

definition example_content :: json where
  "example_content = JObj [(''id'', JStr example_id), (''subject'', JStr ''s''), (''from'', JStr ''a@b.c''),
     (''to'', JArr [JStr ''d@e.f'']), (''bcc'', JArr []), (''recipient_completeness'', JStr ''complete''),
     (''created_at'', JStr ''2024-01-02T03:04:05Z''), (''content_redacted'', JBool False),
     (''headers'', JObj [(''X-Trace'', JStr ''1'')])]"

lemma content_headers_safe_example:
  "\<exists>c. parseSubmissionContent (\<lambda>_. True) example_id (Some example_content) = Some c \<and>
     lc_id c = example_id \<and> lc_headers c = Some [(''X-Trace'', ''1'')]"
proof -
  have "case parseSubmissionContent (\<lambda>_. True) example_id (Some example_content) of
      Some c \<Rightarrow> lc_headers c = Some [(''X-Trace'', ''1'')] | None \<Rightarrow> False"
    by code_simp
  then obtain c where c: "parseSubmissionContent (\<lambda>_. True) example_id (Some example_content) = Some c"
    "lc_headers c = Some [(''X-Trace'', ''1'')]"
    by (auto split: option.splits)
  with content_headers_safe [OF c(1)] show ?thesis by blast
qed

end
