(* ===== verification/Inspection.thy ===== *)
theory Inspection
  imports Wire
begin

text \<open>
  The audited inspection of an outbound job: \<^verbatim>\<open>web/lib/outbound-inspection-types.ts\<close>.
\<close>

section \<open>Types\<close>

datatype job_state = JobPending | JobProcessing | JobSent | JobRetry | JobFailed | JobDead
  | JobCancelled | JobUnknown

datatype job_status = StatSubmitted | StatCancelled | StatSending | StatPartiallyAccepted
  | StatAccepted | StatNeedsAttention | StatUnknown

datatype recipient_state = RcptPending | RcptAccepted | RcptTemporary | RcptPermanent
  | RcptUncertain | RcptUnknown

datatype recipient_kind = KindTo | KindCc | KindBcc | KindEnvelope | KindUnknown

record inspection_job =
  j_id :: string
  j_tenant_id :: string
  j_state :: job_state
  j_status :: job_status
  j_created_at :: string
  j_updated_at :: string
  j_mail_from :: string
  j_to :: "string list"
  j_cc :: "string list"
  j_bcc :: "string list"
  j_subject :: string
  j_text_body :: string
  j_html_body :: string
  j_headers :: "(string \<times> string) list"

record inspection_recipient =
  q_address :: string
  q_kind :: recipient_kind
  q_state :: recipient_state
  q_attempts :: nat
  q_smtp_code :: nat
  q_enhanced_code :: "string option"
  q_diagnostic_class :: recipient_state
  q_updated_at :: string

record inspection =
  v_job :: inspection_job
  v_recipients :: "inspection_recipient list"

definition outboundInspectionHeaderKeys :: "string list" where
  "outboundInspectionHeaderKeys = [''From'', ''To'', ''Cc'', ''Subject'', ''Date'', ''Message-Id'',
     ''Reply-To'', ''In-Reply-To'', ''References'', ''Mime-Version'', ''Content-Type'',
     ''Content-Transfer-Encoding'', ''Content-Disposition'', ''Content-Id'']"

definition job_states :: "(string \<times> job_state) list" where
  "job_states = [(''pending'', JobPending), (''processing'', JobProcessing), (''sent'', JobSent),
     (''retry'', JobRetry), (''failed'', JobFailed), (''dead'', JobDead), (''cancelled'', JobCancelled)]"

definition job_statuses :: "(string \<times> job_status) list" where
  "job_statuses = [(''submitted'', StatSubmitted), (''cancelled'', StatCancelled),
     (''sending'', StatSending), (''partially_accepted'', StatPartiallyAccepted),
     (''accepted'', StatAccepted), (''needs_attention'', StatNeedsAttention)]"

definition recipientStates :: "(string \<times> recipient_state) list" where
  "recipientStates = [(''pending'', RcptPending), (''accepted'', RcptAccepted),
     (''temporary'', RcptTemporary), (''permanent'', RcptPermanent), (''uncertain'', RcptUncertain),
     (''unknown'', RcptUnknown)]"

definition recipient_kinds :: "(string \<times> recipient_kind) list" where
  "recipient_kinds = [(''to'', KindTo), (''cc'', KindCc), (''bcc'', KindBcc), (''envelope'', KindEnvelope)]"

section \<open>Checks\<close>

definition isInspectionID :: "json option \<Rightarrow> bool" where
  "isInspectionID v = (case v of Some (JStr s) \<Rightarrow> valid_id s | _ \<Rightarrow> False)"

text \<open>The UTF-8 length of a string of code units below 256.\<close>

definition utf8_length :: "string \<Rightarrow> nat" where
  "utf8_length s = sum_list (map (\<lambda>c. if (of_char c :: nat) < 128 then 1 else 2) s)"

definition validInspectionReason :: "string \<Rightarrow> bool" where
  "validInspectionReason reason =
     (let size = utf8_length (js_trim reason) in 8 \<le> size \<and> size \<le> 1000)"

definition jobKeys :: "string list" where
  "jobKeys = [''id'', ''tenant_id'', ''state'', ''status'', ''created_at'', ''updated_at'',
     ''mail_from'', ''to'', ''cc'', ''bcc'', ''subject'', ''text_body'', ''html_body'', ''headers'']"

definition recipientKeys :: "string list" where
  "recipientKeys = [''address'', ''kind'', ''state'', ''attempts'', ''smtp_code'',
     ''diagnostic_class'', ''updated_at'']"

definition day_rx :: rx where
  "day_rx = rx_seq [rx_times 4 (Cls is_digit), rx_lit (CHR ''-''), rx_times 2 (Cls is_digit),
     rx_lit (CHR ''-''), rx_times 2 (Cls is_digit), rx_lit (CHR ''T''), Star (Cls (\<lambda>_. True))]"

definition dateTime :: "(string \<Rightarrow> bool) \<Rightarrow> json option \<Rightarrow> string option" where
  "dateTime finite_date v =
     bind_opt (wire_string v) (\<lambda>s. ensure (rx_match day_rx s \<and> finite_date s) (Some s))"

text \<open>A category out of the list, or the fixed label for an unknown string.\<close>

definition category :: "(string \<times> 'c) list \<Rightarrow> 'c \<Rightarrow> json option \<Rightarrow> 'c option" where
  "category table other v =
     bind_opt (wire_string v) (\<lambda>s.
       case map_of table s of Some c \<Rightarrow> Some c | None \<Rightarrow> Some other)"

definition no_line_break :: "string \<Rightarrow> bool" where
  "no_line_break s = (LF \<notin> set s \<and> CR \<notin> set s)"

fun header_values :: "json \<Rightarrow> string list \<Rightarrow> (string \<times> string) list option" where
  "header_values source [] = Some []"
| "header_values source (k # ks) =
     (if has_own source k then
        bind_opt (wire_string (get_prop source k)) (\<lambda>x.
        ensure (no_line_break x)
        (bind_opt (header_values source ks) (\<lambda>rest. Some ((k, x) # rest))))
      else header_values source ks)"

definition headers :: "json option \<Rightarrow> (string \<times> string) list option" where
  "headers v =
     bind_opt (closed_record [] outboundInspectionHeaderKeys v) (\<lambda>source.
     header_values source outboundInspectionHeaderKeys)"

definition enhanced_rx :: rx where
  "enhanced_rx = (let d = rx_seq [Cls is_digit, rx_opt (Cls is_digit), rx_opt (Cls is_digit)] in
     rx_seq [Cls (\<lambda>c. c \<in> set ''245''), rx_lit (CHR ''.''), d, rx_lit (CHR ''.''), d])"

definition enhanced_code :: "json option \<Rightarrow> string option" where
  "enhanced_code v =
     bind_opt (wire_string v) (\<lambda>s. ensure (rx_match enhanced_rx s \<and> no_line_break s) (Some s))"

text \<open>\<^verbatim>\<open>Number.isInteger\<close> and 0 or 200 to 599\<close>

fun smtp_code :: "json option \<Rightarrow> nat option" where
  "smtp_code (Some (JNum (Fin q))) =
     (if is_integer (Fin q) \<and> (q = 0 \<or> 200 \<le> q \<and> q \<le> 599) then Some (nat \<lfloor>q\<rfloor>) else None)"
| "smtp_code _ = None"

definition parse_recipient :: "(string \<Rightarrow> bool) \<Rightarrow> json \<Rightarrow> inspection_recipient option" where
  "parse_recipient finite_date v =
     bind_opt (closed_record recipientKeys [''enhanced_code''] (Some v)) (\<lambda>r.
     bind_opt (wire_nat (get_prop r ''attempts'')) (\<lambda>attempts.
     bind_opt (smtp_code (get_prop r ''smtp_code'')) (\<lambda>code.
     bind_opt (optional_field r ''enhanced_code'' enhanced_code) (\<lambda>enhanced.
     bind_opt (wire_string (get_prop r ''address'')) (\<lambda>address.
     bind_opt (category recipient_kinds KindUnknown (get_prop r ''kind'')) (\<lambda>kind.
     bind_opt (category recipientStates RcptUnknown (get_prop r ''state'')) (\<lambda>state.
     bind_opt (category recipientStates RcptUnknown (get_prop r ''diagnostic_class'')) (\<lambda>diagnostic.
     bind_opt (dateTime finite_date (get_prop r ''updated_at'')) (\<lambda>updated.
     Some \<lparr>q_address = address, q_kind = kind, q_state = state, q_attempts = attempts,
           q_smtp_code = code, q_enhanced_code = enhanced, q_diagnostic_class = diagnostic,
           q_updated_at = updated\<rparr>)))))))))"

definition parse_job :: "(string \<Rightarrow> bool) \<Rightarrow> json \<Rightarrow> inspection_job option" where
  "parse_job finite_date job =
     bind_opt (wire_string (get_prop job ''id'')) (\<lambda>i.
     bind_opt (wire_string (get_prop job ''tenant_id'')) (\<lambda>tenant.
     bind_opt (category job_states JobUnknown (get_prop job ''state'')) (\<lambda>state.
     bind_opt (category job_statuses StatUnknown (get_prop job ''status'')) (\<lambda>status.
     bind_opt (dateTime finite_date (get_prop job ''created_at'')) (\<lambda>created.
     bind_opt (dateTime finite_date (get_prop job ''updated_at'')) (\<lambda>updated.
     bind_opt (wire_string (get_prop job ''mail_from'')) (\<lambda>sender.
     bind_opt (wire_strings (get_prop job ''to'')) (\<lambda>recipients.
     bind_opt (wire_strings (get_prop job ''cc'')) (\<lambda>cc.
     bind_opt (wire_strings (get_prop job ''bcc'')) (\<lambda>bcc.
     bind_opt (wire_string (get_prop job ''subject'')) (\<lambda>subject.
     bind_opt (wire_string (get_prop job ''text_body'')) (\<lambda>t.
     bind_opt (wire_string (get_prop job ''html_body'')) (\<lambda>h.
     bind_opt (headers (get_prop job ''headers'')) (\<lambda>hs.
     Some \<lparr>j_id = i, j_tenant_id = tenant, j_state = state, j_status = status,
           j_created_at = created, j_updated_at = updated, j_mail_from = sender,
           j_to = recipients, j_cc = cc, j_bcc = bcc, j_subject = subject, j_text_body = t,
           j_html_body = h, j_headers = hs\<rparr>))))))))))))))"

fun wire_list :: "json option \<Rightarrow> json list option" where
  "wire_list (Some (JArr vs)) = Some vs"
| "wire_list _ = None"

definition parseOutboundInspection ::
  "(string \<Rightarrow> bool) \<Rightarrow> json option \<Rightarrow> string \<Rightarrow> string \<Rightarrow> inspection option" where
  "parseOutboundInspection finite_date v jobId tenantId =
     ensure (valid_id jobId \<and> valid_id tenantId)
     (bind_opt (closed_record [''job'', ''recipients''] [] v) (\<lambda>source.
      bind_opt (closed_record jobKeys [] (get_prop source ''job'')) (\<lambda>job.
      ensure (isInspectionID (get_prop job ''id'') \<and> isInspectionID (get_prop job ''tenant_id'') \<and>
              get_prop job ''id'' = Some (JStr jobId) \<and> get_prop job ''tenant_id'' = Some (JStr tenantId))
      (bind_opt (wire_list (get_prop source ''recipients'')) (\<lambda>vs.
       ensure (\<not> length vs > 50)
       (bind_opt (all_rows (parse_recipient finite_date) vs) (\<lambda>recipients.
        ensure (distinct (map q_address recipients))
        (bind_opt (parse_job finite_date job) (\<lambda>j.
         Some \<lparr>v_job = j, v_recipients = recipients\<rparr>)))))))))"

section \<open>Valid inspections\<close>

lemma label_Some:
  "category table other v = Some c \<longleftrightarrow>
     (\<exists>s. v = Some (JStr s) \<and> c = (case map_of table s of Some d \<Rightarrow> d | None \<Rightarrow> other))"
  by (auto simp: category_def wire_simps split: option.splits)

lemma smtp_code_range: "smtp_code v = Some n \<Longrightarrow> n = 0 \<or> 200 \<le> n \<and> n \<le> 599"
proof -
  assume "smtp_code v = Some n"
  then obtain q where q: "is_integer (Fin q)" "q = 0 \<or> 200 \<le> q \<and> q \<le> 599" "n = nat \<lfloor>q\<rfloor>"
    by (cases v rule: smtp_code.cases) (auto split: if_splits simp del: is_integer.simps)
  from q(1) obtain k where k: "q = of_int k" by (metis is_integer.simps(1))
  have "q = 0 \<longleftrightarrow> k = 0" "200 \<le> q \<longleftrightarrow> 200 \<le> k" "q \<le> 599 \<longleftrightarrow> k \<le> 599"
    using of_int_le_iff [of 200 k, where 'a = rat] of_int_le_iff [of k 599, where 'a = rat]
    by (simp_all add: k)
  with q k show ?thesis by auto
qed

lemma header_values_safe:
  "header_values source ks = Some hs \<Longrightarrow> list_all (\<lambda>(k, x). k \<in> set ks \<and> no_line_break x) hs"
proof (induction ks arbitrary: hs)
  case (Cons k ks)
  then show ?case
    by (auto split: if_splits) (fastforce simp: list_all_iff)+
qed simp

lemma parse_job_parts:
  "parse_job fd job = Some x \<Longrightarrow>
     get_prop job ''id'' = Some (JStr (j_id x)) \<and> get_prop job ''tenant_id'' = Some (JStr (j_tenant_id x)) \<and>
     headers (get_prop job ''headers'') = Some (j_headers x)"
  by (auto simp: parse_job_def wire_simps)

lemma inspection_identity:
  assumes "parseOutboundInspection finite_date v jobId tenantId = Some r"
  shows "j_id (v_job r) = jobId" "j_tenant_id (v_job r) = tenantId" "valid_id jobId" "valid_id tenantId"
    "distinct (map q_address (v_recipients r))"
proof -
  from assms obtain job where "valid_id jobId" "valid_id tenantId" "get_prop job ''id'' = Some (JStr jobId)"
      "get_prop job ''tenant_id'' = Some (JStr tenantId)" "parse_job finite_date job = Some (v_job r)"
      "distinct (map q_address (v_recipients r))"
    unfolding parseOutboundInspection_def by auto
  then show "j_id (v_job r) = jobId" "j_tenant_id (v_job r) = tenantId" "valid_id jobId" "valid_id tenantId"
    "distinct (map q_address (v_recipients r))" by (auto dest: parse_job_parts)
qed

text \<open>
  C31: an inspection is accepted only for the requested job of the requested tenant, with at most
  50 recipients of distinct addresses, and nothing in it can break out of a line: every header is
  one of the fixed list and neither it nor an enhanced status code contains a line break, and every
  reply code is 0 or a three-digit SMTP code.
\<close>

theorem inspection_accepted:
  assumes "parseOutboundInspection finite_date v jobId tenantId = Some r"
  shows "j_id (v_job r) = jobId \<and> j_tenant_id (v_job r) = tenantId \<and> valid_id jobId \<and> valid_id tenantId \<and>
    length (v_recipients r) \<le> 50 \<and> distinct (map q_address (v_recipients r)) \<and>
    list_all (\<lambda>(k, x). k \<in> set outboundInspectionHeaderKeys \<and> no_line_break x) (j_headers (v_job r)) \<and>
    list_all (\<lambda>q. (q_smtp_code q = 0 \<or> 200 \<le> q_smtp_code q \<and> q_smtp_code q \<le> 599) \<and>
       safe_nat (q_attempts q) \<and> all_opt (\<lambda>e. rx_match enhanced_rx e \<and> no_line_break e) (q_enhanced_code q))
      (v_recipients r)"
proof -
  from assms obtain job vs where ids: "valid_id jobId" "valid_id tenantId"
    and job: "get_prop job ''id'' = Some (JStr jobId)" "get_prop job ''tenant_id'' = Some (JStr tenantId)"
      "parse_job finite_date job = Some (v_job r)"
    and rows: "\<not> length vs > 50" "all_rows (parse_recipient finite_date) vs = Some (v_recipients r)"
      "distinct (map q_address (v_recipients r))"
    unfolding parseOutboundInspection_def by auto
  have recipient: "(q_smtp_code q = 0 \<or> 200 \<le> q_smtp_code q \<and> q_smtp_code q \<le> 599) \<and>
       safe_nat (q_attempts q) \<and> all_opt (\<lambda>e. rx_match enhanced_rx e \<and> no_line_break e) (q_enhanced_code q)"
    if "parse_recipient finite_date w = Some q" for w q
  proof -
    from that obtain s where code: "smtp_code (get_prop s ''smtp_code'') = Some (q_smtp_code q)"
      and att: "wire_nat (get_prop s ''attempts'') = Some (q_attempts q)"
      and enh: "optional_field s ''enhanced_code'' enhanced_code = Some (q_enhanced_code q)"
      unfolding parse_recipient_def by auto
    have "all_opt (\<lambda>e. rx_match enhanced_rx e \<and> no_line_break e) (q_enhanced_code q)"
      using enh by (cases "q_enhanced_code q") (auto simp: optional_field_Some enhanced_code_def wire_simps)
    with smtp_code_range [OF code] att show ?thesis by (simp add: wire_simps)
  qed
  note inspection_identity(1,2)[OF assms]
  moreover have
    "list_all (\<lambda>(k, x). k \<in> set outboundInspectionHeaderKeys \<and> no_line_break x) (j_headers (v_job r))"
    using parse_job_parts [OF job(3)] by (auto simp: headers_def dest: header_values_safe)
  moreover have "length (v_recipients r) \<le> 50" using rows all_rows_length [OF rows(2)] by simp
  ultimately show ?thesis using ids rows(3) all_rows_all [OF rows(2) recipient] by simp
qed

definition inspected_id :: string where "inspected_id = ''11111111-2222-3333-4444-555555555555''"

definition inspected_day :: string where "inspected_day = ''2024-01-02T03:04:05Z''"

definition example_recipient :: json where
  "example_recipient = JObj [(''address'', JStr ''x''), (''kind'', JStr ''to''), (''state'', JStr ''new state''),
     (''attempts'', JNum (Fin 0)), (''smtp_code'', JNum (Fin 0)), (''diagnostic_class'', JStr ''x''),
     (''updated_at'', JStr inspected_day), (''enhanced_code'', JStr ''2.1.5'')]"

definition example_job :: json where
  "example_job = JObj [(''id'', JStr inspected_id), (''tenant_id'', JStr inspected_id),
     (''state'', JStr ''sent''), (''status'', JStr ''accepted''), (''created_at'', JStr inspected_day),
     (''updated_at'', JStr inspected_day), (''mail_from'', JStr ''x''), (''to'', JArr []), (''cc'', JArr []),
     (''bcc'', JArr []), (''subject'', JStr ''x''), (''text_body'', JStr ''x''), (''html_body'', JStr ''x''),
     (''headers'', JObj [(''Subject'', JStr ''x'')])]"

theorem inspection_accepted_witness:
  "\<exists>r. parseOutboundInspection (\<lambda>_. True)
     (Some (JObj [(''job'', example_job), (''recipients'', JArr [example_recipient])])) inspected_id inspected_id = Some r \<and>
     map q_state (v_recipients r) = [RcptUnknown] \<and> j_id (v_job r) = inspected_id"
proof -
  let ?v = "JObj [(''job'', example_job), (''recipients'', JArr [example_recipient])]"
  let ?d = "\<lambda>_::string. True"
  have facts: "dateTime ?d (Some (JStr inspected_day)) = Some inspected_day" "valid_id inspected_id"
    "enhanced_code (Some (JStr ''2.1.5'')) = Some ''2.1.5''" "wire_nat (Some (JNum (Fin 0))) = Some 0"
    "smtp_code (Some (JNum (Fin 0))) = Some 0"
    "headers (Some (JObj [(''Subject'', JStr ''x'')])) = Some [(''Subject'', ''x'')]"
    by code_simp+
  have rec: "closed_record recipientKeys [''enhanced_code''] (Some example_recipient) = Some example_recipient"
    "closed_record jobKeys [] (Some example_job) = Some example_job"
    "closed_record [''job'', ''recipients''] [] (Some ?v) = Some ?v"
    by code_simp+
  have "\<exists>q. parse_recipient ?d example_recipient = Some q \<and> q_state q = RcptUnknown"
    using facts rec(1)
    by (auto simp: parse_recipient_def example_recipient_def optional_field_def has_own_def label_Some
        wire_string_Some recipientStates_def)
  then obtain q where q: "parse_recipient ?d example_recipient = Some q" "q_state q = RcptUnknown" by blast
  have "\<exists>j. parse_job ?d example_job = Some j"
    using facts by (simp add: parse_job_def example_job_def category_def job_states_def job_statuses_def)
  then obtain j where j: "parse_job ?d example_job = Some j" by blast
  have ids: "get_prop example_job ''id'' = Some (JStr inspected_id)"
    "get_prop example_job ''tenant_id'' = Some (JStr inspected_id)"
    by (simp_all add: example_job_def)
  have r: "parseOutboundInspection ?d (Some ?v) inspected_id inspected_id = Some \<lparr>v_job = j, v_recipients = [q]\<rparr>"
    using rec facts q j ids by (simp add: parseOutboundInspection_def all_rows_def isInspectionID_def)
  from inspection_accepted [OF r] r q show ?thesis by (intro exI) auto
qed

end
