(* ===== verification/CompanyEvents.thy ===== *)
theory CompanyEvents
  imports LiveStream Wire ErrorCode
begin

text \<open>
  Company invalidation events: \<^verbatim>\<open>web/lib/api/company-events.ts\<close> (the closed schema and the
  stream listener) and \<^verbatim>\<open>web/features/company/company-event-consumer.tsx\<close> (the
  coalescing refresh that the events drive).
\<close>

section \<open>The schema of an event\<close>

definition COMPANY_EVENTS_PATH :: string where
  "COMPANY_EVENTS_PATH = ''/api/v1/company/events''"

definition resources :: "(string \<times> string) list" where
  "resources = [
     (''company.configure'', ''company''), (''company.index_retry'', ''company''),
     (''employee.invite'', ''invitation''), (''employee.invite_revoke'', ''invitation''),
     (''employee.activate'', ''user''), (''employee.offboard.preview'', ''user''),
     (''employee.offboard'', ''user''), (''permission.override.patch'', ''user''),
     (''permission.profile.assign'', ''user''), (''mailbox.provision'', ''mailbox''),
     (''mailbox.handover'', ''mailbox''), (''mailbox.grant'', ''mailbox''),
     (''mailbox.send_policy'', ''mailbox''), (''mailbox.convert_shared'', ''mailbox''),
     (''template.save'', ''template''), (''template.publish'', ''template''),
     (''template.retire'', ''template''), (''template.version.revoke'', ''template''),
     (''template.grant'', ''template''), (''permission.profile.update'', ''permission_profile''),
     (''permission.profile.delete'', ''permission_profile''), (''ingress.inspect'', ''ingest_job''),
     (''ingress.retry'', ''ingest_job''), (''outbound.retry'', ''outbound_job''),
     (''outbound.reconcile'', ''outbound_job''), (''outbound.break_glass'', ''outbound_job'')]"

datatype invalidation = Resync | Changed string string string

definition exact_keys :: "json \<Rightarrow> string list \<Rightarrow> bool" where
  "exact_keys v expected =
     (length (own_keys v) = length expected \<and> list_all (has_own v) expected)"

definition occurred_rx :: rx where
  "occurred_rx =
     (let d = Cls is_digit; dd = rx_times 2 d; opt = rx_opt d in
      rx_seq [rx_times 4 d, rx_lit (CHR ''-''), dd, rx_lit (CHR ''-''), dd, rx_lit (CHR ''T''), dd,
        rx_lit (CHR '':''), dd, rx_lit (CHR '':''), dd,
        rx_opt (rx_seq [rx_lit (CHR ''.''), d, opt, opt, opt, opt, opt, opt, opt, opt]),
        Alt (rx_lit (CHR ''Z''))
          (rx_seq [Cls (\<lambda>c. c = CHR ''+'' \<or> c = CHR ''-''), dd, rx_lit (CHR '':''), dd])])"

definition parse_changed :: "json \<Rightarrow> invalidation option" where
  "parse_changed metadata =
     (if \<not> is_object metadata \<or> \<not> exact_keys metadata [''action'', ''resource_type'', ''resource_id'']
      then None
      else case (get_prop metadata ''action'', get_prop metadata ''resource_type'',
                 get_prop metadata ''resource_id'') of
        (Some (JStr action), Some (JStr kind), Some (JStr ident)) \<Rightarrow>
          if map_of resources action = Some kind \<and> valid_id ident
          then Some (Changed action kind ident) else None
      | _ \<Rightarrow> None)"

definition parseCompanyEvent ::
  "(string \<Rightarrow> bool) \<Rightarrow> string \<Rightarrow> json \<Rightarrow> string \<Rightarrow> invalidation option" where
  "parseCompanyEvent finite_date type data tenantId =
     (if \<not> valid_id tenantId \<or> \<not> is_object data \<or> get_prop data ''tenant_id'' \<noteq> Some (JStr tenantId)
      then None
      else if type = ''ready'' \<or> type = ''resync'' then
        (if exact_keys data [''tenant_id''] then Some Resync else None)
      else if type \<noteq> ''company.admin.changed'' \<or>
              \<not> exact_keys data [''type'', ''tenant_id'', ''occurred_at'', ''metadata''] \<or>
              get_prop data ''type'' \<noteq> Some (JStr type)
      then None
      else case (get_prop data ''occurred_at'', get_prop data ''metadata'') of
        (Some (JStr time), Some metadata) \<Rightarrow>
          if rx_match occurred_rx time \<and> finite_date time then parse_changed metadata else None
      | _ \<Rightarrow> None)"

section \<open>The stream listener\<close>

definition wire_wrap :: "json \<Rightarrow> json" where
  "wire_wrap v = JObj [(''wire'', v)]"

text \<open>What one stream event makes the listener report.\<close>

definition on_company_event ::
  "(string \<Rightarrow> bool) \<Rightarrow> string \<Rightarrow> event \<Rightarrow> invalidation option" where
  "on_company_event finite_date tenantId e =
     (if e_type e = ''resync'' \<and> e_data e = JNull then Some Resync
      else if \<not> is_object (e_data e) then None
      else case get_prop (e_data e) ''wire'' of
        None \<Rightarrow> None
      | Some w \<Rightarrow> parseCompanyEvent finite_date (e_type e) w tenantId)"

definition company_handler ::
  "(string \<Rightarrow> bool) \<Rightarrow> (string \<Rightarrow> json option) \<Rightarrow> string \<Rightarrow>
   (invalidation \<Rightarrow> session \<Rightarrow> exn option \<times> session) \<Rightarrow> handler" where
  "company_handler finite_date parse tenantId onInvalidate =
     \<lparr>h_event = (\<lambda>e s. case on_company_event finite_date tenantId e of
          Some i \<Rightarrow> onInvalidate i s | None \<Rightarrow> (None, s)),
      h_transform = Some wire_wrap, h_parse = parse\<rparr>"

definition streamCompanyEvents ::
  "(string \<Rightarrow> bool) \<Rightarrow> (string \<Rightarrow> json option) \<Rightarrow> string \<Rightarrow>
   (invalidation \<Rightarrow> session \<Rightarrow> exn option \<times> session) \<Rightarrow> world \<Rightarrow>
   (exn, unit) res \<times> world \<times> stream" where
  "streamCompanyEvents finite_date parse tenantId onInvalidate w =
     (if \<not> valid_id tenantId then (Throw (Err ''Selected company tenant is required''), w, fresh_stream)
      else streamEvents (company_handler finite_date parse tenantId onInvalidate) COMPANY_EVENTS_PATH w)"

section \<open>The consumer\<close>

definition denied :: "exn \<Rightarrow> bool" where
  "denied e = (e = DOMException ''NotAllowedError'' \<or>
     errorCode e = Some ''UNAUTHORIZED'' \<or> errorCode e = Some ''FORBIDDEN'')"

datatype round_phase = NoRound | Requesting | Revalidating

text \<open>
  One run of the effect. \<^verbatim>\<open>k_owner\<close> says that the session scope and the stored tenant are
  still the ones of the run; \<^verbatim>\<open>k_seen\<close>, \<^verbatim>\<open>k_started\<close> and \<^verbatim>\<open>k_applied\<close> are ghosts:
  the invalidations received, those received before the current round was started, and those
  covered by the last round that was revalidated.
\<close>

record consumer =
  k_alive :: bool
  k_aborted :: bool
  k_owner :: bool
  k_phase :: round_phase
  k_pending :: bool
  k_revoked :: bool
  k_seen :: nat
  k_started :: nat
  k_applied :: nat
  k_failed :: bool

definition mounted :: consumer where
  "mounted = \<lparr>k_alive = True, k_aborted = False, k_owner = True, k_phase = NoRound,
     k_pending = False, k_revoked = False, k_seen = 0, k_started = 0, k_applied = 0, k_failed = False\<rparr>"

definition current :: "consumer \<Rightarrow> bool" where
  "current k = (k_alive k \<and> \<not> k_aborted k \<and> k_owner k)"

definition revoke :: "consumer \<Rightarrow> consumer" where
  "revoke k = (if \<not> current k then k else k\<lparr>k_revoked := True, k_aborted := True\<rparr>)"

definition start_round :: "consumer \<Rightarrow> consumer" where
  "start_round k = k\<lparr>k_phase := Requesting, k_pending := False, k_started := k_seen k\<rparr>"

definition end_round :: "consumer \<Rightarrow> consumer" where
  "end_round k = k\<lparr>k_phase := NoRound\<rparr>"

definition on_invalidate :: "consumer \<Rightarrow> consumer" where
  "on_invalidate k =
     (if \<not> current k then k
      else let k' = k\<lparr>k_seen := Suc (k_seen k), k_pending := True\<rparr>
           in if k_phase k' \<noteq> NoRound \<or> \<not> current k' then k' else start_round k')"

definition round_failed :: "exn \<Rightarrow> consumer \<Rightarrow> consumer" where
  "round_failed e k =
     end_round (if current k \<and> denied e then revoke k else k\<lparr>k_failed := True\<rparr>)"

datatype consumer_event = Invalidation | RequestDone | RevalidateDone | RoundError exn
  | StreamError exn | Unmount | OwnerChanged

text \<open>Events that the phase does not allow (a settlement nothing waits for) change nothing.\<close>

fun consumer_step :: "consumer \<Rightarrow> consumer_event \<Rightarrow> consumer" where
  "consumer_step k Invalidation = on_invalidate k"
| "consumer_step k RequestDone =
     (if k_phase k = Requesting
      then (if \<not> current k then end_round k else k\<lparr>k_phase := Revalidating\<rparr>) else k)"
| "consumer_step k RevalidateDone =
     (if k_phase k = Revalidating
      then (let k' = k\<lparr>k_applied := k_started k\<rparr>
            in if k_pending k' \<and> current k' then start_round k' else end_round k') else k)"
| "consumer_step k (RoundError e) = (if k_phase k \<noteq> NoRound then round_failed e k else k)"
| "consumer_step k (StreamError e) = (if current k \<and> denied e then revoke k else k)"
| "consumer_step k Unmount = k\<lparr>k_alive := False, k_aborted := True\<rparr>"
| "consumer_step k OwnerChanged = k\<lparr>k_owner := False\<rparr>"

abbreviation consumer_run :: "consumer \<Rightarrow> consumer_event list \<Rightarrow> consumer" where
  "consumer_run \<equiv> foldl consumer_step"

definition nothing_lost :: "consumer \<Rightarrow> bool" where
  "nothing_lost k \<longleftrightarrow>
     (if current k \<and> \<not> k_failed k then
        (case k_phase k of
           NoRound \<Rightarrow> k_applied k = k_seen k
         | _ \<Rightarrow> k_pending k \<or> k_started k = k_seen k)
      else True)"

lemma nothing_lost_step: "nothing_lost k \<Longrightarrow> nothing_lost (consumer_step k e)"
  by (cases e; cases "k_phase k")
    (auto simp: nothing_lost_def on_invalidate_def round_failed_def revoke_def start_round_def
      end_round_def current_def Let_def split: if_splits)

lemma nothing_lost_run: "nothing_lost k \<Longrightarrow> nothing_lost (consumer_run k es)"
  by (induction es arbitrary: k) (auto intro: nothing_lost_step)

definition consumer_inv :: "consumer \<Rightarrow> bool" where
  "consumer_inv k \<longleftrightarrow> nothing_lost k \<and> (if k_revoked k then k_aborted k else True)"

lemma revoked_step: "(k_revoked k \<longrightarrow> k_aborted k) \<Longrightarrow> k_revoked (consumer_step k e) \<longrightarrow> k_aborted (consumer_step k e)"
  by (cases e; cases "k_phase k")
    (auto simp: on_invalidate_def round_failed_def revoke_def start_round_def end_round_def Let_def)

lemma stopped_step:
  "\<not> current k \<Longrightarrow> \<not> current (consumer_step k e) \<and> k_seen (consumer_step k e) = k_seen k \<and>
     k_started (consumer_step k e) = k_started k"
  by (cases e; cases "k_phase k")
    (auto simp: on_invalidate_def round_failed_def revoke_def start_round_def end_round_def
      current_def Let_def)

lemma exact_keys_set:
  "exact_keys v ks \<Longrightarrow> distinct ks \<Longrightarrow> distinct (own_keys v) \<Longrightarrow> set (own_keys v) = set ks"
proof -
  assume e: "exact_keys v ks" "distinct ks" "distinct (own_keys v)"
  then have "set ks \<subseteq> set (own_keys v)" by (auto simp: exact_keys_def list_all_iff has_own_keys)
  moreover have "card (set ks) = card (set (own_keys v))"
    using e by (simp add: exact_keys_def distinct_card)
  ultimately show ?thesis by (metis List.finite_set card_subset_eq)
qed

section \<open>Properties\<close>

text \<open>
  An event is acted on only if it is one of the closed schema: it names the selected tenant,
  and a change names a known action, exactly the resource type of that action and a real resource
  id, inside an object that carries no further key.
\<close>

lemma company_event_closed:
  assumes "parseCompanyEvent finite_date type data tenant = Some i"
  shows "get_prop data ''tenant_id'' = Some (JStr tenant) \<and> valid_id tenant \<and>
    (case i of
       Resync \<Rightarrow> (type = ''ready'' \<or> type = ''resync'') \<and> length (own_keys data) = 1
     | Changed action kind ident \<Rightarrow>
         type = ''company.admin.changed'' \<and> map_of resources action = Some kind \<and> valid_id ident \<and>
         length (own_keys data) = 4 \<and>
         (case get_prop data ''metadata'' of
            Some m \<Rightarrow> get_prop m ''action'' = Some (JStr action) \<and> get_prop m ''resource_type'' = Some (JStr kind) \<and>
              get_prop m ''resource_id'' = Some (JStr ident) \<and> length (own_keys m) = 3
          | None \<Rightarrow> False))"
  using assms
  by (auto simp: parseCompanyEvent_def parse_changed_def exact_keys_def
      split: if_splits option.splits json.splits)

definition event_tenant :: string where "event_tenant = ''11111111-2222-3333-4444-555555555555''"

definition example_event :: json where
  "example_event = JObj [(''type'', JStr ''company.admin.changed''), (''tenant_id'', JStr event_tenant),
     (''occurred_at'', JStr ''2024-01-02T03:04:05.25Z''),
     (''metadata'', JObj [(''action'', JStr ''mailbox.grant''), (''resource_type'', JStr ''mailbox''),
        (''resource_id'', JStr event_tenant)])]"

lemma example_event_parsed:
  "parseCompanyEvent (\<lambda>_. True) ''company.admin.changed'' example_event event_tenant =
     Some (Changed ''mailbox.grant'' ''mailbox'' event_tenant)"
proof -
  have "valid_id event_tenant" "rx_match occurred_rx ''2024-01-02T03:04:05.25Z''" by code_simp+
  then show ?thesis
    by (simp add: parseCompanyEvent_def example_event_def exact_keys_def has_own_def parse_changed_def
        resources_def)
qed

lemma company_event_closed_example:
  "map_of resources ''mailbox.grant'' = Some ''mailbox'' \<and>
   get_prop example_event ''tenant_id'' = Some (JStr event_tenant)"
  using company_event_closed [OF example_event_parsed] by simp

text \<open>
  A frame of the server never passes for the resync the client synthesises on a new
  connection: what the listener reports for any frame, whatever its type and text, is exactly what
  the schema makes of the text, so a resync of the server counts only with the selected tenant.
\<close>

lemma wire_frames_are_checked:
  "on_company_event finite_date tenant
     (event_of (company_handler finite_date parse tenant onInvalidate) type text) =
   parseCompanyEvent finite_date type (case parse text of Some v \<Rightarrow> v | None \<Rightarrow> JStr text) tenant"
  by (simp add: on_company_event_def event_of_def company_handler_def wire_wrap_def Let_def)

text \<open>
  C25: no invalidation is lost. In every state a mounted consumer can reach, as long as it is the
  current owner and no refresh failed, an idle consumer has revalidated after the last
  invalidation it received, and a busy one either covers it or runs another round.
\<close>

theorem consumer_loses_nothing:
  "nothing_lost (consumer_run mounted es)"
  by (rule nothing_lost_run) (simp add: nothing_lost_def mounted_def)

text \<open>
  Revocation is final for a run of the effect: once a stream or refresh was denied, or the
  effect was unmounted or lost its owner, no invalidation is delivered and no round is started any
  more.
\<close>

lemma consumer_stops:
  assumes "\<not> current (consumer_run mounted es)"
  shows "k_seen (consumer_run mounted (es @ fs)) = k_seen (consumer_run mounted es) \<and>
    k_started (consumer_run mounted (es @ fs)) = k_started (consumer_run mounted es)"
proof -
  have "\<not> current (foldl consumer_step k fs) \<and> k_seen (foldl consumer_step k fs) = k_seen k \<and>
      k_started (foldl consumer_step k fs) = k_started k" if "\<not> current k" for k
    using that
  proof (induction fs arbitrary: k)
    case (Cons f fs)
    from stopped_step [OF Cons.prems, of f] Cons.IH [of "consumer_step k f"] show ?case by simp
  qed simp
  with assms show ?thesis by (simp add: foldl_append)
qed

definition forbidden :: exn where "forbidden = Api (api_error ''FORBIDDEN'' ''no'')"

lemma consumer_stops_example:
  "k_seen (consumer_run mounted ([Invalidation, RoundError forbidden] @ [Invalidation, Invalidation])) = 1"
proof -
  have "denied forbidden"
    by (simp add: denied_def forbidden_def errorCode_api_error)
  then have s: "\<not> current (consumer_run mounted [Invalidation, RoundError forbidden])"
    "k_seen (consumer_run mounted [Invalidation, RoundError forbidden]) = 1"
    by (simp_all add: mounted_def on_invalidate_def current_def start_round_def round_failed_def
        revoke_def end_round_def Let_def)
  from consumer_stops [OF s(1), of "[Invalidation, Invalidation]"] s(2) show ?thesis by simp
qed

end
