(* ===== verification/Addresses.thy ===== *)
theory Addresses
  imports Prelude
begin

text \<open>
  The recipient tokenizer of \<^verbatim>\<open>src/web/lib/company.ts\<close>: the index loop of
  \<^verbatim>\<open>addresses\<close> with its local variables, a reference reading of the same text as a lexer
  with a mode, and the recipient field of the composer, which joins the stored addresses and
  tokenizes what is typed.
\<close>

section \<open>The loop\<close>

record tokens =
  t_parts :: "string list"
  t_start :: nat
  t_quoted :: bool
  t_escaped :: bool
  t_depth :: nat

definition append_part :: "string \<Rightarrow> nat \<Rightarrow> tokens \<Rightarrow> tokens" where
  "append_part value stop st =
     (let part = js_trim (js_slice value (t_start st) stop)
      in if part \<noteq> [] then st\<lparr>t_parts := t_parts st @ [part]\<rparr> else st)"

definition is_separator :: "char \<Rightarrow> bool" where
  "is_separator c = (c = CHR '','' \<or> c = CHR '';'' \<or> c = LF)"

definition scan_char :: "string \<Rightarrow> tokens \<Rightarrow> nat \<Rightarrow> tokens" where
  "scan_char value st i =
     (let c = value ! i in
      if t_escaped st then st\<lparr>t_escaped := False\<rparr>
      else if c = CHR 0x5C \<and> (t_quoted st \<or> t_depth st > 0) then st\<lparr>t_escaped := True\<rparr>
      else if t_depth st > 0 then
        (if c = CHR ''('' then st\<lparr>t_depth := t_depth st + 1\<rparr>
         else if c = CHR '')'' then st\<lparr>t_depth := t_depth st - 1\<rparr> else st)
      else if c = CHR 0x22 then st\<lparr>t_quoted := \<not> t_quoted st\<rparr>
      else if t_quoted st then st
      else if c = CHR ''('' then st\<lparr>t_depth := 1\<rparr>
      else if is_separator c then (append_part value i st)\<lparr>t_start := i + 1\<rparr>
      else st)"

text \<open>\<^verbatim>\<open>[...new Set(parts)]\<close>: the first occurrence of every part, in order.\<close>

fun js_unique :: "'a list \<Rightarrow> 'a list" where
  "js_unique [] = []"
| "js_unique (x # xs) = x # filter (\<lambda>y. y \<noteq> x) (js_unique xs)"

definition no_tokens :: tokens where
  "no_tokens = \<lparr>t_parts = [], t_start = 0, t_quoted = False, t_escaped = False, t_depth = 0\<rparr>"

definition addresses :: "string \<Rightarrow> string list" where
  "addresses value =
     js_unique (t_parts (append_part value (length value)
       (foldl (scan_char value) no_tokens [0..<length value])))"

text \<open>The field of the composer: what is shown for a stored list, and what typing stores.\<close>

definition recipient_text :: "string list \<Rightarrow> string" where
  "recipient_text value = join '', '' value"

definition recipient_change :: "string \<Rightarrow> string \<times> string list" where
  "recipient_change typed = (typed, addresses typed)"

section \<open>The reference reading\<close>

datatype mode = Top | Quote | Comment nat | Esc mode

fun lex :: "mode \<Rightarrow> char \<Rightarrow> mode" where
  "lex (Esc m) c = m"
| "lex Top c = (if c = CHR 0x22 then Quote else if c = CHR ''('' then Comment 0 else Top)"
| "lex Quote c = (if c = CHR 0x5C then Esc Quote else if c = CHR 0x22 then Top else Quote)"
| "lex (Comment n) c =
     (if c = CHR 0x5C then Esc (Comment n) else if c = CHR ''('' then Comment (Suc n)
      else if c = CHR '')'' then (case n of 0 \<Rightarrow> Top | Suc k \<Rightarrow> Comment k) else Comment n)"

fun pieces :: "mode \<Rightarrow> string \<Rightarrow> string \<times> string list" where
  "pieces m [] = ([], [])"
| "pieces m (c # cs) =
     (if m = Top \<and> is_separator c then (let (p, ps) = pieces Top cs in ([], p # ps))
      else let (p, ps) = pieces (lex m c) cs in (c # p, ps))"

definition nonblank :: "string list \<Rightarrow> string list" where
  "nonblank ps = filter (\<lambda>p. p \<noteq> []) (map js_trim ps)"

definition mode_of :: "tokens \<Rightarrow> mode" where
  "mode_of st =
     (let m = (if t_depth st > 0 then Comment (t_depth st - 1) else if t_quoted st then Quote else Top)
      in if t_escaped st then Esc m else m)"

definition lexing :: "tokens \<Rightarrow> bool" where
  "lexing st \<longleftrightarrow> \<not> (t_quoted st \<and> t_depth st > 0) \<and>
     (t_escaped st \<longrightarrow> t_quoted st \<or> t_depth st > 0)"

lemma scan_char_lexes:
  assumes "lexing st" "\<not> (mode_of st = Top \<and> is_separator (value ! i))"
  shows "lexing (scan_char value st i) \<and> mode_of (scan_char value st i) = lex (mode_of st) (value ! i) \<and>
    t_parts (scan_char value st i) = t_parts st \<and> t_start (scan_char value st i) = t_start st"
  using assms
  by (cases "t_depth st"; cases "t_escaped st"; cases "t_quoted st")
    (auto simp: scan_char_def mode_of_def lexing_def Let_def is_separator_def split: nat.splits)

lemma scan_char_splits:
  assumes "mode_of st = Top" "is_separator (value ! i)"
  shows "scan_char value st i = (append_part value i st)\<lparr>t_start := i + 1\<rparr>"
  using assms by (auto simp: scan_char_def mode_of_def is_separator_def Let_def split: if_splits)

lemma append_part_keeps [simp]:
  "t_start (append_part v i st) = t_start st" "t_quoted (append_part v i st) = t_quoted st"
  "t_escaped (append_part v i st) = t_escaped st" "t_depth (append_part v i st) = t_depth st"
  by (simp_all add: append_part_def Let_def)

lemma append_part_parts:
  "t_parts (append_part v i st) = t_parts st @ nonblank [js_slice v (t_start st) i]"
  by (simp add: append_part_def nonblank_def Let_def)

lemma nonblank_simps [simp]: "nonblank [] = []" "nonblank (p # q # ps) = nonblank [p] @ nonblank (q # ps)"
  by (simp_all add: nonblank_def)

lemma scan_reference:
  assumes "lexing st" "t_start st \<le> i" "i \<le> length v"
  shows "t_parts (append_part v (length v) (foldl (scan_char v) st [i..<length v])) =
    t_parts st @ (let (p, ps) = pieces (mode_of st) (drop i v)
                  in nonblank ((js_slice v (t_start st) i @ p) # ps))"
  using assms
proof (induction "length v - i" arbitrary: i st)
  case 0
  then show ?case by (simp add: append_part_parts)
next
  case (Suc n)
  then have i: "i < length v" "n = length v - Suc i" by auto
  then have d: "drop i v = v ! i # drop (Suc i) v" and u: "[i..<length v] = i # [Suc i..<length v]"
    by (simp_all add: Cons_nth_drop_Suc upt_conv_Cons)
  show ?case
  proof (cases "mode_of st = Top \<and> is_separator (v ! i)")
    case True
    let ?t = "(append_part v i st)\<lparr>t_start := Suc i\<rparr>"
    have m: "mode_of ?t = Top" "lexing ?t"
      using True Suc.prems by (auto simp: mode_of_def lexing_def Let_def split: if_splits)
    show ?thesis
      using True Suc.hyps(1)[OF i(2) m(2)] i
      by (simp add: u d m scan_char_splits append_part_parts split: prod.splits)
  next
    case False
    note s = scan_char_lexes[OF Suc.prems(1) False]
    show ?thesis
      using False s Suc.hyps(1)[OF i(2), of "scan_char v st i"] i Suc.prems
      by (auto simp: u d js_slice_Suc split: prod.splits)
  qed
qed

lemma addresses_pieces:
  "addresses v = js_unique (nonblank (case pieces Top v of (p, ps) \<Rightarrow> p # ps))"
  using scan_reference[of no_tokens 0 v]
  by (simp add: addresses_def no_tokens_def lexing_def mode_of_def split: prod.splits)

section \<open>Finished pieces\<close>

definition tokenof :: "string \<Rightarrow> bool" where
  "tokenof p = (pieces Top p = (p, []))"

definition finished :: "string \<Rightarrow> bool" where
  "finished p = (foldl lex Top p = Top)"

lemma pieces_Cons:
  "pieces m (c # cs) = (c # p, ps) \<longleftrightarrow> \<not> (m = Top \<and> is_separator c) \<and> pieces (lex m c) cs = (p, ps)"
  by (cases "pieces (lex m c) cs") (simp split: prod.split)

lemma pieces_append:
  "pieces m a = (a, []) \<Longrightarrow>
   pieces m (a @ b) = (a @ fst (pieces (foldl lex m a) b), snd (pieces (foldl lex m a) b))"
proof (induction a arbitrary: m)
  case (Cons c a)
  then have "\<not> (m = Top \<and> is_separator c)" "pieces (lex m c) a = (a, [])"
    by (simp_all only: pieces_Cons not_False_eq_True)
  then show ?case using Cons.IH[of "lex m c"] by (simp only: append_Cons pieces_Cons foldl_Cons) simp
qed simp

lemma pieces_take: "pieces m (a @ b) = (a @ b, []) \<Longrightarrow> pieces m a = (a, [])"
proof (induction a arbitrary: m)
  case (Cons c a)
  then show ?case by (simp only: append_Cons pieces_Cons) simp
qed simp

lemma pieces_self: "pieces m v = (p, ps) \<Longrightarrow> pieces m p = (p, []) \<and> (ps \<noteq> [] \<longrightarrow> foldl lex m p = Top)"
proof (induction v arbitrary: m p ps)
  case (Cons c cs)
  show ?case
  proof (cases "m = Top \<and> is_separator c")
    case True
    then show ?thesis using Cons.prems by (auto split: prod.splits)
  next
    case False
    then obtain q where q: "pieces (lex m c) cs = (q, ps)" "p = c # q"
      using Cons.prems by (auto split: prod.splits)
    show ?thesis
      using False Cons.IH[OF q(1)] by (simp only: q(2) pieces_Cons foldl_Cons) simp
  qed
qed simp

lemma pieces_rest:
  "pieces m v = (p, ps) \<Longrightarrow> (\<forall>q\<in>set ps. tokenof q) \<and> (\<forall>q\<in>set (butlast ps). finished q)"
proof (induction m v arbitrary: p ps rule: pieces.induct)
  case (2 m c cs)
  show ?case
  proof (cases "m = Top \<and> is_separator c")
    case True
    then obtain q qs where q: "pieces Top cs = (q, qs)" "p = []" "ps = q # qs"
      using 2(3) by (auto split: prod.splits)
    then show ?thesis
      using 2(1)[OF True q(1)] pieces_self[OF q(1)] by (auto simp: tokenof_def finished_def)
  next
    case False
    then obtain q where q: "pieces (lex m c) cs = (q, ps)" "p = c # q"
      using 2(3) by (auto split: prod.splits)
    then show ?thesis using 2(2)[OF False q(1)] by auto
  qed
qed simp

lemma not_space [simp]: "is_space CHR 0x22 = False" "is_space (CHR ''('') = False"
  by (simp_all add: is_space_def)

lemma space_lexes [simp]:
  "is_space c \<Longrightarrow> lex Top c = Top" "is_space c \<Longrightarrow> lex Quote c = Quote"
  "is_space c \<Longrightarrow> lex (Comment n) c = Comment n"
  by (auto simp: is_space_def)

lemma space_to_top: "is_space c \<Longrightarrow> lex m c = Top \<Longrightarrow> m = Top \<or> m = Esc Top"
  by (cases m) (auto simp: is_space_def)

fun settled :: "mode \<Rightarrow> bool" where
  "settled (Esc m) = (case m of Quote \<Rightarrow> True | Comment n \<Rightarrow> True | _ \<Rightarrow> False)"
| "settled m = True"

lemma settled_lex: "settled m \<Longrightarrow> settled (lex m c)"
  by (cases m) (auto split: mode.splits nat.splits)

lemma settled_foldl: "settled m \<Longrightarrow> settled (foldl lex m s)"
  by (induction s arbitrary: m) (auto intro: settled_lex)

lemma foldl_not_escaped_top: "foldl lex Top s \<noteq> Esc Top"
  using settled_foldl[of Top s] by auto

lemma finished_drop_space: "finished (s @ [c]) \<Longrightarrow> is_space c \<Longrightarrow> finished s"
  using space_to_top foldl_not_escaped_top by (fastforce simp: finished_def)

lemma tokenof_left: "tokenof (c # s) \<Longrightarrow> is_space c \<Longrightarrow> tokenof s"
  by (simp add: tokenof_def pieces_Cons del: pieces.simps lex.simps)

lemma trim_keeps:
  "tokenof s \<Longrightarrow> tokenof (js_trim s) \<and> (finished s \<longrightarrow> finished (js_trim s))"
proof -
  assume "tokenof s"
  then have l: "tokenof (dropWhile is_space s) \<and> (finished s \<longrightarrow> finished (dropWhile is_space s))"
    by (induction s) (auto dest: tokenof_left simp: finished_def simp del: lex.simps)
  have r: "tokenof t \<Longrightarrow> tokenof (rev (dropWhile is_space (rev t))) \<and>
      (finished t \<longrightarrow> finished (rev (dropWhile is_space (rev t))))" for t
    by (induction t rule: rev_induct)
      (auto dest: finished_drop_space pieces_take simp: tokenof_def)
  show ?thesis using l r[of "dropWhile is_space s"] by (simp add: js_trim_def)
qed

section \<open>Joining and tokenizing again\<close>

lemma unique_set [simp]: "set (js_unique xs) = set xs" "distinct (js_unique xs)"
  by (induction xs) auto

lemma butlast_filter: "set (butlast (filter P xs)) \<subseteq> set (butlast xs)"
proof (induction xs rule: rev_induct)
  case (snoc x xs)
  have "set (butlast (filter P xs)) \<subseteq> set xs"
    by (meson filter_is_subset in_set_butlastD subset_iff)
  then show ?case by (auto simp: butlast_append)
qed simp

lemma butlast_unique: "set (butlast (js_unique xs)) \<subseteq> set (butlast xs)"
proof (induction xs)
  case (Cons x xs)
  then show ?case
    using butlast_filter[of "\<lambda>y. y \<noteq> x" "js_unique xs"] by (cases "xs = []") auto
qed simp

lemma unique_distinct: "distinct xs \<Longrightarrow> js_unique xs = xs"
proof (induction xs)
  case (Cons x xs)
  then show ?case by (simp add: filter_id_conv) blast
qed simp

definition listed :: "string list \<Rightarrow> bool" where
  "listed ts \<longleftrightarrow> distinct ts \<and> (\<forall>t\<in>set ts. t \<noteq> [] \<and> js_trim t = t \<and> tokenof t) \<and>
     (\<forall>t\<in>set (butlast ts). finished t)"

lemma addresses_listed: "listed (addresses v)"
proof -
  obtain p ps where p: "pieces Top v = (p, ps)" by fastforce
  define ls where "ls = p # ps"
  have t: "\<forall>q\<in>set ls. tokenof q" "\<forall>q\<in>set (butlast ls). finished q"
    using pieces_self[OF p] pieces_rest[OF p] by (auto simp: ls_def tokenof_def finished_def)
  have a: "addresses v = js_unique (nonblank ls)" by (simp add: addresses_pieces p ls_def)
  have "set (butlast (nonblank ls)) \<subseteq> set (butlast (map js_trim ls))"
    unfolding nonblank_def by (rule butlast_filter)
  then have "set (butlast (addresses v)) \<subseteq> js_trim ` set (butlast ls)"
    using butlast_unique[of "nonblank ls"] unfolding a by (auto simp: map_butlast[symmetric])
  moreover have "set (addresses v) \<subseteq> {t \<in> js_trim ` set ls. t \<noteq> []}"
    unfolding a by (auto simp: nonblank_def)
  ultimately show ?thesis
    using t trim_keeps in_set_butlastD[of _ ls] unfolding listed_def by (auto simp: a)
qed

lemma trim_space: "js_trim t = t \<Longrightarrow> js_trim (CHR '' '' # t) = t"
  by (simp add: js_trim_def is_space_def)

lemma pieces_join:
  "\<forall>t\<in>set (x # xs). tokenof t \<Longrightarrow> \<forall>t\<in>set (butlast (x # xs)). finished t \<Longrightarrow>
   pieces Top (join '', '' (x # xs)) = (x, map (Cons (CHR '' '')) xs)"
proof (induction xs arbitrary: x)
  case Nil
  then show ?case by (simp add: tokenof_def)
next
  case (Cons y ys)
  then have "pieces Top x = (x, [])" "foldl lex Top x = Top" by (auto simp: tokenof_def finished_def)
  moreover have "pieces Top (join '', '' (y # ys)) = (y, map (Cons (CHR '' '')) ys)"
    using Cons by auto
  ultimately show ?case by (simp add: pieces_append is_separator_def)
qed

lemma nonblank_listed:
  "\<forall>t\<in>set ts. t \<noteq> [] \<and> js_trim t = t \<Longrightarrow> nonblank (map (Cons (CHR '' '')) ts) = ts"
  by (induction ts) (auto simp: nonblank_def trim_space)

section \<open>Properties\<close>

text \<open>
  The loop with its three flags and its depth counter computes the reference reading: the
  text is cut at the commas, semicolons and line feeds that stand outside quotes and comments, and
  the result is the trimmed, nonempty pieces in order, each once.
\<close>

lemma addresses_reference:
  "addresses v = js_unique (filter (\<lambda>p. p \<noteq> [])
     (map js_trim (fst (pieces Top v) # snd (pieces Top v))))"
  using addresses_pieces[of v] unfolding nonblank_def by (simp only: split_beta)

text \<open>
  C29: opening the recipient field on a stored list and tokenizing what it shows gives the stored
  list back, whatever text it was typed as: no entry is split, merged, reordered or dropped, even
  one with separators in quotes or comments or an unfinished one at the end.
\<close>

theorem recipients_reload:
  "snd (recipient_change (recipient_text (snd (recipient_change typed)))) =
     snd (recipient_change typed)"
proof -
  let ?a = "addresses typed"
  have l: "listed ?a" by (rule addresses_listed)
  have "addresses (join '', '' ?a) = ?a"
  proof (cases ?a)
    case Nil
    then show ?thesis by (simp add: addresses_pieces nonblank_def js_trim_def)
  next
    case (Cons x xs)
    have "nonblank (x # map (Cons (CHR '' '')) xs) = x # xs"
      using l nonblank_listed[of xs] unfolding Cons listed_def by (auto simp: nonblank_def)
    then show ?thesis
      using l pieces_join[of x xs] unfolding Cons listed_def
      by (simp add: addresses_pieces unique_distinct del: js_unique.simps)
  qed
  then show ?thesis by (simp add: recipient_change_def recipient_text_def)
qed

end
