(* ===== verification/PermissionEditor.thy ===== *)
theory PermissionEditor
  imports Wire Numerals "HOL-Library.List_Lexorder" "HOL-Library.Char_ord"
begin

text \<open>
  \<^verbatim>\<open>src/web/lib/api/permission-editor-types.ts\<close>: the validators of the permission editor's
  snapshots, commands, profiles and deletion previews, and the serializer between a snapshot, the
  form an administrator edits and the patch that is sent. Server values are \<^typ>\<open>json\<close>, the
  form is typed as the source types it; a validator that throws returns its message.
\<close>

section \<open>Fields\<close>

datatype boolean_field = CanSend | CanCreateDomains | CanCreateRoutes | CanCreateApiKeys
datatype number_field = DailySendQuota | DailyReceiveQuota | MaxMailboxes | MaxDomains
datatype permission_source = FromOverride | FromProfile | FromDefault
datatype domain_mode = Inherit | AllZones | ListedZones | NoZones

definition permissionBooleanFields :: "boolean_field list" where
  "permissionBooleanFields = [CanSend, CanCreateDomains, CanCreateRoutes, CanCreateApiKeys]"

definition permissionNumberFields :: "number_field list" where
  "permissionNumberFields = [DailySendQuota, DailyReceiveQuota, MaxMailboxes, MaxDomains]"

fun boolean_name :: "boolean_field \<Rightarrow> string" where
  "boolean_name CanSend = ''can_send''"
| "boolean_name CanCreateDomains = ''can_create_domains''"
| "boolean_name CanCreateRoutes = ''can_create_routes''"
| "boolean_name CanCreateApiKeys = ''can_create_api_keys''"

fun number_name :: "number_field \<Rightarrow> string" where
  "number_name DailySendQuota = ''daily_send_quota''"
| "number_name DailyReceiveQuota = ''daily_receive_quota''"
| "number_name MaxMailboxes = ''max_mailboxes''"
| "number_name MaxDomains = ''max_domains''"

fun source_name :: "permission_source \<Rightarrow> string" where
  "source_name FromOverride = ''override''"
| "source_name FromProfile = ''profile''"
| "source_name FromDefault = ''default''"

definition domain_modes :: "(string \<times> domain_mode) list" where
  "domain_modes = [(''inherit'', Inherit), (''all'', AllZones), (''list'', ListedZones), (''none'', NoZones)]"

record domain_access =
  da_mode :: domain_mode
  da_zone_ids :: "string list"

text \<open>\<^verbatim>\<open>PermissionEditorForm\<close>: an intent for every field, quotas as the typed text.\<close>

record permission_form =
  f_flag :: "boolean_field \<Rightarrow> bool option"
  f_quota :: "number_field \<Rightarrow> string"
  f_domain :: domain_access

section \<open>Values\<close>

fun isUUID :: "json option \<Rightarrow> bool" where
  "isUUID (Some (JStr s)) = valid_id s"
| "isUUID _ = False"

definition decimal_rx :: rx where
  "decimal_rx = Seq (Cls (\<lambda>c. is_digit c \<and> c \<noteq> CHR ''0'')) (Star (Cls is_digit))"

fun decimalRevision :: "json option \<Rightarrow> bool" where
  "decimalRevision (Some (JStr s)) =
     (length s \<le> 19 \<and> rx_match decimal_rx s \<and> digits_nat 10 s \<le> 9223372036854775807)"
| "decimalRevision _ = False"

definition quota :: "json option \<Rightarrow> bool" where
  "quota v = (wire_nat v \<noteq> None)"

definition validatePermissionRevision :: "json option \<Rightarrow> string option \<Rightarrow> unit checked" where
  "validatePermissionRevision revision target =
     demand (truthy revision \<and> isUUID (opt_prop revision ''user_id'') \<and>
       isUUID (opt_prop revision ''tenant_id'') \<and>
       all_opt (\<lambda>t. opt_prop revision ''user_id'' = Some (JStr t)) target \<and>
       decimalRevision (opt_prop revision ''user_revision'') \<and>
       (if opt_prop revision ''profile_id'' = Some JNull
        then opt_prop revision ''profile_revision'' = Some JNull
        else isUUID (opt_prop revision ''profile_id'') \<and>
          decimalRevision (opt_prop revision ''profile_revision'')))
       ''Invalid permission revision or target identity''"

definition uuid_array :: "json option \<Rightarrow> bool" where
  "uuid_array v = (case v of Some (JArr vs) \<Rightarrow> list_all (\<lambda>x. isUUID (Some x)) vs | _ \<Rightarrow> False)"

definition zone_values :: "json option \<Rightarrow> json list" where
  "zone_values ids = (case ids of Some (JArr vs) \<Rightarrow> vs | _ \<Rightarrow> [])"

definition zone_ids_fit :: "domain_mode \<Rightarrow> json option \<Rightarrow> bool" where
  "zone_ids_fit mode ids =
     (if mode = ListedZones then zone_values ids \<noteq> [] else nullish ids \<or> ids = Some (JArr []))"

definition normalizedDomainAccess :: "json option \<Rightarrow> domain_access checked" where
  "normalizedDomainAccess domain =
     (case category_of domain_modes (opt_prop domain ''mode'') of
        None \<Rightarrow> Inl ''Invalid explicit domain access''
      | Some mode \<Rightarrow>
          andthen (demand (list_all (\<lambda>k. k \<in> set [''mode'', ''zone_ids'']) (own_keys (the domain)))
            ''Invalid explicit domain access'') (\<lambda>_.
          let ids = opt_prop domain ''zone_ids'' in
          andthen (demand (zone_ids_fit mode ids) ''Invalid explicit domain access IDs'') (\<lambda>_.
          andthen (demand (list_all (\<lambda>x. isUUID (Some x)) (zone_values ids) \<and> distinct (zone_values ids))
            ''Invalid explicit domain access IDs'') (\<lambda>_.
          Inr \<lparr>da_mode = mode, da_zone_ids = map (\<lambda>x. the (wire_string (Some x))) (zone_values ids)\<rparr>))))"

definition validateDomainAccess :: "json option \<Rightarrow> unit checked" where
  "validateDomainAccess domain = andthen (normalizedDomainAccess domain) (\<lambda>_. Inr ())"

definition js_object :: "json option \<Rightarrow> bool" where
  "js_object v = (case v of Some (JObj _) \<Rightarrow> True | Some (JArr _) \<Rightarrow> True | _ \<Rightarrow> False)"

definition own :: "json option \<Rightarrow> string \<Rightarrow> bool" where
  "own v k = (opt_prop v k \<noteq> None)"

definition validatePermissionValues :: "json option \<Rightarrow> unit checked" where
  "validatePermissionValues p =
     andthen (demand (js_object p) ''Missing effective permission fields'') (\<lambda>_.
     andthen (each (\<lambda>f. demand (own p (boolean_name f) \<and> is_js_bool (opt_prop p (boolean_name f)))
         ''Invalid mandatory effective boolean'') permissionBooleanFields) (\<lambda>_.
     andthen (each (\<lambda>f. demand (own p (number_name f) \<and> quota (opt_prop p (number_name f)))
         ''Invalid mandatory effective quota'') permissionNumberFields) (\<lambda>_.
     demand (nullish (opt_prop p ''allowed_zone_ids'') \<or> uuid_array (opt_prop p ''allowed_zone_ids''))
       ''Invalid effective zone IDs'')))"

definition known_mode :: "json option \<Rightarrow> bool" where
  "known_mode v =
     (case v of None \<Rightarrow> True | Some (JStr s) \<Rightarrow> s \<in> set ['''', ''all'', ''list'', ''none''] | _ \<Rightarrow> False)"

section \<open>Snapshots\<close>

definition snapshot_bound :: "json option \<Rightarrow> bool" where
  "snapshot_bound s =
     (let revision = opt_prop s ''revision'' in
      truthy s \<and> own s ''profile'' \<and> isUUID (opt_prop s ''user_id'') \<and> isUUID (opt_prop s ''tenant_id'') \<and>
      truthy revision \<and> strict_eq (opt_prop revision ''user_id'') (opt_prop s ''user_id'') \<and>
      strict_eq (opt_prop revision ''tenant_id'') (opt_prop s ''tenant_id'') \<and>
      strict_eq (let i = opt_prop (opt_prop s ''profile'') ''id'' in if nullish i then Some JNull else i)
        (opt_prop revision ''profile_id'') \<and>
      truthy (opt_prop s ''effective'') \<and>
      is_js_bool (opt_prop (opt_prop s ''capabilities'') ''patch'') \<and>
      is_js_bool (opt_prop (opt_prop s ''capabilities'') ''assign_profile''))"

definition validate_effective :: "json option \<Rightarrow> unit checked" where
  "validate_effective effective =
     andthen (validatePermissionValues effective) (\<lambda>_.
     andthen (demand (known_mode (opt_prop effective ''domain_access_mode''))
       ''Unknown canonical effective domain access'') (\<lambda>_.
     demand (opt_prop effective ''domain_access_mode'' = Some (JStr ''list'') \<longrightarrow>
         zone_values (opt_prop effective ''allowed_zone_ids'') \<noteq> [])
       ''Empty effective list cannot imply all''))"

definition validate_profile :: "json option \<Rightarrow> unit checked" where
  "validate_profile s =
     (let profile = opt_prop s ''profile''; tenant = opt_prop profile ''tenant_id'';
          revision = opt_prop profile ''revision''
      in if profile = Some JNull then Inr ()
         else andthen (demand (truthy profile \<and> isUUID (opt_prop profile ''id'') \<and>
             (nullish tenant \<or> strict_eq tenant (opt_prop s ''tenant_id'')) \<and>
             is_js_string (opt_prop profile ''name'') \<and> is_js_string (opt_prop profile ''description'') \<and>
             is_js_bool (opt_prop profile ''is_system'') \<and> is_js_string (opt_prop profile ''created_at'') \<and>
             is_js_string (opt_prop profile ''updated_at'') \<and>
             (revision = None \<or> strict_eq revision (opt_prop (opt_prop s ''revision'') ''profile_revision'')))
             ''Invalid bound permission profile'') (\<lambda>_.
           validatePermissionValues profile))"

definition validate_overrides :: "json option \<Rightarrow> unit checked" where
  "validate_overrides raw =
     (if raw = Some JNull then Inr ()
      else andthen (demand (truthy raw \<and> own raw ''allowed_zone_ids'' \<and>
             (opt_prop raw ''allowed_zone_ids'' = Some JNull \<or> uuid_array (opt_prop raw ''allowed_zone_ids'')))
             ''Missing raw permission override presence'') (\<lambda>_.
           validateDomainAccess (opt_prop raw ''domain_access'')))"

text \<open>One turn of the field loop: the raw value is present and typed, and its source is named.\<close>

definition source_of :: "bool \<Rightarrow> json option \<Rightarrow> permission_source" where
  "source_of overridden profile =
     (if overridden then FromOverride else if truthy profile then FromProfile else FromDefault)"

definition validate_field :: "json option \<Rightarrow> string \<Rightarrow> (json option \<Rightarrow> bool) \<Rightarrow> unit checked" where
  "validate_field s name typed =
     (let raw = opt_prop s ''overrides'';
          value = (if raw = Some JNull then Some JNull else opt_prop raw name)
      in andthen (demand (raw = Some JNull \<or> own raw name \<and> (value = Some JNull \<or> typed value))
           ''Invalid raw permission scalar'') (\<lambda>_.
         demand (opt_prop (opt_prop s ''field_sources'') name =
             Some (JStr (source_name (source_of (value \<noteq> Some JNull) (opt_prop s ''profile'')))))
           ''Inconsistent raw permission source''))"

definition validatePermissionEditorSnapshot :: "json option \<Rightarrow> string option \<Rightarrow> unit checked" where
  "validatePermissionEditorSnapshot s target =
     andthen (demand (snapshot_bound s) ''Invalid permission editor snapshot'') (\<lambda>_.
     andthen (validatePermissionRevision (opt_prop s ''revision'') target) (\<lambda>_.
     andthen (validate_effective (opt_prop s ''effective'')) (\<lambda>_.
     andthen (validate_profile s) (\<lambda>_.
     andthen (validate_overrides (opt_prop s ''overrides'')) (\<lambda>_.
     andthen (each (\<lambda>f. validate_field s (boolean_name f) is_js_bool) permissionBooleanFields) (\<lambda>_.
     andthen (each (\<lambda>f. validate_field s (number_name f) quota) permissionNumberFields) (\<lambda>_.
     let raw = opt_prop s ''overrides''
     in demand (opt_prop (opt_prop s ''field_sources'') ''domain_access'' =
          Some (JStr (source_name (source_of
            (truthy raw \<and> opt_prop (opt_prop raw ''domain_access'') ''mode'' \<noteq> Some (JStr ''inherit''))
            (opt_prop s ''profile'')))))
        ''Inconsistent domain access source'')))))))"

section \<open>The form\<close>

text \<open>
  \<^verbatim>\<open>raw?.can_send ?? null\<close> and \<^verbatim>\<open>String(raw.max_domains)\<close>: the snapshot was validated, so the
  value is a boolean or null, a safe natural number or null.
\<close>

definition raw_flag :: "json option \<Rightarrow> boolean_field \<Rightarrow> bool option" where
  "raw_flag raw f = wire_bool (opt_prop raw (boolean_name f))"

definition raw_quota :: "json option \<Rightarrow> number_field \<Rightarrow> nat option" where
  "raw_quota raw f = wire_nat (opt_prop raw (number_name f))"

definition quota_text :: "nat option \<Rightarrow> string" where
  "quota_text v = (case v of None \<Rightarrow> [] | Some n \<Rightarrow> js_of_nat n)"

definition permissionEditorFormFromSnapshot :: "json option \<Rightarrow> permission_form checked" where
  "permissionEditorFormFromSnapshot s =
     andthen (validatePermissionEditorSnapshot s None) (\<lambda>_.
     let raw = opt_prop s ''overrides'' in
     andthen (if truthy raw then normalizedDomainAccess (opt_prop raw ''domain_access'')
              else Inr \<lparr>da_mode = Inherit, da_zone_ids = []\<rparr>) (\<lambda>domain.
     Inr \<lparr>f_flag = raw_flag raw, f_quota = (\<lambda>f. quota_text (raw_quota raw f)), f_domain = domain\<rparr>))"

definition numericIntent :: "string \<Rightarrow> nat option checked" where
  "numericIntent value =
     (if js_trim value = [] then Inr None
      else case wire_nat (Some (JNum (js_number value))) of
        Some n \<Rightarrow> Inr (Some n)
      | None \<Rightarrow> Inl ''Quota must be a nonnegative safe integer'')"

section \<open>Building the command\<close>

definition flag_json :: "bool option \<Rightarrow> json" where
  "flag_json v = (case v of None \<Rightarrow> JNull | Some b \<Rightarrow> JBool b)"

definition quota_json :: "nat option \<Rightarrow> json" where
  "quota_json v = (case v of None \<Rightarrow> JNull | Some n \<Rightarrow> json_nat n)"

definition mode_name :: "domain_mode \<Rightarrow> string" where
  "mode_name m = name_of domain_modes m"

definition domain_json :: "domain_access \<Rightarrow> json" where
  "domain_json d = JObj [(''mode'', JStr (mode_name (da_mode d))),
     (''zone_ids'', JArr (map JStr (da_zone_ids d)))]"

definition flag_patch :: "permission_form \<Rightarrow> permission_form \<Rightarrow> (string \<times> json) list" where
  "flag_patch original form =
     concat (map (\<lambda>f. if f_flag form f \<noteq> f_flag original f
       then [(boolean_name f, flag_json (f_flag form f))] else []) permissionBooleanFields)"

fun quota_patch :: "permission_form \<Rightarrow> permission_form \<Rightarrow> number_field list \<Rightarrow> (string \<times> json) list checked" where
  "quota_patch original form [] = Inr []"
| "quota_patch original form (f # fs) =
     andthen (numericIntent (f_quota form f)) (\<lambda>value.
     andthen (numericIntent (f_quota original f)) (\<lambda>before.
     andthen (quota_patch original form fs) (\<lambda>rest.
     Inr ((if value \<noteq> before then [(number_name f, quota_json value)] else []) @ rest))))"

definition zone_key :: "domain_access \<Rightarrow> string" where
  "zone_key d = join '','' (sort (da_zone_ids d))"

definition domain_patch :: "permission_form \<Rightarrow> permission_form \<Rightarrow> (string \<times> json) list" where
  "domain_patch original form =
     (if da_mode (f_domain form) \<noteq> da_mode (f_domain original) \<or>
         zone_key (f_domain form) \<noteq> zone_key (f_domain original)
      then [(''domain_access'', domain_json (f_domain form))] else [])"

definition buildPermissionEditorCommand :: "json option \<Rightarrow> permission_form \<Rightarrow> json checked" where
  "buildPermissionEditorCommand s form =
     andthen (validatePermissionEditorSnapshot s None) (\<lambda>_.
     andthen (permissionEditorFormFromSnapshot s) (\<lambda>original.
     andthen (quota_patch original form permissionNumberFields) (\<lambda>quotas.
     andthen (validateDomainAccess (Some (domain_json (f_domain form)))) (\<lambda>_.
     Inr (JObj [(''expected_revision'', JObj (spread (opt_prop s ''revision''))),
       (''patch'', JObj (flag_patch original form @ quotas @ domain_patch original form))])))))"

section \<open>Checking a command\<close>

definition is_boolean_name :: "string \<Rightarrow> bool" where
  "is_boolean_name k = (k \<in> set (map boolean_name permissionBooleanFields))"

definition is_number_name :: "string \<Rightarrow> bool" where
  "is_number_name k = (k \<in> set (map number_name permissionNumberFields))"

definition check_intent :: "string \<times> json \<Rightarrow> unit checked" where
  "check_intent = (\<lambda>(field, value).
     if is_boolean_name field then
       demand (value = JNull \<or> is_js_bool (Some value)) ''Invalid boolean permission intent''
     else if is_number_name field then
       demand (value = JNull \<or> quota (Some value)) ''Invalid quota permission intent''
     else if field = ''domain_access'' then
       (if value \<noteq> JNull then validateDomainAccess (Some value) else Inr ())
     else Inl ''Unknown permission patch field'')"

definition validatePermissionEditorCommand :: "json option \<Rightarrow> string \<Rightarrow> unit checked" where
  "validatePermissionEditorCommand command target =
     andthen (deref command ''expected_revision'') (\<lambda>revision.
     andthen (validatePermissionRevision revision (Some target)) (\<lambda>_.
     let patch = opt_prop command ''patch'' in
     andthen (demand (truthy patch \<and> spread patch \<noteq> [])
       ''An explicit changed permission field is required'') (\<lambda>_.
     each check_intent (spread patch))))"

section \<open>Profiles\<close>

definition validateObservedPermissionProfile :: "json option \<Rightarrow> unit checked" where
  "validateObservedPermissionProfile p =
     (let tenant = opt_prop p ''tenant_id'' in
      andthen (demand (truthy p \<and> isUUID (opt_prop p ''id'') \<and> decimalRevision (opt_prop p ''revision'') \<and>
        (nullish tenant \<or> isUUID tenant) \<and> is_js_string (opt_prop p ''name'') \<and>
        is_js_string (opt_prop p ''description'') \<and> is_js_bool (opt_prop p ''is_system'') \<and>
        is_js_string (opt_prop p ''created_at'') \<and> is_js_string (opt_prop p ''updated_at''))
        ''A complete observed profile version is required'') (\<lambda>_.
      validatePermissionValues p))"

definition validateProfileRevision :: "json option \<Rightarrow> unit checked" where
  "validateProfileRevision v =
     demand (decimalRevision v) ''An observed decimal profile revision is required''"

definition validateAssignmentCommand :: "json option \<Rightarrow> string \<Rightarrow> unit checked" where
  "validateAssignmentCommand command target =
     andthen (deref command ''expected_revision'') (\<lambda>revision.
     andthen (validatePermissionRevision revision (Some target)) (\<lambda>_.
     andthen (demand (own command ''profile_id'' \<and> own command ''profile_revision'' \<and> own command ''patch'' \<and>
       (if opt_prop command ''profile_id'' = Some JNull
        then opt_prop command ''profile_revision'' = Some JNull
        else isUUID (opt_prop command ''profile_id'') \<and> decimalRevision (opt_prop command ''profile_revision'')))
       ''Explicit observed destination profile required'') (\<lambda>_.
     let patch = opt_prop command ''patch'' in
     andthen (demand (case patch of Some (JObj _) \<Rightarrow> True | _ \<Rightarrow> False)
       ''Explicit permission patch required'') (\<lambda>_.
     if spread patch \<noteq> [] then validatePermissionEditorCommand command target else Inr ()))))"

definition check_profile_field :: "string \<times> json \<Rightarrow> unit checked" where
  "check_profile_field = (\<lambda>(field, value).
     if field = ''name'' \<or> field = ''description'' then
       demand (value = JNull \<or> is_js_string (Some value)) ''Invalid profile text intent''
     else if field = ''allowed_zone_ids'' then
       demand (value = JNull \<or> uuid_array (Some value)) ''Invalid profile zone intent''
     else if is_boolean_name field then
       demand (value = JNull \<or> is_js_bool (Some value)) ''Invalid profile boolean intent''
     else if is_number_name field then
       demand (value = JNull \<or> quota (Some value)) ''Invalid profile quota intent''
     else Inl ''Unknown profile field intent'')"

definition validateProfileUpdateCommand :: "json option \<Rightarrow> unit checked" where
  "validateProfileUpdateCommand command =
     andthen (deref command ''expected_revision'') (\<lambda>revision.
     andthen (validateProfileRevision revision) (\<lambda>_.
     let fields = opt_prop command ''fields'' in
     andthen (demand (truthy fields \<and> spread fields \<noteq> []) ''Profile field intent required'') (\<lambda>_.
     each check_profile_field (spread fields))))"

text \<open>\<^verbatim>\<open>preview.members ?? []\<close>\<close>

definition or_empty :: "json option \<Rightarrow> json" where
  "or_empty v = (case v of Some JNull \<Rightarrow> JArr [] | Some x \<Rightarrow> x | None \<Rightarrow> JArr [])"

text \<open>The member loop; \<^verbatim>\<open>seen\<close> is the set of the user ids met so far.\<close>

fun check_members :: "string \<Rightarrow> json option \<Rightarrow> string \<Rightarrow> json option list \<Rightarrow> json list \<Rightarrow> unit checked" where
  "check_members target revision message seen [] = Inr ()"
| "check_members target revision message seen (m # ms) =
     andthen (validatePermissionRevision (Some m) None) (\<lambda>_.
     andthen (demand (get_prop m ''profile_id'' = Some (JStr target) \<and>
         strict_eq (get_prop m ''profile_revision'') revision \<and> get_prop m ''user_id'' \<notin> set seen) message) (\<lambda>_.
     check_members target revision message (get_prop m ''user_id'' # seen) ms))"

definition revision_keys :: "string list" where
  "revision_keys = [''user_id'', ''tenant_id'', ''user_revision'', ''profile_id'', ''profile_revision'']"

definition same_revision :: "json \<Rightarrow> json option \<Rightarrow> bool" where
  "same_revision member revision =
     list_all (\<lambda>k. strict_eq (get_prop member k) (opt_prop revision k)) revision_keys"

fun check_changes :: "json list \<Rightarrow> json option list \<Rightarrow> json list \<Rightarrow> unit checked" where
  "check_changes members changed [] = Inr ()"
| "check_changes members changed (c # cs) =
     andthen (deref (Some c) ''revision'') (\<lambda>revision.
     andthen (validatePermissionRevision revision None) (\<lambda>_.
     case find (\<lambda>m. strict_eq (get_prop m ''user_id'') (opt_prop revision ''user_id'')) members of
       None \<Rightarrow> Inl ''Missing or mismatched affected member''
     | Some member \<Rightarrow>
         andthen (demand (same_revision member revision \<and> get_prop member ''user_id'' \<notin> set changed)
           ''Missing or mismatched affected member'') (\<lambda>_.
         andthen (validatePermissionValues (get_prop c ''before'')) (\<lambda>_.
         andthen (validatePermissionValues (get_prop c ''after'')) (\<lambda>_.
         andthen (each (\<lambda>v. demand (known_mode (opt_prop v ''domain_access_mode''))
             ''Unknown deletion domain policy'') [get_prop c ''before'', get_prop c ''after'']) (\<lambda>_.
         check_changes members (get_prop member ''user_id'' # changed) cs))))))"

fun array_of :: "json \<Rightarrow> json list option" where
  "array_of (JArr vs) = Some vs"
| "array_of _ = None"

definition validateProfileDeletionPreview :: "json option \<Rightarrow> string \<Rightarrow> json checked" where
  "validateProfileDeletionPreview preview target =
     andthen (demand (truthy preview \<and> opt_prop preview ''profile_id'' = Some (JStr target) \<and>
       isUUID (opt_prop preview ''profile_id'') \<and> decimalRevision (opt_prop preview ''profile_revision'') \<and>
       own preview ''members'' \<and> own preview ''changes'') ''Invalid profile deletion observation'') (\<lambda>_.
     let members = or_empty (opt_prop preview ''members''); changes = or_empty (opt_prop preview ''changes'') in
     case (array_of members, array_of changes) of
       (Some ms, Some cs) \<Rightarrow>
         andthen (demand (length ms = length cs) ''Incomplete profile deletion impact'') (\<lambda>_.
         andthen (check_members target (opt_prop preview ''profile_revision'')
           ''Invalid confirmed member profile binding'' [] ms) (\<lambda>_.
         andthen (check_changes ms [] cs) (\<lambda>_.
         Inr (JObj (merge_objects (spread preview) [(''members'', members), (''changes'', changes)])))))
     | _ \<Rightarrow> Inl ''Incomplete profile deletion impact'')"

definition validateProfileDeletionCommand :: "json option \<Rightarrow> string \<Rightarrow> unit checked" where
  "validateProfileDeletionCommand command target =
     andthen (deref command ''expected_revision'') (\<lambda>revision.
     andthen (validateProfileRevision revision) (\<lambda>_.
     case opt_prop command ''confirmed_members'' of
       Some (JArr ms) \<Rightarrow> check_members target revision ''Invalid profile deletion member binding'' [] ms
     | _ \<Rightarrow> Inl ''Explicit confirmed member observations required''))"

section \<open>Domain access\<close>

definition good_domain :: "domain_access \<Rightarrow> bool" where
  "good_domain d \<longleftrightarrow> (da_zone_ids d \<noteq> [] \<longleftrightarrow> da_mode d = ListedZones) \<and>
     list_all valid_id (da_zone_ids d) \<and> distinct (da_zone_ids d)"

lemma isUUID_iff: "isUUID v \<longleftrightarrow> (\<exists>s. v = Some (JStr s) \<and> valid_id s)"
  by (cases v rule: isUUID.cases) auto

lemma uuid_values:
  "list_all (\<lambda>x. isUUID (Some x)) vs \<longleftrightarrow> (\<exists>ss. vs = map JStr ss \<and> list_all valid_id ss)"
proof
  assume "list_all (\<lambda>x. isUUID (Some x)) vs"
  then have "vs = map JStr (map (\<lambda>x. the (wire_string (Some x))) vs) \<and>
      list_all valid_id (map (\<lambda>x. the (wire_string (Some x))) vs)"
    by (induction vs) (auto simp: isUUID_iff)
  then show "\<exists>ss. vs = map JStr ss \<and> list_all valid_id ss" by blast
qed (auto simp: list_all_iff)

lemma modes_table: "is_table domain_modes"
  by code_simp

lemma mode_named [simp]: "map_of domain_modes (mode_name m) = Some m"
  by (cases m) (simp_all add: mode_name_def name_of_def domain_modes_def)

lemma normalized_good:
  "normalizedDomainAccess v = Inr d \<Longrightarrow> good_domain d \<and>
     category_of domain_modes (opt_prop v ''mode'') = Some (da_mode d) \<and>
     zone_values (opt_prop v ''zone_ids'') = map JStr (da_zone_ids d)"
  by (auto simp: normalizedDomainAccess_def good_domain_def zone_ids_fit_def zone_values_def nullish_def
      uuid_values Let_def distinct_map comp_def split: option.splits if_splits)

lemma domain_json_normalized:
  "normalizedDomainAccess (Some (domain_json d)) = Inr e \<longleftrightarrow> good_domain d \<and> e = d"
proof -
  have u: "list_all (\<lambda>x. isUUID (Some (JStr x))) ss = list_all valid_id ss" for ss by simp
  show ?thesis
    by (auto simp: normalizedDomainAccess_def domain_json_def good_domain_def zone_ids_fit_def
        zone_values_def nullish_def Let_def distinct_map inj_on_def comp_def list_all_iff)
qed

lemma uuid_no_comma: "valid_id s \<Longrightarrow> CHR '','' \<notin> set s \<and> s \<noteq> []"
proof -
  assume v: "valid_id s"
  have "\<not> rx_chars uuid_rx (CHR '','')" by code_simp
  moreover have "\<not> rx_match uuid_rx []" by code_simp
  ultimately show ?thesis using v rx_match_chars[of uuid_rx s] by (auto simp: valid_id_def)
qed

lemma join_head:
  "CHR '','' \<notin> set x \<Longrightarrow> takeWhile (\<lambda>c. c \<noteq> CHR '','') (join '','' (x # xs)) = x"
proof -
  assume n: "CHR '','' \<notin> set x"
  then have "takeWhile (\<lambda>c. c \<noteq> CHR '','') (x @ t) = x @ takeWhile (\<lambda>c. c \<noteq> CHR '','') t" for t
    by (induction x) auto
  then show ?thesis using n takeWhile_eq_all_conv[of "\<lambda>c. c \<noteq> CHR '',''" x] by (cases xs) auto
qed

lemma join_comma_inj:
  "list_all valid_id xs \<Longrightarrow> list_all valid_id ys \<Longrightarrow> join '','' xs = join '','' ys \<Longrightarrow> xs = ys"
proof (induction xs arbitrary: ys)
  case Nil
  then show ?case using uuid_no_comma by (cases ys rule: remdups_adj.cases) auto
next
  case (Cons x xs)
  then obtain y zs where y: "ys = y # zs" using uuid_no_comma
    by (cases ys; cases xs) auto
  have "x = y" using Cons.prems join_head[of x xs] join_head[of y zs] uuid_no_comma by (auto simp: y)
  moreover have "xs = zs"
  proof (cases xs)
    case Nil
    then show ?thesis using Cons.prems \<open>x = y\<close> by (cases zs) (auto simp: y)
  next
    case (Cons x' xs')
    then obtain z' zs' where "zs = z' # zs'" using Cons.prems \<open>x = y\<close> by (cases zs) (auto simp: y)
    then show ?thesis using Cons.IH[of zs] Cons.prems \<open>x = y\<close> Cons by (simp add: y)
  qed
  ultimately show ?case by (simp add: y)
qed

section \<open>The patch\<close>

lemma names_differ [simp]:
  "boolean_name f \<noteq> number_name g" "number_name g \<noteq> boolean_name f"
  "boolean_name f \<noteq> ''domain_access''" "number_name g \<noteq> ''domain_access''"
  "''domain_access'' \<noteq> boolean_name f" "''domain_access'' \<noteq> number_name g"
  by (cases f; cases g; simp)+

lemma boolean_name_inj [simp]: "boolean_name f = boolean_name g \<longleftrightarrow> f = g"
  by (cases f; cases g) simp_all

lemma number_name_inj [simp]: "number_name f = number_name g \<longleftrightarrow> f = g"
  by (cases f; cases g) simp_all

lemma all_boolean_fields: "f \<in> set permissionBooleanFields" "distinct permissionBooleanFields"
  by (cases f) (simp_all add: permissionBooleanFields_def)

lemma all_number_fields: "f \<in> set permissionNumberFields" "distinct permissionNumberFields"
  by (cases f) (simp_all add: permissionNumberFields_def)

lemma map_of_concat:
  "inj name \<Longrightarrow> map_of (concat (map (\<lambda>f. if P f then [(name f, w f)] else []) fs)) (name g) =
     (if g \<in> set fs \<and> P g then Some (w g) else None)"
  by (induction fs) (auto simp: inj_eq)

lemma map_of_concat_other:
  "k \<notin> range name \<Longrightarrow> map_of (concat (map (\<lambda>f. if P f then [(name f, w f)] else []) fs)) k = None"
  by (induction fs) auto

lemma boolean_inj: "inj boolean_name"
  by (simp add: inj_def)

lemma map_of_flag_patch [simp]:
  "map_of (flag_patch original form) (boolean_name f) =
     (if f_flag form f \<noteq> f_flag original f then Some (flag_json (f_flag form f)) else None)"
  unfolding flag_patch_def by (simp add: map_of_concat[OF boolean_inj] all_boolean_fields)

lemma map_of_flag_patch_other [simp]:
  "map_of (flag_patch original form) (number_name g) = None"
  "map_of (flag_patch original form) ''domain_access'' = None"
  unfolding flag_patch_def by (rule map_of_concat_other, auto)+

lemma quota_patch_Inr:
  "quota_patch original form fs = Inr q \<Longrightarrow> distinct fs \<Longrightarrow>
   (\<forall>f\<in>set fs. \<exists>v b. numericIntent (f_quota form f) = Inr v \<and> numericIntent (f_quota original f) = Inr b \<and>
      map_of q (number_name f) = (if v \<noteq> b then Some (quota_json v) else None)) \<and>
   (\<forall>k. k \<notin> number_name ` set fs \<longrightarrow> map_of q k = None) \<and>
   (\<forall>(k, w)\<in>set q. \<exists>f v. k = number_name f \<and> numericIntent (f_quota form f) = Inr v \<and> w = quota_json v)"
proof (induction fs arbitrary: q)
  case (Cons f fs)
  then obtain v b r where s: "numericIntent (f_quota form f) = Inr v" "numericIntent (f_quota original f) = Inr b"
    "quota_patch original form fs = Inr r" "q = (if v \<noteq> b then [(number_name f, quota_json v)] else []) @ r"
    by auto
  note ih = Cons.IH[OF s(3)]
  have d: "distinct fs" "f \<notin> set fs" using Cons.prems by auto
  then have "number_name f \<notin> number_name ` set fs" by auto
  then have "map_of r (number_name f) = None" using ih d(1) by blast
  moreover have "g \<in> set fs \<Longrightarrow> g \<noteq> f" for g using d by auto
  ultimately show ?case using ih d s by (auto split: if_splits)
qed simp

lemma wire_nat_text:
  assumes "wire_nat v = r" shows "numericIntent (quota_text r) = Inr r"
proof (cases r)
  case None
  then show ?thesis by (simp add: numericIntent_def quota_text_def js_trim_def)
next
  case (Some n)
  then have n: "n \<le> 9007199254740991" using assms by (simp add: wire_simps safe_nat_def)
  then have "wire_nat (Some (JNum (js_number (js_of_nat n)))) = Some n"
    unfolding wire_nat_Some by (simp add: js_number_of_nat json_nat_def safe_nat_def)
  then show ?thesis by (simp add: Some quota_text_def numericIntent_def js_of_nat_nonempty)
qed

lemma form_parts:
  assumes "permissionEditorFormFromSnapshot s = Inr form"
  shows "f_flag form f = raw_flag (opt_prop s ''overrides'') f"
    "f_quota form g = quota_text (raw_quota (opt_prop s ''overrides'') g)"
    "numericIntent (f_quota form g) = Inr (raw_quota (opt_prop s ''overrides'') g)"
    "good_domain (f_domain form)"
proof -
  show "f_flag form f = raw_flag (opt_prop s ''overrides'') f"
    "f_quota form g = quota_text (raw_quota (opt_prop s ''overrides'') g)"
    using assms by (auto simp: permissionEditorFormFromSnapshot_def Let_def)
  have "good_domain \<lparr>da_mode = Inherit, da_zone_ids = []\<rparr>" by (simp add: good_domain_def)
  then show "good_domain (f_domain form)"
    using assms by (auto simp: permissionEditorFormFromSnapshot_def Let_def dest!: normalized_good split: if_splits)
  show "numericIntent (f_quota form g) = Inr (raw_quota (opt_prop s ''overrides'') g)"
    using \<open>f_quota form g = quota_text (raw_quota (opt_prop s ''overrides'') g)\<close> wire_nat_text by (simp add: raw_quota_def)
qed

section \<open>What a command means\<close>

text \<open>
  The value a field has once the patch was laid over the overrides of the snapshot, as the
  contract of the command has it: a key of the patch replaces the raw value, an absent key keeps it.
\<close>

definition patched :: "json \<Rightarrow> json option \<Rightarrow> string \<Rightarrow> json option" where
  "patched command raw k =
     (case opt_prop (opt_prop (Some command) ''patch'') k of Some v \<Rightarrow> Some v | None \<Rightarrow> opt_prop raw k)"

lemma build_parts:
  assumes "buildPermissionEditorCommand s form = Inr command"
  obtains original quotas where
    "validatePermissionEditorSnapshot s None = Inr ()"
    "permissionEditorFormFromSnapshot s = Inr original"
    "quota_patch original form permissionNumberFields = Inr quotas"
    "good_domain (f_domain form)"
    "command = JObj [(''expected_revision'', JObj (spread (opt_prop s ''revision''))),
       (''patch'', JObj (flag_patch original form @ quotas @ domain_patch original form))]"
  using assms
  by (auto simp: buildPermissionEditorCommand_def validateDomainAccess_def domain_json_normalized)

lemma wire_flag_json [simp]: "wire_bool (Some (flag_json v)) = v"
  by (cases v) (simp_all add: flag_json_def)

lemma numericIntent_safe: "numericIntent t = Inr (Some n) \<Longrightarrow> safe_nat n"
  by (auto simp: numericIntent_def wire_nat_Some simp del: wire_nat.simps split: if_splits option.splits)

lemma wire_quota_json: "numericIntent t = Inr v \<Longrightarrow> wire_nat (Some (quota_json v)) = v"
  by (cases v) (auto simp: quota_json_def wire_nat_Some simp del: wire_nat.simps(1) dest: numericIntent_safe)

text \<open>Two well-formed selections have the same key exactly when they are the same set.\<close>

lemma zone_key_iff:
  assumes "good_domain d" "good_domain e"
  shows "zone_key d = zone_key e \<longleftrightarrow> set (da_zone_ids d) = set (da_zone_ids e)"
proof
  assume "set (da_zone_ids d) = set (da_zone_ids e)"
  moreover have "distinct (da_zone_ids d)" "distinct (da_zone_ids e)" using assms by (simp_all add: good_domain_def)
  ultimately have "sort (da_zone_ids d) = sort (da_zone_ids e)"
    by (intro sorted_distinct_set_unique) simp_all
  then show "zone_key d = zone_key e" by (simp add: zone_key_def)
next
  assume key: "zone_key d = zone_key e"
  have "list_all valid_id (sort (da_zone_ids d))" "list_all valid_id (sort (da_zone_ids e))"
    using assms by (simp_all add: good_domain_def list_all_iff)
  from join_comma_inj[OF this] have "sort (da_zone_ids d) = sort (da_zone_ids e)"
    using key by (simp add: zone_key_def)
  then show "set (da_zone_ids d) = set (da_zone_ids e)" by (metis set_sort)
qed

lemma domain_patch_map:
  "map_of (domain_patch original form) ''domain_access'' =
     (if domain_patch original form = [] then None else Some (domain_json (f_domain form)))"
  "map_of (domain_patch original form) (boolean_name f) = None"
  "map_of (domain_patch original form) (number_name g) = None"
  by (simp_all add: domain_patch_def)

lemmas patch_lookup = domain_patch_map map_add_def

section \<open>Properties\<close>

text \<open>
  C19: the command carries the revision of the snapshot it was built from; laid over the overrides
  of that snapshot it gives every field exactly the intent of the form, booleans and quotas as
  values and domains as a set; and it carries a key only for a field whose intent differs, for the
  domains exactly when the mode or the set of zones differs.
\<close>

theorem editor_command_exact:
  assumes "buildPermissionEditorCommand s form = Inr command"
    and "permissionEditorFormFromSnapshot s = Inr original"
  shows "(\<forall>f. wire_bool (patched command (opt_prop s ''overrides'') (boolean_name f)) = f_flag form f) \<and>
    (\<forall>g. numericIntent (f_quota form g) =
       Inr (wire_nat (patched command (opt_prop s ''overrides'') (number_name g)))) \<and>
    opt_prop (opt_prop (Some command) ''patch'') ''domain_access'' =
      (if da_mode (f_domain form) = da_mode (f_domain original) \<and>
          set (da_zone_ids (f_domain form)) = set (da_zone_ids (f_domain original))
       then None else Some (domain_json (f_domain form))) \<and>
    (\<forall>f. f_flag form f = f_flag original f \<longrightarrow>
       opt_prop (opt_prop (Some command) ''patch'') (boolean_name f) = None) \<and>
    (\<forall>g. numericIntent (f_quota form g) = numericIntent (f_quota original g) \<longrightarrow>
       opt_prop (opt_prop (Some command) ''patch'') (number_name g) = None) \<and>
    opt_prop (Some command) ''expected_revision'' = Some (JObj (spread (opt_prop s ''revision'')))"
proof -
  obtain quotas where q: "quota_patch original form permissionNumberFields = Inr quotas"
    "good_domain (f_domain form)"
    "command = JObj [(''expected_revision'', JObj (spread (opt_prop s ''revision''))),
       (''patch'', JObj (flag_patch original form @ quotas @ domain_patch original form))]"
    using assms by (elim build_parts) simp
  note o = form_parts[OF assms(2)] and n = quota_patch_Inr[OF q(1) all_number_fields(2)]
  have none: "map_of quotas (boolean_name f) = None" "map_of quotas ''domain_access'' = None" for f
  proof -
    have "boolean_name f \<notin> number_name ` set permissionNumberFields"
      "''domain_access'' \<notin> number_name ` set permissionNumberFields" by auto
    then show "map_of quotas (boolean_name f) = None" "map_of quotas ''domain_access'' = None"
      using n by blast+
  qed
  have g: "\<exists>v. numericIntent (f_quota form g) = Inr v \<and> map_of quotas (number_name g) =
      (if v \<noteq> raw_quota (opt_prop s ''overrides'') g then Some (quota_json v) else None)" for g
    using n all_number_fields(1)[of g] o(3)[of g] by fastforce
  have "\<forall>f. wire_bool (patched command (opt_prop s ''overrides'') (boolean_name f)) = f_flag form f"
    using o(1) none by (simp add: q(3) patched_def patch_lookup raw_flag_def)
  moreover have "numericIntent (f_quota form g) =
      Inr (wire_nat (patched command (opt_prop s ''overrides'') (number_name g)))" for g
    using g[of g] wire_quota_json
    by (auto simp: q(3) patched_def patch_lookup raw_quota_def simp del: wire_nat.simps)
  moreover have "opt_prop (opt_prop (Some command) ''patch'') ''domain_access'' =
      (if da_mode (f_domain form) = da_mode (f_domain original) \<and>
          set (da_zone_ids (f_domain form)) = set (da_zone_ids (f_domain original))
       then None else Some (domain_json (f_domain form)))"
    using none zone_key_iff[OF q(2) o(4)] by (simp add: q(3) patch_lookup) (simp add: domain_patch_def)
  moreover have "numericIntent (f_quota form g) = numericIntent (f_quota original g) \<longrightarrow>
      opt_prop (opt_prop (Some command) ''patch'') (number_name g) = None" for g
    using g[of g] o(3)[of g] by (auto simp: q(3) patch_lookup)
  ultimately show ?thesis using none by (simp add: q(3) patch_lookup)
qed

definition editor_user :: string where "editor_user = ''11111111-2222-3333-4444-555555555555''"
definition editor_tenant :: string where "editor_tenant = ''aaaaaaaa-2222-3333-4444-555555555555''"

definition editor_revision :: json where
  "editor_revision = JObj [(''user_id'', JStr editor_user), (''tenant_id'', JStr editor_tenant),
     (''user_revision'', JStr ''7''), (''profile_id'', JNull), (''profile_revision'', JNull)]"

definition editor_values :: "(string \<times> json) list" where
  "editor_values =
     map (\<lambda>f. (boolean_name f, JBool True)) permissionBooleanFields @
     map (\<lambda>f. (number_name f, JNum (Fin 5))) permissionNumberFields"

definition example_snapshot :: json where
  "example_snapshot = JObj [(''user_id'', JStr editor_user), (''tenant_id'', JStr editor_tenant),
     (''profile'', JNull),
     (''overrides'', JObj (editor_values @
        [(''allowed_zone_ids'', JNull), (''domain_access'', JObj [(''mode'', JStr ''all'')])])),
     (''effective'', JObj editor_values),
     (''field_sources'', JObj (map (\<lambda>(k, v). (k, JStr ''override'')) editor_values @
        [(''domain_access'', JStr ''override'')])),
     (''revision'', editor_revision),
     (''capabilities'', JObj [(''patch'', JBool True), (''assign_profile'', JBool True)])]"

definition all_zones :: domain_access where
  "all_zones = \<lparr>da_mode = AllZones, da_zone_ids = []\<rparr>"

definition original_form :: permission_form where
  "original_form = \<lparr>f_flag = (\<lambda>f. Some True), f_quota = (\<lambda>f. ''5''), f_domain = all_zones\<rparr>"

text \<open>The administrator takes sending away, clears one quota and denies every domain.\<close>

definition edited_form :: permission_form where
  "edited_form = \<lparr>f_flag = (\<lambda>f. if f = CanSend then Some False else Some True),
     f_quota = (\<lambda>f. if f = MaxDomains then '''' else ''5''),
     f_domain = \<lparr>da_mode = NoZones, da_zone_ids = []\<rparr>\<rparr>"

lemma example_ids: "valid_id editor_user" "valid_id editor_tenant" "decimalRevision (Some (JStr ''7''))"
  by (code_simp, code_simp) (simp add: decimal_rx_def is_digit_def digits_nat_def digit_value_def)

lemma five: "wire_nat (Some (JNum (Fin 5))) = Some 5" "js_of_nat 5 = ''5''"
  by (simp add: max_safe_integer_def, code_simp)

lemma numeric_texts: "numericIntent ''5'' = Inr (Some 5)" "numericIntent [] = Inr None"
  using wire_nat_text[OF five(1)] by (simp_all add: quota_text_def five numericIntent_def js_trim_def)

lemma example_snapshot_valid: "validatePermissionEditorSnapshot (Some example_snapshot) None = Inr ()"
  by (simp add: validatePermissionEditorSnapshot_def snapshot_bound_def example_snapshot_def editor_revision_def
      validatePermissionRevision_def example_ids validate_effective_def validatePermissionValues_def js_object_def
      own_def editor_values_def permissionBooleanFields_def permissionNumberFields_def quota_def five
      nullish_def known_mode_def validate_profile_def validate_overrides_def validateDomainAccess_def
      normalizedDomainAccess_def domain_modes_def zone_ids_fit_def zone_values_def validate_field_def source_of_def
      del: wire_nat.simps decimalRevision.simps)

lemma example_snapshot_form:
  "permissionEditorFormFromSnapshot (Some example_snapshot) = Inr original_form"
proof -
  have "opt_prop (Some example_snapshot) ''overrides'' = Some (JObj (editor_values @
        [(''allowed_zone_ids'', JNull), (''domain_access'', JObj [(''mode'', JStr ''all'')])]))"
    (is "_ = Some ?raw") by (simp add: example_snapshot_def)
  moreover have "raw_flag (Some ?raw) f = Some True" for f
    by (cases f) (simp_all add: raw_flag_def editor_values_def permissionBooleanFields_def)
  moreover have "raw_quota (Some ?raw) f = Some 5" for f
    by (cases f) (simp_all add: raw_quota_def editor_values_def permissionBooleanFields_def
        permissionNumberFields_def five del: wire_nat.simps)
  moreover have "normalizedDomainAccess (opt_prop (Some ?raw) ''domain_access'') = Inr all_zones"
    by (simp add: editor_values_def permissionBooleanFields_def permissionNumberFields_def
        normalizedDomainAccess_def domain_modes_def zone_ids_fit_def zone_values_def nullish_def all_zones_def)
  ultimately show ?thesis
    by (simp add: permissionEditorFormFromSnapshot_def example_snapshot_valid original_form_def fun_eq_iff
        quota_text_def five)
qed

definition edited_command :: json where
  "edited_command = JObj [(''expected_revision'', editor_revision),
     (''patch'', JObj [(''can_send'', JBool False), (''max_domains'', JNull),
        (''domain_access'', JObj [(''mode'', JStr ''none''), (''zone_ids'', JArr [])])])]"

lemma edited_command_built: "buildPermissionEditorCommand (Some example_snapshot) edited_form = Inr edited_command"
proof -
  have "validateDomainAccess (Some (domain_json (f_domain edited_form))) = Inr ()"
    by (simp add: validateDomainAccess_def domain_json_normalized good_domain_def edited_form_def)
  then show ?thesis
  by (simp add: buildPermissionEditorCommand_def example_snapshot_valid example_snapshot_form)
    (simp add: edited_form_def original_form_def permissionNumberFields_def permissionBooleanFields_def
      numeric_texts all_zones_def
      edited_command_def flag_patch_def flag_json_def quota_json_def domain_patch_def domain_json_def
      mode_name_def name_of_def domain_modes_def example_snapshot_def editor_revision_def)
qed

theorem editor_command_exact_witness:
  "wire_bool (patched edited_command (opt_prop (Some example_snapshot) ''overrides'') ''can_send'') = Some False"
  using editor_command_exact[OF edited_command_built example_snapshot_form, THEN conjunct1, THEN spec, of CanSend]
  by (simp add: edited_form_def)

text \<open>
  A form that was not edited gives an empty patch: reading a snapshot into the form and
  building the command changes no field.
\<close>

lemma editor_form_roundtrip:
  assumes "permissionEditorFormFromSnapshot s = Inr form"
  shows "buildPermissionEditorCommand s form =
    Inr (JObj [(''expected_revision'', JObj (spread (opt_prop s ''revision''))), (''patch'', JObj [])])"
proof -
  note o = form_parts[OF assms]
  have v: "validatePermissionEditorSnapshot s None = Inr ()"
    using assms by (auto simp: permissionEditorFormFromSnapshot_def)
  have "quota_patch form form fs = Inr []" for fs
    by (induction fs) (auto simp: o(3))
  moreover have "flag_patch form form = []" by (simp add: flag_patch_def)
  moreover have "validateDomainAccess (Some (domain_json (f_domain form))) = Inr ()"
    using o(4) by (simp add: validateDomainAccess_def domain_json_normalized)
  ultimately show ?thesis
    using v by (simp add: buildPermissionEditorCommand_def assms domain_patch_def)
qed

lemma editor_form_roundtrip_example:
  "buildPermissionEditorCommand (Some example_snapshot) original_form =
    Inr (JObj [(''expected_revision'', editor_revision), (''patch'', JObj [])])"
  using editor_form_roundtrip[OF example_snapshot_form] by (simp add: example_snapshot_def editor_revision_def)

section \<open>Deletion previews\<close>

abbreviation uid :: "json \<Rightarrow> json option" where "uid m \<equiv> get_prop m ''user_id''"
abbreviation changed_uid :: "json \<Rightarrow> json option" where
  "changed_uid c \<equiv> opt_prop (get_prop c ''revision'') ''user_id''"

definition bound_member :: "string \<Rightarrow> json option \<Rightarrow> json \<Rightarrow> bool" where
  "bound_member target revision m \<longleftrightarrow> isUUID (uid m) \<and>
     get_prop m ''profile_id'' = Some (JStr target) \<and> get_prop m ''profile_revision'' = revision"

lemma check_members_Inr:
  "check_members target revision msg seen ms = Inr () \<Longrightarrow>
   distinct (map uid ms) \<and> uid ` set ms \<inter> set seen = {} \<and> (\<forall>m\<in>set ms. bound_member target revision m)"
proof (induction ms arbitrary: seen)
  case (Cons m ms)
  then have "check_members target revision msg (uid m # seen) ms = Inr ()" "uid m \<notin> set seen"
    "bound_member target revision m"
    by (auto simp: validatePermissionRevision_def bound_member_def dest: strict_eq_imp)
  then show ?case using Cons.IH[of "uid m # seen"] by auto
qed simp

lemma check_members_message:
  "check_members target revision msg seen ms = Inr () \<Longrightarrow> check_members target revision msg' seen ms = Inr ()"
  by (induction ms arbitrary: seen) auto

lemma check_changes_Inr:
  "check_changes members changed cs = Inr () \<Longrightarrow>
   distinct (map changed_uid cs) \<and> changed_uid ` set cs \<inter> set changed = {} \<and>
   changed_uid ` set cs \<subseteq> uid ` set members"
proof (induction cs arbitrary: changed)
  case (Cons c cs)
  let ?r = "get_prop c ''revision''"
  from Cons.prems obtain m where
    m: "find (\<lambda>m. strict_eq (uid m) (changed_uid c)) members = Some m" "uid m \<notin> set changed"
    "check_changes members (uid m # changed) cs = Inr ()"
    by (auto split: option.splits)
  then have "m \<in> set members" "uid m = changed_uid c"
    by (auto simp: find_Some_iff dest: strict_eq_imp)
  then have "changed_uid c \<in> uid ` set members" by (metis image_eqI)
  with \<open>uid m = changed_uid c\<close> show ?case using m(2) Cons.IH[OF m(3)] by auto
qed simp

lemma array_of_Some [simp]: "array_of v = Some vs \<longleftrightarrow> v = JArr vs"
  by (cases v) auto

lemma preview_parts:
  assumes "validateProfileDeletionPreview preview target = Inr seen"
  obtains ms cs where "decimalRevision (opt_prop preview ''profile_revision'')" "length ms = length cs"
    "check_members target (opt_prop preview ''profile_revision'')
       ''Invalid confirmed member profile binding'' [] ms = Inr ()"
    "check_changes ms [] cs = Inr ()"
    "seen = JObj (merge_objects (spread preview) [(''members'', JArr ms), (''changes'', JArr cs)])"
proof -
  let ?ms = "array_of (or_empty (opt_prop preview ''members''))"
  let ?cs = "array_of (or_empty (opt_prop preview ''changes''))"
  have a: "?ms \<noteq> None" "?cs \<noteq> None"
    using assms unfolding validateProfileDeletionPreview_def Let_def by (auto split: option.splits)
  then obtain ms cs where l: "?ms = Some ms" "?cs = Some cs" by blast
  then have "or_empty (opt_prop preview ''members'') = JArr ms" "or_empty (opt_prop preview ''changes'') = JArr cs"
    by simp_all
  then show thesis using assms by (intro that[of ms cs]) (auto simp: validateProfileDeletionPreview_def)
qed

text \<open>
  An accepted deletion preview lists every affected member once, each bound to the profile
  and the revision of the preview, and its changes are about exactly these members, each once; so
  the deletion command that confirms its members passes the command's own check.
\<close>

lemma deletion_preview_complete:
  assumes "validateProfileDeletionPreview preview target = Inr seen"
  shows "\<exists>ms cs. get_prop seen ''members'' = Some (JArr ms) \<and> get_prop seen ''changes'' = Some (JArr cs) \<and>
    distinct (map uid ms) \<and> distinct (map changed_uid cs) \<and> changed_uid ` set cs = uid ` set ms \<and>
    list_all (bound_member target (opt_prop preview ''profile_revision'')) ms \<and>
    validateProfileDeletionCommand
      (Some (JObj [(''expected_revision'', the (opt_prop preview ''profile_revision'')),
         (''confirmed_members'', JArr ms)])) target = Inr ()"
proof -
  let ?r = "opt_prop preview ''profile_revision''"
  from preview_parts[OF assms] obtain ms cs where p: "decimalRevision ?r" "length ms = length cs"
    "check_members target ?r ''Invalid confirmed member profile binding'' [] ms = Inr ()"
    "check_changes ms [] cs = Inr ()"
    "seen = JObj (merge_objects (spread preview) [(''members'', JArr ms), (''changes'', JArr cs)])"
    by metis
  note m = check_members_Inr[OF p(3)] and c = check_changes_Inr[OF p(4)]
  have "changed_uid ` set cs = uid ` set ms"
  proof (rule card_subset_eq)
    show "card (changed_uid ` set cs) = card (uid ` set ms)"
      using m c p(2) distinct_card[of "map changed_uid cs"] distinct_card[of "map uid ms"] by simp
  qed (use c in auto)
  moreover have "get_prop seen ''members'' = Some (JArr ms)" "get_prop seen ''changes'' = Some (JArr cs)"
    by (simp_all add: p(5) map_of_merge)
  moreover have "validateProfileDeletionCommand (Some (JObj [(''expected_revision'', the ?r),
      (''confirmed_members'', JArr ms)])) target = Inr ()"
  proof -
    obtain t where t: "?r = Some (JStr t)" using p(1) by (cases ?r rule: decimalRevision.cases) auto
    then show ?thesis
      using p(1) check_members_message[OF p(3)]
      by (simp add: validateProfileDeletionCommand_def validateProfileRevision_def nullish_def
          del: decimalRevision.simps)
  qed
  ultimately show ?thesis using m c by (auto simp: list_all_iff)
qed

definition deletion_member :: json where
  "deletion_member = JObj [(''user_id'', JStr editor_user), (''tenant_id'', JStr editor_tenant),
     (''user_revision'', JStr ''7''), (''profile_id'', JStr editor_tenant), (''profile_revision'', JStr ''7'')]"

definition example_preview :: json where
  "example_preview = JObj [(''profile_id'', JStr editor_tenant), (''profile_revision'', JStr ''7''),
     (''members'', JArr [deletion_member]),
     (''changes'', JArr [JObj [(''revision'', deletion_member), (''before'', JObj editor_values),
        (''after'', JObj editor_values)]])]"

lemma example_preview_accepted:
  "validateProfileDeletionPreview (Some example_preview) editor_tenant = Inr (JObj (merge_objects (spread (Some example_preview))
     [(''members'', the (get_prop example_preview ''members'')), (''changes'', the (get_prop example_preview ''changes''))]))"
proof -
  have v: "validatePermissionValues (Some (JObj editor_values)) = Inr ()"
    by (simp add: validatePermissionValues_def js_object_def own_def editor_values_def
        permissionBooleanFields_def permissionNumberFields_def quota_def five nullish_def del: wire_nat.simps)
  have r: "validatePermissionRevision (Some deletion_member) None = Inr ()"
    by (simp add: validatePermissionRevision_def deletion_member_def example_ids del: decimalRevision.simps)
  have m: "opt_prop (Some (JObj editor_values)) ''domain_access_mode'' = None"
    by (simp add: editor_values_def permissionBooleanFields_def permissionNumberFields_def)
  show ?thesis
    using v r m
    by (simp add: validateProfileDeletionPreview_def example_preview_def example_ids own_def or_empty_def
        nullish_def known_mode_def del: decimalRevision.simps)
      (simp add: same_revision_def revision_keys_def deletion_member_def Let_def demand_def andthen_def
        deref_def nullish_def known_mode_def)
qed

lemma deletion_preview_complete_example:
  "\<exists>seen. validateProfileDeletionPreview (Some example_preview) editor_tenant = Inr seen \<and>
     (\<exists>ms. get_prop seen ''members'' = Some (JArr ms) \<and> distinct (map uid ms))"
  using deletion_preview_complete[OF example_preview_accepted] example_preview_accepted by blast

end
