(* ===== verification/Uri.thy ===== *)
theory Uri
  imports Prelude
begin

text \<open>
  \<^verbatim>\<open>encodeURIComponent\<close> on code units below 256 (their UTF-8 bytes, percent-encoded) and the
  template literals that build request paths from it: literals and ids in turn. The lemmas show
  that an encoded id can be read back and never adds a path segment, a query or a fragment.
\<close>

section \<open>Percent encoding\<close>

definition unreserved :: "char \<Rightarrow> bool" where
  "unreserved c = (is_alnum c \<or> c \<in> set [CHR ''-'', CHR ''_'', CHR ''.'', CHR ''!'', CHR ''~'',
     CHR ''*'', CHR 0x27, CHR ''('', CHR '')''])"

definition hex_digit :: "nat \<Rightarrow> char" where
  "hex_digit n = ''0123456789ABCDEF'' ! n"

definition percent :: "nat \<Rightarrow> string" where
  "percent n = [CHR ''%'', hex_digit (n div 16), hex_digit (n mod 16)]"

definition encode_char :: "char \<Rightarrow> string" where
  "encode_char c =
     (let n = (of_char c :: nat) in
      if unreserved c then [c]
      else if n < 128 then percent n
      else percent (192 + n div 64) @ percent (128 + n mod 64))"

definition encodeURIComponent :: "string \<Rightarrow> string" where
  "encodeURIComponent s = concat (map encode_char s)"

text \<open>A template literal: its literal parts and the ids between them.\<close>

fun uri :: "string list \<Rightarrow> string list \<Rightarrow> string" where
  "uri [] ids = []"
| "uri (l # ls) [] = l"
| "uri (l # ls) (i # ids) = l @ encodeURIComponent i @ uri ls ids"

section \<open>Reading it back\<close>

definition hex_value :: "char \<Rightarrow> nat" where
  "hex_value c = (let n = (of_char c :: nat) in if n \<le> 57 then n - 48 else n - 55)"

definition decode_code :: "string \<Rightarrow> char \<times> string" where
  "decode_code s =
     (case s of
        [] \<Rightarrow> (CHR 0x00, [])
      | p # t \<Rightarrow>
          if p \<noteq> CHR ''%'' then (p, t)
          else let n = 16 * hex_value (t ! 0) + hex_value (t ! 1) in
            if n < 128 then (char_of n, drop 2 t)
            else (char_of (64 * (n - 192) + (16 * hex_value (t ! 3) + hex_value (t ! 4) - 128)), drop 5 t))"

definition code_ok :: "char \<Rightarrow> bool" where
  "code_ok c =
     (case encode_char c of
        [p] \<Rightarrow> p = c \<and> p \<noteq> CHR ''%''
      | [p, a, b] \<Rightarrow> p = CHR ''%'' \<and> 16 * hex_value a + hex_value b < 128 \<and>
          char_of (16 * hex_value a + hex_value b) = c
      | [p, a, b, q, x, y] \<Rightarrow> p = CHR ''%'' \<and> 128 \<le> 16 * hex_value a + hex_value b \<and>
          char_of (64 * (16 * hex_value a + hex_value b - 192) + (16 * hex_value x + hex_value y - 128)) = c
      | _ \<Rightarrow> False)"

lemma hex_digits: "n < 16 \<Longrightarrow> hex_value (hex_digit n) = n \<and> is_hex (hex_digit n)"
proof -
  have "list_all (\<lambda>n. hex_value (hex_digit n) = n \<and> is_hex (hex_digit n)) [0..<16]" by code_simp
  then show "n < 16 \<Longrightarrow> ?thesis" by (simp add: list_all_iff)
qed

lemma percent_simps: "percent n = [CHR ''%'', hex_digit (n div 16), hex_digit (n mod 16)]"
  by (simp add: percent_def)

lemma percent_value:
  "n < 256 \<Longrightarrow> 16 * hex_value (hex_digit (n div 16)) + hex_value (hex_digit (n mod 16)) = n"
  by (simp add: hex_digits)

lemma unreserved_clean: "unreserved c \<Longrightarrow> c \<noteq> CHR ''%'' \<and> c \<noteq> CHR ''/'' \<and> c \<noteq> CHR ''?'' \<and> c \<noteq> CHR ''#''"
  by (auto simp: unreserved_def is_alnum_def)

lemma hex_clean: "is_hex c \<Longrightarrow> c \<noteq> CHR ''/'' \<and> c \<noteq> CHR ''?'' \<and> c \<noteq> CHR ''#''"
  by (auto simp: is_hex_def)

lemma bytes_bound: "(of_char c :: nat) < 256" "192 + (of_char c :: nat) div 64 < 256"
  "128 + (of_char c :: nat) mod 64 < 256"
proof -
  have b: "k < 256 \<Longrightarrow> 192 + k div 64 < 256 \<and> 128 + k mod 64 < 256" for k :: nat
    by (auto simp: less_mult_imp_div_less)
  show "(of_char c :: nat) < 256" by simp
  from b[OF this] show "192 + (of_char c :: nat) div 64 < 256" "128 + (of_char c :: nat) mod 64 < 256"
    by simp_all
qed

lemma codes_ok: "code_ok c"
proof -
  let ?n = "of_char c :: nat"
  have n: "?n < 256" "char_of ?n = c" by simp_all
  consider "unreserved c" | "\<not> unreserved c" "?n < 128" | "\<not> unreserved c" "128 \<le> ?n" by linarith
  then show ?thesis
  proof cases
    case 1
    then show ?thesis using unreserved_clean by (simp add: code_ok_def encode_char_def)
  next
    case 2
    then show ?thesis using percent_value[of ?n] n by (simp add: code_ok_def encode_char_def percent_simps Let_def)
  next
    case 3
    note percent_value[OF bytes_bound(2)[of c]] percent_value[OF bytes_bound(3)[of c]]
    then show ?thesis using 3 n(2) by (simp add: code_ok_def encode_char_def percent_simps Let_def)
  qed
qed

lemma percent_clean:
  "n < 256 \<Longrightarrow> x \<in> set (percent n) \<Longrightarrow> x \<noteq> CHR ''/'' \<and> x \<noteq> CHR ''?'' \<and> x \<noteq> CHR ''#''"
proof -
  assume n: "n < 256" "x \<in> set (percent n)"
  then have "is_hex (hex_digit (n div 16))" "is_hex (hex_digit (n mod 16))" by (simp_all add: hex_digits)
  then show ?thesis using n(2) hex_clean by (auto simp: percent_simps)
qed

lemma codes_clean: "x \<in> set (encode_char c) \<Longrightarrow> x \<noteq> CHR ''/'' \<and> x \<noteq> CHR ''?'' \<and> x \<noteq> CHR ''#''"
  using percent_clean[OF bytes_bound(1)[of c]] percent_clean[OF bytes_bound(2)[of c]]
    percent_clean[OF bytes_bound(3)[of c]] unreserved_clean[of c]
  by (auto simp: encode_char_def Let_def split: if_splits)

lemma encode_clean:
  "CHR ''/'' \<notin> set (encodeURIComponent s)" "CHR ''?'' \<notin> set (encodeURIComponent s)"
  "CHR ''#'' \<notin> set (encodeURIComponent s)"
  using codes_clean by (fastforce simp: encodeURIComponent_def)+

fun code_shape :: "string \<Rightarrow> bool" where
  "code_shape [p] = True"
| "code_shape [p, a, b] = True"
| "code_shape [p, a, b, q, x, y] = True"
| "code_shape s = False"

lemma decode_encode_char: "decode_code (encode_char c @ r) = (c, r)"
  using codes_ok[of c] unfolding code_ok_def
  by (cases "encode_char c" rule: code_shape.cases) (auto simp: decode_code_def Let_def)

lemma encode_nonempty [simp]: "encode_char c \<noteq> []"
  using codes_ok[of c] by (auto simp: code_ok_def)

lemma encode_inj: "encodeURIComponent s = encodeURIComponent t \<Longrightarrow> s = t"
proof (induction s arbitrary: t)
  case Nil
  then show ?case by (cases t) (auto simp: encodeURIComponent_def)
next
  case (Cons c s)
  then obtain d u where t: "t = d # u" by (cases t) (auto simp: encodeURIComponent_def)
  then have "encode_char c @ encodeURIComponent s = encode_char d @ encodeURIComponent u"
    using Cons.prems by (simp add: encodeURIComponent_def)
  from arg_cong[OF this, of decode_code] have "c = d" "encodeURIComponent s = encodeURIComponent u"
    by (simp_all add: decode_encode_char)
  then show ?case using Cons.IH t by simp
qed

text \<open>The literals of a path: none holds a query or a fragment, and one that follows an id is the end
  or starts a new segment.\<close>

definition literal_ok :: "string \<Rightarrow> bool" where
  "literal_ok l = (CHR ''?'' \<notin> set l \<and> CHR ''#'' \<notin> set l)"

fun template_ok :: "string list \<Rightarrow> bool" where
  "template_ok [] = False"
| "template_ok [l] = literal_ok l"
| "template_ok (l # m # ls) =
     (literal_ok l \<and> (m = [] \<and> ls = [] \<or> starts_with ''/'' m) \<and> template_ok (m # ls))"

definition segments :: "string \<Rightarrow> nat" where
  "segments s = count_list s (CHR ''/'')"

lemma split_at_slash:
  assumes "CHR ''/'' \<notin> set a" "CHR ''/'' \<notin> set b" "a @ x = b @ y"
    and "x = [] \<or> hd x = CHR ''/''" "y = [] \<or> hd y = CHR ''/''"
  shows "a = b \<and> x = y"
proof -
  have t: "takeWhile (\<lambda>c. c \<noteq> CHR ''/'') (u @ v) = u"
    if "CHR ''/'' \<notin> set u" "v = [] \<or> hd v = CHR ''/''" for u v
    using that by (induction u) (cases v; auto)+
  have "a = b" using t[OF assms(1,4)] t[OF assms(2,5)] assms(3) by simp
  with assms(3) show ?thesis by simp
qed

lemma uri_head:
  "template_ok (m # ls) \<Longrightarrow> m = [] \<and> ls = [] \<or> starts_with ''/'' m \<Longrightarrow> length ids = length ls \<Longrightarrow>
   uri (m # ls) ids = [] \<or> hd (uri (m # ls) ids) = CHR ''/''"
  by (cases ids; cases m) (auto simp: starts_with_def)

lemma uri_inj:
  "template_ok ls \<Longrightarrow> Suc (length ids) = length ls \<Longrightarrow> Suc (length ids') = length ls \<Longrightarrow>
   uri ls ids = uri ls ids' \<Longrightarrow> ids = ids'"
proof (induction ls arbitrary: ids ids' rule: template_ok.induct)
  case (3 l m ls)
  obtain i js i' js' where i: "ids = i # js" "ids' = i' # js'" "length js = length ls" "length js' = length ls"
    using 3(3,4) by (cases ids; cases ids') auto
  have e: "encodeURIComponent i @ uri (m # ls) js = encodeURIComponent i' @ uri (m # ls) js'"
    using 3(5) i by simp
  have h: "uri (m # ls) js = [] \<or> hd (uri (m # ls) js) = CHR ''/''" if "length js = length ls" for js
    using 3(2) that by (intro uri_head) auto
  from split_at_slash[OF encode_clean(1) encode_clean(1) e h[OF i(3)] h[OF i(4)]]
  have "encodeURIComponent i = encodeURIComponent i'" "uri (m # ls) js = uri (m # ls) js'" by simp_all
  then show ?case using 3(1)[of js js'] 3(2) i encode_inj by simp
qed auto

lemma segments_append [simp]: "segments (a @ b) = segments a + segments b"
  by (simp add: segments_def)

lemma segments_encoded [simp]: "segments (encodeURIComponent s) = 0"
  using encode_clean(1)[of s] by (simp add: segments_def count_notin)

lemma segments_empty: "segments [] = 0"
  by (simp add: segments_def)

lemma uri_segments:
  "Suc (length ids) = length ls \<Longrightarrow> segments (uri ls ids) = segments (concat ls)"
  by (induction ls ids rule: uri.induct) (simp_all add: segments_empty)

lemma uri_clean:
  "list_all literal_ok ls \<Longrightarrow> literal_ok (uri ls ids)"
  using encode_clean by (induction ls ids rule: uri.induct) (auto simp: literal_ok_def)

lemma template_literals: "template_ok ls \<Longrightarrow> list_all literal_ok ls"
  by (induction ls rule: template_ok.induct) auto

end
