(* ===== verification/CompanyApi.thy ===== *)
theory CompanyApi
  imports ApiBase Receipts Numerals Uri
begin

text \<open>
  The operations of the company workspace: the request functions of \<^verbatim>\<open>src/web/lib/company.ts\<close>,
  \<^verbatim>\<open>features/company/api.ts\<close>, \<^verbatim>\<open>features/mail/api.ts\<close> and
  \<^verbatim>\<open>lib/legacy-outbound.ts\<close>, each a program over the transport of \<^verbatim>\<open>ApiBase\<close>. A response is
  cast, not checked, so it stays a \<^typ>\<open>json\<close> value; the receipt and content reads decode it with
  the closed parsers of \<^verbatim>\<open>Receipts\<close>, for the session and the tenant they were started in.
\<close>

section \<open>Options and payloads\<close>

definition post :: "json \<Rightarrow> options" where
  "post body = get_options\<lparr>o_method := Some ''POST'', o_body := Some (JsonBody body)\<rparr>"

definition bare :: "string \<Rightarrow> options" where
  "bare meth = get_options\<lparr>o_method := Some meth\<rparr>"

definition with_body :: "string \<Rightarrow> json \<Rightarrow> options" where
  "with_body meth body = get_options\<lparr>o_method := Some meth, o_body := Some (JsonBody body)\<rparr>"

definition query :: "(string \<times> string) list \<Rightarrow> options" where
  "query ps = get_options\<lparr>o_params := map (\<lambda>(k, v). (k, Some v)) ps\<rparr>"

text \<open>What a caller that expects JSON reads from a payload; a \<^verbatim>\<open>Blob\<close> has no own property.\<close>

fun payload_json :: "payload \<Rightarrow> json" where
  "payload_json (PJson v) = v"
| "payload_json (PText s) = JStr s"
| "payload_json (PBlob b) = JObj []"

definition or_throw :: "(string + 'a) \<Rightarrow> 'a io" where
  "or_throw x = (case x of Inl m \<Rightarrow> throw (Err m) | Inr y \<Rightarrow> ret y)"

definition read_prop :: "json option \<Rightarrow> string \<Rightarrow> json option io" where
  "read_prop v k = or_throw (deref v k)"

text \<open>\<^verbatim>\<open>v ?? []\<close>\<close>

definition or_array :: "json option \<Rightarrow> json" where
  "or_array v = (case v of None \<Rightarrow> JArr [] | Some x \<Rightarrow> if x = JNull then JArr [] else x)"

section \<open>The company endpoint\<close>

definition company :: "string \<Rightarrow> options \<Rightarrow> json option io" where
  "company path opts =
     bnd (request (''/api/v1/company'' @ path) opts) (\<lambda>res. read_prop (Some (payload_json res)) ''data'')"

definition company_list :: "string \<Rightarrow> json io" where
  "company_list path = bnd (company path get_options) (\<lambda>v. ret (or_array v))"

definition workPath :: "string \<Rightarrow> string" where
  "workPath i = uri [''/mailboxes/'', ''''] [i]"

definition companyDomains :: "json io" where
  "companyDomains = company_list ''/domains''"

definition addCompanyDomain :: "string \<Rightarrow> json option io" where
  "addCompanyDomain domain = company ''/domains'' (post (JObj [(''domain'', JStr domain)]))"

definition verifyCompanyDomain :: "string \<Rightarrow> json option io" where
  "verifyCompanyDomain i = company (uri [''/domains/'', ''/verify''] [i]) (bare ''POST'')"

definition companyDomainVerification :: "string \<Rightarrow> json option io" where
  "companyDomainVerification i = company (uri [''/domains/'', ''/verification''] [i]) get_options"

definition deleteCompanyDomain :: "string \<Rightarrow> json option io" where
  "deleteCompanyDomain i = company (uri [''/domains/'', ''''] [i]) (bare ''DELETE'')"

datatype send_policy = Free | TemplateRequired | Disabled

fun policy_name :: "send_policy \<Rightarrow> string" where
  "policy_name Free = ''free''"
| "policy_name TemplateRequired = ''template_required''"
| "policy_name Disabled = ''disabled''"

text \<open>\<^verbatim>\<open>policy || null\<close>: \<^const>\<open>None\<close> is the empty policy, which clears the override.\<close>

definition policy_json :: "send_policy option \<Rightarrow> json" where
  "policy_json p = (case p of None \<Rightarrow> JNull | Some q \<Rightarrow> JStr (policy_name q))"

definition setMailboxSendPolicy :: "string \<Rightarrow> send_policy option \<Rightarrow> number \<Rightarrow> json option io" where
  "setMailboxSendPolicy i policy revision =
     company (uri [''/mailboxes/'', ''/send-policy''] [i])
       (with_body ''PUT'' (JObj [(''send_policy'', policy_json policy), (''revision'', JNum revision)]))"

definition revokeTemplateVersion :: "string \<Rightarrow> nat \<Rightarrow> number \<Rightarrow> json option io" where
  "revokeTemplateVersion templateId version revision =
     company (uri [''/templates/'', ''/versions/'' @ js_of_nat version @ ''/revoke''] [templateId])
       (post (JObj [(''revision'', JNum revision)]))"

definition submitDraft :: "string \<Rightarrow> number \<Rightarrow> string \<Rightarrow> json option io" where
  "submitDraft i revision idempotencyKey =
     company (uri [''/drafts/'', ''/submit''] [i])
       ((post (JObj [(''expected_revision'', JNum revision)]))
          \<lparr>o_headers := no_headers(''Idempotency-Key'' \<mapsto> idempotencyKey)\<rparr>)"

definition workMailboxes :: "json io" where
  "workMailboxes = company_list ''/mailboxes''"

definition workMessages :: "string \<Rightarrow> string \<Rightarrow> string \<Rightarrow> nat \<Rightarrow> payload io" where
  "workMessages i folder q page =
     request (''/api/v1/company'' @ workPath i @ ''/messages'')
       (query [(''folder'', folder), (''q'', q), (''page'', js_of_nat page), (''per_page'', ''30'')])"

definition workMessage :: "string \<Rightarrow> string \<Rightarrow> json option io" where
  "workMessage i message = company (uri [''/mailboxes/'', ''/messages/'', ''''] [i, message]) get_options"

definition submissionAttachments :: "string \<Rightarrow> json option io" where
  "submissionAttachments i = company (uri [''/submissions/'', ''/attachments''] [i]) get_options"

definition downloadCompanyFile :: "string \<Rightarrow> payload io" where
  "downloadCompanyFile path =
     request (''/api/v1/company'' @ path) (get_options\<lparr>o_kind := BlobKind\<rparr>)"

subsection \<open>Offboarding\<close>

datatype draft_disposal = SealDrafts | TransferOwned | DiscardDrafts

fun disposal_name :: "draft_disposal \<Rightarrow> string" where
  "disposal_name SealDrafts = ''seal''"
| "disposal_name TransferOwned = ''transfer_owned''"
| "disposal_name DiscardDrafts = ''discard''"

definition previewOffboarding :: "string \<Rightarrow> string \<Rightarrow> draft_disposal \<Rightarrow> string \<Rightarrow> json option io" where
  "previewOffboarding target successor drafts reason =
     company (uri [''/employees/'', ''/offboard/preview''] [target])
       (post (JObj [(''successor_user_id'', JStr successor),
          (''options'', JObj [(''drafts'', JStr (disposal_name drafts))]), (''reason'', JStr reason)]))"

definition executeOffboarding :: "string \<Rightarrow> string \<Rightarrow> json option io" where
  "executeOffboarding target plan =
     company (uri [''/employees/'', ''/offboard''] [target]) (post (JObj [(''plan_id'', JStr plan)]))"

subsection \<open>Mail folders\<close>

definition draftPage :: "nat \<Rightarrow> payload io" where
  "draftPage page = request ''/api/v1/company/drafts''
     (query [(''page'', js_of_nat page), (''per_page'', ''30'')])"

definition archivedPage :: "string \<Rightarrow> string \<Rightarrow> string \<Rightarrow> nat \<Rightarrow> payload io" where
  "archivedPage mailbox folder q page =
     request (''/api/v1/company'' @ workPath mailbox @ ''/sent'')
       (query [(''folder'', folder), (''q'', q), (''page'', js_of_nat page), (''per_page'', ''30'')])"

definition indexStatus :: "string \<Rightarrow> json option io" where
  "indexStatus mailbox = company (workPath mailbox @ ''/index-status'') get_options"

definition changeArchived :: "string \<Rightarrow> string \<Rightarrow> number \<Rightarrow> string \<Rightarrow> json option io" where
  "changeArchived mailbox i revision action =
     company (uri [''/mailboxes/'', ''/sent/'', ''/actions''] [mailbox, i])
       (post (JObj [(''revision'', JNum revision), (''action'', JStr action)]))"

section \<open>Receipts and content of the current tenant\<close>

text \<open>\<^verbatim>\<open>localStorage.getItem("tabmail_tenant_id")\<close>: \<^const>\<open>None\<close> off the browser, else a string or null.\<close>

definition current_tenant :: "world \<Rightarrow> string option option" where
  "current_tenant w = (if s_window (w_session w) then Some (getStoredKey w TENANT_KEY) else None)"

definition or_invalid :: "'a option \<Rightarrow> 'a io" where
  "or_invalid x =
     (case x of Some y \<Rightarrow> ret y | None \<Rightarrow> throw (Err ''Invalid or out-of-scope receipt response''))"

definition submissions :: "(string \<Rightarrow> bool) \<Rightarrow> nat \<Rightarrow> (receipt list \<times> page_meta) io" where
  "submissions finite_date page =
     bnd (gets wscope) (\<lambda>scope.
     bnd (gets current_tenant) (\<lambda>tenantId.
     bnd (request ''/api/v1/company/submissions''
            (query [(''page'', js_of_nat page), (''per_page'', ''30'')])) (\<lambda>result.
     bnd (assert_scope scope) (\<lambda>_.
     or_invalid (parseReceiptListResponse finite_date \<lparr>sc_id = None, sc_tenant = tenantId\<rparr>
       (Some (payload_json result)))))))"

text \<open>The shape that every read of one receipt has.\<close>

definition read_receipt :: "(string \<Rightarrow> bool) \<Rightarrow> string \<Rightarrow> options \<Rightarrow> string \<Rightarrow> receipt io" where
  "read_receipt finite_date path opts i =
     bnd (gets wscope) (\<lambda>scope.
     bnd (gets current_tenant) (\<lambda>tenantId.
     bnd (request path opts) (\<lambda>result.
     bnd (assert_scope scope) (\<lambda>_.
     or_invalid (parseReceiptResponse finite_date \<lparr>sc_id = Some i, sc_tenant = tenantId\<rparr>
       (Some (payload_json result)))))))"

definition submission :: "(string \<Rightarrow> bool) \<Rightarrow> string \<Rightarrow> receipt io" where
  "submission finite_date i =
     read_receipt finite_date (uri [''/api/v1/company/submissions/'', ''''] [i]) get_options i"

definition submissionContent :: "(string \<Rightarrow> bool) \<Rightarrow> string \<Rightarrow> live_content io" where
  "submissionContent finite_date i =
     bnd (gets wscope) (\<lambda>scope.
     bnd (request (uri [''/api/v1/company/submissions/'', ''/content''] [i]) get_options) (\<lambda>result.
     bnd (assert_scope scope) (\<lambda>_.
     or_invalid (parseContentResponse finite_date i (Some (payload_json result))))))"

subsection \<open>The compatibility paths\<close>

definition legacyOutboundReceiptPage :: "(string \<Rightarrow> bool) \<Rightarrow> number \<Rightarrow> (receipt list \<times> page_meta) io" where
  "legacyOutboundReceiptPage finite_date page =
     (case wire_nat (Some (JNum page)) of
        None \<Rightarrow> or_invalid None
      | Some n \<Rightarrow>
          if n < 1 then or_invalid None
          else
            bnd (gets wscope) (\<lambda>scope.
            bnd (gets current_tenant) (\<lambda>tenantId.
            bnd (request ''/api/v1/outbound'' (query [(''page'', js_of_nat n), (''per_page'', ''20'')]))
              (\<lambda>result.
            bnd (assert_scope scope) (\<lambda>_.
            bnd (or_invalid (parseReceiptListResponse finite_date
                   \<lparr>sc_id = None, sc_tenant = tenantId\<rparr> (Some (payload_json result)))) (\<lambda>parsed.
            if meta_page (snd parsed) \<noteq> n then or_invalid None else ret parsed))))))"

definition legacyOutboundReceipts :: "(string \<Rightarrow> bool) \<Rightarrow> number \<Rightarrow> receipt list io" where
  "legacyOutboundReceipts finite_date page =
     bnd (legacyOutboundReceiptPage finite_date page) (\<lambda>parsed. ret (fst parsed))"

definition aggregate :: "(string \<Rightarrow> bool) \<Rightarrow> string \<Rightarrow> string \<Rightarrow> receipt io" where
  "aggregate finite_date i ending =
     read_receipt finite_date (uri [''/api/v1/outbound/'', ending] [i]) get_options i"

definition legacyOutboundReceipt :: "(string \<Rightarrow> bool) \<Rightarrow> string \<Rightarrow> receipt io" where
  "legacyOutboundReceipt finite_date i = aggregate finite_date i ''''"

definition legacyOutboundRecipients :: "(string \<Rightarrow> bool) \<Rightarrow> string \<Rightarrow> receipt io" where
  "legacyOutboundRecipients finite_date i = aggregate finite_date i ''''"

definition legacyOutboundAttempts :: "(string \<Rightarrow> bool) \<Rightarrow> string \<Rightarrow> receipt io" where
  "legacyOutboundAttempts finite_date i = aggregate finite_date i ''/attempts''"

definition retryOutboundReceipt :: "(string \<Rightarrow> bool) \<Rightarrow> string \<Rightarrow> receipt io" where
  "retryOutboundReceipt finite_date i =
     read_receipt finite_date (uri [''/api/v1/outbound/'', ''/retry''] [i]) (post (JObj [])) i"

section \<open>The employee directory\<close>

text \<open>\<^verbatim>\<open>...(res.data ?? [])\<close>, which throws unless the value can be iterated.\<close>

fun spread_rows :: "json option \<Rightarrow> (string + json list)" where
  "spread_rows None = Inr []"
| "spread_rows (Some JNull) = Inr []"
| "spread_rows (Some (JArr vs)) = Inr vs"
| "spread_rows (Some (JStr s)) = Inr (map (\<lambda>c. JStr [c]) s)"
| "spread_rows (Some _) = Inl ''TypeError''"

text \<open>\<^verbatim>\<open>users.length >= res.meta.total\<close> for the number the type promises.\<close>

definition reaches :: "nat \<Rightarrow> json option \<Rightarrow> bool" where
  "reaches n v = (case v of Some (JNum x) \<Rightarrow> num_le x (Fin (of_nat n)) | _ \<Rightarrow> False)"

fun employee_pages :: "nat list \<Rightarrow> json list \<Rightarrow> json list io" where
  "employee_pages [] users =
     throw (Err ''Employee directory exceeds 10,000 records; use the paginated administration view'')"
| "employee_pages (page # pages) users =
     bnd (request ''/api/v1/admin/users'' (query [(''page'', js_of_nat page), (''per_page'', ''100'')]))
       (\<lambda>payload.
     bnd (read_prop (Some (payload_json payload)) ''data'') (\<lambda>data.
     bnd (or_throw (spread_rows data)) (\<lambda>rows.
     bnd (read_prop (Some (payload_json payload)) ''meta'') (\<lambda>meta.
     bnd (read_prop meta ''total'') (\<lambda>total.
     if reaches (length (users @ rows)) total \<or> rows = [] then ret (users @ rows)
     else employee_pages pages (users @ rows))))))"

definition allEmployees :: "json list io" where
  "allEmployees = employee_pages [1..<101] []"

section \<open>Lemmas\<close>

lemma wp_or_invalid [wp_rules]:
  "wp (or_invalid x) Q R W w =
     (case x of Some y \<Rightarrow> Q y w | None \<Rightarrow> R (Err ''Invalid or out-of-scope receipt response'') w)"
  by (simp add: or_invalid_def wp_rules split: option.split)

lemma wp_or_throw [wp_rules]:
  "wp (or_throw x) Q R W w = (case x of Inl m \<Rightarrow> R (Err m) w | Inr y \<Rightarrow> Q y w)"
  by (simp add: or_throw_def wp_rules split: sum.split)

lemma wp_read_receipt:
  "wp (read_receipt finite_date path opts i)
     (\<lambda>r t. wscope t = wscope w \<and>
        valid_receipt finite_date \<lparr>sc_id = Some i, sc_tenant = current_tenant w\<rparr> r)
     (\<lambda>_ _. True) (\<lambda>_. True) w"
  unfolding read_receipt_def
  by (simp add: wp_bnd [of "gets _"] wp_gets, rule wp_after, rule wp_after_assert)
    (auto simp: wp_rules parseReceiptResponse_def dest: parse_receipt_valid split: option.split)

lemma wp_list_page:
  "wp (bnd (request path opts) (\<lambda>result. bnd (assert_scope c) (\<lambda>_.
       or_invalid (parseReceiptListResponse finite_date sc (Some (payload_json result))))))
     (\<lambda>p t. wscope t = c \<and> list_all (valid_receipt finite_date sc) (fst p)) (\<lambda>_ _. True) (\<lambda>_. True) w"
  by (rule wp_after, rule wp_after_assert)
    (auto simp: wp_rules parseReceiptListResponse_def dest: receipt_wire.rows_valid split: option.split)

text \<open>The rows and the total of one directory page.\<close>

definition page_rows :: "json \<Rightarrow> json list" where
  "page_rows p = (case spread_rows (get_prop p ''data'') of Inr rows \<Rightarrow> rows | Inl m \<Rightarrow> [])"

definition page_total :: "json \<Rightarrow> json option" where
  "page_total p = opt_prop (get_prop p ''meta'') ''total''"

text \<open>The same calls without anything in between: the bodies of the given pages, asked for one after another.\<close>

fun read_pages :: "nat list \<Rightarrow> json list io" where
  "read_pages [] = ret []"
| "read_pages (page # pages) =
     bnd (request ''/api/v1/admin/users'' (query [(''page'', js_of_nat page), (''per_page'', ''100'')])) (\<lambda>payload.
     bnd (read_pages pages) (\<lambda>vs. ret (payload_json payload # vs)))"

text \<open>The last page, and none before it, is empty or reports no more rows than there are by then.\<close>

fun first_complete :: "json list \<Rightarrow> json list \<Rightarrow> bool" where
  "first_complete users [] \<longleftrightarrow> False"
| "first_complete users (v # vs) \<longleftrightarrow>
     (if reaches (length (users @ page_rows v)) (page_total v) \<or> page_rows v = [] then vs = []
      else first_complete (users @ page_rows v) vs)"

definition directory_of :: "nat list \<Rightarrow> json list \<Rightarrow> json list \<Rightarrow> world \<Rightarrow> world \<Rightarrow> json list \<Rightarrow> bool" where
  "directory_of pages users all w t vs \<longleftrightarrow> length vs \<le> length pages \<and>
     read_pages (take (length vs) pages) w = (Ret vs, t) \<and>
     all = users @ concat (map page_rows vs) \<and> first_complete users vs"

lemma employee_pages_of:
  "employee_pages pages users w = (Ret all, t) \<Longrightarrow> \<exists>vs. directory_of pages users all w t vs"
proof (induction pages arbitrary: users w)
  case (Cons page pages)
  let ?call = "request ''/api/v1/admin/users'' (query [(''page'', js_of_nat page), (''per_page'', ''100'')])"
  obtain payload u where call: "?call w = (Ret payload, u)" and
    rest: "bnd (read_prop (Some (payload_json payload)) ''data'') (\<lambda>data.
     bnd (or_throw (spread_rows data)) (\<lambda>rows.
     bnd (read_prop (Some (payload_json payload)) ''meta'') (\<lambda>meta.
     bnd (read_prop meta ''total'') (\<lambda>total.
     if reaches (length (users @ rows)) total \<or> rows = [] then ret (users @ rows)
     else employee_pages pages (users @ rows))))) u = (Ret all, t)"
    using Cons.prems by (auto simp: bnd_def split: prod.splits res.splits)
  define v where "v = payload_json payload"
  from rest have step: "if reaches (length (users @ page_rows v)) (page_total v) \<or> page_rows v = []
      then all = users @ page_rows v \<and> t = u
      else employee_pages pages (users @ page_rows v) u = (Ret all, t)"
    unfolding v_def[symmetric]
    by (auto simp: bnd_def read_prop_def or_throw_def deref_def page_rows_def page_total_def ret_def throw_def opt_prop_def
        split: prod.splits res.splits sum.splits option.splits if_splits)
  have chain: "read_pages (take (Suc (length vs)) (page # pages)) w = (Ret (v # vs), t)"
    if "read_pages (take (length vs) pages) u = (Ret vs, t)" for vs
    using that call by (simp add: bnd_def ret_def v_def)
  show ?case
  proof (cases "reaches (length (users @ page_rows v)) (page_total v) \<or> page_rows v = []")
    case True
    then show ?thesis using step chain[of "[]"]
      by (intro exI[of _ "[v]"]) (simp add: directory_of_def ret_def)
  next
    case False
    then have "employee_pages pages (users @ page_rows v) u = (Ret all, t)" using step by simp
    from Cons.IH[OF this] obtain vs where "directory_of pages (users @ page_rows v) all u t vs" by blast
    then show ?thesis using False chain[of vs]
      by (intro exI[of _ "v # vs"]) (simp add: directory_of_def)
  qed
qed (simp add: throw_def)

section \<open>Properties\<close>

text \<open>The path templates of this theory, with the version number of a template as a parameter.\<close>

definition company_templates :: "nat \<Rightarrow> string list list" where
  "company_templates version =
     [[''/mailboxes/'', ''''], [''/domains/'', ''/verify''], [''/domains/'', ''/verification''],
      [''/domains/'', ''''], [''/mailboxes/'', ''/send-policy''],
      [''/templates/'', ''/versions/'' @ js_of_nat version @ ''/revoke''], [''/drafts/'', ''/submit''],
      [''/mailboxes/'', ''/messages/'', ''''], [''/submissions/'', ''/attachments''],
      [''/employees/'', ''/offboard/preview''], [''/employees/'', ''/offboard''],
      [''/mailboxes/'', ''/sent/'', ''/actions''], [''/api/v1/company/submissions/'', ''''],
      [''/api/v1/company/submissions/'', ''/content''], [''/api/v1/outbound/'', ''''],
      [''/api/v1/outbound/'', ''/attempts''], [''/api/v1/outbound/'', ''/retry'']]"

lemma digits_literal: "literal_ok (js_of_nat n)"
proof -
  have "c \<in> set (js_of_nat n) \<Longrightarrow> is_digit c" for c
    using index_key_digits[of n] by (auto simp: js_of_nat_def all_digits_def list_all_iff)
  then have "CHR ''?'' \<in> set (js_of_nat n) \<Longrightarrow> is_digit (CHR ''?'')"
    "CHR ''#'' \<in> set (js_of_nat n) \<Longrightarrow> is_digit (CHR ''#'')" by blast+
  then show ?thesis by (auto simp: literal_ok_def is_digit_def)
qed

lemma company_templates_ok: "t \<in> set (company_templates v) \<Longrightarrow> template_ok t"
  using digits_literal[of v]
  by (auto simp: company_templates_def literal_ok_def starts_with_def)

text \<open>
  An id names exactly one resource of its endpoint, whatever text it is: in every path the
  company functions build, different ids give different paths, and no id adds a path segment, a
  query or a fragment.
\<close>

lemma company_paths_address_ids:
  assumes "t \<in> set (company_templates version)" "Suc (length ids) = length t" "Suc (length ids') = length t"
  shows "(uri t ids = uri t ids' \<longleftrightarrow> ids = ids') \<and> segments (uri t ids) = segments (concat t) \<and>
    CHR ''?'' \<notin> set (uri t ids) \<and> CHR ''#'' \<notin> set (uri t ids)"
  using assms company_templates_ok[OF assms(1)] uri_inj uri_segments uri_clean template_literals
  by (auto simp: literal_ok_def)

lemma company_paths_address_ids_example:
  "segments (workPath ''../admin?x=1#'') = 2"
proof -
  have "[''/mailboxes/'', ''''] \<in> set (company_templates 1)" by (simp add: company_templates_def)
  from company_paths_address_ids[OF this, of "[''../admin?x=1#'']" "[''../admin?x=1#'']"]
  show ?thesis by (simp add: workPath_def segments_def)
qed

text \<open>
  A receipt that one of the detail functions returns belongs to the id that was asked for and
  to the tenant that was selected when the read started, is backed by its ledger, and is returned
  only while that session is still current.
\<close>

lemma receipt_reads_in_scope:
  assumes "read \<in> set [submission finite_date i, legacyOutboundReceipt finite_date i,
      legacyOutboundRecipients finite_date i, legacyOutboundAttempts finite_date i,
      retryOutboundReceipt finite_date i]"
    and "read w = (Ret r, t)"
  shows "wscope t = wscope w \<and> r_id r = i \<and>
    valid_receipt finite_date \<lparr>sc_id = Some i, sc_tenant = current_tenant w\<rparr> r"
proof -
  from assms(1) obtain path opts where "read = read_receipt finite_date path opts i"
    by (auto simp: submission_def legacyOutboundReceipt_def legacyOutboundRecipients_def
        legacyOutboundAttempts_def retryOutboundReceipt_def aggregate_def)
  with assms(2) wp_read_receipt[of finite_date path opts i w] show ?thesis
    by (auto simp: wp_def valid_receipt_def wrong_id_def)
qed

lemma quiet_ret:
  assumes "path \<notin> set cookiePaths" "\<not> w_aborted w" "w_script w = map calm (Response res # replies)"
    and "response.r_status res \<noteq> 401" "outcome (o_kind opts) res replies = Ret v"
  shows "\<exists>t. request path opts w = (Ret v, t) \<and> wscope t = wscope w"
proof -
  have "fst (request path opts w) = Ret v" using quiet_request[OF assms(1-3)] assms(4,5) by simp
  then have r: "request path opts w = (Ret v, snd (request path opts w))" by (metis prod.collapse)
  then show ?thesis using wp_Ret[OF _ plain_request_scope] assms(1) by (auto simp: request_def)
qed

definition receipt_response :: response where
  "receipt_response = example_response\<lparr>r_json := Some (JObj [(''data'', encode_receipt example_receipt)])\<rparr>"

definition receipt_world :: world where
  "receipt_world = example_world
     \<lparr>w_session := logged_in\<lparr>s_storage := (s_storage logged_in)(TENANT_KEY \<mapsto> Raw example_id)\<rparr>,
      w_script := map calm [Response receipt_response, Settled True]\<rparr>"

lemma logged_in_window: "s_window logged_in"
  by (simp add: logged_in_def installSession_def fresh_browser_def Let_def advanceSession_def)

lemma receipt_world_tenant: "current_tenant receipt_world = Some (Some example_id)"
  by (simp add: current_tenant_def receipt_world_def getStoredKey_def item_text_def logged_in_window)

lemma receipt_reads_in_scope_example:
  "\<exists>t. submission (\<lambda>_. True) example_id receipt_world = (Ret example_receipt, t) \<and>
     wscope t = wscope receipt_world"
proof -
  let ?path = "uri [''/api/v1/company/submissions/'', ''''] [example_id]"
  have "\<exists>t. request ?path get_options receipt_world =
      (Ret (PJson (JObj [(''data'', encode_receipt example_receipt)])), t) \<and> wscope t = wscope receipt_world"
    by (rule quiet_ret[where res = receipt_response and replies = "[Settled True]"])
      (simp_all add: cookiePaths_def receipt_world_def example_world_def receipt_response_def
        example_response_def get_options_def response_ok_def starts_with_def)
  then obtain t where "submission (\<lambda>_. True) example_id receipt_world = (Ret example_receipt, t)"
    using encode_receipt_parse[OF example_receipt_valid]
    by (auto simp: submission_def read_receipt_def bnd_def gets_def assert_scope_def assertSession_def
        receipt_world_tenant example_scope_def[symmetric] parseReceiptResponse_def or_invalid_def ret_def
        closed_record_def ensure_def has_own_def)
  then show ?thesis
    using receipt_reads_in_scope[of "submission (\<lambda>_. True) example_id" "\<lambda>_. True" example_id receipt_world] by auto
qed

text \<open>
  A page of compatibility receipts carries the page number that was asked for, so a late
  response can never be shown under another number, and holds only receipts of the tenant that was
  selected when it was asked for, in the session it was asked in.
\<close>

lemma legacy_page_is_requested:
  assumes "legacyOutboundReceiptPage finite_date page w = (Ret (rows, m), t)"
  shows "wscope t = wscope w \<and> page = Fin (of_nat (meta_page m)) \<and> 1 \<le> meta_page m \<and>
    list_all (valid_receipt finite_date \<lparr>sc_id = None, sc_tenant = current_tenant w\<rparr>) rows"
proof -
  let ?n = "wire_nat (Some (JNum page))"
  consider "?n \<in> {None, Some 0}" | n where "?n = Some n" "0 < n" by (cases ?n; force)
  then show ?thesis
  proof cases
    case 1
    then show ?thesis using assms by (auto simp: legacyOutboundReceiptPage_def or_invalid_def throw_def)
  next
    case 2
    then have p: "page = Fin (of_nat n)" by (simp add: wire_nat_Some json_nat_def del: wire_nat.simps)
    have "wp (legacyOutboundReceiptPage finite_date page)
        (\<lambda>p t. wscope t = wscope w \<and> meta_page (snd p) = n \<and>
          list_all (valid_receipt finite_date \<lparr>sc_id = None, sc_tenant = current_tenant w\<rparr>) (fst p))
        (\<lambda>_ _. True) (\<lambda>_. True) w"
      apply (simp add: legacyOutboundReceiptPage_def 2 wp_bnd [of "gets _"] wp_gets wp_or_invalid del: wire_nat.simps)
      apply (rule wp_after, rule wp_after_assert)
      apply (auto simp: wp_rules parseReceiptListResponse_def dest: receipt_wire.rows_valid split: option.split)
      done
    then show ?thesis using assms 2 p by (auto simp: wp_def)
  qed
qed

definition page_response :: response where
  "page_response = example_response\<lparr>r_json := Some (JObj [(''data'', JArr [encode_receipt example_receipt]),
     (''meta'', JObj [(''total'', json_nat 1), (''page'', json_nat 1), (''per_page'', json_nat 20)])])\<rparr>"

definition page_world :: world where
  "page_world = receipt_world\<lparr>w_script := map calm [Response page_response, Settled True]\<rparr>"

lemma page_parsed:
  "parseReceiptListResponse (\<lambda>_. True) \<lparr>sc_id = None, sc_tenant = Some (Some example_id)\<rparr>
     (r_json page_response) = Some ([example_receipt], \<lparr>meta_total = 1, meta_page = 1, meta_per_page = 20\<rparr>)"
proof -
  let ?sc = "\<lparr>sc_id = None, sc_tenant = Some (Some example_id)\<rparr>"
  have "valid_receipt (\<lambda>_. True) ?sc example_receipt"
    using example_receipt_valid example_id_valid
    by (simp add: valid_receipt_def example_scope_def wrong_id_def out_of_tenant_def)
  then have "parseOrdinaryReceipt (\<lambda>_. True) ?sc (Some (encode_receipt example_receipt)) = Some example_receipt"
    by (rule encode_receipt_parse)
  moreover have "n \<in> {1, 20} \<Longrightarrow> wire_nat (Some (json_nat n)) = Some n" for n
    by (auto simp: wire_nat_Some safe_nat_def simp del: wire_nat.simps)
  ultimately show ?thesis
    by (simp add: parseReceiptListResponse_def page_response_def closed_record_def has_own_def
        all_rows_def parse_meta_def ensure_def)
qed

lemma page_read:
  "\<exists>t. legacyOutboundReceiptPage (\<lambda>_. True) (Fin 1) page_world =
     (Ret ([example_receipt], \<lparr>meta_total = 1, meta_page = 1, meta_per_page = 20\<rparr>), t)"
proof -
  let ?opts = "query [(''page'', js_of_nat 1), (''per_page'', ''20'')]"
  have "\<exists>t. request ''/api/v1/outbound'' ?opts page_world = (Ret (PJson (the (r_json page_response))), t)
      \<and> wscope t = wscope page_world"
    by (rule quiet_ret[where res = page_response and replies = "[Settled True]"])
      (simp_all add: cookiePaths_def page_world_def receipt_world_def example_world_def page_response_def
        example_response_def get_options_def query_def response_ok_def starts_with_def)
  moreover have "current_tenant page_world = Some (Some example_id)"
    using receipt_world_tenant
    unfolding page_world_def current_tenant_def getStoredKey_def by (auto split: if_splits)
  moreover have "wire_nat (Some (JNum (Fin 1))) = Some 1"
    by (simp add: wire_nat_Some safe_nat_def json_nat_def del: wire_nat.simps)
  moreover have "Some (the (r_json page_response)) = r_json page_response" by (simp add: page_response_def)
  ultimately show ?thesis
    using page_parsed
    by (auto simp: legacyOutboundReceiptPage_def bnd_def gets_def assert_scope_def assertSession_def
        or_invalid_def ret_def simp del: wire_nat.simps)
qed

lemma legacy_page_is_requested_example:
  "\<exists>rows m. fst (legacyOutboundReceiptPage (\<lambda>_. True) (Fin 1) page_world) = Ret (rows, m) \<and>
     Fin 1 = Fin (of_nat (meta_page m)) \<and> rows \<noteq> []"
proof -
  obtain t where t: "legacyOutboundReceiptPage (\<lambda>_. True) (Fin 1) page_world =
     (Ret ([example_receipt], \<lparr>meta_total = 1, meta_page = 1, meta_per_page = 20\<rparr>), t)" using page_read by blast
  show ?thesis using legacy_page_is_requested[OF t] unfolding t by fastforce
qed

text \<open>
  C34: the employee directory is returned only complete: it is exactly the rows, in order, of the bodies
  that its own calls for the pages 1, 2, ... brought, at most one hundred of them, up to the first page
  that is empty or reports a total that the rows have reached by then. A directory without such a page is
  never returned as a truncated list.
\<close>

theorem employee_directory_complete:
  assumes "allEmployees w = (Ret users, t)"
  shows "\<exists>vs. length vs \<le> 100 \<and> read_pages [1..<Suc (length vs)] w = (Ret vs, t) \<and>
    users = concat (map page_rows vs) \<and> first_complete [] vs"
proof -
  obtain vs where "directory_of [1..<101] [] users w t vs"
    using employee_pages_of assms unfolding allEmployees_def by blast
  moreover have "take (length vs) [1..<101] = [1..<Suc (length vs)]" if "length vs \<le> 100"
    using that by (simp add: take_upt)
  ultimately show ?thesis by (auto simp: directory_of_def)
qed

definition directory_response :: response where
  "directory_response = example_response\<lparr>r_json := Some (JObj [(''data'', JArr [JStr ''ada'']),
     (''meta'', JObj [(''total'', JNum (Fin 1))])])\<rparr>"

definition directory_world :: world where
  "directory_world = example_world\<lparr>w_script := map calm [Response directory_response, Settled True]\<rparr>"

lemma directory_read: "\<exists>t. allEmployees directory_world = (Ret [JStr ''ada''], t)"
proof -
  let ?opts = "query [(''page'', js_of_nat 1), (''per_page'', ''100'')]"
  have "\<exists>t. request ''/api/v1/admin/users'' ?opts directory_world =
      (Ret (PJson (JObj [(''data'', JArr [JStr ''ada'']), (''meta'', JObj [(''total'', JNum (Fin 1))])])), t)
      \<and> wscope t = wscope directory_world"
    by (rule quiet_ret[where res = directory_response and replies = "[Settled True]"])
      (simp_all add: cookiePaths_def directory_world_def example_world_def directory_response_def
        example_response_def get_options_def query_def response_ok_def starts_with_def)
  moreover have "[1..<101] = 1 # [2..<101]" by (simp add: upt_conv_Cons)
  ultimately show ?thesis
    by (auto simp: allEmployees_def bnd_def read_prop_def or_throw_def deref_def nullish_def ret_def
        reaches_def)
qed

theorem employee_directory_complete_witness:
  "\<exists>t vs. allEmployees directory_world = (Ret [JStr ''ada''], t) \<and>
     read_pages [1..<Suc (length vs)] directory_world = (Ret vs, t) \<and> concat (map page_rows vs) = [JStr ''ada'']"
proof -
  obtain t where t: "allEmployees directory_world = (Ret [JStr ''ada''], t)" using directory_read by blast
  then show ?thesis using employee_directory_complete[OF t] by metis
qed

end
