(* ===== verification/AdminApi.thy ===== *)
theory AdminApi
  imports CompanyApi PermissionEditor LiveStream
begin

text \<open>
  The platform administration and account operations: the request functions of
  \<^verbatim>\<open>src/web/lib/api/admin.ts\<close>, \<^verbatim>\<open>permissions.ts\<close>, \<^verbatim>\<open>auth.ts\<close>, \<^verbatim>\<open>domains.ts\<close> and
  \<^verbatim>\<open>system.ts\<close>. The raw tenant overrides and the permission editor are checked before anything
  uses them, and the editor's commands before anything is sent.
\<close>

section \<open>Platform administration\<close>

text \<open>Optional query parameters; \<^const>\<open>None\<close> is \<^verbatim>\<open>undefined\<close>.\<close>

definition optional_query :: "(string \<times> string option) list \<Rightarrow> options" where
  "optional_query ps = get_options\<lparr>o_params := ps\<rparr>"

definition streamAdminMonitorEvents ::
  "(string \<Rightarrow> json option) \<Rightarrow> (event \<Rightarrow> session \<Rightarrow> exn option \<times> session) \<Rightarrow> world \<Rightarrow>
   (exn, unit) res \<times> world \<times> stream" where
  "streamAdminMonitorEvents parse onEvent =
     streamEvents \<lparr>h_event = onEvent, h_transform = Some (\<lambda>v. v), h_parse = parse\<rparr>
       ''/api/v1/admin/monitor/events''"

definition listMonitorHistory :: "(string \<times> string option) list \<Rightarrow> payload io" where
  "listMonitorHistory ps = request ''/api/v1/admin/monitor/history'' (optional_query ps)"

definition listSettings :: "payload io" where
  "listSettings = request ''/api/v1/admin/settings'' get_options"

definition updateSettings :: "(string \<times> string) list \<Rightarrow> payload io" where
  "updateSettings body = request ''/api/v1/admin/settings''
     (with_body ''PATCH'' (JObj (map (map_prod id JStr) body)))"

definition getSMTPPolicy :: "payload io" where
  "getSMTPPolicy = request ''/api/v1/admin/policy'' get_options"

definition updateSMTPPolicy :: "json \<Rightarrow> payload io" where
  "updateSMTPPolicy body = request ''/api/v1/admin/policy'' (with_body ''PATCH'' body)"

definition listTenants :: "payload io" where
  "listTenants = request ''/api/v1/admin/tenants'' get_options"

definition createTenant :: "string \<Rightarrow> string \<Rightarrow> payload io" where
  "createTenant name plan_id = request ''/api/v1/admin/tenants''
     (post (JObj [(''name'', JStr name), (''plan_id'', JStr plan_id)]))"

definition tenant_path :: "string \<Rightarrow> string" where
  "tenant_path i = ''/api/v1/admin/tenants/'' @ i"

definition updateTenantOverrides :: "string \<Rightarrow> json \<Rightarrow> payload io" where
  "updateTenantOverrides i overrides = request (tenant_path i) (with_body ''PATCH'' overrides)"

definition override_fields :: "string list" where
  "override_fields = [''max_domains'', ''max_mailboxes_per_domain'', ''max_messages_per_mailbox'',
     ''max_message_bytes'', ''retention_hours'', ''rpm_limit'', ''daily_quota'']"

definition override_value :: "json option \<Rightarrow> bool" where
  "override_value v =
     (case v of
        Some JNull \<Rightarrow> True
      | Some (JNum x) \<Rightarrow> is_integer x \<and> num_le (Fin (- 2147483648)) x \<and> num_le x (Fin 2147483647)
      | _ \<Rightarrow> False)"

definition override_snapshot_ok :: "string \<Rightarrow> json option \<Rightarrow> bool" where
  "override_snapshot_ok i snapshot =
     (truthy snapshot \<and> opt_prop snapshot ''tenant_id'' = Some (JStr i) \<and>
      list_all (\<lambda>k. override_value (opt_prop snapshot k)) override_fields)"

definition getTenantOverrides :: "string \<Rightarrow> json io" where
  "getTenantOverrides i =
     bnd (request (tenant_path i) get_options) (\<lambda>response.
     bnd (read_prop (Some (payload_json response)) ''data'') (\<lambda>snapshot.
     if override_snapshot_ok i snapshot then ret (payload_json response)
     else throw (Err ''Invalid tenant override snapshot'')))"

definition deleteTenant :: "string \<Rightarrow> payload io" where
  "deleteTenant i = request (tenant_path i) (bare ''DELETE'')"

definition getTenantConfig :: "string \<Rightarrow> payload io" where
  "getTenantConfig i = request (tenant_path i @ ''/config'') get_options"

definition createAPIKey :: "string \<Rightarrow> json \<Rightarrow> payload io" where
  "createAPIKey tenantId body = request (tenant_path tenantId @ ''/keys'') (post body)"

definition listAPIKeys :: "string \<Rightarrow> payload io" where
  "listAPIKeys tenantId = request (tenant_path tenantId @ ''/keys'') get_options"

definition revokeAPIKey :: "string \<Rightarrow> string \<Rightarrow> payload io" where
  "revokeAPIKey tenantId keyId = request (tenant_path tenantId @ ''/keys/'' @ keyId) (bare ''DELETE'')"

definition createUserAPIKey :: "json \<Rightarrow> payload io" where
  "createUserAPIKey body = request ''/api/v1/keys'' (post body)"

definition listUserAPIKeys :: "payload io" where
  "listUserAPIKeys = request ''/api/v1/keys'' get_options"

definition revokeUserAPIKey :: "string \<Rightarrow> payload io" where
  "revokeUserAPIKey keyId = request (''/api/v1/keys/'' @ keyId) (bare ''DELETE'')"

definition listPlans :: "payload io" where
  "listPlans = request ''/api/v1/admin/plans'' get_options"

definition createPlan :: "json \<Rightarrow> payload io" where
  "createPlan body = request ''/api/v1/admin/plans'' (post body)"

definition updatePlan :: "string \<Rightarrow> json \<Rightarrow> payload io" where
  "updatePlan i body = request (''/api/v1/admin/plans/'' @ i) (with_body ''PATCH'' body)"

definition deletePlan :: "string \<Rightarrow> payload io" where
  "deletePlan i = request (''/api/v1/admin/plans/'' @ i) (bare ''DELETE'')"

definition getStats :: "payload io" where
  "getStats = request ''/api/v1/admin/stats'' get_options"

definition listAudit :: "(string \<times> string option) list \<Rightarrow> payload io" where
  "listAudit ps = request ''/api/v1/admin/audit'' (optional_query ps)"

definition listIngestJobs :: "(string \<times> string option) list \<Rightarrow> payload io" where
  "listIngestJobs ps = request ''/api/v1/admin/ingest/jobs'' (optional_query ps)"

definition listWebhookDeliveries :: "(string \<times> string option) list \<Rightarrow> payload io" where
  "listWebhookDeliveries ps = request ''/api/v1/admin/webhooks/deliveries'' (optional_query ps)"

definition inviteAdmin :: "string \<Rightarrow> payload io" where
  "inviteAdmin email = request ''/api/v1/admin/invite'' (post (JObj [(''email'', JStr email)]))"

definition listUsers :: "(string \<times> string option) list \<Rightarrow> payload io" where
  "listUsers ps = request ''/api/v1/admin/users'' (optional_query ps)"

definition user_path :: "string \<Rightarrow> string" where
  "user_path i = ''/api/v1/admin/users/'' @ i"

definition updateUser :: "string \<Rightarrow> json \<Rightarrow> payload io" where
  "updateUser i body = request (user_path i) (with_body ''PATCH'' body)"

definition deleteUser :: "string \<Rightarrow> payload io" where
  "deleteUser i = request (user_path i) (bare ''DELETE'')"

section \<open>Account, domains and health\<close>

definition changePassword :: "string \<Rightarrow> string \<Rightarrow> payload io" where
  "changePassword currentPassword newPassword = request ''/api/v1/auth/change-password''
     (post (JObj [(''old_password'', JStr currentPassword), (''new_password'', JStr newPassword)]))"

definition login :: "string \<Rightarrow> string \<Rightarrow> payload io" where
  "login email password = request ''/api/v1/auth/login''
     (post (JObj [(''email'', JStr email), (''password'', JStr password)]))"

text \<open>An undefined \<^verbatim>\<open>display_name\<close> is not printed.\<close>

definition register :: "string \<Rightarrow> string \<Rightarrow> string option \<Rightarrow> payload io" where
  "register email password displayName = request ''/api/v1/auth/register''
     (post (JObj ([(''email'', JStr email), (''password'', JStr password)] @
        field ''display_name'' JStr displayName)))"

definition logoutSession :: "payload io" where
  "logoutSession = request ''/api/v1/auth/logout'' (post (JObj []))"

definition listDomains :: "payload io" where
  "listDomains = request ''/api/v1/domains'' get_options"

definition listAdminDomains :: "payload io" where
  "listAdminDomains = request ''/api/v1/admin/domains'' get_options"

text \<open>A bare \<^verbatim>\<open>fetch\<close>: no session lease, no headers.\<close>

definition healthCheck :: "json io" where
  "healthCheck =
     bnd (gets getBaseUrl) (\<lambda>base.
     bnd (fetch None (request_call base ''/health'' get_options no_headers)) (\<lambda>res.
     if \<not> response_ok res then throw (Err (r_statusText res)) else read_json res))"

section \<open>Permissions\<close>

definition permissions_path :: "string \<Rightarrow> string" where
  "permissions_path i = ''/api/v1/admin/permissions/'' @ i"

definition listPermissionProfiles :: "payload io" where
  "listPermissionProfiles = request ''/api/v1/admin/permissions'' get_options"

definition createPermissionProfile :: "json \<Rightarrow> payload io" where
  "createPermissionProfile body = request ''/api/v1/admin/permissions'' (post body)"

definition flat_command :: "json option \<Rightarrow> json" where
  "flat_command command =
     JObj (merge_objects (spread (opt_prop command ''fields''))
       (case opt_prop command ''expected_revision'' of Some v \<Rightarrow> [(''expected_revision'', v)] | None \<Rightarrow> []))"

definition updatePermissionProfile :: "string \<Rightarrow> json option \<Rightarrow> json io" where
  "updatePermissionProfile i command =
     bnd (or_throw (validateProfileUpdateCommand command)) (\<lambda>_.
     bnd (request (permissions_path i) (with_body ''PATCH'' (flat_command command))) (\<lambda>response.
     bnd (read_prop (Some (payload_json response)) ''data'') (\<lambda>data.
     bnd (or_throw (validateObservedPermissionProfile data)) (\<lambda>_.
     if opt_prop data ''id'' \<noteq> Some (JStr i) then throw (Err ''Profile update target changed'')
     else ret (payload_json response)))))"

definition getPermissionProfileDeletionPreview :: "string \<Rightarrow> json io" where
  "getPermissionProfileDeletionPreview i =
     bnd (request (permissions_path i @ ''/deletion-preview'') get_options) (\<lambda>response.
     bnd (read_prop (Some (payload_json response)) ''data'') (\<lambda>data.
     bnd (or_throw (validateProfileDeletionPreview data i)) (\<lambda>preview.
     ret (JObj (merge_objects (spread (Some (payload_json response))) [(''data'', preview)])))))"

definition deletePermissionProfile :: "string \<Rightarrow> json \<Rightarrow> payload io" where
  "deletePermissionProfile i command =
     bnd (or_throw (validateProfileDeletionCommand (Some command) i)) (\<lambda>_.
     request (permissions_path i) (with_body ''DELETE'' command))"

definition getUserPermission :: "string \<Rightarrow> payload io" where
  "getUserPermission userId = request (user_path userId @ ''/permissions'') get_options"

definition setUserPermissionOverride :: "string \<Rightarrow> json \<Rightarrow> payload io" where
  "setUserPermissionOverride userId body = request (user_path userId @ ''/permissions'') (with_body ''PUT'' body)"

definition deleteUserPermissionOverride :: "string \<Rightarrow> payload io" where
  "deleteUserPermissionOverride userId = request (user_path userId @ ''/permissions'') (bare ''DELETE'')"

definition getMyPermissions :: "payload io" where
  "getMyPermissions = request ''/api/v1/auth/me/permissions'' get_options"

text \<open>Every editor response is validated against the user it was asked for.\<close>

definition bound_response :: "string \<Rightarrow> payload \<Rightarrow> json io" where
  "bound_response userId response =
     bnd (read_prop (Some (payload_json response)) ''data'') (\<lambda>data.
     bnd (or_throw (validatePermissionEditorSnapshot data (Some userId))) (\<lambda>_.
     ret (payload_json response)))"

definition getUserPermissionEditor :: "string \<Rightarrow> json io" where
  "getUserPermissionEditor userId =
     bnd (request (user_path userId @ ''/permission-editor'') get_options) (bound_response userId)"

definition patchUserPermissionEditor :: "string \<Rightarrow> json \<Rightarrow> json io" where
  "patchUserPermissionEditor userId command =
     bnd (or_throw (validatePermissionEditorCommand (Some command) userId)) (\<lambda>_.
     bnd (request (user_path userId @ ''/permission-editor'') (with_body ''PATCH'' command))
       (bound_response userId))"

definition assignUserPermissionEditor :: "string \<Rightarrow> json \<Rightarrow> json io" where
  "assignUserPermissionEditor userId command =
     bnd (or_throw (validateAssignmentCommand (Some command) userId)) (\<lambda>_.
     bnd (request (user_path userId @ ''/permission-editor/assignment'') (post command))
       (bound_response userId))"

section \<open>Properties\<close>

definition bound_to :: "string \<Rightarrow> json \<Rightarrow> bool" where
  "bound_to userId response \<longleftrightarrow>
     validatePermissionEditorSnapshot (get_prop response ''data'') (Some userId) = Inr () \<and>
     opt_prop (get_prop response ''data'') ''user_id'' = Some (JStr userId)"

lemma snapshot_target:
  "validatePermissionEditorSnapshot s (Some u) = Inr () \<Longrightarrow> opt_prop s ''user_id'' = Some (JStr u)"
  by (auto simp: validatePermissionEditorSnapshot_def snapshot_bound_def validatePermissionRevision_def
      Let_def dest: strict_eq_imp)

lemma wp_bound_response:
  "wp (bound_response u p) (\<lambda>r t. bound_to u r) (\<lambda>_ _. True) (\<lambda>_. True) w"
  by (auto simp: bound_response_def bound_to_def wp_rules read_prop_def snapshot_target deref_def
      split: sum.split)

lemma wp_checked_write:
  "wp (bnd (request path opts) (bound_response u)) (\<lambda>r t. bound_to u r) (\<lambda>_ _. True) (\<lambda>_. True) w"
  by (rule wp_after) (rule wp_bound_response)

definition guarded :: "string \<Rightarrow> unit checked \<Rightarrow> world \<Rightarrow> (exn, json) res \<times> world \<Rightarrow> bool" where
  "guarded u check w result \<longleftrightarrow>
     (case check of
        Inl m \<Rightarrow> result = (Throw (Err m), w)
      | Inr _ \<Rightarrow> (case result of (Ret r, t) \<Rightarrow> bound_to u r | _ \<Rightarrow> True))"

lemma guarded_write:
  "guarded u check w (bnd (or_throw check) (\<lambda>_. bnd (request path opts) (bound_response u)) w)"
  using wp_checked_write[of path opts u w]
  by (auto simp: guarded_def or_throw_def bnd_def throw_def ret_def wp_def
      split: sum.split prod.splits res.splits)

text \<open>
  An editor command that its validator refuses sends nothing and changes nothing; and whatever
  the server answers to a read or to an accepted command, only a snapshot that is complete and bound
  to the user it was asked for ever reaches the caller.
\<close>

lemma editor_calls_guarded:
  "guarded u (Inr ()) w (getUserPermissionEditor u w) \<and>
   guarded u (validatePermissionEditorCommand (Some command) u) w (patchUserPermissionEditor u command w) \<and>
   guarded u (validateAssignmentCommand (Some command) u) w (assignUserPermissionEditor u command w)"
proof (intro conjI)
  show "guarded u (Inr ()) w (getUserPermissionEditor u w)"
    using guarded_write[of u "Inr ()" w] by (simp add: getUserPermissionEditor_def or_throw_def bnd_def ret_def)
qed (simp_all only: patchUserPermissionEditor_def assignUserPermissionEditor_def guarded_write)

end
