(* ===== verification/Access.thy ===== *)
theory Access
  imports Session
begin

text \<open>
  What a signed-in level may see: the permission predicates of \<^verbatim>\<open>web/lib/permissions.ts\<close>,
  the choice of a sender in \<^verbatim>\<open>web/lib/compose-identity.ts\<close>, the API-key scopes of
  \<^verbatim>\<open>web/lib/api-key-scopes.ts\<close> with their picker, the gate of
  \<^verbatim>\<open>web/app/(dashboard)/layout.tsx\<close> and the links of
  \<^verbatim>\<open>web/components/layout/app-sidebar.tsx\<close>.
\<close>

section \<open>Permission predicates\<close>

datatype level = Public | User | Admin | SuperAdmin

record effective_permission =
  ep_can_send :: bool
  ep_daily_send_quota :: number
  ep_daily_receive_quota :: number
  ep_max_mailboxes :: number
  ep_max_domains :: number
  ep_allowed_zone_ids :: "string list option"
  ep_can_create_domains :: bool
  ep_can_create_routes :: bool
  ep_can_create_api_keys :: bool
  ep_domain_access_mode :: "string option"

definition isAdminLevel :: "level \<Rightarrow> bool" where
  "isAdminLevel level = (level = SuperAdmin \<or> level = Admin)"

definition isSuperAdminLevel :: "level \<Rightarrow> bool" where
  "isSuperAdminLevel level = (level = SuperAdmin)"

text \<open>\<^const>\<open>None\<close> is \<^verbatim>\<open>null\<close> or \<^verbatim>\<open>undefined\<close>: loading, or the read failed.\<close>

definition hasCapability ::
  "level \<Rightarrow> effective_permission option \<Rightarrow> (effective_permission \<Rightarrow> bool) \<Rightarrow> bool" where
  "hasCapability level permissions flag =
     (if isAdminLevel level then True
      else level = User \<and> (case permissions of None \<Rightarrow> False | Some p \<Rightarrow> flag p))"

definition canCreateDomains :: "level \<Rightarrow> effective_permission option \<Rightarrow> bool" where
  "canCreateDomains level permissions = hasCapability level permissions ep_can_create_domains"

definition canCreateRoutes :: "level \<Rightarrow> effective_permission option \<Rightarrow> bool" where
  "canCreateRoutes level permissions = hasCapability level permissions ep_can_create_routes"

definition canSend :: "level \<Rightarrow> effective_permission option \<Rightarrow> bool" where
  "canSend level permissions = hasCapability level permissions ep_can_send"

definition canCreateAPIKeys :: "level \<Rightarrow> effective_permission option \<Rightarrow> bool" where
  "canCreateAPIKeys level permissions = hasCapability level permissions ep_can_create_api_keys"

definition canManageTenantUsers :: "level \<Rightarrow> bool" where
  "canManageTenantUsers level = isSuperAdminLevel level"

text \<open>The levels are ranked; every predicate of a level is monotone in the rank.\<close>

fun rank :: "level \<Rightarrow> nat" where
  "rank Public = 0"
| "rank User = 1"
| "rank Admin = 2"
| "rank SuperAdmin = 3"

lemma rank_inj [simp]: "rank a = rank b \<longleftrightarrow> a = b"
  by (cases a; cases b) simp_all

instantiation level :: linorder
begin

definition less_eq_level :: "level \<Rightarrow> level \<Rightarrow> bool" where
  "a \<le> b \<longleftrightarrow> rank a \<le> rank b"

definition less_level :: "level \<Rightarrow> level \<Rightarrow> bool" where
  "a < b \<longleftrightarrow> rank a < rank b"

instance
proof
  fix a b c :: level
  show "a < b \<longleftrightarrow> a \<le> b \<and> \<not> b \<le> a" by (auto simp: less_level_def less_eq_level_def)
  show "a \<le> a" by (simp add: less_eq_level_def)
  show "a \<le> b \<Longrightarrow> b \<le> c \<Longrightarrow> a \<le> c" by (simp add: less_eq_level_def)
  show "a \<le> b \<Longrightarrow> b \<le> a \<Longrightarrow> a = b" by (simp add: less_eq_level_def flip: rank_inj)
  show "a \<le> b \<or> b \<le> a" by (auto simp: less_eq_level_def)
qed

end

lemma admin_rank: "isAdminLevel level \<longleftrightarrow> Admin \<le> level"
  by (cases level) (simp_all add: isAdminLevel_def less_eq_level_def)

lemma capability_mono:
  "a \<le> b \<Longrightarrow> hasCapability a permissions flag \<Longrightarrow> hasCapability b permissions flag"
  by (cases a; cases b) (auto simp: hasCapability_def isAdminLevel_def less_eq_level_def)

lemma capability_fails_closed: "hasCapability level None flag \<longleftrightarrow> Admin \<le> level"
  by (simp add: hasCapability_def admin_rank)

section \<open>Confirmation\<close>

text \<open>What \<^verbatim>\<open>window.confirm\<close> is and does when it is called.\<close>

datatype dialog = NoWindow | NotCallable | Raises | Answers json

fun safeConfirm :: "dialog \<Rightarrow> bool" where
  "safeConfirm (Answers v) = (v = JBool True)"
| "safeConfirm _ = False"

section \<open>The sender of a new message\<close>

record mailbox =
  mb_kind :: string
  mb_owner_user_id :: "string option"
  mb_id :: string
  mb_tenant_id :: string
  mb_zone_id :: string
  mb_route_id :: "string option"
  mb_local_part :: string
  mb_resolved_domain :: string
  mb_full_address :: string
  mb_access_mode :: string
  mb_retention_hours_override :: "number option"
  mb_expires_at :: "string option"
  mb_created_at :: string
  mb_send_policy :: "string option"

record work_mailbox =
  wm_mailbox :: mailbox
  wm_can_read :: bool
  wm_can_organize :: bool
  wm_can_send :: bool
  wm_template_only :: bool
  wm_revision :: number

definition wm_id :: "work_mailbox \<Rightarrow> string" where
  "wm_id box = mb_id (wm_mailbox box)"

definition composeIdentity :: "work_mailbox list \<Rightarrow> work_mailbox option \<Rightarrow> work_mailbox option" where
  "composeIdentity mailboxes preferred =
     (let current = find (\<lambda>box. Some (wm_id box) = map_option wm_id preferred) mailboxes
      in case (case current of Some c \<Rightarrow> if wm_can_send c then Some c else None | None \<Rightarrow> None) of
           Some c \<Rightarrow> Some c
         | None \<Rightarrow>
             (case find (\<lambda>box. wm_can_send box \<and> \<not> wm_template_only box) mailboxes of
                Some b \<Rightarrow> Some b
              | None \<Rightarrow> find wm_can_send mailboxes))"

section \<open>API-key scopes\<close>

definition API_KEY_SCOPE_OPTIONS :: "(string \<times> string) list" where
  "API_KEY_SCOPE_OPTIONS = [
     (''domains:read'', ''Domains read''), (''domains:write'', ''Domains write''),
     (''routes:read'', ''Routes read''), (''routes:write'', ''Routes write''),
     (''mailboxes:read'', ''Mailboxes read''), (''mailboxes:write'', ''Mailboxes write''),
     (''messages:read'', ''Messages read''), (''messages:write'', ''Messages write''),
     (''send:read'', ''Send read''), (''send:write'', ''Send write''),
     (''webhooks:read'', ''Webhooks read''), (''webhooks:write'', ''Webhooks write'')]"

definition DEFAULT_API_KEY_SCOPES :: "string list" where
  "DEFAULT_API_KEY_SCOPES = [''domains:read'', ''routes:read'', ''mailboxes:read'', ''messages:read'']"

definition ALL_API_KEY_SCOPES :: "string list" where
  "ALL_API_KEY_SCOPES = map fst API_KEY_SCOPE_OPTIONS"

definition API_KEY_TEMPLATES :: "(string \<times> string list) list" where
  "API_KEY_TEMPLATES = [
     (''readonly'', [''domains:read'', ''routes:read'', ''mailboxes:read'', ''messages:read'', ''send:read'']),
     (''inbox'', [''mailboxes:read'', ''messages:read'']),
     (''send'', [''send:read'', ''send:write'']),
     (''domain'', [''domains:read'', ''domains:write'', ''routes:read'', ''routes:write'']),
     (''webhook'', [''webhooks:read'', ''webhooks:write'']),
     (''custom'', [])]"

definition toggle_scope :: "string list \<Rightarrow> string \<Rightarrow> string list" where
  "toggle_scope value scope =
     (if scope \<in> set value then filter (\<lambda>item. item \<noteq> scope) value else value @ [scope])"

lemma templates_grant_known_scopes:
  "list_all (\<lambda>(i, scopes). list_all (\<lambda>s. s \<in> set ALL_API_KEY_SCOPES) scopes) API_KEY_TEMPLATES"
  by (simp add: API_KEY_TEMPLATES_def ALL_API_KEY_SCOPES_def API_KEY_SCOPE_OPTIONS_def)

lemma toggle_scope_set:
  "set (toggle_scope value scope) =
     (if scope \<in> set value then set value - {scope} else insert scope (set value))"
  by (auto simp: toggle_scope_def)

lemma toggle_scope_twice: "set (toggle_scope (toggle_scope value scope) scope) = set value"
  by (auto simp: toggle_scope_set)

lemma toggle_scope_distinct: "distinct value \<Longrightarrow> distinct (toggle_scope value scope)"
  by (simp add: toggle_scope_def)

section \<open>Reads bound to a session\<close>

text \<open>The SWR key of \<^verbatim>\<open>useAPI\<close>; no key, no read.\<close>

definition api_key :: "scope \<Rightarrow> 'k option \<Rightarrow> (scope \<times> 'k) option" where
  "api_key scope key = map_option (\<lambda>k. (scope, k)) key"

section \<open>The dashboard gate\<close>

datatype gate = Spinner | Blank | Page

text \<open>The calls of \<^verbatim>\<open>router.replace\<close> the effect makes.\<close>

definition gate_effect :: "bool \<Rightarrow> level \<Rightarrow> string \<Rightarrow> string list" where
  "gate_effect hydrated level pathname =
     (if \<not> hydrated then []
      else (if level = Public then [''/''] else [])
        @ (if level = User \<and>
              (starts_with ''/admin'' pathname \<or> starts_with ''/company'' pathname \<or>
               starts_with ''/console'' pathname)
           then [''/mail''] else [])
        @ (if level = Admin \<and>
              (starts_with ''/company/recovery'' pathname \<or> pathname = ''/admin'' \<or>
               starts_with ''/admin/monitor'' pathname \<or> starts_with ''/admin/audit'' pathname \<or>
               starts_with ''/admin/ingest'' pathname \<or> starts_with ''/admin/webhooks'' pathname \<or>
               starts_with ''/admin/tenants'' pathname \<or> starts_with ''/admin/plans'' pathname \<or>
               starts_with ''/admin/settings'' pathname \<or> starts_with ''/admin/policy'' pathname)
           then [''/company''] else []))"

definition gate_view :: "bool \<Rightarrow> level \<Rightarrow> string \<Rightarrow> gate" where
  "gate_view hydrated level pathname =
     (if \<not> hydrated then Spinner
      else if level = Public then Blank
      else if level = User \<and>
              list_ex (\<lambda>prefix. starts_with prefix pathname) [''/admin'', ''/company'', ''/console'']
      then Blank
      else if level = Admin \<and>
              (pathname = ''/admin'' \<or>
               list_ex (\<lambda>prefix. starts_with prefix pathname)
                 [''/company/recovery'', ''/admin/monitor'', ''/admin/audit'', ''/admin/ingest'',
                  ''/admin/webhooks'', ''/admin/tenants'', ''/admin/plans'', ''/admin/settings'',
                  ''/admin/policy''])
      then Blank else Page)"

section \<open>The sidebar\<close>

definition consoleItems :: "string list" where
  "consoleItems = [''/mail'', ''/account'']"

definition sharedAdminItems :: "string list" where
  "sharedAdminItems =
     [''/company'', ''/company/employees'', ''/company/mailboxes'', ''/company/domains'',
      ''/company/templates'', ''/company/access'', ''/company/profiles'', ''/company/audit'']"

definition platformOpsItems :: "string list" where
  "platformOpsItems =
     [''/company/recovery'', ''/admin'', ''/admin/monitor'', ''/admin/audit'', ''/admin/ingest'',
      ''/admin/webhooks'']"

definition platformAdminItems :: "string list" where
  "platformAdminItems =
     [''/admin/domains'', ''/admin/policy'', ''/admin/tenants'', ''/admin/plans'', ''/admin/settings'']"

definition adminItems :: "level \<Rightarrow> string list" where
  "adminItems level =
     (if isSuperAdminLevel level then platformOpsItems @ sharedAdminItems @ platformAdminItems
      else sharedAdminItems)"

definition sidebar :: "level \<Rightarrow> string list" where
  "sidebar level = consoleItems @ (if isAdminLevel level then adminItems level else [])"

definition console_active :: "string \<Rightarrow> string \<Rightarrow> bool" where
  "console_active href pathname = starts_with href pathname"

definition admin_active :: "string \<Rightarrow> string \<Rightarrow> bool" where
  "admin_active href pathname =
     (if href = ''/admin'' \<or> href = ''/company'' then pathname = ''/admin''
      else starts_with href pathname)"

lemmas sidebar_defs = sidebar_def adminItems_def consoleItems_def sharedAdminItems_def
  platformOpsItems_def platformAdminItems_def isAdminLevel_def isSuperAdminLevel_def

text \<open>
  The link to the company overview is never marked as the current page on the overview itself,
  and is marked on the platform statistics page.
\<close>

lemma overview_link_marked_elsewhere:
  "\<not> admin_active ''/company'' ''/company'' \<and> admin_active ''/company'' ''/admin''"
  by (simp add: admin_active_def)

text \<open>
  The page that the sidebar lists among the platform-only items is not closed to tenant
  administrators by the gate.
\<close>

lemma admin_domains_open_to_admin:
  "''/admin/domains'' \<in> set platformAdminItems \<and> gate_view True Admin ''/admin/domains'' = Page"
  by (simp add: platformAdminItems_def gate_view_def starts_with_def)

section \<open>Properties\<close>

text \<open>
  The redirect of the dashboard and what it renders are the same decision: a page is shown
  exactly when nothing is redirected, a redirect leads to the home page or to a page that is shown,
  and so does every link of the sidebar.
\<close>

lemma dashboard_gate:
  "(gate_view hydrated level pathname = Page \<longleftrightarrow> hydrated \<and> gate_effect hydrated level pathname = []) \<and>
   list_all (\<lambda>t. t = ''/'' \<or> gate_view True level t = Page) (gate_effect hydrated level pathname) \<and>
   (level = Public \<or> list_all (\<lambda>href. gate_view True level href = Page) (sidebar level))"
proof (intro conjI)
  show "gate_view hydrated level pathname = Page \<longleftrightarrow> hydrated \<and> gate_effect hydrated level pathname = []"
    by (auto simp: gate_view_def gate_effect_def)
  show "list_all (\<lambda>t. t = ''/'' \<or> gate_view True level t = Page) (gate_effect hydrated level pathname)"
    by (auto simp: gate_effect_def gate_view_def starts_with_def)
  show "level = Public \<or> list_all (\<lambda>href. gate_view True level href = Page) (sidebar level)"
    by (cases level) (simp_all add: sidebar_defs gate_view_def starts_with_def)
qed

text \<open>
  A sender is proposed exactly when some mailbox of the list may send; it is one of the list
  that may send, it is the preferred mailbox when that one may, and otherwise it is limited to
  templates only when every sender of the list is.
\<close>

lemma compose_identity:
  "case composeIdentity mailboxes preferred of
     None \<Rightarrow> filter wm_can_send mailboxes = []
   | Some s \<Rightarrow> s \<in> set mailboxes \<and> wm_can_send s \<and>
       (let current = find (\<lambda>b. Some (wm_id b) = map_option wm_id preferred) mailboxes
        in if map_option wm_can_send current = Some True then current = Some s
           else if wm_template_only s
           then filter (\<lambda>b. wm_can_send b \<and> \<not> wm_template_only b) mailboxes = [] else True)"
  by (auto simp: composeIdentity_def Let_def find_None_iff filter_empty_conv dest!: find_Some_mem
      split: option.splits if_splits)

end
