(* ===== verification/Compose.thy ===== *)
theory Compose
  imports DraftWriter Addresses Access
begin

text \<open>
  The composer of \<^verbatim>\<open>web/components/company/compose.tsx\<close> as a reactive component: its
  React state and refs are one record, every handler, timer and settled promise is an event, and
  after every event the component renders and runs its effects (\<^verbatim>\<open>commit\<close>). A handler runs
  up to its next \<^verbatim>\<open>await\<close>; what it does afterwards is kept in \<^verbatim>\<open>e_action\<close> until the
  settlement arrives.

  Drafts, payloads and template versions are the JSON values that travel; a key whose value is
  \<^verbatim>\<open>undefined\<close> is absent, which neither \<^verbatim>\<open>draftKey\<close> nor the wire can tell apart. The
  draft writer is \<^verbatim>\<open>DraftWriter\<close>: the composer sees only the promises of its lane, which
  settle in the order they were queued. A writer that was closed settles every promise with an
  error, so of a replaced writer only the number of its unsettled saves is kept.
\<close>

section \<open>State\<close>

text \<open>\<^verbatim>\<open>sendOwnership\<close> and \<^verbatim>\<open>senderOwnership\<close>\<close>

record ownership =
  ow_mount :: nat
  ow_permission :: nat
  ow_allowed :: bool

record sender_ownership =
  so_mailbox :: json
  so_generation :: nat
  so_allowed :: bool

text \<open>The owner a sender operation captures when it starts.\<close>

record operation_owner =
  oo_mount :: nat
  oo_sender :: nat
  oo_permission :: nat

text \<open>
  A pinned submission. The idempotency key \<^verbatim>\<open>id.revision\<close> is kept as the two values it
  prints.
\<close>

record pinned =
  p_key :: "json option \<times> json option"
  p_draft :: "json option"
  p_revision :: "json option"

datatype lane_job = Auto bool draft_input | Explicit draft_input | Reloading

text \<open>Where the running action (\<^verbatim>\<open>useAction\<close>) is waiting.\<close>

datatype action = ASave | ASendSave ownership | ASubmit ownership pinned | AReload
  | APreview operation_owner | AUpload operation_owner "json list" | ADownload

text \<open>
  What can be observed. \<^verbatim>\<open>Revoked\<close>, \<^verbatim>\<open>SenderLeft\<close> and \<^verbatim>\<open>Gone\<close> mark the commits at which
  the permission to send was lost, the selected sender was changed or lost its authorization, and
  the editor was unmounted.
\<close>

datatype happening = Clicked | Started | Revoked | SenderLeft | Gone
  | Submitted pinned scope draft_input | Queued scope | Rejected | Undecided
  | Previewed scope | Attached scope | Saved | Toast exn | Closed

type_synonym autosave_deps =
  "bool \<times> bool \<times> pinned option \<times> exn option \<times> bool option \<times> json \<times> nat \<times> nat"

record editor =
  e_draft :: json
  e_payload :: json
  e_edits :: nat
  e_reset :: nat
  e_mailbox :: json
  e_mounted :: bool
  e_scope :: scope
  e_send :: ownership
  e_sender :: sender_ownership
  e_writer :: nat
  e_writer_closed :: bool
  e_saving :: bool
  e_error :: "exn option"
  e_names :: "(json option \<times> json option) list"
  e_preview :: "json option"
  e_pending :: "pinned option"
  e_mailboxes :: "work_mailbox list"
  e_templates :: "json list option"
  e_loading :: bool
  e_session :: session
  e_action :: "action option"
  e_lane :: "lane_job list"
  e_old :: nat
  e_timer :: "draft_input option"
  e_deps :: "autosave_deps option"
  e_log :: "happening list"

section \<open>What a render computes\<close>

definition value_of :: "json option \<Rightarrow> json" where
  "value_of v = (case v of Some x \<Rightarrow> x | None \<Rightarrow> JNull)"

definition items_of :: "json option \<Rightarrow> json list" where
  "items_of v = (case v of Some (JArr vs) \<Rightarrow> vs | _ \<Rightarrow> [])"

text \<open>Whether a caught value is truthy: an error object always is.\<close>

fun thrown_truthy :: "exn \<Rightarrow> bool" where
  "thrown_truthy (Api v) = truthy (Some v)"
| "thrown_truthy _ = True"

definition pin :: "editor \<Rightarrow> json option" where
  "pin s = get_prop (e_payload s) ''template_version_id''"

definition editor_input :: "editor \<Rightarrow> draft_input" where
  "editor_input s = \<lparr>i_mailbox_id = e_mailbox s, i_payload = e_payload s\<rparr>"

definition sender_box :: "editor \<Rightarrow> work_mailbox option" where
  "sender_box s = find (\<lambda>v. JStr (wm_id v) = e_mailbox s) (e_mailboxes s)"

definition senderAllowed :: "editor \<Rightarrow> bool" where
  "senderAllowed s = (case sender_box s of Some b \<Rightarrow> wm_can_send b | None \<Rightarrow> False)"

definition template_only :: "editor \<Rightarrow> bool" where
  "template_only s = (case sender_box s of Some b \<Rightarrow> wm_template_only b | None \<Rightarrow> False)"

definition listedVersion :: "editor \<Rightarrow> json option" where
  "listedVersion s = (case e_templates s of None \<Rightarrow> None
     | Some vs \<Rightarrow> find (\<lambda>v. strict_eq (get_prop v ''id'') (pin s)) vs)"

definition eligibility :: "editor \<Rightarrow> json option" where
  "eligibility s =
     (let resolved = get_prop (e_draft s) ''template_version''
      in if strict_eq (get_prop (e_draft s) ''mailbox_id'') (Some (e_mailbox s)) \<and>
            strict_eq (opt_prop resolved ''id'') (pin s)
         then resolved else None)"

definition pick :: "string list \<Rightarrow> json option \<Rightarrow> json" where
  "pick ks v = JObj (concat (map (\<lambda>k. case opt_prop v k of Some x \<Rightarrow> [(k, x)] | None \<Rightarrow> []) ks))"

definition status :: "editor \<Rightarrow> json option" where
  "status s = opt_prop (eligibility s) ''status''"

definition usable :: "json option" where "usable = Some (JStr ''usable'')"
definition missing :: "json option" where "missing = Some (JStr ''missing'')"

definition chosen_version :: "editor \<Rightarrow> json option" where
  "chosen_version s =
     (if truthy (eligibility s) then
        (if status s = usable \<and> truthy (opt_prop (eligibility s) ''snapshot'')
         then Some (pick [''id'', ''name'', ''version'', ''snapshot''] (eligibility s)) else None)
      else listedVersion s)"

definition ineligible :: "editor \<Rightarrow> bool" where
  "ineligible s = (truthy (status s) \<and> status s \<noteq> usable \<and> status s \<noteq> missing)"

definition invalidVersion :: "editor \<Rightarrow> bool" where
  "invalidVersion s =
     (truthy (pin s) \<and>
      (ineligible s \<or> (status s = usable \<and> chosen_version s = None) \<or>
       (\<not> truthy (eligibility s) \<and> chosen_version s = None)))"

definition sendAllowed :: "editor \<Rightarrow> bool" where
  "sendAllowed s =
     (senderAllowed s \<and> \<not> invalidVersion s \<and> (\<not> template_only s \<or> chosen_version s \<noteq> None))"

definition INELIGIBLE_NOTICES :: "(string \<times> string) list" where
  "INELIGIBLE_NOTICES = [
     (''revoked'', ''This template version has been emergency-revoked; pick another version''),
     (''retired'', ''This template has been retired; choose another template''),
     (''unauthorized'', ''This mailbox is not authorized to use this template''),
     (''corrupt'', ''Template version failed content verification; pick another version'')]"

definition notice :: "editor \<Rightarrow> string option" where
  "notice s = (case status s of Some (JStr k) \<Rightarrow> map_of INELIGIBLE_NOTICES k | _ \<Rightarrow> None)"

definition busy :: "editor \<Rightarrow> bool" where
  "busy s = (e_action s \<noteq> None)"

definition locked :: "editor \<Rightarrow> bool" where
  "locked s = (busy s \<or> e_pending s \<noteq> None)"

definition dirty :: "editor \<Rightarrow> bool" where
  "dirty s =
     (let p = e_payload s
      in (strict_eq (revision (e_draft s)) (Some (JNum (Fin 0))) \<and>
          (\<not> length_falsy (get_prop p ''to'') \<or> truthy (get_prop p ''subject'') \<or>
           truthy (get_prop p ''text_body'') \<or> truthy (get_prop p ''html_body'') \<or>
           \<not> length_falsy (get_prop p ''attachment_ids'') \<or> truthy (pin s))) \<or>
         draftKey (input_json (editor_input s)) \<noteq> draftKey (e_draft s))"

definition save_failed :: "editor \<Rightarrow> bool" where
  "save_failed s = (case e_error s of Some e \<Rightarrow> thrown_truthy e | None \<Rightarrow> False)"

text \<open>The alert with its recovery buttons is there unless the caught value is null.\<close>

definition alert_shown :: "editor \<Rightarrow> bool" where
  "alert_shown s = (case e_error s of Some e \<Rightarrow> e \<noteq> Api JNull | None \<Rightarrow> False)"

section \<open>Effects\<close>

definition observe :: "happening \<Rightarrow> editor \<Rightarrow> editor" where
  "observe x s = s\<lparr>e_log := e_log s @ [x]\<rparr>"

definition sender_effect :: "editor \<Rightarrow> editor" where
  "sender_effect s =
     (let own = e_sender s;
          gone = (so_mailbox own \<noteq> e_mailbox s \<or> so_allowed own \<and> \<not> senderAllowed s);
          s' = s\<lparr>e_sender := \<lparr>so_mailbox = e_mailbox s,
                   so_generation = (if gone then Suc (so_generation own) else so_generation own),
                   so_allowed = senderAllowed s\<rparr>\<rparr>
      in if gone then observe SenderLeft s' else s')"

definition send_effect :: "editor \<Rightarrow> editor" where
  "send_effect s =
     (let own = e_send s;
          lost = (ow_allowed own \<and> \<not> sendAllowed s);
          s' = s\<lparr>e_send := own\<lparr>ow_permission := (if lost then Suc (ow_permission own) else ow_permission own),
                             ow_allowed := sendAllowed s\<rparr>\<rparr>
      in if lost then observe Revoked s' else s')"

definition autosave_deps :: "editor \<Rightarrow> autosave_deps" where
  "autosave_deps s = (dirty s, busy s, e_pending s, e_error s, map_option wm_can_send (sender_box s),
     e_mailbox s, e_edits s, e_writer s)"

fun deactivate :: "lane_job \<Rightarrow> lane_job" where
  "deactivate (Auto a i) = Auto False i"
| "deactivate j = j"

definition autosave_effect :: "editor \<Rightarrow> editor" where
  "autosave_effect s =
     (if e_deps s = Some (autosave_deps s) then s
      else s\<lparr>e_deps := Some (autosave_deps s), e_lane := map deactivate (e_lane s),
             e_timer := (if \<not> dirty s \<or> busy s \<or> e_pending s \<noteq> None \<or> save_failed s \<or> \<not> senderAllowed s
                         then None else Some (editor_input s))\<rparr>)"

definition commit :: "editor \<Rightarrow> editor" where
  "commit s = (if e_mounted s then autosave_effect (send_effect (sender_effect s)) else s)"

definition open_editor :: "json \<Rightarrow> work_mailbox list \<Rightarrow> session \<Rightarrow> editor" where
  "open_editor initial mailboxes session =
     commit \<lparr>e_draft = initial, e_payload = value_of (get_prop initial ''payload''), e_edits = 0,
       e_reset = 0, e_mailbox = value_of (get_prop initial ''mailbox_id''), e_mounted = True,
       e_scope = sessionScope session,
       e_send = \<lparr>ow_mount = 0, ow_permission = 0, ow_allowed = False\<rparr>,
       e_sender = \<lparr>so_mailbox = value_of (get_prop initial ''mailbox_id''), so_generation = 0,
                   so_allowed = False\<rparr>,
       e_writer = 0, e_writer_closed = False, e_saving = False, e_error = None, e_names = [],
       e_preview = None, e_pending = None, e_mailboxes = mailboxes, e_templates = None,
       e_loading = True, e_session = session, e_action = None, e_lane = [], e_old = 0,
       e_timer = None, e_deps = None, e_log = []\<rparr>"

section \<open>Operations\<close>

definition aborted :: exn where "aborted = DOMException ''AbortError''"

text \<open>The end of \<^verbatim>\<open>run\<close>: an abort is silent, any other error is shown.\<close>

definition finish_run :: "exn option \<Rightarrow> editor \<Rightarrow> editor" where
  "finish_run result s =
     (let s' = s\<lparr>e_action := None\<rparr>
      in case result of Some e \<Rightarrow> if e \<noteq> aborted then observe (Toast e) s' else s' | None \<Rightarrow> s')"

text \<open>\<^verbatim>\<open>change(patch)\<close>; a patch entry without a value sets \<^verbatim>\<open>undefined\<close>.\<close>

type_synonym patch = "(string \<times> json option) list"

definition patched :: "json \<Rightarrow> patch \<Rightarrow> json" where
  "patched v patch =
     JObj (filter (\<lambda>(k, x). map_of patch k \<noteq> Some None)
       (merge_objects (spread (Some v))
         (concat (map (\<lambda>(k, x). case x of Some y \<Rightarrow> [(k, y)] | None \<Rightarrow> []) patch))))"

definition set_payload :: "json \<Rightarrow> editor \<Rightarrow> editor" where
  "set_payload p s = s\<lparr>e_payload := p, e_edits := Suc (e_edits s)\<rparr>"

definition change :: "patch \<Rightarrow> editor \<Rightarrow> editor" where
  "change patch s = (set_payload (patched (e_payload s) patch) s)\<lparr>e_preview := None\<rparr>"

text \<open>The list of templates is read per mailbox and no data is kept across a change of it.\<close>

definition set_mailbox :: "json \<Rightarrow> editor \<Rightarrow> editor" where
  "set_mailbox m s =
     (if m = e_mailbox s then s else s\<lparr>e_mailbox := m, e_templates := None, e_loading := True\<rparr>)"

text \<open>Queueing on the writer: \<^verbatim>\<open>save\<close> up to its \<^verbatim>\<open>await\<close>.\<close>

definition begin_save :: "action \<Rightarrow> json \<Rightarrow> editor \<Rightarrow> editor" where
  "begin_save a next_payload s =
     s\<lparr>e_action := Some a, e_saving := True,
       e_lane := e_lane s @ [Explicit \<lparr>i_mailbox_id = e_mailbox s, i_payload = next_payload\<rparr>]\<rparr>"

text \<open>\<^verbatim>\<open>save\<close> after its \<^verbatim>\<open>await\<close>: React ignores a state change after the unmount.\<close>

definition saved_ok :: "json \<Rightarrow> bool \<Rightarrow> editor \<Rightarrow> editor" where
  "saved_ok v mute s =
     (let s' = (if e_mounted s then s\<lparr>e_draft := v, e_error := None, e_saving := False\<rparr> else s)
      in if mute then s' else observe Saved s')"

definition saved_error :: "exn \<Rightarrow> editor \<Rightarrow> editor" where
  "saved_error e s = (if e_mounted s then s\<lparr>e_error := Some e, e_saving := False\<rparr> else s)"

section \<open>Sending\<close>

definition in_scope :: "editor \<Rightarrow> bool" where
  "in_scope s = (e_scope s = sessionScope (e_session s))"

definition owns_editor :: "ownership \<Rightarrow> editor \<Rightarrow> bool" where
  "owns_editor own s = (in_scope s \<and> e_mounted s \<and> ow_mount own = ow_mount (e_send s))"

definition send_still_allowed :: "ownership \<Rightarrow> editor \<Rightarrow> bool" where
  "send_still_allowed own s =
     (owns_editor own s \<and> ow_allowed (e_send s) \<and> ow_permission own = ow_permission (e_send s))"

definition pinned_of :: "json \<Rightarrow> pinned" where
  "pinned_of v = \<lparr>p_key = (draft_id v, revision v), p_draft = draft_id v, p_revision = revision v\<rparr>"

definition submit_pinned :: "ownership \<Rightarrow> pinned \<Rightarrow> editor \<Rightarrow> editor" where
  "submit_pinned own p s =
     (if send_still_allowed own s
      then observe (Submitted p (sessionScope (e_session s)) (editor_input s))
             (s\<lparr>e_action := Some (ASubmit own p)\<rparr>)
      else finish_run (Some aborted) s)"

definition select_template :: exn where
  "select_template = Err ''Select an authorized published template''"

definition send :: "editor \<Rightarrow> editor" where
  "send s =
     (let own = e_send s
      in if \<not> owns_editor own s then s
         else if \<not> senderAllowed s then s
         else let s' = observe Clicked s
           in case e_pending s of
                Some p \<Rightarrow> submit_pinned own p s'
              | None \<Rightarrow>
                  if invalidVersion s \<or> (template_only s \<and> chosen_version s = None)
                  then finish_run (Some select_template) s'
                  else begin_save (ASendSave own) (e_payload s) s')"

definition sent_saved :: "ownership \<Rightarrow> json \<Rightarrow> editor \<Rightarrow> editor" where
  "sent_saved own v s =
     (let s' = saved_ok v True s
      in if \<not> send_still_allowed own s' then finish_run (Some aborted) s'
         else if \<not> truthy (draft_id v) then finish_run (Some (Err ''Draft not saved'')) s'
         else submit_pinned own (pinned_of v) (s'\<lparr>e_pending := Some (pinned_of v)\<rparr>))"

definition send_not_saved :: "ownership \<Rightarrow> exn \<Rightarrow> editor \<Rightarrow> editor" where
  "send_not_saved own e s =
     (let s' = saved_error e s
      in finish_run (Some (if owns_editor own s' then e else aborted)) s')"

definition DEFINITE_CODES :: "string list" where
  "DEFINITE_CODES = [''BAD_REQUEST'', ''FORBIDDEN'', ''QUOTA_EXCEEDED'', ''NOT_FOUND'', ''UNAUTHORIZED'']"

text \<open>\<^verbatim>\<open>err.data?.revision\<close> of whatever was thrown\<close>

fun conflict_revision :: "exn \<Rightarrow> json option" where
  "conflict_revision (Api v) = opt_prop (get_prop v ''data'') ''revision''"
| "conflict_revision _ = None"

definition conflict_error :: "exn \<Rightarrow> exn" where
  "conflict_error e =
     (if truthy (conflict_revision e) then Err ''Draft moved elsewhere; refresh and retry''
      else Err ''This draft was already submitted elsewhere; check its send status'')"

definition definite :: "exn \<Rightarrow> bool" where
  "definite e = (isConflict e \<or> (case errorCode e of Some c \<Rightarrow> c \<in> set DEFINITE_CODES | None \<Rightarrow> False))"

definition submit_failed :: "ownership \<Rightarrow> exn \<Rightarrow> editor \<Rightarrow> editor" where
  "submit_failed own e s =
     (if \<not> owns_editor own s then finish_run (Some aborted) s
      else if isConflict e
      then finish_run (Some (conflict_error e)) (observe Rejected (s\<lparr>e_pending := None\<rparr>))
      else if definite e then finish_run (Some e) (observe Rejected (s\<lparr>e_pending := None\<rparr>))
      else finish_run (Some e) (observe Undecided s))"

definition submitted :: "ownership \<Rightarrow> json option \<Rightarrow> editor \<Rightarrow> editor" where
  "submitted own job s =
     (if \<not> owns_editor own s then finish_run (Some aborted) s
      else if job = None \<or> job = Some JNull then submit_failed own (Err ''TypeError'') s
      else finish_run None (observe (Queued (sessionScope (e_session s))) (s\<lparr>e_writer_closed := True\<rparr>)))"

section \<open>Operations of the selected sender\<close>

definition operation_owner :: "editor \<Rightarrow> operation_owner" where
  "operation_owner s =
     \<lparr>oo_mount = ow_mount (e_send s), oo_sender = so_generation (e_sender s),
      oo_permission = ow_permission (e_send s)\<rparr>"

definition owns_operation :: "bool \<Rightarrow> operation_owner \<Rightarrow> editor \<Rightarrow> bool" where
  "owns_operation preview own s =
     (in_scope s \<and> e_mounted s \<and> oo_mount own = ow_mount (e_send s) \<and> so_allowed (e_sender s) \<and>
      oo_sender own = so_generation (e_sender s) \<and>
      (preview \<longrightarrow> ow_allowed (e_send s) \<and> oo_permission own = ow_permission (e_send s)))"

definition senderOperation :: "(operation_owner \<Rightarrow> action) \<Rightarrow> bool \<Rightarrow> editor \<Rightarrow> editor" where
  "senderOperation awaiting preview s =
     (let own = operation_owner s
      in if owns_operation preview own s then observe Started (s\<lparr>e_action := Some (awaiting own)\<rparr>)
         else s)"

definition operation_done ::
  "bool \<Rightarrow> operation_owner \<Rightarrow> (json option \<Rightarrow> editor \<Rightarrow> editor) \<Rightarrow> exn + json option \<Rightarrow> editor \<Rightarrow> editor" where
  "operation_done preview own finish result s =
     (if \<not> owns_operation preview own s then finish_run (Some aborted) s
      else case result of Inl e \<Rightarrow> finish_run (Some e) s | Inr v \<Rightarrow> finish v s)"

fun is_text :: "json option \<Rightarrow> bool" where
  "is_text (Some (JStr t)) = True"
| "is_text _ = False"

definition show_preview :: "json option \<Rightarrow> editor \<Rightarrow> editor" where
  "show_preview v s =
     (if list_all (\<lambda>k. is_text (opt_prop v k)) [''subject'', ''text_body'', ''html_body'']
      then finish_run None (observe (Previewed (sessionScope (e_session s))) (s\<lparr>e_preview := v\<rparr>))
      else finish_run (Some (Err ''Invalid template preview response; try again.'')) s)"

definition attach :: "json list \<Rightarrow> json option \<Rightarrow> editor \<Rightarrow> editor" where
  "attach base a s =
     (if a = None \<or> a = Some JNull then finish_run (Some (Err ''TypeError'')) s
      else finish_run None (observe (Attached (sessionScope (e_session s)))
        (change [(''attachment_ids'', Some (JArr (base @ [value_of (opt_prop a ''id'')])))]
          (s\<lparr>e_names := (opt_prop a ''id'', opt_prop a ''filename'') # e_names s\<rparr>))))"

definition MAX_ATTACHMENT_BYTES :: int where
  "MAX_ATTACHMENT_BYTES = 20 * 1024 * 1024"

section \<open>Events\<close>

text \<open>
  \<^verbatim>\<open>Boxes\<close> and \<^verbatim>\<open>Templates\<close> are new properties and new data of the template list;
  \<^verbatim>\<open>Page\<close> is any other code changing the browser session. A button that asks for a
  confirmation carries the answer. \<^verbatim>\<open>LaneSettled\<close> settles the first promise of the
  writer's lane, \<^verbatim>\<open>OldSettled\<close> one of a replaced writer, \<^verbatim>\<open>Answered\<close> the request of
  the running action.
\<close>

datatype editor_event =
    Boxes "work_mailbox list" | Templates "json list option" bool | Page "session \<Rightarrow> session" | Unmount
  | Tick
  | SelectMailbox string | SelectTemplate string | EditRecipients string string | EditSubject string
  | EditBody patch | EditHtml string | EditVariable string string | RemoveAttachment json
  | ClickSave | ClickRetrySave | ClickReload bool | ClickCopy bool | ClickUnpin | ClickPreview
  | PickFile int | ClickDownload | ClickSend | ClickClose bool
  | LaneSettled "exn + json" | OldSettled | Answered "exn + json option"

definition idle_alert :: "editor \<Rightarrow> bool" where
  "idle_alert s = (alert_shown s \<and> \<not> busy s \<and> \<not> e_saving s \<and> e_pending s = None)"

definition editable :: "editor \<Rightarrow> bool" where
  "editable s = (\<not> locked s \<and> \<not> template_only s \<and> chosen_version s = None)"

definition attachment_count :: "editor \<Rightarrow> nat" where
  "attachment_count s = length (items_of (get_prop (e_payload s) ''attachment_ids''))"

definition send_enabled :: "editor \<Rightarrow> bool" where
  "send_enabled s =
     (\<not> busy s \<and> senderAllowed s \<and>
      (if e_pending s = None
       then \<not> length_falsy (get_prop (e_payload s) ''to'') \<and> \<not> invalidVersion s \<and>
            \<not> (template_only s \<and> chosen_version s = None)
       else True))"

definition sendable :: "string \<Rightarrow> editor \<Rightarrow> bool" where
  "sendable m s = list_ex (\<lambda>b. wm_id b = m \<and> wm_can_send b) (e_mailboxes s)"

definition unpinned :: "editor \<Rightarrow> json" where
  "unpinned s = patched (e_payload s) [(''template_version_id'', None), (''template_vars'', Some (JObj []))]"

definition copy_draft :: "editor \<Rightarrow> editor" where
  "copy_draft s =
     s\<lparr>e_draft := JObj [(''mailbox_id'', e_mailbox s), (''payload'', e_payload s),
                        (''revision'', JNum (Fin 0))],
       e_writer := Suc (e_writer s), e_writer_closed := False, e_old := e_old s + length (e_lane s),
       e_lane := [], e_error := None\<rparr>"

definition reloaded :: "json \<Rightarrow> editor \<Rightarrow> editor" where
  "reloaded v s =
     finish_run None ((set_mailbox (value_of (get_prop v ''mailbox_id''))
       (set_payload (value_of (get_prop v ''payload'')) s))
         \<lparr>e_draft := v, e_error := None, e_preview := None, e_reset := Suc (e_reset s)\<rparr>)"

definition lane_settled :: "exn + json \<Rightarrow> editor \<Rightarrow> editor" where
  "lane_settled result s =
     (case e_lane s of [] \<Rightarrow> s
      | j # js \<Rightarrow>
          let s' = s\<lparr>e_lane := js\<rparr>
          in case (j, result) of
               (Auto active i, Inr v) \<Rightarrow> saved_ok v True s'
             | (Auto active i, Inl e) \<Rightarrow>
                 if active then saved_error e s'
                 else if e_mounted s' then s'\<lparr>e_saving := False\<rparr> else s'
             | (Explicit i, Inr v) \<Rightarrow>
                 (case e_action s of Some (ASendSave own) \<Rightarrow> sent_saved own v s'
                  | _ \<Rightarrow> finish_run None (saved_ok v False s'))
             | (Explicit i, Inl e) \<Rightarrow>
                 (case e_action s of Some (ASendSave own) \<Rightarrow> send_not_saved own e s'
                  | _ \<Rightarrow> finish_run (Some e) (saved_error e s'))
             | (Reloading, Inr v) \<Rightarrow> reloaded v s'
             | (Reloading, Inl e) \<Rightarrow> finish_run (Some e) s')"

definition answered :: "exn + json option \<Rightarrow> editor \<Rightarrow> editor" where
  "answered result s =
     (case e_action s of
        Some (ASubmit own p) \<Rightarrow>
          (case result of Inr job \<Rightarrow> submitted own job s | Inl e \<Rightarrow> submit_failed own e s)
      | Some (APreview own) \<Rightarrow> operation_done True own show_preview result s
      | Some (AUpload own base) \<Rightarrow> operation_done False own (attach base) result s
      | Some ADownload \<Rightarrow> finish_run (case result of Inl e \<Rightarrow> Some e | Inr v \<Rightarrow> None) s
      | _ \<Rightarrow> s)"

text \<open>The buttons and the fields.\<close>

definition save_clicked :: "editor \<Rightarrow> editor" where
  "save_clicked s =
     (if \<not> busy s \<and> e_pending s = None \<and> senderAllowed s then begin_save ASave (e_payload s) s else s)"

definition retry_clicked :: "editor \<Rightarrow> editor" where
  "retry_clicked s =
     (if idle_alert s \<and> (case e_error s of Some e \<Rightarrow> \<not> isDeterministicErrorCode (errorCode e) | None \<Rightarrow> False)
      then begin_save ASave (e_payload s) s else s)"

definition reload_clicked :: "bool \<Rightarrow> editor \<Rightarrow> editor" where
  "reload_clicked yes s =
     (if idle_alert s \<and> yes then s\<lparr>e_action := Some AReload, e_lane := e_lane s @ [Reloading]\<rparr> else s)"

definition copy_clicked :: "bool \<Rightarrow> editor \<Rightarrow> editor" where
  "copy_clicked yes s = (if idle_alert s \<and> senderAllowed s \<and> yes then copy_draft s else s)"

definition unpin_clicked :: "editor \<Rightarrow> editor" where
  "unpin_clicked s =
     (if ineligible s \<and> notice s \<noteq> None \<and> \<not> locked s
      then begin_save ASave (unpinned s) ((set_payload (unpinned s) s)\<lparr>e_preview := None\<rparr>) else s)"

definition preview_clicked :: "editor \<Rightarrow> editor" where
  "preview_clicked s =
     (if chosen_version s \<noteq> None \<and> \<not> locked s \<and> sendAllowed s then senderOperation APreview True s else s)"

definition file_picked :: "int \<Rightarrow> editor \<Rightarrow> editor" where
  "file_picked bytes s =
     (if \<not> locked s \<and> senderAllowed s \<and> attachment_count s < 10
      then (let s' = senderOperation
                  (\<lambda>own. AUpload own (items_of (get_prop (e_payload s) ''attachment_ids''))) False s
            in if busy s' \<and> bytes > MAX_ATTACHMENT_BYTES
               then finish_run (Some (Err ''Attachment too large'')) s' else s')
      else s)"

definition download_clicked :: "editor \<Rightarrow> editor" where
  "download_clicked s = (if \<not> busy s then s\<lparr>e_action := Some ADownload\<rparr> else s)"

definition send_clicked :: "editor \<Rightarrow> editor" where
  "send_clicked s = (if send_enabled s then send s else s)"

definition close_clicked :: "bool \<Rightarrow> editor \<Rightarrow> editor" where
  "close_clicked yes s =
     (if \<not> busy s \<and> (dirty s \<or> e_pending s \<noteq> None \<longrightarrow> yes)
      then observe Closed (s\<lparr>e_writer_closed := True\<rparr>) else s)"

definition select_mailbox :: "string \<Rightarrow> editor \<Rightarrow> editor" where
  "select_mailbox m s =
     (if \<not> locked s \<and> sendable m s
      then change [(''attachment_ids'', Some (JArr [])), (''template_version_id'', None),
                   (''template_vars'', Some (JObj []))] (set_mailbox (JStr m) s)
      else s)"

definition select_template_version :: "string \<Rightarrow> editor \<Rightarrow> editor" where
  "select_template_version v s =
     (if \<not> locked s \<and> \<not> e_loading s
      then change [(''template_version_id'', if v = [] then None else Some (JStr v)),
                   (''template_vars'', Some (JObj []))] s
      else s)"

definition edit_recipients :: "string \<Rightarrow> string \<Rightarrow> editor \<Rightarrow> editor" where
  "edit_recipients field typed s =
     (if \<not> locked s \<and> field \<in> set [''to'', ''cc'', ''bcc'']
      then change [(field, Some (JArr (map JStr (snd (recipient_change typed)))))] s else s)"

definition edit_subject :: "string \<Rightarrow> editor \<Rightarrow> editor" where
  "edit_subject typed s = (if editable s then change [(''subject'', Some (JStr typed))] s else s)"

definition edit_body :: "patch \<Rightarrow> editor \<Rightarrow> editor" where
  "edit_body p s = (if editable s then change p s else s)"

definition edit_html :: "string \<Rightarrow> editor \<Rightarrow> editor" where
  "edit_html typed s = (if editable s then change [(''html_body'', Some (JStr typed))] s else s)"

definition edit_variable :: "string \<Rightarrow> string \<Rightarrow> editor \<Rightarrow> editor" where
  "edit_variable k typed s =
     (if \<not> locked s \<and> chosen_version s \<noteq> None
      then change [(''template_vars'', Some (JObj (merge_objects
             (spread (get_prop (e_payload s) ''template_vars'')) [(k, JStr typed)])))] s
      else s)"

definition remove_attachment :: "json \<Rightarrow> editor \<Rightarrow> editor" where
  "remove_attachment a s =
     (if \<not> locked s
      then change [(''attachment_ids'', map_option (\<lambda>v. JArr (filter (\<lambda>x. x \<noteq> a) (items_of (Some v))))
                     (get_prop (e_payload s) ''attachment_ids''))] s
      else s)"

fun click :: "editor_event \<Rightarrow> editor \<Rightarrow> editor" where
  "click ClickSave s = save_clicked s"
| "click ClickRetrySave s = retry_clicked s"
| "click (ClickReload yes) s = reload_clicked yes s"
| "click (ClickCopy yes) s = copy_clicked yes s"
| "click ClickUnpin s = unpin_clicked s"
| "click ClickPreview s = preview_clicked s"
| "click (PickFile bytes) s = file_picked bytes s"
| "click ClickDownload s = download_clicked s"
| "click ClickSend s = send_clicked s"
| "click (ClickClose yes) s = close_clicked yes s"
| "click _ s = s"

fun edit :: "editor_event \<Rightarrow> editor \<Rightarrow> editor" where
  "edit (SelectMailbox m) s = select_mailbox m s"
| "edit (SelectTemplate v) s = select_template_version v s"
| "edit (EditRecipients field typed) s = edit_recipients field typed s"
| "edit (EditSubject typed) s = edit_subject typed s"
| "edit (EditBody p) s = edit_body p s"
| "edit (EditHtml typed) s = edit_html typed s"
| "edit (EditVariable k typed) s = edit_variable k typed s"
| "edit (RemoveAttachment a) s = remove_attachment a s"
| "edit _ s = s"

lemmas handler_defs =
  save_clicked_def retry_clicked_def reload_clicked_def copy_clicked_def unpin_clicked_def
  preview_clicked_def file_picked_def download_clicked_def send_clicked_def close_clicked_def
  select_mailbox_def select_template_version_def edit_recipients_def edit_subject_def
  edit_body_def edit_html_def edit_variable_def remove_attachment_def

declare click.simps [simp del] edit.simps [simp del]

lemmas button_simps [simp] = click.simps [unfolded handler_defs]
lemmas edit_simps [simp] = edit.simps [unfolded handler_defs]

text \<open>What happens without the user.\<close>

definition unmounted :: "editor \<Rightarrow> editor" where [simp]:
  "unmounted s =
     (if e_mounted s
      then observe Gone (s\<lparr>e_mounted := False, e_timer := None, e_lane := map deactivate (e_lane s),
             e_send := (e_send s)\<lparr>ow_mount := Suc (ow_mount (e_send s))\<rparr>\<rparr>)
      else s)"

definition timer_fired :: "editor \<Rightarrow> editor" where [simp]:
  "timer_fired s =
     (case e_timer s of Some i \<Rightarrow>
        s\<lparr>e_timer := None, e_saving := True, e_lane := e_lane s @ [Auto True i]\<rparr> | None \<Rightarrow> s)"

definition old_settled :: "editor \<Rightarrow> editor" where [simp]:
  "old_settled s =
     (if e_old s = 0 then s
      else if e_mounted s then s\<lparr>e_old := e_old s - 1, e_saving := False\<rparr>
      else s\<lparr>e_old := e_old s - 1\<rparr>)"

fun arrive :: "editor_event \<Rightarrow> editor \<Rightarrow> editor" where
  "arrive (Boxes mailboxes) s = s\<lparr>e_mailboxes := mailboxes\<rparr>"
| "arrive (Templates vs loading) s = s\<lparr>e_templates := vs, e_loading := loading\<rparr>"
| "arrive (Page f) s = s\<lparr>e_session := f (e_session s)\<rparr>"
| "arrive Unmount s = unmounted s"
| "arrive Tick s = timer_fired s"
| "arrive (LaneSettled result) s = lane_settled result s"
| "arrive OldSettled s = old_settled s"
| "arrive (Answered result) s = answered result s"
| "arrive _ s = s"

text \<open>A field or a button that is no longer mounted does nothing.\<close>

definition editor_step :: "editor \<Rightarrow> editor_event \<Rightarrow> editor" where
  "editor_step s e = commit (arrive e (if e_mounted s then click e (edit e s) else s))"

abbreviation editor_run :: "editor \<Rightarrow> editor_event list \<Rightarrow> editor" where
  "editor_run \<equiv> foldl editor_step"

section \<open>The protocol of sending\<close>

text \<open>
  An abstract machine over what is observed. \<^verbatim>\<open>ph_armed\<close>: the user pressed Send and neither
  a revocation nor the unmount happened since. \<^verbatim>\<open>ph_op\<close> and \<^verbatim>\<open>ph_preview\<close>: an upload or
  a preview was started and its sender, for a preview also the permission, has stayed.
\<close>

record phase =
  ph_pin :: "pinned option"
  ph_armed :: bool
  ph_gone :: bool
  ph_op :: bool
  ph_preview :: bool

fun send_protocol :: "scope \<Rightarrow> phase \<Rightarrow> happening \<Rightarrow> phase option" where
  "send_protocol c ph Clicked = (if ph_gone ph then None else Some (ph\<lparr>ph_armed := True\<rparr>))"
| "send_protocol c ph Started =
     (if ph_gone ph then None else Some (ph\<lparr>ph_op := True, ph_preview := True\<rparr>))"
| "send_protocol c ph Revoked = Some (ph\<lparr>ph_armed := False, ph_preview := False\<rparr>)"
| "send_protocol c ph SenderLeft = Some (ph\<lparr>ph_op := False\<rparr>)"
| "send_protocol c ph Gone =
     Some (ph\<lparr>ph_gone := True, ph_armed := False, ph_op := False, ph_preview := False\<rparr>)"
| "send_protocol c ph (Submitted p now i) =
     (if ph_armed ph \<and> \<not> ph_gone ph \<and> now = c \<and> (ph_pin ph = None \<or> ph_pin ph = Some p)
      then Some (ph\<lparr>ph_pin := Some p, ph_armed := False\<rparr>) else None)"
| "send_protocol c ph (Queued now) =
     (if \<not> ph_gone ph \<and> now = c \<and> ph_pin ph \<noteq> None then Some ph else None)"
| "send_protocol c ph Rejected =
     (if \<not> ph_gone ph \<and> ph_pin ph \<noteq> None then Some (ph\<lparr>ph_pin := None\<rparr>) else None)"
| "send_protocol c ph Undecided = (if \<not> ph_gone ph \<and> ph_pin ph \<noteq> None then Some ph else None)"
| "send_protocol c ph (Previewed now) =
     (if \<not> ph_gone ph \<and> now = c \<and> ph_op ph \<and> ph_preview ph then Some ph else None)"
| "send_protocol c ph (Attached now) =
     (if \<not> ph_gone ph \<and> now = c \<and> ph_op ph then Some ph else None)"
| "send_protocol c ph Closed = (if ph_gone ph then None else Some ph)"
| "send_protocol c ph _ = Some ph"

definition fresh_phase :: phase where
  "fresh_phase = \<lparr>ph_pin = None, ph_armed = False, ph_gone = False, ph_op = False, ph_preview = False\<rparr>"

text \<open>What the waiting action still relies on.\<close>

definition operation_ok :: "bool \<Rightarrow> phase \<Rightarrow> editor \<Rightarrow> operation_owner \<Rightarrow> bool" where
  "operation_ok preview ph s own \<longleftrightarrow>
     oo_sender own \<le> so_generation (e_sender s) \<and> oo_permission own \<le> ow_permission (e_send s) \<and>
     (e_mounted s \<and> oo_sender own = so_generation (e_sender s) \<longrightarrow> ph_op ph) \<and>
     (preview \<and> e_mounted s \<and> oo_permission own = ow_permission (e_send s) \<longrightarrow> ph_preview ph)"

fun action_ok :: "phase \<Rightarrow> editor \<Rightarrow> action option \<Rightarrow> bool" where
  "action_ok ph s (Some (ASendSave own)) \<longleftrightarrow>
     ow_permission own \<le> ow_permission (e_send s) \<and> e_pending s = None \<and>
     (e_mounted s \<and> ow_permission own = ow_permission (e_send s) \<longrightarrow> ph_armed ph)"
| "action_ok ph s (Some (ASubmit own p)) \<longleftrightarrow> e_pending s = Some p"
| "action_ok ph s (Some (APreview own)) \<longleftrightarrow> operation_ok True ph s own"
| "action_ok ph s (Some (AUpload own base)) \<longleftrightarrow> operation_ok False ph s own"
| "action_ok ph s _ \<longleftrightarrow> True"

definition simulates :: "editor \<Rightarrow> phase \<Rightarrow> bool" where
  "simulates s ph \<longleftrightarrow>
     accepts (send_protocol (e_scope s)) fresh_phase (e_log s) = Some ph \<and>
     ph_pin ph = e_pending s \<and> ph_gone ph = (\<not> e_mounted s) \<and> action_ok ph s (e_action s)"

definition orderly_editor :: "editor \<Rightarrow> bool" where
  "orderly_editor s \<longleftrightarrow> (\<exists>ph. simulates s ph)"

text \<open>The part of the state the protocol depends on.\<close>

definition send_view :: "editor \<Rightarrow> _" where
  "send_view s = (e_scope s, e_log s, e_pending s, e_mounted s, e_action s, e_send s, e_sender s)"

lemma action_ok_cong:
  "send_view s = send_view t \<Longrightarrow> action_ok ph s a = action_ok ph t a"
  by (cases "(ph, s, a)" rule: action_ok.cases) (simp_all add: send_view_def operation_ok_def)

lemma orderly_cong: "send_view s = send_view t \<Longrightarrow> orderly_editor s \<Longrightarrow> orderly_editor t"
  using action_ok_cong[of s t] by (auto simp: orderly_editor_def simulates_def send_view_def)

lemma view_change [simp]:
  "send_view (change p s) = send_view s" "send_view (set_payload v s) = send_view s"
  "send_view (set_mailbox m s) = send_view s" "send_view (saved_error e s) = send_view s"
  by (simp_all add: send_view_def change_def set_payload_def set_mailbox_def saved_error_def)

lemma view_edit: "send_view (edit e s) = send_view s"
  by (cases e) simp_all

lemma orderlyE:
  assumes "orderly_editor s"
  obtains ph where "simulates s ph"
  using assms by (auto simp: orderly_editor_def)

text \<open>Observing an entry the protocol allows.\<close>

lemma orderly_observe:
  assumes "simulates s ph" "send_protocol (e_scope s) ph x = Some ph'"
    and "e_scope t = e_scope s" "e_log t = e_log s @ [x]"
    and "ph_pin ph' = e_pending t" "ph_gone ph' = (\<not> e_mounted t)" "action_ok ph' t (e_action t)"
  shows "orderly_editor t"
  using assms by (auto simp: orderly_editor_def simulates_def accepts_snoc)

lemma orderly_idle:
  assumes "orderly_editor s" "e_action t \<in> {None, Some ASave, Some AReload, Some ADownload}"
    "e_scope t = e_scope s" "e_log t = e_log s" "e_pending t = e_pending s" "e_mounted t = e_mounted s"
  shows "orderly_editor t"
  using assms by (auto simp: orderly_editor_def simulates_def)


lemma orderly_sender_effect: "orderly_editor s \<Longrightarrow> orderly_editor (sender_effect s)"
proof (elim orderlyE)
  fix ph assume s: "simulates s ph"
  define t where "t = sender_effect s"
  show "orderly_editor (sender_effect s)"
  proof (cases "so_mailbox (e_sender s) \<noteq> e_mailbox s \<or> so_allowed (e_sender s) \<and> \<not> senderAllowed s")
    case True
    then have "action_ok (ph\<lparr>ph_op := False\<rparr>) t (e_action t)" using s
      by (cases "(ph, s, e_action s)" rule: action_ok.cases)
        (auto simp: t_def sender_effect_def Let_def observe_def simulates_def operation_ok_def)
    with True s show ?thesis
      by (intro orderly_observe[where s = s and x = SenderLeft and ph' = "ph\<lparr>ph_op := False\<rparr>"])
        (auto simp: t_def sender_effect_def Let_def observe_def simulates_def)
  next
    case False
    then have "action_ok ph t (e_action t)" using s
      by (cases "(ph, s, e_action s)" rule: action_ok.cases)
        (auto simp: t_def sender_effect_def Let_def simulates_def operation_ok_def)
    with False s show ?thesis
      by (auto simp: t_def sender_effect_def Let_def simulates_def orderly_editor_def)
  qed
qed

lemma orderly_send_effect: "orderly_editor s \<Longrightarrow> orderly_editor (send_effect s)"
proof (elim orderlyE)
  fix ph assume s: "simulates s ph"
  define t where "t = send_effect s"
  show "orderly_editor (send_effect s)"
  proof (cases "ow_allowed (e_send s) \<and> \<not> sendAllowed s")
    case True
    then have "action_ok (ph\<lparr>ph_armed := False, ph_preview := False\<rparr>) t (e_action t)" using s
      by (cases "(ph, s, e_action s)" rule: action_ok.cases)
        (auto simp: t_def send_effect_def Let_def observe_def simulates_def operation_ok_def)
    with True s show ?thesis
      by (intro orderly_observe[where s = s and x = Revoked and
            ph' = "ph\<lparr>ph_armed := False, ph_preview := False\<rparr>"])
        (auto simp: t_def send_effect_def Let_def observe_def simulates_def)
  next
    case False
    then have "action_ok ph t (e_action t)" using s
      by (cases "(ph, s, e_action s)" rule: action_ok.cases)
        (auto simp: t_def send_effect_def Let_def simulates_def operation_ok_def)
    with False s show ?thesis
      by (auto simp: t_def send_effect_def Let_def simulates_def orderly_editor_def)
  qed
qed

lemma view_autosave [simp]: "send_view (autosave_effect s) = send_view s"
  by (simp add: autosave_effect_def send_view_def)

lemma orderly_commit: "orderly_editor s \<Longrightarrow> orderly_editor (commit s)"
  using orderly_cong[OF view_autosave[symmetric]] orderly_sender_effect orderly_send_effect
  by (simp add: commit_def)

text \<open>The end of an action, and the notes that are always allowed.\<close>

lemma orderly_finish: "orderly_editor s \<Longrightarrow> orderly_editor (finish_run r s)"
proof -
  assume s: "orderly_editor s"
  define t where "t = s\<lparr>e_action := None\<rparr>"
  have t: "orderly_editor t" by (rule orderly_idle[OF s]) (simp_all add: t_def)
  then obtain ph where ph: "simulates t ph" by (rule orderlyE)
  then have "orderly_editor (observe (Toast e) t)" for e
    by (intro orderly_observe[OF ph, where x = "Toast e" and ph' = ph])
      (simp_all add: observe_def simulates_def t_def)
  with t show ?thesis by (auto simp: finish_run_def t_def Let_def split: option.split)
qed

lemma orderly_saved_ok: "orderly_editor s \<Longrightarrow> orderly_editor (saved_ok v mute s)"
proof -
  assume s: "orderly_editor s"
  define t where "t = (if e_mounted s then s\<lparr>e_draft := v, e_error := None, e_saving := False\<rparr> else s)"
  have "send_view t = send_view s" by (simp add: t_def send_view_def)
  then have t: "orderly_editor t" using s orderly_cong by metis
  then obtain ph where ph: "simulates t ph" by (rule orderlyE)
  then have "action_ok ph (observe Saved t) (e_action t)"
    by (cases "(ph, t, e_action t)" rule: action_ok.cases)
      (simp_all add: simulates_def operation_ok_def observe_def)
  with ph have "orderly_editor (observe Saved t)"
    by (intro orderly_observe[OF ph, where x = Saved and ph' = ph]) (simp_all add: observe_def simulates_def)
  with t show ?thesis by (simp add: saved_ok_def t_def Let_def)
qed


lemma orderly_silent: "send_view s = send_view t \<Longrightarrow> orderly_editor s = orderly_editor t"
  using orderly_cong by metis

lemma orderly_saved_error [simp]: "orderly_editor (saved_error e s) = orderly_editor s"
  by (rule orderly_silent) simp

text \<open>
  A submission: the user pressed Send, nothing was revoked since, and what is pinned is what is
  submitted.
\<close>

lemma orderly_submit:
  assumes "simulates s ph" "send_still_allowed own s \<Longrightarrow> ph_armed ph"
    and "t = s\<lparr>e_pending := Some p\<rparr>" "e_pending s = None \<or> e_pending s = Some p"
    and "\<not> send_still_allowed own t \<Longrightarrow> orderly_editor t"
  shows "orderly_editor (submit_pinned own p t)"
proof (cases "send_still_allowed own t")
  case True
  then have allowed: "send_still_allowed own s"
    by (simp add: assms(3) send_still_allowed_def owns_editor_def in_scope_def)
  define u where "u = observe (Submitted p (sessionScope (e_session s)) (editor_input s))
     (t\<lparr>e_action := Some (ASubmit own p)\<rparr>)"
  have "orderly_editor u"
    using assms(1,2,4) allowed
    by (intro orderly_observe[OF assms(1), where ph' = "ph\<lparr>ph_pin := Some p, ph_armed := False\<rparr>"
          and x = "Submitted p (sessionScope (e_session s)) (editor_input s)"])
      (auto simp: u_def observe_def assms(3) simulates_def send_still_allowed_def owns_editor_def in_scope_def)
  moreover have "submit_pinned own p t = u"
    using True by (simp add: submit_pinned_def u_def assms(3) editor_input_def)
  ultimately show ?thesis by simp
qed (simp add: submit_pinned_def orderly_finish assms(5))


lemma still_allowed_cong:
  "in_scope t = in_scope s \<Longrightarrow> e_mounted t = e_mounted s \<Longrightarrow> e_send t = e_send s \<Longrightarrow>
    send_still_allowed own t = send_still_allowed own s"
  by (simp add: send_still_allowed_def owns_editor_def)

lemma orderly_send:
  assumes "orderly_editor s" "\<not> busy s"
  shows "orderly_editor (send s)"
proof -
  obtain ph where ph: "simulates s ph" using assms(1) by (rule orderlyE)
  define s' where "s' = observe Clicked s"
  have idle: "e_action s = None" using assms(2) by (simp add: busy_def)
  show ?thesis
  proof (cases "owns_editor (e_send s) s \<and> senderAllowed s")
    case True
    then have mounted: "e_mounted s" by (simp add: owns_editor_def)
    have s': "simulates s' (ph\<lparr>ph_armed := True\<rparr>)"
      using ph mounted idle by (simp add: simulates_def s'_def observe_def accepts_snoc)
    then have o: "orderly_editor s'" by (auto simp: orderly_editor_def)
    have "orderly_editor (submit_pinned (e_send s) p s')" if "e_pending s = Some p" for p
      by (rule orderly_submit[OF s' _ _ _ o]) (simp_all add: that s'_def observe_def)
    moreover have "orderly_editor (begin_save (ASendSave (e_send s)) (e_payload s) s')"
      if "e_pending s = None"
      using s' that unfolding orderly_editor_def
      by (intro exI[of _ "ph\<lparr>ph_armed := True\<rparr>"]) (simp add: simulates_def begin_save_def s'_def observe_def)
    ultimately show ?thesis
      using True o by (auto simp: send_def Let_def s'_def[symmetric] orderly_finish split: option.split)
  qed (auto simp: send_def Let_def assms(1))
qed

lemma orderly_sent_saved:
  assumes "orderly_editor s" "e_action s = Some (ASendSave own)"
  shows "orderly_editor (sent_saved own v s)"
proof -
  define s' where "s' = saved_ok v True s"
  have o: "orderly_editor s'" using orderly_saved_ok[OF assms(1)] by (simp add: s'_def)
  then obtain ph where ph: "simulates s' ph" by (rule orderlyE)
  have act: "e_action s' = Some (ASendSave own)" using assms(2) by (simp add: s'_def saved_ok_def)
  have "orderly_editor (submit_pinned own (pinned_of v) (s'\<lparr>e_pending := Some (pinned_of v)\<rparr>))"
    if "send_still_allowed own s'"
  proof (rule orderly_submit[OF ph _ refl])
    show "ph_armed ph" using ph act that
      by (simp add: simulates_def send_still_allowed_def owns_editor_def)
    show "e_pending s' = None \<or> e_pending s' = Some (pinned_of v)"
      using ph act by (simp add: simulates_def)
    show "orderly_editor (s'\<lparr>e_pending := Some (pinned_of v)\<rparr>)"
      if "\<not> send_still_allowed own (s'\<lparr>e_pending := Some (pinned_of v)\<rparr>)"
      using that \<open>send_still_allowed own s'\<close> still_allowed_cong[of "s'\<lparr>e_pending := Some (pinned_of v)\<rparr>" s']
      by (simp add: in_scope_def)
  qed
  then show ?thesis using o by (auto simp: sent_saved_def Let_def s'_def[symmetric] orderly_finish)
qed

lemma orderly_send_not_saved: "orderly_editor s \<Longrightarrow> orderly_editor (send_not_saved own e s)"
  by (simp add: send_not_saved_def Let_def orderly_finish)

lemma orderly_settled:
  assumes "orderly_editor s" "e_action s = Some (ASubmit own p)" "owns_editor own s"
  shows "orderly_editor (observe Rejected (s\<lparr>e_pending := None, e_action := None\<rparr>))"
    "orderly_editor (observe Undecided s)"
    "orderly_editor (observe (Queued (sessionScope (e_session s))) (s\<lparr>e_writer_closed := True\<rparr>))"
proof -
  obtain ph where ph: "simulates s ph" using assms(1) by (rule orderlyE)
  have e: "\<not> ph_gone ph" "ph_pin ph = Some p" "e_pending s = Some p" "e_mounted s"
    "e_scope s = sessionScope (e_session s)"
    using ph assms(2,3) by (simp_all add: simulates_def owns_editor_def in_scope_def)
  show "orderly_editor (observe Rejected (s\<lparr>e_pending := None, e_action := None\<rparr>))"
    by (rule orderly_observe[OF ph, where x = Rejected and ph' = "ph\<lparr>ph_pin := None\<rparr>"])
      (use e in \<open>simp_all add: observe_def\<close>)
  show "orderly_editor (observe Undecided s)"
    by (rule orderly_observe[OF ph, where x = Undecided and ph' = ph])
      (use e assms(2) in \<open>simp_all add: observe_def\<close>)
  show "orderly_editor (observe (Queued (sessionScope (e_session s))) (s\<lparr>e_writer_closed := True\<rparr>))"
    by (rule orderly_observe[OF ph, where x = "Queued (sessionScope (e_session s))" and ph' = ph])
      (use e assms(2) in \<open>simp_all add: observe_def\<close>)
qed

lemma finish_run_action [simp]: "finish_run r (s\<lparr>e_action := a\<rparr>) = finish_run r s"
  by (simp add: finish_run_def)

lemma finish_rejected:
  "finish_run r (observe Rejected (s\<lparr>e_pending := None\<rparr>)) =
    finish_run r (observe Rejected (s\<lparr>e_pending := None, e_action := None\<rparr>))"
  by (simp add: finish_run_def observe_def)

lemma orderly_submit_failed:
  assumes "orderly_editor s" "e_action s = Some (ASubmit own p)"
  shows "orderly_editor (submit_failed own e s)"
proof -
  have "orderly_editor (finish_run r (observe Rejected (s\<lparr>e_pending := None\<rparr>)))" if "owns_editor own s" for r
    unfolding finish_rejected by (rule orderly_finish[OF orderly_settled(1)[OF assms that]])
  then show ?thesis using orderly_settled(2)[OF assms] assms(1)
    by (auto simp: submit_failed_def orderly_finish)
qed

lemma orderly_submitted:
  "orderly_editor s \<Longrightarrow> e_action s = Some (ASubmit own p) \<Longrightarrow> orderly_editor (submitted own job s)"
  using orderly_settled(3)[of s own p] orderly_submit_failed[of s own p]
  by (auto simp: submitted_def orderly_finish)


lemma orderly_operation:
  assumes "orderly_editor s" "\<And>own ph t. action_ok ph t (Some (awaiting own)) = operation_ok preview ph t own"
    "\<not> busy s"
  shows "orderly_editor (senderOperation awaiting preview s)"
proof -
  obtain ph where ph: "simulates s ph" using assms(1) by (rule orderlyE)
  have "orderly_editor (observe Started (s\<lparr>e_action := Some (awaiting (operation_owner s))\<rparr>))"
    if "e_mounted s"
    by (rule orderly_observe[OF ph, where x = Started and ph' = "ph\<lparr>ph_op := True, ph_preview := True\<rparr>"])
      (use ph that in \<open>simp_all add: observe_def simulates_def assms(2) operation_ok_def operation_owner_def\<close>)
  then show ?thesis using assms(1) by (simp add: senderOperation_def Let_def owns_operation_def)
qed

lemma orderly_previewed:
  assumes "orderly_editor s" "e_action s = Some (APreview own)" "owns_operation True own s"
  shows "orderly_editor (show_preview v s)"
proof -
  obtain ph where ph: "simulates s ph" using assms(1) by (rule orderlyE)
  have "orderly_editor (observe (Previewed (sessionScope (e_session s))) (s\<lparr>e_preview := v\<rparr>))"
    by (rule orderly_observe[OF ph, where x = "Previewed (sessionScope (e_session s))" and ph' = ph])
      (use ph assms(2,3) in \<open>simp_all add: observe_def simulates_def operation_ok_def owns_operation_def in_scope_def\<close>)
  then show ?thesis using assms(1) by (simp add: show_preview_def orderly_finish)
qed

lemma orderly_attach:
  assumes "orderly_editor s" "e_action s = Some (AUpload own base)" "owns_operation False own s"
  shows "orderly_editor (attach base a s)"
proof -
  obtain ph where ph: "simulates s ph" using assms(1) by (rule orderlyE)
  define t where "t = change [(''attachment_ids'', Some (JArr (base @ [value_of (opt_prop a ''id'')])))]
    (s\<lparr>e_names := (opt_prop a ''id'', opt_prop a ''filename'') # e_names s\<rparr>)"
  have t: "send_view t = send_view s" unfolding t_def view_change by (simp add: send_view_def)
  have "orderly_editor (observe (Attached (sessionScope (e_session s))) t)"
  proof (rule orderly_observe[OF ph, where x = "Attached (sessionScope (e_session s))" and ph' = ph])
    show "send_protocol (e_scope s) ph (Attached (sessionScope (e_session s))) = Some ph"
      using ph assms(2,3) by (simp add: simulates_def operation_ok_def owns_operation_def in_scope_def)
    have "action_ok ph s (e_action s)" using ph by (simp add: simulates_def)
    then show "action_ok ph (observe (Attached (sessionScope (e_session s))) t)
        (e_action (observe (Attached (sessionScope (e_session s))) t))"
      using t assms(2) by (simp add: observe_def send_view_def operation_ok_def)
  qed (use ph t in \<open>simp_all add: observe_def send_view_def simulates_def\<close>)
  then show ?thesis
    using assms(1) by (simp add: attach_def t_def orderly_finish)
qed

lemma orderly_answered: "orderly_editor s \<Longrightarrow> orderly_editor (answered result s)"
  by (auto simp: answered_def operation_done_def orderly_finish
      intro: orderly_submitted orderly_submit_failed orderly_previewed orderly_attach
      split: option.split action.split sum.split)

lemma orderly_queue: "orderly_editor s \<Longrightarrow> orderly_editor (s\<lparr>e_lane := js\<rparr>)"
  by (rule orderly_cong[of s]) (simp_all add: send_view_def)

lemma view_reload: "send_view ((set_mailbox m (set_payload p s))
    \<lparr>e_draft := v, e_error := None, e_preview := None, e_reset := n\<rparr>) = send_view s"
  by (simp add: send_view_def set_mailbox_def set_payload_def)

lemma orderly_reloaded: "orderly_editor s \<Longrightarrow> orderly_editor (reloaded v s)"
  unfolding reloaded_def by (intro orderly_finish) (simp add: orderly_silent[OF view_reload])

lemma orderly_settle: "orderly_editor s \<Longrightarrow> orderly_editor (lane_settled result s)"
proof (cases "e_lane s")
  case (Cons j js)
  assume s: "orderly_editor s"
  define s' where "s' = s\<lparr>e_lane := js\<rparr>"
  have s': "orderly_editor s'" using orderly_queue[OF s] by (simp add: s'_def)
  have quiet: "orderly_editor (s'\<lparr>e_saving := False\<rparr>)"
    by (rule orderly_cong[OF _ s']) (simp add: send_view_def)
  have sent: "orderly_editor (sent_saved own v s')" if "e_action s = Some (ASendSave own)" for own v
    using orderly_sent_saved[OF s'] that by (simp add: s'_def)
  show ?thesis
    unfolding lane_settled_def Cons list.case Let_def s'_def[symmetric]
    by (auto simp: s' quiet sent orderly_finish orderly_saved_ok orderly_reloaded orderly_send_not_saved
        split: lane_job.split sum.split option.split action.split)
qed (simp add: lane_settled_def)


lemma orderly_begin_save: "orderly_editor s \<Longrightarrow> orderly_editor (begin_save ASave p s)"
  by (rule orderly_idle) (simp_all add: begin_save_def)

lemma view_copy: "send_view (copy_draft s) = send_view s"
  by (simp add: copy_draft_def send_view_def)

lemma orderly_unpin:
  "orderly_editor s \<Longrightarrow>
    orderly_editor (begin_save ASave p ((set_payload p s)\<lparr>e_preview := None\<rparr>))"
  by (rule orderly_idle) (simp_all add: begin_save_def set_payload_def)

lemma orderly_close:
  assumes "orderly_editor s" "e_mounted s" "\<not> busy s"
  shows "orderly_editor (observe Closed (s\<lparr>e_writer_closed := True\<rparr>))"
proof -
  obtain ph where ph: "simulates s ph" using assms(1) by (rule orderlyE)
  show ?thesis
    by (rule orderly_observe[OF ph, where x = Closed and ph' = ph])
      (use ph assms in \<open>simp_all add: observe_def simulates_def busy_def\<close>)
qed

lemma orderly_click: "orderly_editor s \<Longrightarrow> e_mounted s \<Longrightarrow> orderly_editor (click e s)"
proof (cases e)
  case ClickPreview
  assume s: "orderly_editor s"
  have "orderly_editor (senderOperation APreview True s)" if "\<not> locked s"
    by (rule orderly_operation[OF s]) (use that in \<open>auto simp: locked_def\<close>)
  then show ?thesis by (simp add: ClickPreview s)
next
  case (PickFile bytes)
  assume s: "orderly_editor s"
  have "orderly_editor (senderOperation (\<lambda>own. AUpload own b) False s)" if "\<not> locked s" for b
    by (rule orderly_operation[OF s]) (use that in \<open>auto simp: locked_def\<close>)
  then show ?thesis by (simp add: PickFile s Let_def orderly_finish)
next
  case (ClickReload yes)
  assume s: "orderly_editor s"
  have "orderly_editor (s\<lparr>e_action := Some AReload, e_lane := e_lane s @ [Reloading]\<rparr>)"
    by (rule orderly_idle[OF s]) simp_all
  then show ?thesis by (simp add: ClickReload s)
next
  case ClickDownload
  assume s: "orderly_editor s"
  have "orderly_editor (s\<lparr>e_action := Some ADownload\<rparr>)" by (rule orderly_idle[OF s]) simp_all
  then show ?thesis by (simp add: ClickDownload s)
qed (auto simp: orderly_begin_save orderly_unpin orderly_silent[OF view_copy] orderly_close
    send_enabled_def orderly_send split: option.split)

lemma orderly_unmount:
  assumes "orderly_editor s"
  shows "orderly_editor (arrive Unmount s)"
proof -
  obtain ph where ph: "simulates s ph" using assms by (rule orderlyE)
  define t where "t = observe Gone (s\<lparr>e_mounted := False, e_timer := None, e_lane := map deactivate (e_lane s),
      e_send := (e_send s)\<lparr>ow_mount := Suc (ow_mount (e_send s))\<rparr>\<rparr>)"
  define ph' where "ph' = ph\<lparr>ph_gone := True, ph_armed := False, ph_op := False, ph_preview := False\<rparr>"
  have "action_ok ph' t (e_action t)" using ph
    by (cases "(ph, s, e_action s)" rule: action_ok.cases)
      (simp_all add: t_def ph'_def simulates_def operation_ok_def observe_def)
  with ph have "orderly_editor t"
    by (intro orderly_observe[OF ph, where x = Gone and ph' = ph'])
      (simp_all add: ph'_def t_def observe_def simulates_def)
  with assms show ?thesis by (simp add: t_def)
qed

lemma orderly_arrive: "orderly_editor s \<Longrightarrow> orderly_editor (arrive e s)"
proof (cases e)
  case Unmount
  assume "orderly_editor s"
  then show ?thesis unfolding Unmount by (rule orderly_unmount)
qed (auto simp: orderly_settle orderly_answered send_view_def elim!: orderly_cong[rotated] split: option.split)

lemma orderly_step: "orderly_editor s \<Longrightarrow> orderly_editor (editor_step s e)"
  using orderly_click[of "edit e s" e] orderly_cong[OF view_edit[symmetric], of s e] view_edit[of e s]
  by (simp add: editor_step_def orderly_commit orderly_arrive send_view_def)

lemma orderly_run: "orderly_editor s \<Longrightarrow> orderly_editor (editor_run s es)"
  by (induction es arbitrary: s) (simp_all add: orderly_step)

lemma orderly_open: "orderly_editor (open_editor initial mailboxes session)"
  unfolding open_editor_def
  by (intro orderly_commit) (simp add: orderly_editor_def simulates_def fresh_phase_def)

lemma editor_scope_effects [simp]:
  "e_scope (observe x s) = e_scope s" "e_scope (commit s) = e_scope s"
  by (simp_all add: observe_def commit_def autosave_effect_def send_effect_def sender_effect_def Let_def)


section \<open>What is submitted is what is shown\<close>

text \<open>
  What the composer relies on when it pins a saved draft: the writer returns a draft with exactly
  the mailbox and content it was given.
\<close>

locale acknowledged_writer =
  fixes returned :: "draft_input \<Rightarrow> json \<Rightarrow> bool"
  assumes returned_key: "returned i v \<Longrightarrow> draftKey v = draftKey (input_json i)"

fun is_auto :: "lane_job \<Rightarrow> bool" where
  "is_auto (Auto a i) = True"
| "is_auto _ = False"

definition backed :: "json set \<Rightarrow> pinned \<Rightarrow> draft_input \<Rightarrow> bool" where
  "backed A p i \<longleftrightarrow> (\<exists>v\<in>A. pinned_of v = p \<and> draftKey v = draftKey (input_json i))"

definition ends_in :: "lane_job \<Rightarrow> editor \<Rightarrow> bool" where
  "ends_in j s \<longleftrightarrow> (\<exists>js. e_lane s = js @ [j] \<and> list_all is_auto js)"

definition only_autos :: "editor \<Rightarrow> bool" where
  "only_autos s \<longleftrightarrow> list_all is_auto (e_lane s)"

fun lane_ok :: "editor \<Rightarrow> action option \<Rightarrow> bool" where
  "lane_ok s (Some (ASendSave own)) \<longleftrightarrow> e_pending s = None \<and> ends_in (Explicit (editor_input s)) s"
| "lane_ok s (Some ASave) \<longleftrightarrow> e_pending s = None \<and> (\<exists>i. ends_in (Explicit i) s)"
| "lane_ok s (Some AReload) \<longleftrightarrow> e_pending s = None \<and> ends_in Reloading s"
| "lane_ok s (Some (ASubmit own p)) \<longleftrightarrow> e_pending s = Some p \<and> only_autos s"
| "lane_ok s (Some (APreview own)) \<longleftrightarrow> e_pending s = None \<and> only_autos s"
| "lane_ok s (Some (AUpload own base)) \<longleftrightarrow> e_pending s = None \<and> only_autos s"
| "lane_ok s _ \<longleftrightarrow> only_autos s"

definition pin_ok :: "json set \<Rightarrow> editor \<Rightarrow> bool" where
  "pin_ok A s \<longleftrightarrow>
     e_pending s = None \<or> e_lane s = [] \<and> backed A (the (e_pending s)) (editor_input s)"

fun entry_ok :: "json set \<Rightarrow> happening \<Rightarrow> bool" where
  "entry_ok A (Submitted p c i) = backed A p i"
| "entry_ok A _ = True"

definition log_ok :: "json set \<Rightarrow> editor \<Rightarrow> bool" where
  "log_ok A s \<longleftrightarrow> list_all (entry_ok A) (e_log s)"

definition held :: "json set \<Rightarrow> editor \<Rightarrow> bool" where
  "held A s \<longleftrightarrow> lane_ok s (e_action s) \<and> pin_ok A s \<and> log_ok A s"

text \<open>The timer of the autosave is armed only while nothing runs and nothing is pinned.\<close>

definition timed :: "editor \<Rightarrow> bool" where
  "timed s \<longleftrightarrow> (e_timer s \<noteq> None \<longrightarrow> e_mounted s \<and>
     (case e_deps s of Some (d, b, p, e) \<Rightarrow> \<not> b \<and> p = None | None \<Rightarrow> False))"

definition settled_timer :: "editor \<Rightarrow> bool" where
  "settled_timer s \<longleftrightarrow> timed s \<and> (e_timer s \<noteq> None \<longrightarrow> \<not> busy s \<and> e_pending s = None)"

lemma held_mono: "A \<subseteq> B \<Longrightarrow> held A s \<Longrightarrow> held B s"
proof -
  assume sub: "A \<subseteq> B" and h: "held A s"
  have b: "backed A p i \<Longrightarrow> backed B p i" for p i using sub by (auto simp: backed_def)
  then have "entry_ok A x \<Longrightarrow> entry_ok B x" for x by (cases x) simp_all
  with h b show "held B s" by (auto simp: held_def pin_ok_def log_ok_def list_all_iff split: option.splits)
qed

definition held_view :: "editor \<Rightarrow> _" where
  "held_view s = (e_action s, e_pending s, e_lane s, e_mailbox s, e_payload s, e_log s)"

lemma held_cong: "held_view s = held_view t \<Longrightarrow> held A s = held A t"
proof -
  assume v: "held_view s = held_view t"
  then have f: "e_pending s = e_pending t" "e_lane s = e_lane t" "editor_input s = editor_input t"
    "e_log s = e_log t" "e_action s = e_action t"
    by (simp_all add: held_view_def editor_input_def)
  have "lane_ok s a = lane_ok t a" for a
    by (cases "(s, a)" rule: lane_ok.cases) (simp_all add: f ends_in_def only_autos_def)
  with f show ?thesis by (simp add: held_def pin_ok_def log_ok_def)
qed

text \<open>A note that is no submission.\<close>

lemma held_observe: "entry_ok A x \<Longrightarrow> held A (observe x s) = held A s"
  by (cases "(s, e_action s)" rule: lane_ok.cases)
    (simp_all add: observe_def held_def pin_ok_def log_ok_def ends_in_def only_autos_def editor_input_def)

lemma held_finish:
  "only_autos s \<Longrightarrow> pin_ok A s \<Longrightarrow> log_ok A s \<Longrightarrow> held A (finish_run r s)"
  by (simp add: finish_run_def Let_def observe_def held_def pin_ok_def log_ok_def only_autos_def
      editor_input_def split: option.split)

lemma deactivate_auto [simp]: "is_auto (deactivate j) = is_auto j"
  by (cases j) simp_all

lemma list_all_deactivate [simp]: "list_all is_auto (map deactivate js) = list_all is_auto js"
  by (induction js) simp_all

lemma held_deactivate: "held A s \<Longrightarrow> held A (s\<lparr>e_lane := map deactivate (e_lane s)\<rparr>)"
  by (cases "(s, e_action s)" rule: lane_ok.cases)
    (auto simp: held_def pin_ok_def log_ok_def ends_in_def only_autos_def editor_input_def
      split: option.splits)

lemma held_effects:
  "held A s \<Longrightarrow> held A (commit s)"
proof -
  assume h: "held A s"
  have "held A (sender_effect s)"
  proof -
    have "held_view (s\<lparr>e_sender := x\<rparr>) = held_view s" for x by (simp add: held_view_def)
    then show ?thesis using h held_cong[of "s\<lparr>e_sender := x\<rparr>" s for x]
      by (auto simp: sender_effect_def Let_def held_observe)
  qed
  moreover have "held A t \<Longrightarrow> held A (send_effect t)" for t
  proof -
    assume h: "held A t"
    have "held_view (t\<lparr>e_send := x\<rparr>) = held_view t" for x by (simp add: held_view_def)
    then show ?thesis using h held_cong[of "t\<lparr>e_send := x\<rparr>" t for x]
      by (auto simp: send_effect_def Let_def held_observe)
  qed
  moreover have "held A t \<Longrightarrow> held A (autosave_effect t)" for t
    using held_deactivate[of A t]
      held_cong[of "t\<lparr>e_lane := map deactivate (e_lane t)\<rparr>"
        "t\<lparr>e_deps := d, e_lane := map deactivate (e_lane t), e_timer := i\<rparr>" for d i]
    by (auto simp: autosave_effect_def held_view_def)
  ultimately show ?thesis using h by (simp add: commit_def)
qed


text \<open>While nothing runs and nothing is pinned the content is free.\<close>

lemma held_free:
  assumes "held A s" "e_action s = None" "e_action t = None" "e_pending t = None"
    "e_lane t = e_lane s" "e_log t = e_log s"
  shows "held A t"
  using assms by (simp add: held_def pin_ok_def log_ok_def only_autos_def)

lemma held_edit: "held A s \<Longrightarrow> held A (edit e s)"
proof -
  assume h: "held A s"
  have free: "held A (change p t)" if "\<not> locked s" "t = s \<or> t = set_mailbox m s" for p t m
    using that by (intro held_free[OF h]) (auto simp: locked_def busy_def change_def set_payload_def set_mailbox_def)
  then show ?thesis using h by (cases e) (auto simp: editable_def)
qed

lemma held_begin:
  assumes "held A s" "\<not> busy s" "e_pending s = None"
    and "t = s \<or> t = (set_payload p s)\<lparr>e_preview := None\<rparr>"
  shows "held A (begin_save ASave p t)"
  using assms by (auto simp: held_def busy_def begin_save_def set_payload_def pin_ok_def log_ok_def
      only_autos_def ends_in_def)

lemma held_submit:
  "only_autos t \<Longrightarrow> pin_ok A t \<Longrightarrow> log_ok A t \<Longrightarrow> e_pending t = Some p \<Longrightarrow> held A (submit_pinned own p t)"
  by (auto simp: submit_pinned_def held_finish)
    (simp add: observe_def held_def pin_ok_def log_ok_def only_autos_def editor_input_def)

lemma held_send:
  assumes h: "held A s" and idle: "\<not> busy s"
  shows "held A (send s)"
proof -
  define s' where "s' = observe Clicked s"
  have s': "held A s'" using h by (simp add: s'_def held_observe)
  have a: "only_autos s'" "pin_ok A s'" "log_ok A s'"
    using s' idle by (simp_all add: held_def busy_def s'_def observe_def)
  have "held A (submit_pinned own p s')" if "e_pending s = Some p" for own p
    using a that by (intro held_submit) (simp_all add: s'_def observe_def)
  moreover have "held A (begin_save (ASendSave own) (e_payload s) s')" if "e_pending s = None" for own
    using a that
    by (auto simp: begin_save_def held_def ends_in_def only_autos_def s'_def observe_def editor_input_def
        pin_ok_def log_ok_def)
  ultimately show ?thesis using h a
    by (auto simp: send_def Let_def s'_def[symmetric] held_finish split: option.split)
qed

lemma held_operation:
  assumes "held A s" "\<not> locked s" "\<And>own t. lane_ok t (Some (awaiting own)) \<longleftrightarrow> e_pending t = None \<and> only_autos t"
  shows "held A (senderOperation awaiting preview s)" "only_autos (senderOperation awaiting preview s)"
    "pin_ok A (senderOperation awaiting preview s)" "log_ok A (senderOperation awaiting preview s)"
  using assms by (auto simp: senderOperation_def Let_def observe_def held_def pin_ok_def log_ok_def
      only_autos_def locked_def busy_def)

lemma held_click: "held A s \<Longrightarrow> held A (click e s)"
proof (cases e)
  case ClickPreview
  assume "held A s"
  then show ?thesis unfolding ClickPreview by (auto intro: held_operation)
next
  case (PickFile bytes)
  assume "held A s"
  then show ?thesis unfolding PickFile by (auto simp: Let_def intro!: held_finish held_operation)
next
  case (ClickReload yes)
  assume "held A s"
  then show ?thesis
    by (auto simp: ClickReload idle_alert_def busy_def held_def pin_ok_def log_ok_def only_autos_def ends_in_def)
next
  case ClickDownload
  assume "held A s"
  then show ?thesis by (auto simp: ClickDownload busy_def held_def pin_ok_def log_ok_def only_autos_def editor_input_def)
next
  case (ClickCopy yes)
  assume "held A s"
  then show ?thesis
    by (auto simp: ClickCopy copy_draft_def idle_alert_def busy_def held_def pin_ok_def log_ok_def only_autos_def)
next
  case (ClickClose yes)
  assume h: "held A s"
  have "held_view (s\<lparr>e_writer_closed := True\<rparr>) = held_view s" by (simp add: held_view_def)
  then have "held A (s\<lparr>e_writer_closed := True\<rparr>) = held A s" by (rule held_cong)
  with h show ?thesis by (simp add: ClickClose held_observe)
qed (auto simp: held_begin idle_alert_def locked_def held_send send_enabled_def split: option.split)

lemma only_autos_answered:
  "held A s \<Longrightarrow> e_action s \<notin> {Some ASave, Some AReload} \<Longrightarrow> \<forall>own. e_action s \<noteq> Some (ASendSave own) \<Longrightarrow>
    only_autos s \<and> pin_ok A s \<and> log_ok A s"
  by (cases "(s, e_action s)" rule: lane_ok.cases) (auto simp: held_def)

lemma held_submit_failed:
  "only_autos s \<Longrightarrow> pin_ok A s \<Longrightarrow> log_ok A s \<Longrightarrow> held A (submit_failed own e s)"
  by (auto simp: submit_failed_def observe_def only_autos_def pin_ok_def log_ok_def editor_input_def
      intro!: held_finish)

lemma held_submitted:
  "only_autos s \<Longrightarrow> pin_ok A s \<Longrightarrow> log_ok A s \<Longrightarrow> held A (submitted own job s)"
  by (auto simp: submitted_def held_submit_failed)
    (auto simp: observe_def only_autos_def pin_ok_def log_ok_def editor_input_def intro!: held_finish)

lemma held_show_preview:
  "only_autos s \<Longrightarrow> pin_ok A s \<Longrightarrow> log_ok A s \<Longrightarrow> held A (show_preview v s)"
  by (auto simp: show_preview_def observe_def only_autos_def pin_ok_def log_ok_def editor_input_def
      intro!: held_finish)

lemma held_attach:
  "only_autos s \<Longrightarrow> e_pending s = None \<Longrightarrow> log_ok A s \<Longrightarrow> held A (attach base v s)"
  by (auto simp: attach_def observe_def only_autos_def pin_ok_def log_ok_def change_def set_payload_def
      intro!: held_finish)

lemma held_answered: "held A s \<Longrightarrow> held A (answered result s)"
proof -
  assume h: "held A s"
  note parts = only_autos_answered[OF h]
  have "e_pending s = None" if "e_action s = Some (AUpload own base)" for own base
    using h that by (simp add: held_def)
  then show ?thesis using h parts
    by (auto simp: answered_def operation_done_def held_submitted held_submit_failed held_show_preview
        held_attach held_finish split: option.split action.split sum.split)
qed


definition timer_view :: "editor \<Rightarrow> _" where
  "timer_view s = (e_timer s, e_deps s, e_mounted s, e_scope s)"

lemma timed_cong: "timer_view s = timer_view t \<Longrightarrow> timed s = timed t"
  by (simp add: timer_view_def timed_def)

lemmas quiet_defs = timer_view_def change_def set_payload_def set_mailbox_def saved_ok_def saved_error_def
  finish_run_def observe_def begin_save_def copy_draft_def submit_pinned_def senderOperation_def Let_def

lemma timer_basic [simp]:
  "timer_view (change p s) = timer_view s" "timer_view (set_mailbox m s) = timer_view s"
  "timer_view (finish_run r s) = timer_view s" "timer_view (observe x s) = timer_view s"
  "timer_view (begin_save a q1 s) = timer_view s" "timer_view (copy_draft s) = timer_view s"
  "timer_view (submit_pinned own q s) = timer_view s" "timer_view (saved_ok v mute s) = timer_view s"
  "timer_view (saved_error e s) = timer_view s" "timer_view (senderOperation w b s) = timer_view s"
  "timer_view (set_payload q1 s) = timer_view s"
  by (simp_all add: quiet_defs split: option.split)

lemma timer_fields [simp]:
  "timer_view (s\<lparr>e_preview := x1\<rparr>) = timer_view s" "timer_view (s\<lparr>e_action := x2\<rparr>) = timer_view s"
  "timer_view (s\<lparr>e_lane := x3\<rparr>) = timer_view s" "timer_view (s\<lparr>e_pending := x4\<rparr>) = timer_view s"
  "timer_view (s\<lparr>e_writer_closed := x5\<rparr>) = timer_view s" "timer_view (s\<lparr>e_names := x6\<rparr>) = timer_view s"
  "timer_view (s\<lparr>e_saving := x7\<rparr>) = timer_view s" "timer_view (s\<lparr>e_old := x8\<rparr>) = timer_view s"
  "timer_view (s\<lparr>e_action := x2, e_lane := x3\<rparr>) = timer_view s"
  "timer_view (s\<lparr>e_old := x8, e_saving := x7\<rparr>) = timer_view s"
  "timer_view (s\<lparr>e_mailboxes := y1\<rparr>) = timer_view s" "timer_view (s\<lparr>e_session := y2\<rparr>) = timer_view s"
  "timer_view (s\<lparr>e_templates := y3, e_loading := y4\<rparr>) = timer_view s"
  "timer_view (s\<lparr>e_draft := z1, e_error := z2, e_preview := z3, e_reset := z4\<rparr>) = timer_view s"
  by (simp_all add: timer_view_def)

lemma timer_edit [simp]: "timer_view (edit e s) = timer_view s"
  by (cases e) simp_all

lemma timer_send [simp]: "timer_view (send s) = timer_view s"
  by (simp add: send_def Let_def split: option.split)

lemma timer_click [simp]: "timer_view (click e s) = timer_view s"
  by (cases e) (simp_all add: Let_def split: option.split)

lemma timer_submit_failed [simp]: "timer_view (submit_failed own e s) = timer_view s"
  by (simp add: submit_failed_def)

lemma timer_answered [simp]: "timer_view (answered r s) = timer_view s"
  by (simp add: answered_def submitted_def operation_done_def show_preview_def attach_def
      split: option.split action.split sum.split)

lemma timer_settle [simp]: "timer_view (lane_settled r s) = timer_view s"
  by (simp add: lane_settled_def Let_def sent_saved_def send_not_saved_def reloaded_def
      split: list.split lane_job.split sum.split option.split action.split)

lemma timed_arrive: "timed s \<Longrightarrow> timed (arrive e s)"
proof (cases e)
  case Unmount
  then show "timed s \<Longrightarrow> timed (arrive e s)" by (auto simp: timed_def observe_def)
next
  case Tick
  then show "timed s \<Longrightarrow> timed (arrive e s)" by (simp add: timed_def split: option.split)
next
  case OldSettled
  assume "timed s"
  then show ?thesis unfolding OldSettled arrive.simps by (auto simp: timed_def)
next
  case (LaneSettled r)
  assume "timed s"
  then show ?thesis using timed_cong[of "lane_settled r s" s] by (simp add: LaneSettled)
next
  case (Answered r)
  assume "timed s"
  then show ?thesis using timed_cong[of "answered r s" s] by (simp add: Answered)
qed (simp_all add: timed_def)

lemma effects_frame [simp]:
  "timer_view (send_effect s) = timer_view s" "timer_view (sender_effect s) = timer_view s"
  by (simp_all add: send_effect_def sender_effect_def Let_def timer_view_def observe_def)

lemma settled_commit: "timed s \<Longrightarrow> settled_timer (commit s)"
proof -
  assume "timed s"
  then have t: "timed (send_effect (sender_effect s))"
    using timed_cong[of "send_effect (sender_effect s)" s] by simp
  have m: "e_mounted (send_effect (sender_effect s)) = e_mounted s"
    using effects_frame[of s] effects_frame(1)[of "sender_effect s"] by (simp add: timer_view_def)
  have "settled_timer (autosave_effect u)" if "timed u" "e_mounted u" for u
    using that by (auto simp: autosave_effect_def settled_timer_def timed_def autosave_deps_def busy_def)
  with t m \<open>timed s\<close> show ?thesis by (auto simp: commit_def settled_timer_def timed_def)
qed

lemma settled_step: "settled_timer s \<Longrightarrow> settled_timer (editor_step s e)"
proof -
  assume "settled_timer s"
  then have "timed (if e_mounted s then click e (edit e s) else s)"
    using timed_cong[of "click e (edit e s)" s] by (simp add: settled_timer_def)
  then show ?thesis by (simp add: editor_step_def settled_commit timed_arrive)
qed


lemma scope_arrive: "e_scope (arrive e s) = e_scope s"
proof (cases e)
  case (LaneSettled r)
  then show ?thesis using timer_settle[of r s] by (simp add: timer_view_def)
next
  case (Answered r)
  then show ?thesis using timer_answered[of r s] by (simp add: timer_view_def)
qed (simp_all split: option.split)

lemma scope_run: "e_scope (editor_run s es) = e_scope s"
proof (induction es arbitrary: s)
  case (Cons e es)
  have "e_scope (click e (edit e s)) = e_scope s"
    using timer_click[of e "edit e s"] timer_edit[of e s] by (simp add: timer_view_def)
  then show ?case using Cons by (simp add: editor_step_def scope_arrive)
qed simp

definition given :: "editor_event list \<Rightarrow> json set" where
  "given es = {v. LaneSettled (Inr v) \<in> set es}"

definition answer_ok :: "(draft_input \<Rightarrow> json \<Rightarrow> bool) \<Rightarrow> editor \<Rightarrow> editor_event \<Rightarrow> bool" where
  "answer_ok returned s e =
     (case e of LaneSettled (Inr v) \<Rightarrow> (case e_lane s of Explicit i # js \<Rightarrow> returned i v | _ \<Rightarrow> True)
      | _ \<Rightarrow> True)"

text \<open>Every answer to a save of the run is one the writer can give.\<close>

fun answers_ok :: "(draft_input \<Rightarrow> json \<Rightarrow> bool) \<Rightarrow> editor \<Rightarrow> editor_event list \<Rightarrow> bool" where
  "answers_ok returned s [] = True"
| "answers_ok returned s (e # es) =
     (answer_ok returned s e \<and> answers_ok returned (editor_step s e) es)"

lemma held_saved_ok:
  "e_action s \<noteq> None \<Longrightarrow> only_autos s \<Longrightarrow> pin_ok A s \<Longrightarrow> log_ok A s \<Longrightarrow> held A (finish_run None (saved_ok v mute s))"
  by (rule held_finish)
    (simp_all add: saved_ok_def Let_def observe_def only_autos_def pin_ok_def log_ok_def editor_input_def)

lemma parts_saved_ok:
  "only_autos (saved_ok v mute s) = only_autos s" "pin_ok A (saved_ok v mute s) = pin_ok A s"
  "log_ok A (saved_ok v mute s) = log_ok A s" "e_lane (saved_ok v mute s) = e_lane s"
  "editor_input (saved_ok v mute s) = editor_input s" "e_pending (saved_ok v mute s) = e_pending s"
  by (simp_all add: saved_ok_def Let_def observe_def only_autos_def pin_ok_def log_ok_def editor_input_def)

lemma parts_saved_error:
  "only_autos (saved_error e s) = only_autos s" "pin_ok A (saved_error e s) = pin_ok A s"
  "log_ok A (saved_error e s) = log_ok A s"
  by (simp_all add: saved_error_def only_autos_def pin_ok_def log_ok_def editor_input_def)

lemma held_sent_saved:
  assumes "e_lane s = []" "e_pending s = None" "log_ok A s" "v \<in> A"
    "draftKey v = draftKey (input_json (editor_input s))"
  shows "held A (sent_saved own v s)"
proof -
  define s' where "s' = saved_ok v True s"
  have p: "only_autos s'" "pin_ok A s'" "log_ok A s'" "e_lane s' = []"
    using assms by (simp_all add: s'_def parts_saved_ok only_autos_def pin_ok_def)
  define t where "t = s'\<lparr>e_pending := Some (pinned_of v)\<rparr>"
  have "editor_input t = editor_input s" unfolding t_def s'_def
    by (simp add: editor_input_def saved_ok_def Let_def)
  then have "pin_ok A t" using assms(4,5) p(4) by (auto simp: t_def pin_ok_def backed_def)
  moreover have "only_autos t" "log_ok A t" using p by (simp_all add: t_def only_autos_def log_ok_def)
  ultimately have "held A (submit_pinned own (pinned_of v) t)"
    by (intro held_submit) (simp_all add: t_def)
  then show ?thesis using p
    by (auto simp: sent_saved_def Let_def s'_def[symmetric] t_def[symmetric] intro: held_finish)
qed

lemma held_shorter: "held A s \<Longrightarrow> e_lane s = Auto a i # js \<Longrightarrow> held A (s\<lparr>e_lane := js\<rparr>)"
proof -
  assume h: "held A s" "e_lane s = Auto a i # js"
  have "ends_in (Explicit (editor_input s)) s \<Longrightarrow> ends_in (Explicit (editor_input s)) (s\<lparr>e_lane := js\<rparr>)"
    "ends_in (Explicit k) s \<Longrightarrow> ends_in (Explicit k) (s\<lparr>e_lane := js\<rparr>)"
    "ends_in Reloading s \<Longrightarrow> ends_in Reloading (s\<lparr>e_lane := js\<rparr>)" for k
    using h(2) by (auto simp: ends_in_def Cons_eq_append_conv)
  with h show ?thesis
    by (cases "(s, e_action s)" rule: lane_ok.cases)
      (auto simp: held_def pin_ok_def log_ok_def only_autos_def editor_input_def)
qed

lemma head_explicit:
  assumes "held A s" "e_lane s = Explicit i # js"
  shows "js = []" "e_pending s = None" "log_ok A s" "e_action s = Some ASave \<or>
    (\<exists>own. e_action s = Some (ASendSave own)) \<and> i = editor_input s"
  using assms
  by (cases "(s, e_action s)" rule: lane_ok.cases;
      auto simp: held_def pin_ok_def only_autos_def ends_in_def Cons_eq_append_conv)+

lemma head_reloading:
  assumes "held A s" "e_lane s = Reloading # js"
  shows "js = []" "e_pending s = None" "log_ok A s"
  using assms
  by (cases "(s, e_action s)" rule: lane_ok.cases;
      auto simp: held_def pin_ok_def only_autos_def ends_in_def Cons_eq_append_conv)+

lemma held_auto:
  "held A s \<Longrightarrow> held A (saved_ok v True s)" "held A s \<Longrightarrow> held A (saved_error e s)"
  "held A s \<Longrightarrow> held A (s\<lparr>e_saving := False\<rparr>)"
proof -
  have v: "held_view (saved_ok v True s) = held_view s" "held_view (saved_error e s) = held_view s"
    "held_view (s\<lparr>e_saving := False\<rparr>) = held_view s"
    by (simp_all add: held_view_def saved_ok_def saved_error_def Let_def)
  then show "held A s \<Longrightarrow> held A (saved_ok v True s)" "held A s \<Longrightarrow> held A (saved_error e s)"
    "held A s \<Longrightarrow> held A (s\<lparr>e_saving := False\<rparr>)"
    using held_cong[OF v(1), of A] held_cong[OF v(2), of A] held_cong[OF v(3), of A] by simp_all
qed

lemma held_reloaded:
  "e_lane s = [] \<Longrightarrow> e_pending s = None \<Longrightarrow> log_ok A s \<Longrightarrow> held A (reloaded v s)"
  unfolding reloaded_def
  by (rule held_finish) (simp_all add: only_autos_def pin_ok_def log_ok_def set_mailbox_def set_payload_def)


context acknowledged_writer
begin

lemma held_settle:
  assumes "held A s" "answer_ok returned s (LaneSettled r)" "\<And>v. r = Inr v \<Longrightarrow> v \<in> A"
  shows "held A (lane_settled r s)"
proof (cases "e_lane s")
  case (Cons j js)
  define s' where "s' = s\<lparr>e_lane := js\<rparr>"
  show ?thesis
  proof (cases j)
    case (Auto a i)
    have "held A s'" using held_shorter[OF assms(1)] Cons Auto by (simp add: s'_def)
    then show ?thesis unfolding lane_settled_def Cons Auto list.case Let_def s'_def[symmetric]
      by (auto simp: held_auto split: sum.split)
  next
    case (Explicit i)
    note head = head_explicit[OF assms(1) Cons[unfolded Explicit]]
    have free: "only_autos s'" "pin_ok A s'" "log_ok A s'"
      using head(1-3) by (simp_all add: s'_def only_autos_def pin_ok_def log_ok_def)
    have sent: "held A (sent_saved own v s')" if "r = Inr v" "i = editor_input s" for own v
    proof (rule held_sent_saved)
      show "draftKey v = draftKey (input_json (editor_input s'))"
        using returned_key[of i v] assms(2) that Cons Explicit
        by (simp add: answer_ok_def s'_def editor_input_def)
    qed (use head assms(3) that in \<open>simp_all add: s'_def log_ok_def\<close>)
    have failed: "held A (send_not_saved own e s')" for own e
      using free by (simp add: send_not_saved_def Let_def held_finish parts_saved_error)
    from head(4) show ?thesis unfolding lane_settled_def Cons Explicit list.case Let_def s'_def[symmetric]
      using free sent failed
      by (auto simp: held_finish parts_saved_ok parts_saved_error split: sum.split)
  next
    case Reloading
    note head = head_reloading[OF assms(1) Cons[unfolded Reloading]]
    then show ?thesis unfolding lane_settled_def Cons Reloading list.case Let_def s'_def[symmetric]
      by (auto simp: s'_def only_autos_def pin_ok_def log_ok_def intro!: held_finish held_reloaded
          split: sum.split)
  qed
qed (simp add: lane_settled_def assms(1))

lemma held_arrive:
  assumes h: "held A s" and "e = Tick \<Longrightarrow> settled_timer s" "answer_ok returned s e" "given [e] \<subseteq> A"
  shows "held A (arrive e s)"
proof (cases e)
  case Unmount
  define t where "t = s\<lparr>e_lane := map deactivate (e_lane s)\<rparr>"
  have t: "held A t" using held_deactivate[OF h] by (simp add: t_def)
  have v: "held_view (s\<lparr>e_mounted := False, e_timer := None, e_lane := map deactivate (e_lane s),
      e_send := x\<rparr>) = held_view t" for x by (simp add: t_def held_view_def)
  have "held A (s\<lparr>e_mounted := False, e_timer := None, e_lane := map deactivate (e_lane s),
      e_send := x\<rparr>)" for x using held_cong[OF v, of A x] t by blast
  then show ?thesis by (simp add: Unmount h held_observe)
next
  case Tick
  then show ?thesis using h assms(2)
    by (auto simp: settled_timer_def busy_def held_def pin_ok_def log_ok_def only_autos_def split: option.split)
next
  case (LaneSettled r)
  then show ?thesis using held_settle[OF h, of r] assms(3,4) by (auto simp: given_def)
next
  case (Answered r)
  then show ?thesis by (simp add: held_answered h)
next
  case OldSettled
  have v: "held_view (s\<lparr>e_old := n, e_saving := False\<rparr>) = held_view s"
    "held_view (s\<lparr>e_old := n\<rparr>) = held_view s" for n by (simp_all add: held_view_def)
  show ?thesis using held_cong[OF v(1)] held_cong[OF v(2)] h by (simp add: OldSettled)
next
  case (Boxes b)
  have v: "held_view (s\<lparr>e_mailboxes := b\<rparr>) = held_view s" by (simp add: held_view_def)
  show ?thesis using held_cong[OF v] h by (simp add: Boxes)
next
  case (Templates b l)
  have v: "held_view (s\<lparr>e_templates := b, e_loading := l\<rparr>) = held_view s" by (simp add: held_view_def)
  show ?thesis using held_cong[OF v] h by (simp add: Templates)
next
  case (Page f)
  have v: "held_view (s\<lparr>e_session := f (e_session s)\<rparr>) = held_view s" by (simp add: held_view_def)
  show ?thesis using held_cong[OF v] h by (simp add: Page)
qed (simp_all add: h)

lemma held_step:
  assumes "held A s" "settled_timer s" "answer_ok returned s e" "given [e] \<subseteq> A"
  shows "held A (editor_step s e)"
proof -
  define u where "u = (if e_mounted s then click e (edit e s) else s)"
  have same: "u = s" if "(\<exists>r. e = LaneSettled r) \<or> e = Tick" using that by (auto simp: u_def)
  have "held A (arrive e u)"
  proof (rule held_arrive[OF _ _ _ assms(4)])
    show "held A u" using assms(1) by (simp add: u_def held_click held_edit)
    show "settled_timer u" if "e = Tick" using same that assms(2) by simp
    show "answer_ok returned u e" using same assms(3) by (cases e) (auto simp: answer_ok_def)
  qed
  then show ?thesis by (simp add: editor_step_def u_def[symmetric] held_effects)
qed

lemma given_simps: "given [] = {}" "given (e # es) = given [e] \<union> given es"
  by (auto simp: given_def)

lemma held_run:
  "held A s \<Longrightarrow> settled_timer s \<Longrightarrow> answers_ok returned s es \<Longrightarrow> held (A \<union> given es) (editor_run s es)"
proof (induction es arbitrary: A s)
  case (Cons e es)
  have "held (A \<union> given [e]) (editor_step s e)"
    using Cons.prems by (intro held_step) (auto intro: held_mono[of A])
  then have "held (A \<union> given [e] \<union> given es) (editor_run (editor_step s e) es)"
    using Cons.IH Cons.prems settled_step by auto
  then show ?case by (simp add: given_simps(2)[of e es] Un_assoc)
qed (simp add: given_def)

lemma held_open: "held {} (open_editor initial mailboxes session) \<and> settled_timer (open_editor initial mailboxes session)"
  unfolding open_editor_def
  by (intro conjI held_effects settled_commit)
    (simp_all add: held_def only_autos_def pin_ok_def log_ok_def timed_def)

lemma submissions_backed:
  assumes "answers_ok returned (open_editor initial mailboxes session) es"
  shows "held (given es) (editor_run (open_editor initial mailboxes session) es)"
  using held_run[OF _ _ assms, of "{}"] held_open by simp

end

text \<open>The writer of the development keeps that contract.\<close>

definition writer_returned :: "draft_input \<Rightarrow> json \<Rightarrow> bool" where
  "writer_returned i v \<longleftrightarrow>
     (\<exists>initial uuid s script js t. save i (snd (run_lane js (construct initial uuid s script))) = (Ret v, t))"

interpretation draft_lane: acknowledged_writer writer_returned
proof
  fix i v assume "writer_returned i v"
  then obtain initial uuid s script js t where
    "save i (snd (run_lane js (construct initial uuid s script))) = (Ret v, t)"
    by (auto simp: writer_returned_def)
  from wp_Ret[OF this wp_save[OF orderly_lane[OF construct_orderly]]]
  show "draftKey v = draftKey (input_json i)" by (simp add: saved_def)
qed

section \<open>Properties\<close>

text \<open>
  C5: whatever the user, the server, the parent component and the session do and in whatever
  order, the composer follows the sending protocol: every submission answers one press of Send in
  the editor's own session, with the permission never lost in between; until a definite refusal
  every further submission repeats the pinned draft, revision and key; nothing is submitted,
  reported as queued, previewed or attached after the unmount, in another session, or for a sender
  that has left.
\<close>

theorem compose_send_protocol:
  "case accepts (send_protocol (sessionScope session)) fresh_phase
       (e_log (editor_run (open_editor initial mailboxes session) es)) of
     Some ph \<Rightarrow> ph_pin ph = e_pending (editor_run (open_editor initial mailboxes session) es)
   | None \<Rightarrow> False"
proof -
  have "e_scope (open_editor initial mailboxes session) = sessionScope session"
    by (simp add: open_editor_def)
  then show ?thesis
    using orderly_run[OF orderly_open, of initial mailboxes session es]
      scope_run[of "open_editor initial mailboxes session" es]
    by (auto simp: orderly_editor_def simulates_def)
qed

text \<open>
  C35: a submission names the id and revision under which the writer saved exactly the mailbox and
  content that were on the screen when it was made, and while a submission is pinned the screen
  keeps showing that content.
\<close>

theorem compose_submits_shown:
  assumes "answers_ok writer_returned (open_editor initial mailboxes session) es"
    and "Submitted p now i \<in> set (e_log (editor_run (open_editor initial mailboxes session) es))"
  shows "(\<exists>v\<in>given es. pinned_of v = p \<and> draftKey v = draftKey (input_json i)) \<and>
    (case e_pending (editor_run (open_editor initial mailboxes session) es) of None \<Rightarrow> True
     | Some q \<Rightarrow> \<exists>v\<in>given es. pinned_of v = q \<and>
         draftKey v = draftKey (input_json (editor_input (editor_run (open_editor initial mailboxes session) es))))"
proof -
  let ?s = "editor_run (open_editor initial mailboxes session) es"
  have h: "log_ok (given es) ?s" "pin_ok (given es) ?s"
    using draft_lane.submissions_backed[OF assms(1)] by (simp_all add: held_def)
  from h(1) assms(2) have "entry_ok (given es) (Submitted p now i)"
    by (simp only: log_ok_def list_all_iff)
  with h(2) show ?thesis by (auto simp: pin_ok_def backed_def split: option.split)
qed

definition sample_box :: work_mailbox where
  "sample_box = \<lparr>wm_mailbox = \<lparr>mb_kind = ''personal'', mb_owner_user_id = None, mb_id = ''m1'',
       mb_tenant_id = ''t1'', mb_zone_id = ''z1'', mb_route_id = None, mb_local_part = ''ada'',
       mb_resolved_domain = ''example.com'', mb_full_address = ''ada@example.com'',
       mb_access_mode = ''token'', mb_retention_hours_override = None, mb_expires_at = None,
       mb_created_at = ''now'', mb_send_policy = None\<rparr>,
     wm_can_read = True, wm_can_organize = True, wm_can_send = True, wm_template_only = False,
     wm_revision = Fin 1\<rparr>"

definition sample_payload :: json where
  "sample_payload = JObj [(''to'', JArr [JStr ''bob@example.com'']), (''subject'', JStr ''hi''),
     (''text_body'', JStr '''')]"

definition sample_draft :: json where
  "sample_draft = JObj [(''mailbox_id'', JStr ''m1''), (''payload'', sample_payload),
     (''revision'', JNum (Fin 0))]"

definition sample_ack :: json where
  "sample_ack = JObj [(''id'', JStr ''d1''), (''mailbox_id'', JStr ''m1''), (''payload'', sample_payload),
     (''revision'', JNum (Fin 1)), (''updated_at'', JStr ''now'')]"

definition sample_opened :: editor where
  "sample_opened = open_editor sample_draft [sample_box] logged_in"

lemma sample_saved:
  "writer_returned \<lparr>i_mailbox_id = JStr ''m1'', i_payload = sample_payload\<rparr> sample_ack"
proof -
  let ?r = "save \<lparr>i_mailbox_id = JStr ''m1'', i_payload = sample_payload\<rparr>
    (snd (run_lane [] (construct sample_draft ''d1'' logged_in
      [\<lparr>dt_env = (\<lambda>s. s), dt_close = False, dt_result = Inr (Some sample_ack)\<rparr>])))"
  have "fst ?r = Ret sample_ack" by code_simp
  then have "?r = (Ret sample_ack, snd ?r)" by (metis prod.collapse)
  then show ?thesis unfolding writer_returned_def by blast
qed

lemma sample_clicked:
  "e_lane (editor_step sample_opened ClickSend) =
     [Explicit \<lparr>i_mailbox_id = JStr ''m1'', i_payload = sample_payload\<rparr>]"
  by code_simp

lemma sample_submitted:
  "e_log (editor_run sample_opened [ClickSend, LaneSettled (Inr sample_ack)]) =
     [Clicked, Submitted (pinned_of sample_ack) (sessionScope logged_in)
        \<lparr>i_mailbox_id = JStr ''m1'', i_payload = sample_payload\<rparr>]"
  by code_simp

theorem compose_submits_shown_witness:
  "\<exists>v\<in>given [ClickSend, LaneSettled (Inr sample_ack)]. pinned_of v = pinned_of sample_ack \<and>
     draftKey v = draftKey (input_json \<lparr>i_mailbox_id = JStr ''m1'', i_payload = sample_payload\<rparr>)"
proof -
  have "answers_ok writer_returned (open_editor sample_draft [sample_box] logged_in)
      [ClickSend, LaneSettled (Inr sample_ack)]"
    using sample_saved by (simp add: answer_ok_def sample_clicked flip: sample_opened_def)
  from compose_submits_shown[OF this, of "pinned_of sample_ack" "sessionScope logged_in"
      "\<lparr>i_mailbox_id = JStr ''m1'', i_payload = sample_payload\<rparr>"]
  show ?thesis by (simp only: sample_opened_def[symmetric] sample_submitted) simp
qed

end
