(* ===== verification/AuthContext.thy ===== *)
theory AuthContext
  imports Access ErrorCode
begin

text \<open>
  The authentication provider of \<^verbatim>\<open>web/contexts/auth-context.tsx\<close>: the cached snapshot of
  the stored identity, the effect that loads the effective permissions, and the operations it hands
  to the pages. Another tab, the transport and the pages change the stored session
  (\<^verbatim>\<open>Stored\<close>); React renders at any later time (\<^verbatim>\<open>Render\<close>), and only then is the
  effect run.

  React compares the user of two renders by identity. Equal cached snapshots are the same object,
  so the identity of the user is kept as the number of the snapshot it was parsed for. The ref
  \<^verbatim>\<open>permsFetchedForToken\<close> holds the text \<^verbatim>\<open>token + scope\<close>; the model keeps the pair.
\<close>

section \<open>The snapshot\<close>

record snapshot =
  sn_token :: "item option"
  sn_user :: "json option"
  sn_tenant :: "item option"

definition serverSnapshot :: snapshot where
  "serverSnapshot = \<lparr>sn_token = None, sn_user = None, sn_tenant = None\<rparr>"

definition next_snapshot :: "session \<Rightarrow> snapshot" where
  "next_snapshot s =
     \<lparr>sn_token = s_storage s TOKEN_KEY, sn_user = parsed_user (s_storage s USER_KEY),
      sn_tenant = s_storage s TENANT_KEY\<rparr>"

text \<open>The cached snapshot with its number.\<close>

type_synonym cache = "(snapshot \<times> nat) option"

definition readSnapshot :: "session \<Rightarrow> cache \<Rightarrow> (snapshot \<times> nat) \<times> cache" where
  "readSnapshot s cached =
     (if \<not> s_window s then ((serverSnapshot, 0), cached)
      else let fresh = next_snapshot s
           in case cached of
                Some (old, n) \<Rightarrow>
                  if old = fresh then ((old, n), cached)
                  else ((fresh, Suc n), Some (fresh, Suc n))
              | None \<Rightarrow> ((fresh, 1), Some (fresh, 1)))"

text \<open>Reading twice without a change gives the same object, which is what stops React's store loop.\<close>

lemma readSnapshot_stable:
  "readSnapshot s c = (r, c') \<Longrightarrow> readSnapshot s c' = (r, c')"
  by (auto simp: readSnapshot_def Let_def split: if_splits option.splits prod.splits)

definition setStorageItem :: "string \<Rightarrow> string option \<Rightarrow> session \<Rightarrow> session" where
  "setStorageItem key v s =
     (if \<not> s_window s then s
      else case v of
        Some t \<Rightarrow> if t \<noteq> [] \<and> js_trim t \<noteq> [] then set_item key (Raw t) s else remove_items [key] s
      | None \<Rightarrow> remove_items [key] s)"

definition text_present :: "item option \<Rightarrow> bool" where
  "text_present v = (v \<noteq> None \<and> v \<noteq> Some (Raw []))"

definition signed_in :: "snapshot \<Rightarrow> bool" where
  "signed_in sn = (text_present (sn_token sn) \<and> truthy (sn_user sn))"

definition level_of :: "snapshot \<Rightarrow> level" where
  "level_of sn =
     (if signed_in sn then
        (if opt_prop (sn_user sn) ''role'' = Some (JStr ''super_admin'') then SuperAdmin
         else if opt_prop (sn_user sn) ''role'' = Some (JStr ''admin'') then Admin else User)
      else Public)"

section \<open>State\<close>

type_synonym owner = "item option \<times> scope"

record permission_request =
  pr_owner :: owner
  pr_cancelled :: bool
  pr_done :: bool

text \<open>
  \<^verbatim>\<open>au_shown\<close> and \<^verbatim>\<open>au_scope\<close> are the values of the last render; \<^verbatim>\<open>au_cleanup\<close> is the
  request the cleanup of the effect would cancel; \<^verbatim>\<open>au_origin\<close> is a ghost: the identity the
  present permissions were loaded for.
\<close>

record auth =
  au_session :: session
  au_cache :: cache
  au_hydrated :: bool
  au_shown :: "snapshot \<times> nat"
  au_scope :: scope
  au_permissions :: "effective_permission option"
  au_loading :: bool
  au_error :: bool
  au_fetched :: "owner option"
  au_requests :: "permission_request list"
  au_cleanup :: "nat option"
  au_deps :: "(item option \<times> nat option \<times> scope) option"
  au_logouts :: "scope list"
  au_toasts :: nat
  au_origin :: "owner option"

text \<open>No two null users differ.\<close>

definition user_identity :: "snapshot \<times> nat \<Rightarrow> nat option" where
  "user_identity shown =
     (if sn_user (fst shown) = None \<or> sn_user (fst shown) = Some JNull then None else Some (snd shown))"

definition closed_permission :: effective_permission where
  "closed_permission = \<lparr>ep_can_send = False, ep_daily_send_quota = Fin 0,
     ep_daily_receive_quota = Fin 0, ep_max_mailboxes = Fin 0, ep_max_domains = Fin 0,
     ep_allowed_zone_ids = None, ep_can_create_domains = False, ep_can_create_routes = False,
     ep_can_create_api_keys = False, ep_domain_access_mode = None\<rparr>"

section \<open>The effect\<close>

definition cancel :: "nat option \<Rightarrow> permission_request list \<Rightarrow> permission_request list" where
  "cancel i rs = (case i of None \<Rightarrow> rs | Some n \<Rightarrow> rs[n := (rs ! n)\<lparr>pr_cancelled := True\<rparr>])"

definition shown_owner :: "auth \<Rightarrow> owner" where
  "shown_owner a = (sn_token (fst (au_shown a)), au_scope a)"

definition effect_deps :: "auth \<Rightarrow> item option \<times> nat option \<times> scope" where
  "effect_deps a = (sn_token (fst (au_shown a)), user_identity (au_shown a), au_scope a)"

definition permission_effect :: "auth \<Rightarrow> auth" where
  "permission_effect a =
     (if \<not> signed_in (fst (au_shown a))
      then a\<lparr>au_permissions := None, au_error := False, au_fetched := None, au_origin := None\<rparr>
      else if au_fetched a = Some (shown_owner a) then a
      else a\<lparr>au_fetched := Some (shown_owner a), au_loading := True,
             au_cleanup := Some (length (au_requests a)),
             au_requests := au_requests a @
               [\<lparr>pr_owner = shown_owner a, pr_cancelled = False, pr_done = False\<rparr>]\<rparr>)"

definition run_effect :: "auth \<Rightarrow> auth" where
  "run_effect a =
     (if au_deps a = Some (effect_deps a) then a
      else permission_effect (a\<lparr>au_deps := Some (effect_deps a),
             au_requests := cancel (au_cleanup a) (au_requests a), au_cleanup := None\<rparr>))"

definition render :: "auth \<Rightarrow> auth" where
  "render a =
     (if au_hydrated a
      then (case readSnapshot (au_session a) (au_cache a) of (shown, c) \<Rightarrow>
              run_effect (a\<lparr>au_shown := shown, au_cache := c, au_scope := sessionScope (au_session a)\<rparr>))
      else run_effect (a\<lparr>au_shown := (serverSnapshot, 0), au_scope := sessionScope (au_session a)\<rparr>))"

section \<open>Operations\<close>

definition permissions_settled :: "nat \<Rightarrow> exn + effective_permission \<Rightarrow> auth \<Rightarrow> auth" where
  "permissions_settled i result a =
     (if i < length (au_requests a) \<and> \<not> pr_done (au_requests a ! i)
      then (let r = au_requests a ! i;
                a' = a\<lparr>au_requests := (au_requests a)[i := r\<lparr>pr_done := True\<rparr>]\<rparr>
            in if pr_cancelled r then a'
               else a'\<lparr>au_permissions := Some (case result of Inr p \<Rightarrow> p | Inl e \<Rightarrow> closed_permission),
                       au_error := (case result of Inr p \<Rightarrow> False | Inl e \<Rightarrow> True),
                       au_loading := False, au_origin := Some (pr_owner r)\<rparr>)
      else a)"

definition loginWithTokens :: "json \<Rightarrow> json \<Rightarrow> auth \<Rightarrow> auth" where
  "loginWithTokens accessToken user a = a\<lparr>au_session := installSession accessToken user (au_session a)\<rparr>"

definition setTenantId :: "string option \<Rightarrow> auth \<Rightarrow> auth" where
  "setTenantId i a =
     a\<lparr>au_session := advanceSession (setStorageItem TENANT_KEY (map_option js_trim i) (au_session a))\<rparr>"

definition finish_logout :: "auth \<Rightarrow> auth" where
  "finish_logout a =
     (let s = clearSessionCredentials (au_session a);
          s = setStorageItem TOKEN_KEY None s;
          s = remove_items [USER_KEY] s;
          s = setStorageItem TENANT_KEY None s
      in a\<lparr>au_session := dispatch_auth s, au_permissions := None, au_error := False,
           au_fetched := None, au_origin := None\<rparr>)"

definition logout :: "auth \<Rightarrow> auth" where
  "logout a =
     (if text_present (s_storage (au_session a) TOKEN_KEY)
      then a\<lparr>au_logouts := au_logouts a @ [sessionScope (au_session a)]\<rparr>
      else finish_logout a)"

text \<open>The answer of \<^verbatim>\<open>logoutSession\<close>, which itself may have changed the session.\<close>

definition logout_answered :: "nat \<Rightarrow> (session \<Rightarrow> session) \<Rightarrow> exn option \<Rightarrow> auth \<Rightarrow> auth" where
  "logout_answered i f failure a =
     (if i < length (au_logouts a)
      then (let before = au_logouts a ! i;
                a' = a\<lparr>au_session := f (au_session a),
                       au_logouts := take i (au_logouts a) @ drop (Suc i) (au_logouts a)\<rparr>
            in if before \<noteq> sessionScope (au_session a') then a'
               else case failure of
                 Some e \<Rightarrow> if errorCode e \<noteq> Some ''UNAUTHORIZED''
                   then a'\<lparr>au_toasts := Suc (au_toasts a')\<rparr> else finish_logout a'
               | None \<Rightarrow> finish_logout a')
      else a)"

datatype auth_event = Hydrate | Render | Stored "session \<Rightarrow> session"
  | PermissionsSettled nat "exn + effective_permission" | LoginWith json json | TenantChosen "string option"
  | Logout | LogoutAnswered nat "session \<Rightarrow> session" "exn option"

fun auth_step :: "auth \<Rightarrow> auth_event \<Rightarrow> auth" where
  "auth_step a Hydrate = render (a\<lparr>au_hydrated := True\<rparr>)"
| "auth_step a Render = render a"
| "auth_step a (Stored f) = a\<lparr>au_session := f (au_session a)\<rparr>"
| "auth_step a (PermissionsSettled i result) = permissions_settled i result a"
| "auth_step a (LoginWith accessToken user) = loginWithTokens accessToken user a"
| "auth_step a (TenantChosen i) = setTenantId i a"
| "auth_step a Logout = logout a"
| "auth_step a (LogoutAnswered i f failure) = logout_answered i f failure a"

definition mount_auth :: "session \<Rightarrow> auth" where
  "mount_auth s =
     render \<lparr>au_session = s, au_cache = None, au_hydrated = False, au_shown = (serverSnapshot, 0),
       au_scope = sessionScope s, au_permissions = None, au_loading = False, au_error = False,
       au_fetched = None, au_requests = [], au_cleanup = None, au_deps = None, au_logouts = [],
       au_toasts = 0, au_origin = None\<rparr>"

abbreviation auth_run :: "auth \<Rightarrow> auth_event list \<Rightarrow> auth" where
  "auth_run \<equiv> foldl auth_step"

section \<open>The invariant\<close>

definition active :: "auth \<Rightarrow> nat \<Rightarrow> bool" where
  "active a j \<longleftrightarrow> j < length (au_requests a) \<and> \<not> pr_cancelled (au_requests a ! j) \<and> \<not> pr_done (au_requests a ! j)"

definition auth_inv :: "auth \<Rightarrow> bool" where
  "auth_inv a \<longleftrightarrow>
     au_deps a = Some (effect_deps a) \<and>
     (\<forall>i. au_cleanup a = Some i \<longrightarrow> i < length (au_requests a) \<and> pr_owner (au_requests a ! i) = shown_owner a \<and>
        signed_in (fst (au_shown a))) \<and>
     (\<forall>j. active a j \<longrightarrow> au_cleanup a = Some j \<and> au_loading a) \<and>
     (au_fetched a = None \<or> au_fetched a = Some (shown_owner a)) \<and>
     (au_permissions a \<noteq> None \<and> \<not> au_loading a \<longrightarrow> au_origin a = Some (shown_owner a)) \<and>
     (\<not> signed_in (fst (au_shown a)) \<longrightarrow> au_permissions a = None \<and> \<not> au_error a)"

lemma auth_inv_cong:
  assumes "auth_inv a" "au_shown b = au_shown a" "au_scope b = au_scope a" "au_deps b = au_deps a"
    "au_cleanup b = au_cleanup a" "au_loading b = au_loading a"
    "length (au_requests b) = length (au_requests a)" "\<And>j. active b j \<Longrightarrow> active a j"
    "\<And>j. pr_owner (au_requests b ! j) = pr_owner (au_requests a ! j)"
    "au_fetched b = au_fetched a \<or> au_fetched b = None"
    "au_permissions b = au_permissions a \<and> au_origin b = au_origin a \<and> au_error b = au_error a \<or>
     au_permissions b = None \<and> \<not> au_error b"
  shows "auth_inv b"
proof -
  have "effect_deps b = effect_deps a" "shown_owner b = shown_owner a"
    using assms(2,3) by (simp_all add: effect_deps_def shown_owner_def)
  then show ?thesis using assms unfolding auth_inv_def by (metis option.distinct(1))
qed

lemma auth_inv_settled:
  assumes "auth_inv a"
  shows "auth_inv (permissions_settled i result a)"
proof (cases "active a i")
  case True
  then have c: "au_cleanup a = Some i" using assms by (simp add: auth_inv_def)
  let ?b = "permissions_settled i result a"
  have r: "au_requests ?b = (au_requests a)[i := (au_requests a ! i)\<lparr>pr_done := True\<rparr>]"
    using True by (simp add: permissions_settled_def active_def Let_def)
  have none: "\<not> active ?b j" for j
  proof
    assume j: "active ?b j"
    have "j \<noteq> i" using j True by (auto simp: active_def r)
    with j have "active a j" by (auto simp: active_def r nth_list_update)
    then have "au_cleanup a = Some j" using assms by (simp add: auth_inv_def)
    with c \<open>j \<noteq> i\<close> show False by simp
  qed
  have f: "au_deps ?b = au_deps a" "effect_deps ?b = effect_deps a" "au_cleanup ?b = Some i"
    "shown_owner ?b = shown_owner a" "au_shown ?b = au_shown a" "au_fetched ?b = au_fetched a"
    "au_origin ?b = Some (pr_owner (au_requests a ! i))" "pr_owner (au_requests ?b ! i) = pr_owner (au_requests a ! i)"
    "length (au_requests ?b) = length (au_requests a)"
    using True c by (simp_all add: permissions_settled_def active_def Let_def effect_deps_def shown_owner_def)
  show ?thesis using assms none c f by (simp add: auth_inv_def)
next
  case False
  show ?thesis
  proof (cases "i < length (au_requests a) \<and> \<not> pr_done (au_requests a ! i)")
    case True
    then have b: "permissions_settled i result a =
        a\<lparr>au_requests := (au_requests a)[i := (au_requests a ! i)\<lparr>pr_done := True\<rparr>]\<rparr>"
      using False by (simp add: permissions_settled_def active_def Let_def)
    have "active a j" if "active (a\<lparr>au_requests := (au_requests a)[i := (au_requests a ! i)\<lparr>pr_done := True\<rparr>]\<rparr>) j" for j
      using that by (cases "j = i") (auto simp: active_def)
    moreover have "pr_owner ((au_requests a)[i := (au_requests a ! i)\<lparr>pr_done := True\<rparr>] ! k) = pr_owner (au_requests a ! k)"
      for k using True by (cases "k = i") auto
    ultimately show ?thesis unfolding b by (intro auth_inv_cong[OF assms]) simp_all
  qed (auto simp: permissions_settled_def assms)
qed

text \<open>An effect that runs cancels the only request that could still settle.\<close>

lemma cancelled_all:
  assumes "auth_inv a"
  shows "j < length (au_requests a) \<Longrightarrow> \<not> pr_cancelled (cancel (au_cleanup a) (au_requests a) ! j) \<Longrightarrow>
     pr_done (cancel (au_cleanup a) (au_requests a) ! j)"
  using assms
  by (cases "au_cleanup a") (auto simp: auth_inv_def active_def cancel_def nth_list_update split: if_splits)

lemma length_cancel [simp]: "length (cancel i rs) = length rs"
  by (simp add: cancel_def split: option.split)

lemma auth_inv_effect:
  assumes "auth_inv a" "b = a\<lparr>au_shown := shown, au_cache := c, au_scope := scope\<rparr>"
    and "effect_deps b = effect_deps a \<Longrightarrow> signed_in (fst shown) = signed_in (fst (au_shown a))"
  shows "auth_inv (run_effect b)"
proof (cases "au_deps b = Some (effect_deps b)")
  case True
  then have d: "effect_deps b = effect_deps a" using assms(1) by (simp add: auth_inv_def assms(2))
  then have "shown_owner b = shown_owner a" by (simp add: effect_deps_def shown_owner_def)
  moreover have "active b j = active a j" for j by (simp add: active_def assms(2))
  moreover have "signed_in (fst (au_shown b)) = signed_in (fst (au_shown a))"
    using assms(3)[OF d] by (simp add: assms(2))
  ultimately have "auth_inv b"
    using assms(1) d by (simp add: auth_inv_def) (simp add: assms(2))
  with True show ?thesis by (simp add: run_effect_def)
next
  case False
  define u where "u = b\<lparr>au_deps := Some (effect_deps b),
    au_requests := cancel (au_cleanup b) (au_requests b), au_cleanup := None\<rparr>"
  have u: "effect_deps u = effect_deps b" "shown_owner u = shown_owner b" "au_shown u = shown"
    by (simp_all add: u_def assms(2) effect_deps_def shown_owner_def)
  have none: "\<not> active u j" for j
    using cancelled_all[OF assms(1), of j] by (auto simp: active_def u_def assms(2))
  have origin: "au_origin u = Some (shown_owner u)"
    if "au_fetched u = Some (shown_owner u)" "au_permissions u \<noteq> None" "\<not> au_loading u"
    using that assms(1) by (auto simp: auth_inv_def u_def assms(2) shown_owner_def)
  have "auth_inv (permission_effect u)"
    using none origin
    by (auto simp: permission_effect_def auth_inv_def active_def effect_deps_def shown_owner_def u_def
        nth_append less_Suc_eq split: if_splits)
  with False show ?thesis by (simp add: run_effect_def u_def)
qed

definition cache_ok :: "auth \<Rightarrow> bool" where
  "cache_ok a \<longleftrightarrow> (case au_cache a of
     None \<Rightarrow> au_shown a = (serverSnapshot, 0)
   | Some (sn, n) \<Rightarrow> 0 < n \<and> (au_shown a = (sn, n) \<or> au_shown a = (serverSnapshot, 0)))"

lemma cache_ok_cong: "au_cache b = au_cache a \<Longrightarrow> au_shown b = au_shown a \<Longrightarrow> cache_ok b = cache_ok a"
  by (simp add: cache_ok_def cong: option.case_cong)

lemma run_effect_frame [simp]:
  "au_cache (run_effect a) = au_cache a" "au_shown (run_effect a) = au_shown a"
  by (simp_all add: run_effect_def permission_effect_def)

lemma read_cases:
  assumes "readSnapshot s c = (shown, c')"
  shows "shown = (serverSnapshot, 0) \<and> c' = c \<or> (\<exists>sn n. shown = (sn, n) \<and> c' = Some (sn, n) \<and>
    (c = Some (sn, n) \<or> n = (case c of None \<Rightarrow> 1 | Some (sn', m) \<Rightarrow> Suc m)))"
  using assms by (auto simp: readSnapshot_def Let_def split: if_splits option.splits)

lemma unsigned_server [simp]: "\<not> signed_in serverSnapshot"
  by (simp add: signed_in_def serverSnapshot_def)

lemma same_deps_signed:
  assumes "cache_ok a" "shown = (serverSnapshot, 0) \<or> readSnapshot s (au_cache a) = (shown, c)"
    and "user_identity shown = user_identity (au_shown a)" "sn_token (fst shown) = sn_token (fst (au_shown a))"
  shows "signed_in (fst shown) = signed_in (fst (au_shown a))"
proof (cases "user_identity (au_shown a)")
  case None
  then show ?thesis using assms(3) by (auto simp: user_identity_def signed_in_def split: if_splits)
next
  case (Some n)
  then have "snd shown = n" "snd (au_shown a) = n" "shown \<noteq> (serverSnapshot, 0)"
    "au_shown a \<noteq> (serverSnapshot, 0)"
    using assms(3) by (auto simp: user_identity_def serverSnapshot_def split: if_splits)
  then have "shown = au_shown a" using assms(1,2) read_cases[of s "au_cache a" shown c]
    by (auto simp: cache_ok_def split: option.splits)
  then show ?thesis by simp
qed

lemma auth_inv_render:
  assumes "auth_inv a" "cache_ok a"
  shows "auth_inv (render a) \<and> cache_ok (render a)"
proof (cases "au_hydrated a")
  case True
  obtain shown c where r: "readSnapshot (au_session a) (au_cache a) = (shown, c)"
    by (cases "readSnapshot (au_session a) (au_cache a)")
  have "cache_ok (render a)" using read_cases[OF r] assms(2) True
    by (auto simp: render_def r cache_ok_def split: option.splits)
  moreover have "auth_inv (render a)" unfolding render_def
    using True same_deps_signed[OF assms(2), of shown "au_session a" c] r
    by (simp add: r) (rule auth_inv_effect[OF assms(1) refl]; simp add: effect_deps_def)
  ultimately show ?thesis by simp
next
  case False
  have "cache_ok (render a)" using assms(2) False
    by (auto simp: render_def cache_ok_def split: option.splits)
  moreover have "auth_inv (run_effect (a\<lparr>au_shown := (serverSnapshot, 0), au_cache := au_cache a,
      au_scope := sessionScope (au_session a)\<rparr>))"
    using same_deps_signed[OF assms(2), of "(serverSnapshot, 0)"]
    by (intro auth_inv_effect[OF assms(1) refl]) (simp add: effect_deps_def)
  then have "auth_inv (render a)" using False by (simp add: render_def)
  ultimately show ?thesis by simp
qed


lemma auth_inv_mount: "auth_inv (mount_auth s) \<and> cache_ok (mount_auth s)"
  by (simp add: mount_auth_def render_def run_effect_def permission_effect_def auth_inv_def active_def
      cancel_def effect_deps_def shown_owner_def cache_ok_def)

lemma auth_inv_frame:
  assumes "auth_inv a" "cache_ok a"
  shows "auth_inv (a\<lparr>au_session := s, au_logouts := l, au_toasts := n\<rparr>)"
    "cache_ok (a\<lparr>au_session := s, au_logouts := l, au_toasts := n\<rparr>)"
  using assms(2) cache_ok_cong[of "a\<lparr>au_session := s, au_logouts := l, au_toasts := n\<rparr>" a]
  by (auto intro!: auth_inv_cong[OF assms(1)] simp: active_def)

lemma auth_inv_logged_out:
  assumes "auth_inv a" "cache_ok a"
  shows "auth_inv (finish_logout a) \<and> cache_ok (finish_logout a)"
proof
  show "auth_inv (finish_logout a)" unfolding finish_logout_def Let_def
    by (intro auth_inv_cong[OF assms(1)]) (simp_all add: active_def)
  show "cache_ok (finish_logout a)"
    using assms(2) cache_ok_cong[of "finish_logout a" a] by (simp add: finish_logout_def Let_def)
qed

lemma auth_inv_step: "auth_inv a \<and> cache_ok a \<Longrightarrow> auth_inv (auth_step a e) \<and> cache_ok (auth_step a e)"
proof -
  assume "auth_inv a \<and> cache_ok a"
  then have i: "auth_inv a" "cache_ok a" by simp_all
  note frame = auth_inv_frame[OF i]
  note session = frame[where l = "au_logouts a" and n = "au_toasts a", simplified]
  show ?thesis
  proof (cases e)
    case Hydrate
    have "auth_inv (a\<lparr>au_hydrated := True\<rparr>)" "cache_ok (a\<lparr>au_hydrated := True\<rparr>)"
      using i(2) cache_ok_cong[of "a\<lparr>au_hydrated := True\<rparr>" a]
      by (auto intro!: auth_inv_cong[OF i(1)] simp: active_def)
    then show ?thesis using auth_inv_render by (simp add: Hydrate)
  next
    case Render
    then show ?thesis using auth_inv_render[OF i] by simp
  next
    case (PermissionsSettled j r)
    then show ?thesis using auth_inv_settled[OF i(1)] i(2) cache_ok_cong[of "permissions_settled j r a" a]
      by (simp add: permissions_settled_def Let_def)
  next
    case Logout
    then show ?thesis
      using auth_inv_logged_out[OF i] frame[where s = "au_session a" and n = "au_toasts a"]
      by (simp add: logout_def)
  next
    case (LogoutAnswered j f failure)
    let ?b = "a\<lparr>au_session := f (au_session a), au_logouts := take j (au_logouts a) @ drop (Suc j) (au_logouts a)\<rparr>"
    have b: "auth_inv ?b" "cache_ok ?b"
      using frame[where s = "f (au_session a)" and n = "au_toasts a"] by simp_all
    have "auth_inv (?b\<lparr>au_toasts := n\<rparr>)" "cache_ok (?b\<lparr>au_toasts := n\<rparr>)" for n
      using frame[where s = "f (au_session a)"] by simp_all
    then show ?thesis using b auth_inv_logged_out[OF b] i
      by (auto simp: LogoutAnswered logout_answered_def Let_def split: option.split)
  qed (use session in \<open>simp_all add: loginWithTokens_def setTenantId_def\<close>)
qed

text \<open>A failed read closes every capability.\<close>

definition fails_closed :: "auth \<Rightarrow> bool" where
  "fails_closed a \<longleftrightarrow> (au_error a \<longrightarrow> au_permissions a = Some closed_permission)"

lemma fails_closed_render: "fails_closed a \<Longrightarrow> fails_closed (render a)"
  by (auto simp: fails_closed_def render_def run_effect_def permission_effect_def split: prod.splits if_splits)

lemma fails_closed_step: "fails_closed a \<Longrightarrow> fails_closed (auth_step a e)"
proof (cases e)
  case Hydrate
  assume "fails_closed a"
  then show ?thesis unfolding Hydrate auth_step.simps by (intro fails_closed_render) (simp add: fails_closed_def)
next
  case Render
  assume "fails_closed a"
  then show ?thesis unfolding Render auth_step.simps by (rule fails_closed_render)
qed (auto simp: fails_closed_def permissions_settled_def loginWithTokens_def setTenantId_def logout_def
    logout_answered_def finish_logout_def Let_def split: option.splits sum.splits)

lemma auth_run_inv:
  "auth_inv (auth_run (mount_auth s) es) \<and> cache_ok (auth_run (mount_auth s) es) \<and>
    fails_closed (auth_run (mount_auth s) es)"
proof (induction es rule: rev_induct)
  case Nil
  have "fails_closed (mount_auth s)"
    unfolding mount_auth_def by (intro fails_closed_render) (simp add: fails_closed_def)
  then show ?case using auth_inv_mount by simp
next
  case (snoc e es)
  then show ?case using auth_inv_step fails_closed_step by simp
qed

lemma level_public: "level_of sn = Public \<longleftrightarrow> \<not> signed_in sn"
  by (simp add: level_of_def)

text \<open>
  A logout that is answered while the permissions are still being read leaves the provider loading:
  its request is cancelled, so nothing resets the flag.
\<close>

lemma logout_while_loading:
  "au_loading (auth_run (mount_auth logged_in) [Hydrate, Logout, LogoutAnswered 0 (\<lambda>s. s) None, Render]) \<and>
   level_of (fst (au_shown (auth_run (mount_auth logged_in)
     [Hydrate, Logout, LogoutAnswered 0 (\<lambda>s. s) None, Render]))) = Public \<and>
   list_all pr_cancelled (au_requests (auth_run (mount_auth logged_in)
     [Hydrate, Logout, LogoutAnswered 0 (\<lambda>s. s) None, Render]))"
  by code_simp

section \<open>Properties\<close>

text \<open>
  C17: in every history of renders, storage changes, logins, tenant choices, logouts and answers,
  permissions that are not being reloaded were read for the token and session scope on display,
  nobody who is signed out has any, and a failed read leaves every capability closed.
\<close>

theorem auth_permissions_current:
  "(if au_loading (auth_run (mount_auth s) es) \<or> au_permissions (auth_run (mount_auth s) es) = None then True
    else au_origin (auth_run (mount_auth s) es) = Some (shown_owner (auth_run (mount_auth s) es))) \<and>
   (if level_of (fst (au_shown (auth_run (mount_auth s) es))) = Public
    then au_permissions (auth_run (mount_auth s) es) = None \<and> \<not> au_error (auth_run (mount_auth s) es) else True) \<and>
   (if au_error (auth_run (mount_auth s) es)
    then au_permissions (auth_run (mount_auth s) es) = Some closed_permission else True)"
  using auth_run_inv[of s es] by (auto simp: auth_inv_def fails_closed_def level_public)

end
