(* ===== verification/ProfilePage.thy ===== *)
theory ProfilePage
  imports PermissionEditor DraftWriter Access
begin

text \<open>
  The permission-profile page of \<^verbatim>\<open>web/features/company/profile-management.tsx\<close>: the form and
  its three-way rebase onto a fresh snapshot, and the page as a reactive component with its
  operation token, which fences every answer that a later operation, a revocation or a new session
  has overtaken.

  Quotas are integers, as the server stores them, so \<^verbatim>\<open>String\<close> prints their decimal digits.
\<close>

section \<open>The form\<close>

record permission_profile =
  ff_id :: string
  ff_tenant_id :: "string option"
  ff_name :: string
  ff_description :: string
  ff_can_send :: bool
  ff_daily_send_quota :: int
  ff_daily_receive_quota :: int
  ff_max_mailboxes :: int
  ff_max_domains :: int
  ff_allowed_zone_ids :: "string list option"
  ff_can_create_domains :: bool
  ff_can_create_routes :: bool
  ff_can_create_api_keys :: bool
  ff_is_system :: bool
  ff_created_at :: string
  ff_updated_at :: string
  ff_revision :: "string option"

record profile_form =
  pf_tenant_id :: "string option"
  pf_name :: string
  pf_description :: string
  pf_can_send :: bool
  pf_daily_send_quota :: string
  pf_daily_receive_quota :: string
  pf_max_mailboxes :: string
  pf_max_domains :: string
  pf_allowed_zone_ids :: "string list"
  pf_can_create_domains :: bool
  pf_can_create_routes :: bool
  pf_can_create_api_keys :: bool

definition defaultForm :: profile_form where
  "defaultForm = \<lparr>pf_tenant_id = None, pf_name = [], pf_description = [], pf_can_send = True,
     pf_daily_send_quota = ''0'', pf_daily_receive_quota = ''0'', pf_max_mailboxes = ''0'',
     pf_max_domains = ''0'', pf_allowed_zone_ids = [], pf_can_create_domains = False,
     pf_can_create_routes = False, pf_can_create_api_keys = False\<rparr>"

definition js_of_int :: "int \<Rightarrow> string" where
  "js_of_int n = (if n < 0 then CHR ''-'' # js_of_nat (nat (- n)) else js_of_nat (nat n))"

definition profileForm :: "permission_profile \<Rightarrow> profile_form" where
  "profileForm p = \<lparr>pf_tenant_id = ff_tenant_id p, pf_name = ff_name p,
     pf_description = ff_description p, pf_can_send = ff_can_send p,
     pf_daily_send_quota = js_of_int (ff_daily_send_quota p),
     pf_daily_receive_quota = js_of_int (ff_daily_receive_quota p),
     pf_max_mailboxes = js_of_int (ff_max_mailboxes p),
     pf_max_domains = js_of_int (ff_max_domains p),
     pf_allowed_zone_ids = (case ff_allowed_zone_ids p of Some zs \<Rightarrow> zs | None \<Rightarrow> []),
     pf_can_create_domains = ff_can_create_domains p, pf_can_create_routes = ff_can_create_routes p,
     pf_can_create_api_keys = ff_can_create_api_keys p\<rparr>"

text \<open>The keys of a form, in the order of its literals.\<close>

datatype form_field = TenantId | Name | Description | FlagField boolean_field
  | QuotaField number_field | ZoneIds

definition form_keys :: "form_field list" where
  "form_keys = [TenantId, Name, Description, FlagField CanSend, QuotaField DailySendQuota,
     QuotaField DailyReceiveQuota, QuotaField MaxMailboxes, QuotaField MaxDomains, ZoneIds,
     FlagField CanCreateDomains, FlagField CanCreateRoutes, FlagField CanCreateApiKeys]"

fun form_key_name :: "form_field \<Rightarrow> string" where
  "form_key_name TenantId = ''tenant_id''"
| "form_key_name Name = ''name''"
| "form_key_name Description = ''description''"
| "form_key_name (FlagField f) = boolean_name f"
| "form_key_name (QuotaField f) = number_name f"
| "form_key_name ZoneIds = ''allowed_zone_ids''"

fun form_flag :: "boolean_field \<Rightarrow> profile_form \<Rightarrow> bool" where
  "form_flag CanSend f = pf_can_send f"
| "form_flag CanCreateDomains f = pf_can_create_domains f"
| "form_flag CanCreateRoutes f = pf_can_create_routes f"
| "form_flag CanCreateApiKeys f = pf_can_create_api_keys f"

fun form_quota :: "number_field \<Rightarrow> profile_form \<Rightarrow> string" where
  "form_quota DailySendQuota f = pf_daily_send_quota f"
| "form_quota DailyReceiveQuota f = pf_daily_receive_quota f"
| "form_quota MaxMailboxes f = pf_max_mailboxes f"
| "form_quota MaxDomains f = pf_max_domains f"

text \<open>What a field is on the wire: texts trimmed, quotas as numbers.\<close>

fun wire_value :: "form_field \<Rightarrow> profile_form \<Rightarrow> json" where
  "wire_value TenantId f = (case pf_tenant_id f of Some t \<Rightarrow> JStr t | None \<Rightarrow> JNull)"
| "wire_value Name f = JStr (js_trim (pf_name f))"
| "wire_value Description f = JStr (js_trim (pf_description f))"
| "wire_value (FlagField b) f = JBool (form_flag b f)"
| "wire_value (QuotaField q) f = JNum (js_number (form_quota q f))"
| "wire_value ZoneIds f = JArr (map JStr (pf_allowed_zone_ids f))"

definition changed_fields :: "profile_form \<Rightarrow> profile_form \<Rightarrow> form_field list" where
  "changed_fields form baseline =
     filter (\<lambda>k. k \<noteq> TenantId \<and> canonical (wire_value k form) \<noteq> canonical (wire_value k baseline)) form_keys"

definition profileFieldPatch :: "profile_form \<Rightarrow> profile_form \<Rightarrow> (string \<times> json) list" where
  "profileFieldPatch form baseline =
     map (\<lambda>k. (form_key_name k, wire_value k form)) (changed_fields form baseline)"

definition quota_rx :: rx where
  "quota_rx = Alt (rx_lit (CHR ''0'')) decimal_rx"

definition valid_quota :: "string \<Rightarrow> bool" where
  "valid_quota v = (rx_match quota_rx v \<and> is_safe_integer (js_number v))"

definition validQuotas :: "profile_form \<Rightarrow> bool" where
  "validQuotas form = list_all valid_quota
     [pf_daily_send_quota form, pf_daily_receive_quota form, pf_max_mailboxes form, pf_max_domains form]"

definition profile_json :: "permission_profile \<Rightarrow> json" where
  "profile_json p = JObj ([(''id'', JStr (ff_id p)),
     (''tenant_id'', case ff_tenant_id p of Some t \<Rightarrow> JStr t | None \<Rightarrow> JNull),
     (''name'', JStr (ff_name p)), (''description'', JStr (ff_description p)),
     (''can_send'', JBool (ff_can_send p)),
     (''daily_send_quota'', JNum (Fin (of_int (ff_daily_send_quota p)))),
     (''daily_receive_quota'', JNum (Fin (of_int (ff_daily_receive_quota p)))),
     (''max_mailboxes'', JNum (Fin (of_int (ff_max_mailboxes p)))),
     (''max_domains'', JNum (Fin (of_int (ff_max_domains p)))),
     (''allowed_zone_ids'', case ff_allowed_zone_ids p of Some zs \<Rightarrow> JArr (map JStr zs) | None \<Rightarrow> JNull),
     (''can_create_domains'', JBool (ff_can_create_domains p)),
     (''can_create_routes'', JBool (ff_can_create_routes p)),
     (''can_create_api_keys'', JBool (ff_can_create_api_keys p)),
     (''is_system'', JBool (ff_is_system p)), (''created_at'', JStr (ff_created_at p)),
     (''updated_at'', JStr (ff_updated_at p))]
     @ (case ff_revision p of Some r \<Rightarrow> [(''revision'', JStr r)] | None \<Rightarrow> []))"

definition observedProfile :: "permission_profile \<Rightarrow> bool" where
  "observedProfile p = (validateObservedPermissionProfile (Some (profile_json p)) = Inr ())"

text \<open>\<^verbatim>\<open>Object.assign(form, { [key]: src[key] })\<close>\<close>

fun copy_field :: "profile_form \<Rightarrow> form_field \<Rightarrow> profile_form \<Rightarrow> profile_form" where
  "copy_field src TenantId f = f\<lparr>pf_tenant_id := pf_tenant_id src\<rparr>"
| "copy_field src Name f = f\<lparr>pf_name := pf_name src\<rparr>"
| "copy_field src Description f = f\<lparr>pf_description := pf_description src\<rparr>"
| "copy_field src (FlagField CanSend) f = f\<lparr>pf_can_send := pf_can_send src\<rparr>"
| "copy_field src (FlagField CanCreateDomains) f = f\<lparr>pf_can_create_domains := pf_can_create_domains src\<rparr>"
| "copy_field src (FlagField CanCreateRoutes) f = f\<lparr>pf_can_create_routes := pf_can_create_routes src\<rparr>"
| "copy_field src (FlagField CanCreateApiKeys) f = f\<lparr>pf_can_create_api_keys := pf_can_create_api_keys src\<rparr>"
| "copy_field src (QuotaField DailySendQuota) f = f\<lparr>pf_daily_send_quota := pf_daily_send_quota src\<rparr>"
| "copy_field src (QuotaField DailyReceiveQuota) f =
     f\<lparr>pf_daily_receive_quota := pf_daily_receive_quota src\<rparr>"
| "copy_field src (QuotaField MaxMailboxes) f = f\<lparr>pf_max_mailboxes := pf_max_mailboxes src\<rparr>"
| "copy_field src (QuotaField MaxDomains) f = f\<lparr>pf_max_domains := pf_max_domains src\<rparr>"
| "copy_field src ZoneIds f = f\<lparr>pf_allowed_zone_ids := pf_allowed_zone_ids src\<rparr>"

definition rebase :: "profile_form \<Rightarrow> profile_form \<Rightarrow> profile_form \<Rightarrow> profile_form" where
  "rebase form old fresh = foldl (\<lambda>f k. copy_field form k f) fresh (changed_fields form old)"

lemma form_flag_copy:
  "form_flag b (copy_field src j f) = (if j = FlagField b then form_flag b src else form_flag b f)"
  by (cases b; cases "(src, j, f)" rule: copy_field.cases) simp_all

lemma form_quota_copy:
  "form_quota q (copy_field src j f) = (if j = QuotaField q then form_quota q src else form_quota q f)"
  by (cases q; cases "(src, j, f)" rule: copy_field.cases) simp_all

lemma wire_copy: "wire_value k (copy_field src j f) = (if k = j then wire_value k src else wire_value k f)"
proof (cases k)
  case (FlagField b)
  then show ?thesis by (auto simp: form_flag_copy)
next
  case (QuotaField q)
  then show ?thesis by (auto simp: form_quota_copy)
qed (cases "(src, j, f)" rule: copy_field.cases; simp)+

lemma wire_rebase:
  "wire_value k (foldl (\<lambda>f k. copy_field src k f) fresh ks) =
     (if k \<in> set ks then wire_value k src else wire_value k fresh)"
  by (induction ks arbitrary: fresh) (auto simp: wire_copy)

lemma form_keys_all: "k \<in> set form_keys"
proof (cases k)
  case (FlagField b)
  then show ?thesis by (cases b) (simp_all add: form_keys_def)
next
  case (QuotaField q)
  then show ?thesis by (cases q) (simp_all add: form_keys_def)
qed (simp_all add: form_keys_def)

lemma changed_iff:
  "k \<in> set (changed_fields form baseline) \<longleftrightarrow>
     k \<noteq> TenantId \<and> canonical (wire_value k form) \<noteq> canonical (wire_value k baseline)"
  by (simp add: changed_fields_def form_keys_all)


section \<open>The update command\<close>

definition update_command :: "string option \<Rightarrow> (string \<times> json) list \<Rightarrow> json" where
  "update_command expected intents =
     JObj ((case expected of Some r \<Rightarrow> [(''expected_revision'', JStr r)] | None \<Rightarrow> [])
       @ [(''fields'', JObj intents)])"

lemma round_even_nonneg: "0 \<le> q \<Longrightarrow> 0 \<le> round_even q"
  by (auto simp: round_even_def Let_def)

lemma magnitude_nonneg: "0 \<le> q \<Longrightarrow> magnitude q = Fin r \<Longrightarrow> 0 \<le> r"
  by (auto simp: magnitude_def Let_def less_imp_le[OF pow2_pos] intro!: mult_nonneg_nonneg round_even_nonneg divide_nonneg_pos
      split: if_splits)

lemma quota_chars: "rx_match quota_rx v \<Longrightarrow> all_digits v"
proof -
  assume m: "rx_match quota_rx v"
  have "rx_chars quota_rx c \<Longrightarrow> is_digit c" for c
    by (auto simp: quota_rx_def decimal_rx_def rx_lit_def is_digit_def)
  then have "list_all is_digit v" using rx_match_chars[OF m] by (simp add: list_all_iff)
  moreover have "v \<noteq> []" using m by (auto simp: quota_rx_def decimal_rx_def rx_lit_def)
  ultimately show ?thesis by (simp add: all_digits_def)
qed

lemma valid_quota_wire: "valid_quota v \<Longrightarrow> PermissionEditor.quota (Some (JNum (js_number v)))"
proof -
  assume v: "valid_quota v"
  then obtain n where n: "js_number v = Fin (of_int n)"
    by (auto simp: valid_quota_def is_safe_integer_iff)
  have "js_number v = magnitude (of_nat (digits_nat 10 v))"
    using v by (intro digits_number quota_chars) (simp add: valid_quota_def)
  then have "magnitude (of_nat (digits_nat 10 v)) = Fin (of_int n)" using n by simp
  from magnitude_nonneg[OF _ this] have "0 \<le> (of_int n :: rat)" by simp
  with v n show ?thesis by (simp add: PermissionEditor.quota_def valid_quota_def)
qed

lemma valid_quotas_each: "validQuotas form \<Longrightarrow> valid_quota (form_quota q form)"
  by (cases q) (simp_all add: validQuotas_def)

lemma boolean_names: "is_boolean_name (boolean_name b)"
  "boolean_name b \<noteq> ''name''" "boolean_name b \<noteq> ''description''" "boolean_name b \<noteq> ''allowed_zone_ids''"
  by (cases b; simp add: is_boolean_name_def permissionBooleanFields_def)+

lemma number_names: "is_number_name (number_name q)" "\<not> is_boolean_name (number_name q)"
  "number_name q \<noteq> ''name''" "number_name q \<noteq> ''description''" "number_name q \<noteq> ''allowed_zone_ids''"
  by (cases q; simp add: is_number_name_def is_boolean_name_def permissionBooleanFields_def
      permissionNumberFields_def)+

lemma check_wire:
  assumes "validQuotas form" "uuid_array (Some (wire_value ZoneIds form))" "k \<noteq> TenantId"
  shows "check_profile_field (form_key_name k, wire_value k form) = Inr ()"
proof (cases k)
  case (FlagField b)
  then show ?thesis by (simp add: check_profile_field_def boolean_names is_js_bool_iff)
next
  case (QuotaField q)
  then show ?thesis using valid_quota_wire[OF valid_quotas_each[OF assms(1)]]
    by (simp add: check_profile_field_def number_names)
qed (use assms in \<open>simp_all add: check_profile_field_def\<close>)

section \<open>Properties of the form\<close>

text \<open>
  C36: the rebase of a draft onto a fresh snapshot carries exactly the fields the user changed:
  they keep the draft's value, every other field follows the fresh snapshot, and the patch that is
  sent afterwards contains no field and no value that the draft did not already change.
\<close>

theorem profile_rebase:
  "wire_value k (rebase form old fresh) =
     (if k \<in> set (changed_fields form old) then wire_value k form else wire_value k fresh) \<and>
   set (profileFieldPatch (rebase form old fresh) fresh) \<subseteq> set (profileFieldPatch form old) \<and>
   set (changed_fields (rebase form old fresh) fresh) =
     {j \<in> set (changed_fields form old). canonical (wire_value j form) \<noteq> canonical (wire_value j fresh)}"
proof -
  have w: "wire_value j (rebase form old fresh) =
      (if j \<in> set (changed_fields form old) then wire_value j form else wire_value j fresh)" for j
    by (simp add: rebase_def wire_rebase)
  have c: "set (changed_fields (rebase form old fresh) fresh) =
      {j \<in> set (changed_fields form old). canonical (wire_value j form) \<noteq> canonical (wire_value j fresh)}"
    by (auto simp: changed_iff w split: if_splits)
  then have "set (profileFieldPatch (rebase form old fresh) fresh) \<subseteq> set (profileFieldPatch form old)"
    by (auto simp: profileFieldPatch_def w)
  with w c show ?thesis by blast
qed

text \<open>
  An update that the page sends passes the validator of the API: for a form with valid
  quotas and zone ids, a non-empty patch and the revision of an observed profile, the command is
  well-formed.
\<close>

lemma profile_update_valid:
  assumes "observedProfile p" "validQuotas form" "uuid_array (Some (wire_value ZoneIds form))"
    and "profileFieldPatch form baseline \<noteq> []"
  shows "validateProfileUpdateCommand (Some (update_command (ff_revision p) (profileFieldPatch form baseline))) = Inr ()"
proof -
  have "decimalRevision (opt_prop (Some (profile_json p)) ''revision'')"
    using assms(1) by (simp add: observedProfile_def validateObservedPermissionProfile_def Let_def)
  then obtain r where r: "ff_revision p = Some r" "decimalRevision (Some (JStr r))"
    by (cases "ff_revision p") (auto simp: profile_json_def)
  have "check_profile_field x = Inr ()" if "x \<in> set (profileFieldPatch form baseline)" for x
    using that check_wire[OF assms(2,3)] by (auto simp: profileFieldPatch_def changed_iff)
  with r assms(4) show ?thesis
    by (simp add: validateProfileUpdateCommand_def update_command_def validateProfileRevision_def nullish_def
        Let_def del: decimalRevision.simps)
qed


definition sample_profile :: permission_profile where
  "sample_profile = \<lparr>ff_id = editor_user, ff_tenant_id = Some editor_tenant, ff_name = ''Sales'',
     ff_description = [], ff_can_send = True, ff_daily_send_quota = 5, ff_daily_receive_quota = 0,
     ff_max_mailboxes = 1, ff_max_domains = 0, ff_allowed_zone_ids = None,
     ff_can_create_domains = False, ff_can_create_routes = False, ff_can_create_api_keys = False,
     ff_is_system = False, ff_created_at = ''now'', ff_updated_at = ''now'',
     ff_revision = Some ''7''\<rparr>"


lemma sample_observed: "observedProfile sample_profile"
  using example_ids
  by (simp add: observedProfile_def profile_json_def sample_profile_def validateObservedPermissionProfile_def
      validatePermissionValues_def own_def has_own_def js_object_def permissionBooleanFields_def
      permissionNumberFields_def PermissionEditor.quota_def nullish_def max_safe_integer_def Let_def
      del: decimalRevision.simps)

definition sample_form :: profile_form where
  "sample_form = defaultForm\<lparr>pf_name := ''Sales''\<rparr>"

lemma zero_quota: "valid_quota ''0''"
proof -
  have "js_of_nat 0 = ''0''" by code_simp
  then have "js_number ''0'' = Fin 0" using js_number_of_nat[of 0] by simp
  moreover have "rx_match quota_rx ''0''" by code_simp
  ultimately show ?thesis by (simp add: valid_quota_def max_safe_integer_def)
qed

lemma profile_update_valid_example:
  "validateProfileUpdateCommand (Some (update_command (Some ''7'') (profileFieldPatch sample_form defaultForm))) = Inr ()"
proof -
  have q: "validQuotas sample_form" using zero_quota by (simp add: validQuotas_def sample_form_def defaultForm_def)
  have z: "uuid_array (Some (wire_value ZoneIds sample_form))"
    by (simp add: sample_form_def defaultForm_def uuid_array_def)
  have "Name \<in> set (changed_fields sample_form defaultForm)"
    by (simp add: changed_iff sample_form_def defaultForm_def js_trim_def is_space_def)
  then have "profileFieldPatch sample_form defaultForm \<noteq> []" by (auto simp: profileFieldPatch_def)
  from profile_update_valid[OF sample_observed q z this] show ?thesis by (simp add: sample_profile_def)
qed


section \<open>The page\<close>

text \<open>
  \<^verbatim>\<open>pp_current\<close> says that the session the page was rendered for is still the stored one
  (\<^verbatim>\<open>session === sessionScope()\<close>); a new session runs the effect that bumps the operation
  token twice, so an answer of an earlier session never matches it. Dialogs are modal: a row menu
  and the create button are out of reach while one is open. \<^verbatim>\<open>pp_deletions\<close> records for
  every deletion that was sent its target and the target of the preview it confirms.
\<close>

datatype page_call = CallCreate json | CallUpdate string json | CallRefresh string
  | CallPreview string | CallDelete string json

datatype page_answer = Answer | Profiles "permission_profile list" | Previewed json

record flight =
  fl_call :: page_call
  fl_token :: nat
  fl_done :: bool

record page =
  pp_current :: bool
  pp_level :: level
  pp_tenant :: "string option"
  pp_read_error :: bool
  pp_loading :: bool
  pp_revoked :: bool
  pp_dialog_open :: bool
  pp_creating :: bool
  pp_form :: profile_form
  pp_edit_open :: bool
  pp_profile :: "permission_profile option"
  pp_baseline :: profile_form
  pp_edit_form :: profile_form
  pp_access_error :: "json option"
  pp_saving :: bool
  pp_stale :: bool
  pp_review :: bool
  pp_fresh :: "permission_profile option"
  pp_refreshing :: bool
  pp_deleting :: "permission_profile option"
  pp_preview :: "(string \<times> json) option"
  pp_preview_busy :: bool
  pp_delete_busy :: bool
  pp_confirmed :: bool
  pp_operation :: nat
  pp_write_busy :: bool
  pp_flights :: "flight list"
  pp_deletions :: "(string \<times> string) list"

definition open_page :: "level \<Rightarrow> string option \<Rightarrow> page" where
  "open_page level tenant =
     \<lparr>pp_current = True, pp_level = level, pp_tenant = tenant, pp_read_error = False,
      pp_loading = True, pp_revoked = False, pp_dialog_open = False, pp_creating = False,
      pp_form = defaultForm, pp_edit_open = False, pp_profile = None, pp_baseline = defaultForm,
      pp_edit_form = defaultForm, pp_access_error = None, pp_saving = False, pp_stale = False,
      pp_review = False, pp_fresh = None, pp_refreshing = False, pp_deleting = None,
      pp_preview = None, pp_preview_busy = False, pp_delete_busy = False, pp_confirmed = False,
      pp_operation = 1, pp_write_busy = False, pp_flights = [], pp_deletions = []\<rparr>"

text \<open>\<^verbatim>\<open>permissionError(error)\<close>, one field of it\<close>

fun permissionError :: "exn \<Rightarrow> string \<Rightarrow> json option" where
  "permissionError (Api v) k = opt_prop (get_prop v ''error'') k"
| "permissionError _ k = None"

definition note_denied :: "exn \<Rightarrow> page \<Rightarrow> page" where
  "note_denied e pg =
     (if permissionError e ''code'' \<in> {Some (JStr ''UNAUTHORIZED''), Some (JStr ''FORBIDDEN'')}
      then pg\<lparr>pp_access_error := (if truthy (permissionError e ''message'')
                                  then permissionError e ''message'' else permissionError e ''code'')\<rparr>
      else pg)"

definition platform_admin :: "page \<Rightarrow> bool" where
  "platform_admin pg = isSuperAdminLevel (pp_level pg)"

definition canManageScope :: "page \<Rightarrow> permission_profile \<Rightarrow> bool" where
  "canManageScope pg p =
     (pp_access_error pg = None \<and> \<not> pp_revoked pg \<and> \<not> ff_is_system p \<and>
      (platform_admin pg \<or>
       (pp_level pg = Admin \<and> pp_tenant pg \<noteq> None \<and> pp_tenant pg \<noteq> Some [] \<and> ff_tenant_id p = pp_tenant pg)))"

definition mayManage :: "page \<Rightarrow> permission_profile \<Rightarrow> bool" where
  "mayManage pg p = (\<not> pp_read_error pg \<and> \<not> pp_loading pg \<and> canManageScope pg p)"

definition issue :: "page_call \<Rightarrow> page \<Rightarrow> page" where
  "issue c pg = pg\<lparr>pp_operation := Suc (pp_operation pg),
     pp_flights := pp_flights pg @ [\<lparr>fl_call = c, fl_token = Suc (pp_operation pg), fl_done = False\<rparr>]\<rparr>"

definition bump :: "page \<Rightarrow> page" where
  "bump pg = pg\<lparr>pp_operation := Suc (pp_operation pg)\<rparr>"

text \<open>The reset that the session effect and a revocation share.\<close>

definition reset_page :: "page \<Rightarrow> page" where
  "reset_page pg = (bump pg)
     \<lparr>pp_write_busy := False, pp_creating := False, pp_saving := False, pp_delete_busy := False,
      pp_refreshing := False, pp_edit_open := False, pp_profile := None, pp_stale := False,
      pp_fresh := None, pp_review := False, pp_deleting := None, pp_preview := None,
      pp_confirmed := False, pp_preview_busy := False, pp_dialog_open := False,
      pp_form := defaultForm, pp_access_error := None\<rparr>"

definition session_changed :: "level \<Rightarrow> string option \<Rightarrow> page \<Rightarrow> page" where
  "session_changed level tenant pg =
     (reset_page (bump pg))\<lparr>pp_current := True, pp_level := level, pp_tenant := tenant, pp_revoked := False\<rparr>"

definition on_revoked :: "page \<Rightarrow> page" where
  "on_revoked pg = (reset_page pg)\<lparr>pp_edit_form := defaultForm, pp_revoked := True\<rparr>"

definition on_invalidated :: "page \<Rightarrow> page" where
  "on_invalidated pg =
     (let pg' = (if \<not> pp_write_busy pg then (bump pg)\<lparr>pp_refreshing := False, pp_preview_busy := False\<rparr> else pg)
      in pg'\<lparr>pp_stale := (pp_stale pg \<or> pp_profile pg \<noteq> None), pp_fresh := None, pp_review := False,
             pp_preview := None, pp_confirmed := False\<rparr>)"

definition edit_modal :: "page \<Rightarrow> bool" where
  "edit_modal pg = (pp_profile pg \<noteq> None \<and> pp_edit_open pg)"

definition no_modal :: "page \<Rightarrow> bool" where
  "no_modal pg = (\<not> pp_dialog_open pg \<and> \<not> edit_modal pg \<and> pp_deleting pg = None)"

definition create_body :: "page \<Rightarrow> json" where
  "create_body pg =
     (let f = pp_form pg
      in JObj ((if platform_admin pg then [(''tenant_id'', wire_value TenantId f)] else [])
           @ map (\<lambda>k. (form_key_name k, wire_value k f)) (filter (\<lambda>k. k \<noteq> TenantId) form_keys)))"

definition handleCreate :: "page \<Rightarrow> page" where
  "handleCreate pg =
     (if pp_access_error pg \<noteq> None \<or> pp_read_error pg \<or> pp_loading pg \<or> pp_revoked pg \<or> \<not> pp_current pg \<or>
         pp_write_busy pg \<or> (pp_level pg \<noteq> Admin \<and> \<not> platform_admin pg) \<or>
         js_trim (pf_name (pp_form pg)) = [] \<or> \<not> validQuotas (pp_form pg)
      then pg
      else (issue (CallCreate (create_body pg)) pg)\<lparr>pp_write_busy := True, pp_creating := True\<rparr>)"

definition openEdit :: "permission_profile \<Rightarrow> page \<Rightarrow> page" where
  "openEdit p pg =
     (if \<not> mayManage pg p then pg
      else (bump pg)\<lparr>pp_stale := False, pp_fresh := None, pp_review := False, pp_profile := Some p,
             pp_baseline := profileForm p, pp_edit_form := profileForm p, pp_edit_open := True\<rparr>)"

definition edit_patch :: "page \<Rightarrow> (string \<times> json) list" where
  "edit_patch pg = profileFieldPatch (pp_edit_form pg) (pp_baseline pg)"

definition handleEdit :: "page \<Rightarrow> page" where
  "handleEdit pg =
     (case pp_profile pg of None \<Rightarrow> pg
      | Some p \<Rightarrow>
          if \<not> pp_current pg \<or> pp_write_busy pg \<or> \<not> mayManage pg p \<or> \<not> observedProfile p \<or> pp_stale pg \<or>
             pp_review pg \<or> js_trim (pf_name (pp_edit_form pg)) = [] \<or> \<not> validQuotas (pp_edit_form pg) \<or>
             edit_patch pg = []
          then pg
          else (issue (CallUpdate (ff_id p) (update_command (ff_revision p) (edit_patch pg))) pg)
                 \<lparr>pp_write_busy := True, pp_saving := True\<rparr>)"

definition refreshEdit :: "page \<Rightarrow> page" where
  "refreshEdit pg =
     (case pp_profile pg of None \<Rightarrow> pg
      | Some p \<Rightarrow>
          if pp_access_error pg \<noteq> None \<or> \<not> pp_current pg \<or> pp_refreshing pg \<or> pp_write_busy pg then pg
          else (issue (CallRefresh (ff_id p)) pg)\<lparr>pp_refreshing := True\<rparr>)"

definition loadPreview :: "permission_profile \<Rightarrow> page \<Rightarrow> page" where
  "loadPreview p pg =
     (if \<not> pp_current pg \<or> \<not> mayManage pg p \<or> pp_write_busy pg then pg
      else (issue (CallPreview (ff_id p)) pg)
             \<lparr>pp_deleting := Some p, pp_preview := None, pp_confirmed := False, pp_preview_busy := True\<rparr>)"

definition delete_command :: "json \<Rightarrow> json" where
  "delete_command preview =
     JObj (concat (map (\<lambda>(k, s). case get_prop preview s of Some v \<Rightarrow> [(k, v)] | None \<Rightarrow> [])
       [(''expected_revision'', ''profile_revision''), (''confirmed_members'', ''members'')]))"

definition handleDelete :: "page \<Rightarrow> page" where
  "handleDelete pg =
     (case (pp_deleting pg, pp_preview pg) of
        (Some p, Some (asked, v)) \<Rightarrow>
          if \<not> pp_current pg \<or> pp_write_busy pg \<or> \<not> mayManage pg p \<or> \<not> pp_confirmed pg \<or> pp_preview_busy pg
          then pg
          else (issue (CallDelete (ff_id p) (delete_command v)) pg)
                 \<lparr>pp_write_busy := True, pp_delete_busy := True,
                  pp_deletions := pp_deletions pg @ [(ff_id p, asked)]\<rparr>
      | _ \<Rightarrow> pg)"


section \<open>Answers\<close>

definition created :: "exn + page_answer \<Rightarrow> page \<Rightarrow> page" where
  "created result pg =
     (case result of
        Inr a \<Rightarrow> pg\<lparr>pp_form := defaultForm, pp_dialog_open := False\<rparr>
      | Inl e \<Rightarrow> note_denied e pg)\<lparr>pp_write_busy := False, pp_creating := False\<rparr>"

definition updated :: "exn + page_answer \<Rightarrow> page \<Rightarrow> page" where
  "updated result pg =
     (case result of
        Inr a \<Rightarrow> pg\<lparr>pp_edit_open := False, pp_profile := None\<rparr>
      | Inl e \<Rightarrow> (note_denied e pg)\<lparr>pp_stale := True\<rparr>)\<lparr>pp_write_busy := False, pp_saving := False\<rparr>"

definition refresh_failed :: "exn \<Rightarrow> page \<Rightarrow> page" where
  "refresh_failed e pg = (note_denied e pg)\<lparr>pp_stale := True, pp_fresh := None, pp_review := False\<rparr>"

definition revision_unavailable :: exn where
  "revision_unavailable = Err ''revision unavailable''"

definition refreshed :: "string \<Rightarrow> exn + page_answer \<Rightarrow> page \<Rightarrow> page" where
  "refreshed i result pg =
     (case result of
        Inl e \<Rightarrow> refresh_failed e pg
      | Inr (Profiles ps) \<Rightarrow>
          (case find (\<lambda>p. ff_id p = i) ps of
             None \<Rightarrow> refresh_failed revision_unavailable pg
           | Some p \<Rightarrow>
               if \<not> canManageScope pg p \<or> \<not> observedProfile p then refresh_failed revision_unavailable pg
               else pg\<lparr>pp_fresh := Some p, pp_review := True, pp_profile := Some p,
                       pp_baseline := profileForm p,
                       pp_edit_form := rebase (pp_edit_form pg) (pp_baseline pg) (profileForm p),
                       pp_stale := False\<rparr>)
      | Inr a \<Rightarrow> refresh_failed (Err ''TypeError'') pg)\<lparr>pp_refreshing := False\<rparr>"

definition previewed :: "string \<Rightarrow> exn + page_answer \<Rightarrow> page \<Rightarrow> page" where
  "previewed i result pg =
     (case result of
        Inl e \<Rightarrow> note_denied e pg
      | Inr (Previewed v) \<Rightarrow> pg\<lparr>pp_preview := Some (i, v)\<rparr>
      | Inr a \<Rightarrow> pg)\<lparr>pp_preview_busy := False\<rparr>"

definition deleted :: "exn + page_answer \<Rightarrow> page \<Rightarrow> page" where
  "deleted result pg =
     (case result of
        Inr a \<Rightarrow> pg\<lparr>pp_deleting := None, pp_preview := None, pp_confirmed := False\<rparr>
      | Inl e \<Rightarrow> note_denied e (pg\<lparr>pp_preview := None, pp_confirmed := False\<rparr>))
     \<lparr>pp_write_busy := False, pp_delete_busy := False\<rparr>"

definition isCurrent :: "nat \<Rightarrow> page \<Rightarrow> bool" where
  "isCurrent token pg = (token = pp_operation pg \<and> pp_current pg)"

fun answer :: "page_call \<Rightarrow> exn + page_answer \<Rightarrow> page \<Rightarrow> page" where
  "answer (CallCreate b) result pg = created result pg"
| "answer (CallUpdate i c) result pg = updated result pg"
| "answer (CallRefresh i) result pg = refreshed i result pg"
| "answer (CallPreview i) result pg = previewed i result pg"
| "answer (CallDelete i c) result pg = deleted result pg"

definition call_settled :: "nat \<Rightarrow> exn + page_answer \<Rightarrow> page \<Rightarrow> page" where
  "call_settled n result pg =
     (if n < length (pp_flights pg) \<and> \<not> fl_done (pp_flights pg ! n)
      then (let f = pp_flights pg ! n;
                pg' = pg\<lparr>pp_flights := (pp_flights pg)[n := f\<lparr>fl_done := True\<rparr>]\<rparr>
            in if isCurrent (fl_token f) pg' then answer (fl_call f) result pg' else pg')
      else pg)"

datatype page_event =
    SessionLeft | SessionChanged level "string option" | Invalidated | EventRevoked
  | ListRead bool bool | OpenDialog bool | EditNew "profile_form \<Rightarrow> profile_form" | CreateClicked
  | EditChosen permission_profile | EditDraft "profile_form \<Rightarrow> profile_form" | SaveClicked
  | RefreshClicked | ReviewToggled bool | EditClosed
  | DeleteChosen permission_profile | PreviewAgain | ConfirmToggled bool | DeleteClicked | DeleteClosed
  | CallSettled nat "exn + page_answer"

fun page_step :: "page \<Rightarrow> page_event \<Rightarrow> page" where
  "page_step pg SessionLeft = pg\<lparr>pp_current := False\<rparr>"
| "page_step pg (SessionChanged level tenant) = session_changed level tenant pg"
| "page_step pg Invalidated = on_invalidated pg"
| "page_step pg EventRevoked = on_revoked pg"
| "page_step pg (ListRead failed loading) = pg\<lparr>pp_read_error := failed, pp_loading := loading\<rparr>"
| "page_step pg (OpenDialog shown) =
     (if \<not> pp_creating pg \<and> (shown \<longrightarrow> no_modal pg) then pg\<lparr>pp_dialog_open := shown\<rparr> else pg)"
| "page_step pg (EditNew f) =
     (if pp_dialog_open pg \<and> \<not> pp_creating pg then pg\<lparr>pp_form := f (pp_form pg)\<rparr> else pg)"
| "page_step pg CreateClicked = (if pp_dialog_open pg \<and> \<not> pp_creating pg then handleCreate pg else pg)"
| "page_step pg (EditChosen p) = (if no_modal pg then openEdit p pg else pg)"
| "page_step pg (EditDraft f) =
     (if edit_modal pg \<and> \<not> pp_saving pg then pg\<lparr>pp_edit_form := f (pp_edit_form pg)\<rparr> else pg)"
| "page_step pg SaveClicked =
     (if edit_modal pg \<and> \<not> pp_saving pg \<and> \<not> pp_refreshing pg then handleEdit pg else pg)"
| "page_step pg RefreshClicked =
     (if edit_modal pg \<and> \<not> pp_saving pg \<and> \<not> pp_refreshing pg then refreshEdit pg else pg)"
| "page_step pg (ReviewToggled checked) =
     (if edit_modal pg \<and> pp_fresh pg \<noteq> None \<and> \<not> pp_saving pg \<and> \<not> pp_refreshing pg
      then pg\<lparr>pp_review := \<not> checked\<rparr> else pg)"
| "page_step pg EditClosed =
     (if edit_modal pg \<and> \<not> pp_saving pg \<and> \<not> pp_refreshing pg
      then (bump pg)\<lparr>pp_edit_open := False\<rparr> else pg)"
| "page_step pg (DeleteChosen p) = (if no_modal pg then loadPreview p pg else pg)"
| "page_step pg PreviewAgain =
     (case pp_deleting pg of Some p \<Rightarrow>
        if pp_access_error pg = None \<and> \<not> pp_preview_busy pg \<and> \<not> pp_delete_busy pg then loadPreview p pg else pg
      | None \<Rightarrow> pg)"
| "page_step pg (ConfirmToggled checked) =
     (if pp_preview pg \<noteq> None \<and> \<not> pp_delete_busy pg then pg\<lparr>pp_confirmed := checked\<rparr> else pg)"
| "page_step pg DeleteClicked = (if \<not> pp_delete_busy pg then handleDelete pg else pg)"
| "page_step pg DeleteClosed =
     (if pp_deleting pg \<noteq> None \<and> \<not> pp_delete_busy pg
      then (bump pg)\<lparr>pp_deleting := None, pp_preview := None, pp_confirmed := False, pp_preview_busy := False\<rparr>
      else pg)"
| "page_step pg (CallSettled n result) = call_settled n result pg"

abbreviation page_run :: "page \<Rightarrow> page_event list \<Rightarrow> page" where
  "page_run \<equiv> foldl page_step"

section \<open>The operation token\<close>

fun is_create :: "page_call \<Rightarrow> bool" where
  "is_create (CallCreate b) = True" | "is_create _ = False"
fun is_update :: "page_call \<Rightarrow> bool" where
  "is_update (CallUpdate i c) = True" | "is_update _ = False"
fun is_refresh :: "page_call \<Rightarrow> bool" where
  "is_refresh (CallRefresh i) = True" | "is_refresh _ = False"
fun is_delete :: "page_call \<Rightarrow> bool" where
  "is_delete (CallDelete i c) = True" | "is_delete _ = False"
fun is_preview :: "page_call \<Rightarrow> bool" where
  "is_preview (CallPreview i) = True" | "is_preview _ = False"

text \<open>The unsettled call that holds the current token.\<close>

definition holder :: "page \<Rightarrow> (page_call \<Rightarrow> bool) \<Rightarrow> bool" where
  "holder pg P \<longleftrightarrow> (\<exists>n<length (pp_flights pg). \<not> fl_done (pp_flights pg ! n) \<and>
     fl_token (pp_flights pg ! n) = pp_operation pg \<and> P (fl_call (pp_flights pg ! n)))"

definition tokens_ok :: "page \<Rightarrow> bool" where
  "tokens_ok pg \<longleftrightarrow> distinct (map fl_token (pp_flights pg)) \<and>
     list_all (\<lambda>f. fl_token f \<le> pp_operation pg) (pp_flights pg)"

definition dialogs_ok :: "page \<Rightarrow> bool" where
  "dialogs_ok pg \<longleftrightarrow>
     (pp_creating pg \<longrightarrow> pp_dialog_open pg) \<and> (pp_saving pg \<or> pp_refreshing pg \<longrightarrow> edit_modal pg) \<and>
     (pp_delete_busy pg \<or> pp_preview_busy pg \<or> pp_preview pg \<noteq> None \<longrightarrow> pp_deleting pg \<noteq> None) \<and>
     \<not> (pp_dialog_open pg \<and> edit_modal pg) \<and> \<not> (pp_dialog_open pg \<and> pp_deleting pg \<noteq> None) \<and>
     \<not> (edit_modal pg \<and> pp_deleting pg \<noteq> None)"

definition flags_ok :: "page \<Rightarrow> bool" where
  "flags_ok pg \<longleftrightarrow>
     (pp_current pg \<longrightarrow>
       (pp_write_busy pg \<longleftrightarrow> pp_creating pg \<or> pp_saving pg \<or> pp_delete_busy pg) \<and>
       (pp_creating pg \<longrightarrow> holder pg is_create) \<and> (pp_saving pg \<longrightarrow> holder pg is_update) \<and>
       (pp_delete_busy pg \<longrightarrow> holder pg is_delete) \<and> (pp_refreshing pg \<longleftrightarrow> holder pg is_refresh) \<and>
       (pp_preview_busy pg \<longrightarrow> holder pg is_preview))"

definition deleting_id :: "page \<Rightarrow> string option" where
  "deleting_id pg = map_option ff_id (pp_deleting pg)"

definition preview_ok :: "page \<Rightarrow> bool" where
  "preview_ok pg \<longleftrightarrow>
     (\<forall>i v. pp_preview pg = Some (i, v) \<longrightarrow> deleting_id pg = Some i) \<and>
     (\<forall>i. holder pg (\<lambda>c. c = CallPreview i) \<longrightarrow> deleting_id pg = Some i) \<and>
     list_all (\<lambda>(i, j). i = j) (pp_deletions pg)"

definition page_ok :: "page \<Rightarrow> bool" where
  "page_ok pg \<longleftrightarrow> tokens_ok pg \<and> dialogs_ok pg \<and> flags_ok pg \<and> preview_ok pg"

lemma holder_issue:
  "tokens_ok pg \<Longrightarrow> holder (issue c pg) P \<longleftrightarrow> P c"
  by (auto simp: holder_def issue_def tokens_ok_def nth_append less_Suc_eq list_all_length)

lemma holder_bump [simp]: "tokens_ok pg \<Longrightarrow> \<not> holder (bump pg) P"
  by (auto simp: holder_def bump_def tokens_ok_def list_all_length)

lemma tokens_issue: "tokens_ok pg \<Longrightarrow> tokens_ok (issue c pg)"
  by (fastforce simp: tokens_ok_def issue_def list_all_iff)

lemma tokens_bump: "tokens_ok pg \<Longrightarrow> tokens_ok (bump pg)"
  by (fastforce simp: tokens_ok_def bump_def list_all_iff)

lemma token_cong:
  "pp_flights q = pp_flights p \<Longrightarrow> pp_operation q = pp_operation p \<Longrightarrow>
    holder q P = holder p P \<and> tokens_ok q = tokens_ok p"
  by (simp add: holder_def tokens_ok_def)


text \<open>Nothing is in progress: all flags are down.\<close>

definition idle :: "page \<Rightarrow> bool" where
  "idle pg \<longleftrightarrow> \<not> pp_write_busy pg \<and> \<not> pp_creating pg \<and> \<not> pp_saving pg \<and> \<not> pp_delete_busy pg \<and>
     \<not> pp_refreshing pg \<and> \<not> pp_preview_busy pg"

lemma page_ok_idle:
  assumes "tokens_ok pg" "idle pg" "dialogs_ok pg" "preview_ok pg" "\<not> holder pg is_refresh"
  shows "page_ok pg"
  using assms by (simp add: page_ok_def flags_ok_def idle_def)

text \<open>A step that changes neither calls, flags nor dialogs.\<close>

definition page_view :: "page \<Rightarrow> _" where
  "page_view pg = (pp_flights pg, pp_operation pg, pp_write_busy pg, pp_creating pg, pp_saving pg,
     pp_delete_busy pg, pp_refreshing pg, pp_preview_busy pg, pp_dialog_open pg, edit_modal pg,
     pp_deleting pg, pp_deletions pg)"

lemma page_ok_view:
  assumes "page_ok p" "page_view q = page_view p" "pp_preview q = pp_preview p \<or> pp_preview q = None"
    and "pp_current q = pp_current p \<or> \<not> pp_current q"
  shows "page_ok q"
proof -
  have f: "pp_flights q = pp_flights p" "pp_operation q = pp_operation p"
    using assms(2) by (simp_all add: page_view_def)
  have h: "holder q P = holder p P" "tokens_ok q = tokens_ok p" for P using token_cong[OF f] by blast+
  have d: "deleting_id q = deleting_id p" using assms(2) by (simp add: deleting_id_def page_view_def)
  have v: "pp_write_busy q = pp_write_busy p" "pp_creating q = pp_creating p" "pp_saving q = pp_saving p"
    "pp_delete_busy q = pp_delete_busy p" "pp_refreshing q = pp_refreshing p"
    "pp_preview_busy q = pp_preview_busy p" "pp_dialog_open q = pp_dialog_open p"
    "edit_modal q = edit_modal p" "pp_deleting q = pp_deleting p" "pp_deletions q = pp_deletions p"
    using assms(2) by (simp_all add: page_view_def)
  have "dialogs_ok p" "flags_ok p" "preview_ok p" "tokens_ok p" using assms(1) by (simp_all add: page_ok_def)
  note p = this
  have "dialogs_ok q" using p(1) assms(3) unfolding dialogs_ok_def v by argo
  moreover have "flags_ok q" using p(2) assms(4) unfolding flags_ok_def h v by argo
  moreover have "preview_ok q" using p(3) disjE[OF assms(3)] unfolding preview_ok_def h d v
    by (metis option.distinct(1))
  ultimately show ?thesis using p(4) h(2) by (simp add: page_ok_def)
qed

text \<open>An operation that starts a call, and one that only bumps the token.\<close>

lemma page_ok_issue:
  assumes "page_ok p" "pp_flights q = pp_flights (issue c p)" "pp_operation q = pp_operation (issue c p)"
    and "pp_write_busy q \<longleftrightarrow> pp_creating q \<or> pp_saving q \<or> pp_delete_busy q"
    and "pp_creating q \<longrightarrow> is_create c" "pp_saving q \<longrightarrow> is_update c" "pp_delete_busy q \<longrightarrow> is_delete c"
    and "pp_refreshing q \<longleftrightarrow> is_refresh c" "pp_preview_busy q \<longrightarrow> is_preview c"
    and "dialogs_ok q" "\<And>i v. pp_preview q = Some (i, v) \<Longrightarrow> deleting_id q = Some i"
    and "\<And>i. c = CallPreview i \<Longrightarrow> deleting_id q = Some i" "list_all (\<lambda>(i, j). i = j) (pp_deletions q)"
  shows "page_ok q"
proof -
  have t: "tokens_ok p" using assms(1) by (simp add: page_ok_def)
  have h: "holder q P = P c" "tokens_ok q" for P
    using token_cong[OF assms(2,3)] holder_issue[OF t] tokens_issue[OF t] by blast+
  show ?thesis using assms(4-13) h by (auto simp: page_ok_def flags_ok_def preview_ok_def)
qed

lemma page_ok_bump:
  assumes "page_ok p" "pp_flights q = pp_flights p" "pp_operation q = Suc (pp_operation p)"
    and "pp_current q \<longrightarrow> idle q" "dialogs_ok q" "\<And>i v. pp_preview q = Some (i, v) \<Longrightarrow> deleting_id q = Some i"
    and "pp_deletions q = pp_deletions p"
  shows "page_ok q"
proof -
  have t: "tokens_ok p" "list_all (\<lambda>(i, j). i = j) (pp_deletions p)"
    using assms(1) by (simp_all add: page_ok_def preview_ok_def)
  have f: "pp_flights q = pp_flights (bump p)" "pp_operation q = pp_operation (bump p)"
    using assms(2,3) by (simp_all add: bump_def)
  have h: "\<not> holder q P" "tokens_ok q" for P
    using token_cong[OF f] holder_bump[OF t(1)] tokens_bump[OF t(1)] by blast+
  show ?thesis using assms(4-7) t(2) h by (auto simp: page_ok_def flags_ok_def idle_def preview_ok_def)
qed

lemma edit_modal_simps [simp]:
  "edit_modal (pg\<lparr>pp_flights := x1\<rparr>) = edit_modal pg"
  "edit_modal (issue c pg) = edit_modal pg" "edit_modal (bump pg) = edit_modal pg"
  by (simp_all add: edit_modal_def issue_def bump_def)

lemma ok_parts:
  assumes "page_ok pg"
  shows "pp_current pg \<Longrightarrow> pp_write_busy pg \<longleftrightarrow> pp_creating pg \<or> pp_saving pg \<or> pp_delete_busy pg"
    "pp_creating pg \<Longrightarrow> pp_dialog_open pg" "pp_saving pg \<or> pp_refreshing pg \<Longrightarrow> edit_modal pg"
    "pp_delete_busy pg \<or> pp_preview_busy pg \<or> pp_preview pg \<noteq> None \<Longrightarrow> pp_deleting pg \<noteq> None"
    "\<not> (pp_dialog_open pg \<and> edit_modal pg)" "\<not> (pp_dialog_open pg \<and> pp_deleting pg \<noteq> None)"
    "\<not> (edit_modal pg \<and> pp_deleting pg \<noteq> None)"
    "pp_preview pg = Some (i, v) \<Longrightarrow> deleting_id pg = Some i" "list_all (\<lambda>(i, j). i = j) (pp_deletions pg)"
  using assms by (auto simp: page_ok_def flags_ok_def dialogs_ok_def preview_ok_def)

lemma ok_create:
  assumes "page_ok pg" "pp_dialog_open pg"
  shows "page_ok (handleCreate pg)"
proof (cases "handleCreate pg = pg")
  case False
  then have g: "pp_current pg" "\<not> pp_write_busy pg" by (auto simp: handleCreate_def split: if_splits)
  have f: "\<not> pp_saving pg" "\<not> pp_delete_busy pg" "\<not> pp_refreshing pg" "\<not> pp_preview_busy pg"
    "pp_preview pg = None" "\<not> edit_modal pg" "pp_deleting pg = None"
    using ok_parts[OF assms(1)] g assms(2) by blast+
  have h: "handleCreate pg = (issue (CallCreate (create_body pg)) pg)\<lparr>pp_write_busy := True, pp_creating := True\<rparr>"
    using False by (auto simp: handleCreate_def split: if_splits)
  show ?thesis unfolding h
    by (rule page_ok_issue[OF assms(1), where c = "CallCreate (create_body pg)"])
      (use f assms(2) ok_parts(9)[OF assms(1)] in
        \<open>simp_all add: issue_def dialogs_ok_def edit_modal_def\<close>)
qed (simp add: assms(1))

lemma ok_edit:
  assumes "page_ok pg" "edit_modal pg" "\<not> pp_refreshing pg"
  shows "page_ok (handleEdit pg)"
proof (cases "handleEdit pg = pg")
  case False
  then obtain p where p: "pp_profile pg = Some p" and g: "pp_current pg" "\<not> pp_write_busy pg"
    by (auto simp: handleEdit_def split: if_splits option.splits)
  have f: "\<not> pp_creating pg" "\<not> pp_delete_busy pg" "\<not> pp_preview_busy pg" "pp_preview pg = None"
    "\<not> pp_dialog_open pg" "pp_deleting pg = None"
    using ok_parts[OF assms(1)] g assms(2) by blast+
  have h: "handleEdit pg = (issue (CallUpdate (ff_id p) (update_command (ff_revision p) (edit_patch pg))) pg)
      \<lparr>pp_write_busy := True, pp_saving := True\<rparr>"
    using False by (auto simp: handleEdit_def p split: if_splits)
  show ?thesis unfolding h
    by (rule page_ok_issue[OF assms(1), where c = "CallUpdate (ff_id p) (update_command (ff_revision p) (edit_patch pg))"])
      (use f assms(2,3) ok_parts(9)[OF assms(1)] in
        \<open>simp_all add: issue_def dialogs_ok_def edit_modal_def\<close>)
qed (simp add: assms(1))

lemma ok_refresh:
  assumes "page_ok pg" "edit_modal pg"
  shows "page_ok (refreshEdit pg)"
proof (cases "refreshEdit pg = pg")
  case False
  then obtain p where p: "pp_profile pg = Some p" and g: "pp_current pg" "\<not> pp_write_busy pg"
    by (auto simp: refreshEdit_def split: if_splits option.splits)
  have f: "\<not> pp_creating pg" "\<not> pp_delete_busy pg" "\<not> pp_preview_busy pg" "pp_preview pg = None"
    "\<not> pp_dialog_open pg" "pp_deleting pg = None" "\<not> pp_saving pg"
    using ok_parts[OF assms(1)] g assms(2) by blast+
  have h: "refreshEdit pg = (issue (CallRefresh (ff_id p)) pg)\<lparr>pp_refreshing := True\<rparr>"
    using False by (auto simp: refreshEdit_def p split: if_splits)
  show ?thesis unfolding h
    by (rule page_ok_issue[OF assms(1), where c = "CallRefresh (ff_id p)"])
      (use f g assms(2) ok_parts(9)[OF assms(1)] in
        \<open>simp_all add: issue_def dialogs_ok_def edit_modal_def\<close>)
qed (simp add: assms(1))

lemma ok_preview:
  assumes "page_ok pg" "no_modal pg \<or> pp_deleting pg \<noteq> None"
  shows "page_ok (loadPreview p pg)"
proof (cases "loadPreview p pg = pg")
  case False
  then have g: "pp_current pg" "\<not> pp_write_busy pg" by (auto simp: loadPreview_def split: if_splits)
  have m: "\<not> edit_modal pg" "\<not> pp_dialog_open pg"
    using assms(2) ok_parts(6,7)[OF assms(1)] by (auto simp: no_modal_def)
  have f: "\<not> pp_creating pg" "\<not> pp_delete_busy pg" "\<not> pp_saving pg" "\<not> pp_refreshing pg"
    using ok_parts[OF assms(1)] g m by blast+
  have h: "loadPreview p pg = (issue (CallPreview (ff_id p)) pg)
      \<lparr>pp_deleting := Some p, pp_preview := None, pp_confirmed := False, pp_preview_busy := True\<rparr>"
    using False by (auto simp: loadPreview_def split: if_splits)
  show ?thesis unfolding h
    by (rule page_ok_issue[OF assms(1), where c = "CallPreview (ff_id p)"])
      (use f g m ok_parts(9)[OF assms(1)] in
        \<open>simp_all add: issue_def dialogs_ok_def edit_modal_def deleting_id_def\<close>)
qed (simp add: assms(1))

lemma ok_delete:
  assumes "page_ok pg"
  shows "page_ok (handleDelete pg)"
proof (cases "handleDelete pg = pg")
  case False
  then obtain p i v where p: "pp_deleting pg = Some p" "pp_preview pg = Some (i, v)"
    and g: "pp_current pg" "\<not> pp_write_busy pg" "\<not> pp_preview_busy pg"
    by (auto simp: handleDelete_def split: if_splits option.splits)
  have f: "\<not> pp_creating pg" "\<not> pp_saving pg" "\<not> pp_refreshing pg" "\<not> pp_dialog_open pg" "\<not> edit_modal pg"
    using ok_parts[OF assms] g p by blast+
  have i: "i = ff_id p" using ok_parts(8)[OF assms p(2)] p(1) by (simp add: deleting_id_def)
  have h: "handleDelete pg = (issue (CallDelete (ff_id p) (delete_command v)) pg)
      \<lparr>pp_write_busy := True, pp_delete_busy := True, pp_deletions := pp_deletions pg @ [(ff_id p, i)]\<rparr>"
    using False by (auto simp: handleDelete_def p split: if_splits)
  show ?thesis unfolding h
    by (rule page_ok_issue[OF assms, where c = "CallDelete (ff_id p) (delete_command v)"])
      (use f g p i ok_parts(9)[OF assms] in
        \<open>simp_all add: issue_def dialogs_ok_def edit_modal_def deleting_id_def\<close>)
qed (simp add: assms)


lemma ok_reset: "page_ok pg \<Longrightarrow> page_ok (reset_page pg)"
  by (rule page_ok_bump) (simp_all add: reset_page_def bump_def idle_def dialogs_ok_def edit_modal_def)

lemma ok_bump: "page_ok pg \<Longrightarrow> idle pg \<Longrightarrow> page_ok (bump pg)"
  by (rule page_ok_bump[of pg])
    (simp_all add: page_ok_def preview_ok_def bump_def idle_def dialogs_ok_def edit_modal_def deleting_id_def)

text \<open>What an answer leaves: no call holds the token, and no flag is up.\<close>

definition settle :: "nat \<Rightarrow> page \<Rightarrow> page" where
  "settle n pg = pg\<lparr>pp_flights := (pp_flights pg)[n := (pp_flights pg ! n)\<lparr>fl_done := True\<rparr>]\<rparr>"

lemma tokens_settle:
  assumes "tokens_ok pg" "n < length (pp_flights pg)"
  shows "tokens_ok (settle n pg)"
proof -
  have "map fl_token (pp_flights (settle n pg)) = map fl_token (pp_flights pg)"
    by (rule nth_equalityI) (use assms(2) in \<open>simp_all add: settle_def nth_list_update\<close>)
  then have "tokens_ok (settle n pg) = (distinct (map fl_token (pp_flights pg)) \<and>
      list_all (\<lambda>f. fl_token f \<le> pp_operation pg) (pp_flights (settle n pg)))"
    by (simp add: tokens_ok_def settle_def)
  with assms show ?thesis
    by (simp add: tokens_ok_def settle_def list_all_length nth_list_update)
qed

lemma holder_settle_other:
  assumes "n < length (pp_flights pg)" "fl_token (pp_flights pg ! n) \<noteq> pp_operation pg"
  shows "holder (settle n pg) P = holder pg P"
  using assms by (auto simp: holder_def settle_def nth_list_update)

lemma holder_settle_sub:
  "n < length (pp_flights pg) \<Longrightarrow> holder (settle n pg) P \<Longrightarrow> holder pg P"
  by (auto simp: holder_def settle_def nth_list_update split: if_splits)

lemma token_unique:
  assumes "tokens_ok pg" "n < length (pp_flights pg)" "k < length (pp_flights pg)"
    and "fl_token (pp_flights pg ! n) = fl_token (pp_flights pg ! k)"
  shows "n = k"
  using assms by (auto simp: tokens_ok_def distinct_conv_nth)

lemma holder_settled:
  assumes "tokens_ok pg" "n < length (pp_flights pg)" "fl_token (pp_flights pg ! n) = pp_operation pg"
  shows "\<not> holder (settle n pg) P"
proof
  assume "holder (settle n pg) P"
  then obtain k where k: "k < length (pp_flights pg)" "\<not> fl_done (pp_flights (settle n pg) ! k)"
    "fl_token (pp_flights (settle n pg) ! k) = pp_operation pg"
    unfolding holder_def by (auto simp: settle_def)
  show False
  proof (cases "k = n")
    case True
    then show False using k assms(2) by (simp add: settle_def)
  next
    case False
    then have "fl_token (pp_flights pg ! n) = fl_token (pp_flights pg ! k)"
      using k assms(2,3) by (simp add: settle_def)
    from token_unique[OF assms(1,2) k(1) this] False show False by simp
  qed
qed

lemma holder_is:
  assumes "tokens_ok pg" "n < length (pp_flights pg)" "fl_token (pp_flights pg ! n) = pp_operation pg"
    and "holder pg P"
  shows "P (fl_call (pp_flights pg ! n))"
  using token_unique[OF assms(1,2)] assms(3,4) unfolding holder_def by metis

lemma page_ok_answered:
  assumes "page_ok p" "n < length (pp_flights p)" "fl_token (pp_flights p ! n) = pp_operation p"
    and "pp_flights q = pp_flights (settle n p)" "pp_operation q = pp_operation p"
    and "idle q" "dialogs_ok q" "\<And>i v. pp_preview q = Some (i, v) \<Longrightarrow> deleting_id q = Some i"
    and "pp_deletions q = pp_deletions p"
  shows "page_ok q"
proof -
  have t: "tokens_ok p" "list_all (\<lambda>(i, j). i = j) (pp_deletions p)"
    using assms(1) by (simp_all add: page_ok_def preview_ok_def)
  have f: "pp_operation q = pp_operation (settle n p)" using assms(5) by (simp add: settle_def)
  have h: "\<not> holder q P" "tokens_ok q" for P
    using token_cong[OF assms(4) f] holder_settled[OF t(1) assms(2,3)] tokens_settle[OF t(1) assms(2)]
    by blast+
  show ?thesis using assms(6-9) t(2) h by (auto intro!: page_ok_idle simp: preview_ok_def)
qed

lemma page_ok_stale:
  assumes "page_ok p" "n < length (pp_flights p)"
    and "fl_token (pp_flights p ! n) \<noteq> pp_operation p \<or> \<not> pp_current p"
  shows "page_ok (settle n p)"
proof -
  have t: "tokens_ok (settle n p)" using assms(1,2) tokens_settle by (simp add: page_ok_def)
  have d: "dialogs_ok (settle n p)" using assms(1) by (simp add: page_ok_def dialogs_ok_def settle_def)
  have v: "preview_ok (settle n p)"
    using assms(1) holder_settle_sub[OF assms(2)] unfolding page_ok_def preview_ok_def
    by (simp add: settle_def deleting_id_def)
  have "flags_ok (settle n p)"
  proof (cases "pp_current p")
    case True
    with assms(3) have "fl_token (pp_flights p ! n) \<noteq> pp_operation p" by simp
    from holder_settle_other[OF assms(2) this] assms(1) show ?thesis
      unfolding page_ok_def flags_ok_def by (simp add: settle_def)
  qed (simp add: flags_ok_def settle_def)
  with t d v show ?thesis by (simp add: page_ok_def)
qed


lemma note_denied_eq: "\<exists>x. note_denied e pg = pg\<lparr>pp_access_error := x\<rparr>"
  by (cases "permissionError e ''code'' \<in> {Some (JStr ''UNAUTHORIZED''), Some (JStr ''FORBIDDEN'')}")
    (auto simp: note_denied_def intro: exI[of _ "pp_access_error pg"])

text \<open>What every answer keeps, whatever its result is.\<close>

lemma note_denied_view [simp]:
  "page_view (note_denied e pg) = page_view pg" "pp_preview (note_denied e pg) = pp_preview pg"
  "pp_current (note_denied e pg) = pp_current pg" "deleting_id (note_denied e pg) = deleting_id pg"
  "dialogs_ok (note_denied e pg) = dialogs_ok pg" "idle (note_denied e pg) = idle pg"
proof -
  obtain x where n: "note_denied e pg = pg\<lparr>pp_access_error := x\<rparr>" using note_denied_eq by blast
  show "page_view (note_denied e pg) = page_view pg" "pp_preview (note_denied e pg) = pp_preview pg"
    "pp_current (note_denied e pg) = pp_current pg" "deleting_id (note_denied e pg) = deleting_id pg"
    "dialogs_ok (note_denied e pg) = dialogs_ok pg" "idle (note_denied e pg) = idle pg"
    by (simp_all add: n page_view_def edit_modal_def deleting_id_def dialogs_ok_def idle_def)
qed

lemma note_denied_fields [simp]:
  "pp_flights (note_denied e pg) = pp_flights pg" "pp_operation (note_denied e pg) = pp_operation pg"
  "pp_deletions (note_denied e pg) = pp_deletions pg" "pp_deleting (note_denied e pg) = pp_deleting pg"
  "pp_creating (note_denied e pg) = pp_creating pg" "pp_saving (note_denied e pg) = pp_saving pg"
  "pp_delete_busy (note_denied e pg) = pp_delete_busy pg" "pp_refreshing (note_denied e pg) = pp_refreshing pg"
  "pp_preview_busy (note_denied e pg) = pp_preview_busy pg" "pp_dialog_open (note_denied e pg) = pp_dialog_open pg"
  "pp_write_busy (note_denied e pg) = pp_write_busy pg" "edit_modal (note_denied e pg) = edit_modal pg"
  "pp_profile (note_denied e pg) = pp_profile pg" "pp_edit_open (note_denied e pg) = pp_edit_open pg"
  by (simp_all add: note_denied_def edit_modal_def)

fun preview_fits :: "(string \<times> json) option \<Rightarrow> permission_profile option \<Rightarrow> bool" where
  "preview_fits None d = True"
| "preview_fits (Some (i, v)) d = (map_option ff_id d = Some i)"

lemma preview_fits_iff:
  "preview_fits (pp_preview pg) (pp_deleting pg) \<longleftrightarrow>
     (\<forall>i v. pp_preview pg = Some (i, v) \<longrightarrow> deleting_id pg = Some i)"
  by (cases "(pp_preview pg, pp_deleting pg)" rule: preview_fits.cases) (simp_all add: deleting_id_def)

definition answer_fits :: "page_call \<Rightarrow> page \<Rightarrow> bool" where
  "answer_fits c pg \<longleftrightarrow>
     (pp_write_busy pg \<longleftrightarrow> pp_creating pg \<or> pp_saving pg \<or> pp_delete_busy pg) \<and>
     (pp_creating pg \<longrightarrow> is_create c) \<and> (pp_saving pg \<longrightarrow> is_update c) \<and>
     (pp_delete_busy pg \<longrightarrow> is_delete c) \<and> (pp_refreshing pg \<longleftrightarrow> is_refresh c) \<and>
     (pp_preview_busy pg \<longrightarrow> is_preview c) \<and> dialogs_ok pg \<and>
     preview_fits (pp_preview pg) (pp_deleting pg)"

definition answered_ok :: "page \<Rightarrow> page \<Rightarrow> bool" where
  "answered_ok p q \<longleftrightarrow> pp_flights q = pp_flights p \<and> pp_operation q = pp_operation p \<and>
     pp_deletions q = pp_deletions p \<and> idle q \<and> dialogs_ok q \<and>
     preview_fits (pp_preview q) (pp_deleting q)"

lemma answered_create: "answer_fits (CallCreate b) pg \<Longrightarrow> answered_ok pg (created result pg)"
  by (cases result) (simp_all add: created_def answered_ok_def answer_fits_def idle_def dialogs_ok_def
      edit_modal_def)

lemma answered_update: "answer_fits (CallUpdate i c) pg \<Longrightarrow> answered_ok pg (updated result pg)"
  by (cases result) (simp_all add: updated_def answered_ok_def answer_fits_def idle_def dialogs_ok_def
      edit_modal_def)

lemma answered_delete: "answer_fits (CallDelete i c) pg \<Longrightarrow> answered_ok pg (deleted result pg)"
  by (cases result) (simp_all add: deleted_def answered_ok_def answer_fits_def idle_def dialogs_ok_def
      edit_modal_def)

lemma answered_preview:
  assumes "answer_fits (CallPreview i) pg" "deleting_id pg = Some i"
  shows "answered_ok pg (previewed i result pg)"
proof (cases result)
  case (Inr a)
  have "pp_deleting pg \<noteq> None" using assms(2) by (auto simp: deleting_id_def)
  with Inr assms show ?thesis
    by (cases a) (simp_all add: previewed_def answered_ok_def answer_fits_def idle_def dialogs_ok_def
        edit_modal_def deleting_id_def)
qed (use assms in \<open>simp_all add: previewed_def answered_ok_def answer_fits_def idle_def dialogs_ok_def
      edit_modal_def\<close>)

lemma refresh_failed_fields [simp]:
  "refresh_failed e pg = (note_denied e pg)\<lparr>pp_stale := True, pp_fresh := None, pp_review := False\<rparr>"
  by (simp add: refresh_failed_def)

lemma refreshed_cases:
  obtains (failed) e where "refreshed j result pg = (refresh_failed e pg)\<lparr>pp_refreshing := False\<rparr>"
  | (fresh) p where "canManageScope pg p" "observedProfile p"
      "refreshed j result pg = pg\<lparr>pp_fresh := Some p, pp_review := True, pp_profile := Some p,
         pp_baseline := profileForm p, pp_edit_form := rebase (pp_edit_form pg) (pp_baseline pg) (profileForm p),
         pp_stale := False, pp_refreshing := False\<rparr>"
proof (cases "\<exists>ps p. result = Inr (Profiles ps) \<and> find (\<lambda>p. ff_id p = j) ps = Some p \<and>
    canManageScope pg p \<and> observedProfile p")
  case True
  then show ?thesis using fresh by (auto simp: refreshed_def simp del: refresh_failed_fields)
next
  case False
  show ?thesis
  proof (cases result)
    case (Inl e)
    then show ?thesis using failed[of e] by (simp add: refreshed_def del: refresh_failed_fields)
  next
    case (Inr a)
    show ?thesis
    proof (cases a)
      case (Profiles ps)
      then show ?thesis using Inr False failed[of revision_unavailable]
        by (cases "find (\<lambda>p. ff_id p = j) ps") (simp_all add: refreshed_def del: refresh_failed_fields)
    qed (use Inr failed[of "Err ''TypeError''"] in \<open>simp_all add: refreshed_def del: refresh_failed_fields\<close>)
  qed
qed

lemma answered_refresh:
  assumes "answer_fits (CallRefresh i) pg"
  shows "answered_ok pg (refreshed j result pg)"
proof (cases j result pg rule: refreshed_cases)
  case (fresh p)
  have d: "dialogs_ok pg" "pp_refreshing pg" using assms by (simp_all add: answer_fits_def)
  then have m: "edit_modal pg" "pp_deleting pg = None" by (auto simp: dialogs_ok_def)
  then have e: "pp_edit_open pg" "\<not> pp_dialog_open pg" "pp_preview pg = None"
    using d(1) by (simp_all add: dialogs_ok_def edit_modal_def not_Some_eq[symmetric] del: not_Some_eq)
  show ?thesis using fresh(3) assms m e
    by (simp add: answered_ok_def answer_fits_def idle_def dialogs_ok_def edit_modal_def)
next
  case (failed e)
  have d: "dialogs_ok pg" "pp_refreshing pg" using assms by (simp_all add: answer_fits_def)
  then have m: "edit_modal pg" "pp_deleting pg = None" by (auto simp: dialogs_ok_def)
  then have e: "\<not> pp_dialog_open pg" using d(1) by (simp add: dialogs_ok_def)
  show ?thesis using failed assms m e
    by (simp add: answered_ok_def answer_fits_def idle_def dialogs_ok_def edit_modal_def)
qed

lemma answer_ok:
  assumes "answer_fits c pg" "\<And>i. c = CallPreview i \<Longrightarrow> deleting_id pg = Some i"
  shows "answered_ok pg (answer c result pg)"
  using assms answered_create answered_update answered_delete answered_preview answered_refresh
  by (cases c) simp_all

lemma answered_current:
  assumes "page_ok pg" "pp_current pg" "n < length (pp_flights pg)" "\<not> fl_done (pp_flights pg ! n)"
    and "fl_token (pp_flights pg ! n) = pp_operation pg"
  shows "answered_ok (settle n pg) (answer (fl_call (pp_flights pg ! n)) result (settle n pg))"
proof -
  have t: "tokens_ok pg" and fl: "flags_ok pg" "dialogs_ok pg" "preview_ok pg"
    using assms(1) by (simp_all add: page_ok_def)
  have h: "holder pg P \<longleftrightarrow> P (fl_call (pp_flights pg ! n))" for P
    using holder_is[OF t, of n P] assms(3-5) unfolding holder_def by blast
  have a: "answer_fits (fl_call (pp_flights pg ! n)) (settle n pg)"
    using fl assms(2) preview_fits_iff[of pg] unfolding answer_fits_def flags_ok_def preview_ok_def h
    by (simp add: settle_def dialogs_ok_def edit_modal_def)
  have v: "deleting_id (settle n pg) = Some i" if "fl_call (pp_flights pg ! n) = CallPreview i" for i
    using fl(3) that unfolding preview_ok_def h by (simp add: settle_def deleting_id_def)
  show ?thesis using answer_ok[OF a v] .
qed

lemma ok_settled:
  assumes "page_ok pg"
  shows "page_ok (call_settled n result pg)"
proof (cases "n < length (pp_flights pg) \<and> \<not> fl_done (pp_flights pg ! n)")
  case True
  let ?f = "pp_flights pg ! n"
  have e: "call_settled n result pg =
      (if fl_token ?f = pp_operation pg \<and> pp_current pg then answer (fl_call ?f) result (settle n pg) else settle n pg)"
    using True by (simp add: call_settled_def settle_def isCurrent_def Let_def)
  show ?thesis
  proof (cases "fl_token ?f = pp_operation pg \<and> pp_current pg")
    case current: True
    have "answered_ok (settle n pg) (answer (fl_call ?f) result (settle n pg))"
      using answered_current[OF assms, of n] True current by simp
    then have "page_ok (answer (fl_call ?f) result (settle n pg))"
      using True current preview_fits_iff
      by (intro page_ok_answered[OF assms, of n]) (simp_all add: answered_ok_def settle_def)
    with e current show ?thesis by simp
  qed (use True e page_ok_stale[OF assms, of n] in auto)
qed (use assms in \<open>auto simp: call_settled_def\<close>)


lemma ok_invalidated:
  assumes "page_ok pg"
  shows "page_ok (on_invalidated pg)"
proof (cases "pp_write_busy pg")
  case True
  then show ?thesis
    by (intro page_ok_view[OF assms]) (simp_all add: on_invalidated_def page_view_def edit_modal_def)
next
  case False
  note p = ok_parts[OF assms]
  have b: "\<not> pp_creating pg \<and> \<not> pp_saving pg \<and> \<not> pp_delete_busy pg" if "pp_current pg"
    using p(1)[OF that] False by blast
  have "dialogs_ok (on_invalidated pg)"
    using p(2-7) by (simp add: False on_invalidated_def bump_def dialogs_ok_def edit_modal_def)
  then show ?thesis using b
    by (intro page_ok_bump[OF assms]) (simp_all add: False on_invalidated_def bump_def idle_def)
qed

text \<open>Every event of the page keeps the invariant.\<close>

lemma no_deletion:
  assumes "page_ok pg" "pp_deleting pg = None"
  shows "\<not> pp_delete_busy pg" "\<not> pp_preview_busy pg" "pp_preview pg = None"
  using ok_parts(4)[OF assms(1)] assms(2) by metis+

lemma idle_when_closed:
  assumes "page_ok pg" "no_modal pg"
  shows "pp_current pg \<longrightarrow> idle pg"
proof
  assume "pp_current pg"
  moreover have "\<not> pp_creating pg" "\<not> pp_saving pg" "\<not> pp_refreshing pg"
    using ok_parts(2-3)[OF assms(1)] assms(2) unfolding no_modal_def by blast+
  ultimately show "idle pg" using ok_parts(1)[OF assms(1)] no_deletion[OF assms(1)] assms(2)
    by (simp add: idle_def no_modal_def)
qed

lemma ok_open_edit:
  assumes "page_ok pg" "no_modal pg"
  shows "page_ok (openEdit p pg)"
proof (cases "mayManage pg p")
  case True
  have f: "pp_preview pg = None" "\<not> pp_creating pg" "\<not> pp_delete_busy pg" "\<not> pp_preview_busy pg"
    using no_deletion[OF assms(1)] ok_parts(2)[OF assms(1)] assms(2) by (auto simp: no_modal_def)
  show ?thesis using True f idle_when_closed[OF assms] ok_parts(2-4)[OF assms(1)] assms(2)
    by (intro page_ok_bump[OF assms(1)])
      (simp_all add: openEdit_def bump_def idle_def no_modal_def dialogs_ok_def edit_modal_def)
qed (simp add: openEdit_def assms(1))

lemma ok_close_edit:
  assumes "page_ok pg" "edit_modal pg" "\<not> pp_saving pg" "\<not> pp_refreshing pg"
  shows "page_ok ((bump pg)\<lparr>pp_edit_open := False\<rparr>)"
proof -
  have f: "\<not> pp_creating pg" "\<not> pp_delete_busy pg" "\<not> pp_preview_busy pg" "pp_preview pg = None"
    "\<not> pp_dialog_open pg" "pp_deleting pg = None"
    using ok_parts(2-7)[OF assms(1)] assms(2) by blast+
  show ?thesis using f assms(3,4) ok_parts(1)[OF assms(1)]
    by (intro page_ok_bump[OF assms(1)]) (simp_all add: bump_def idle_def dialogs_ok_def edit_modal_def)
qed

lemma ok_close_delete:
  assumes "page_ok pg" "pp_deleting pg \<noteq> None" "\<not> pp_delete_busy pg"
  shows "page_ok ((bump pg)\<lparr>pp_deleting := None, pp_preview := None, pp_confirmed := False,
    pp_preview_busy := False\<rparr>)"
proof -
  have f: "\<not> pp_creating pg" "\<not> pp_saving pg" "\<not> pp_refreshing pg" "\<not> pp_dialog_open pg" "\<not> edit_modal pg"
    using ok_parts(2-7)[OF assms(1)] assms(2) by blast+
  show ?thesis using f assms(3) ok_parts(1)[OF assms(1)]
    by (intro page_ok_bump[OF assms(1)]) (simp_all add: bump_def idle_def dialogs_ok_def edit_modal_def)
qed


lemma ok_dialog:
  assumes "page_ok pg" "\<not> pp_creating pg" "shown \<longrightarrow> no_modal pg"
  shows "page_ok (pg\<lparr>pp_dialog_open := shown\<rparr>)"
proof -
  let ?q = "pg\<lparr>pp_dialog_open := shown\<rparr>"
  have h: "holder ?q P = holder pg P" "tokens_ok ?q = tokens_ok pg" for P
    using token_cong[of ?q pg] by simp_all
  have d: "dialogs_ok ?q" using assms no_deletion[OF assms(1)]
    by (simp add: page_ok_def dialogs_ok_def edit_modal_def no_modal_def)
  show ?thesis using assms(1) d unfolding page_ok_def flags_ok_def preview_ok_def h
    by (simp add: deleting_id_def)
qed

lemma page_ok_step:
  assumes "page_ok pg"
  shows "page_ok (page_step pg e)"
proof (cases e)
  case SessionLeft
  then show ?thesis by (auto intro!: page_ok_view[OF assms] simp: page_view_def edit_modal_def)
next
  case (SessionChanged level tenant)
  let ?p = "pg\<lparr>pp_operation := Suc (pp_operation pg), pp_current := False\<rparr>"
  have "tokens_ok (bump pg)" "\<not> holder (bump pg) P" for P
    using assms holder_bump tokens_bump by (auto simp: page_ok_def)
  then have "page_ok ?p"
    using assms token_cong[of ?p "bump pg"]
    by (simp add: bump_def page_ok_def flags_ok_def preview_ok_def dialogs_ok_def edit_modal_def deleting_id_def)
  then have "page_ok (session_changed level tenant pg)"
    by (rule page_ok_bump)
      (simp_all add: session_changed_def reset_page_def bump_def idle_def dialogs_ok_def edit_modal_def)
  with SessionChanged show ?thesis by simp
next
  case (EditChosen p)
  then show ?thesis using assms ok_open_edit by simp
next
  case EditClosed
  then show ?thesis using assms ok_close_edit by simp
next
  case DeleteClosed
  then show ?thesis using assms ok_close_delete by simp
next
  case PreviewAgain
  then show ?thesis using assms ok_preview by (cases "pp_deleting pg") simp_all
next
  case EventRevoked
  then show ?thesis using ok_reset[OF assms]
    by (auto simp: on_revoked_def page_view_def edit_modal_def intro!: page_ok_view[OF ok_reset[OF assms]])
next
  case (OpenDialog shown)
  then show ?thesis using ok_dialog[OF assms] assms by simp
qed (use assms in \<open>auto simp: ok_create ok_edit ok_refresh ok_delete ok_preview ok_invalidated ok_settled page_view_def edit_modal_def intro!: page_ok_view[OF assms]\<close>)


lemma page_ok_open: "page_ok (open_page level tenant)"
  by (simp add: page_ok_def tokens_ok_def dialogs_ok_def flags_ok_def preview_ok_def open_page_def holder_def
      edit_modal_def)

lemma page_ok_run: "page_ok pg \<Longrightarrow> page_ok (page_run pg es)"
  by (induction es arbitrary: pg) (simp_all add: page_ok_step)

section \<open>Properties of the page\<close>

text \<open>The calls whose answer, whatever it is, ends everything that is in progress.\<close>

definition releasing :: "page \<Rightarrow> nat \<Rightarrow> bool" where
  "releasing pg n \<longleftrightarrow> n < length (pp_flights pg) \<and> \<not> fl_done (pp_flights pg ! n) \<and>
     fl_token (pp_flights pg ! n) = pp_operation pg"

lemma releasing_idle:
  assumes "page_ok pg" "pp_current pg" "releasing pg n"
  shows "idle (page_step pg (CallSettled n result))"
proof -
  have n: "n < length (pp_flights pg)" "\<not> fl_done (pp_flights pg ! n)"
    "fl_token (pp_flights pg ! n) = pp_operation pg" using assms(3) by (simp_all add: releasing_def)
  have "page_step pg (CallSettled n result) = answer (fl_call (pp_flights pg ! n)) result (settle n pg)"
    using n assms(2) by (simp add: call_settled_def settle_def isCurrent_def Let_def)
  moreover note answered_current[OF assms(1,2) n]
  ultimately show ?thesis by (simp add: answered_ok_def)
qed

text \<open>
  C16: the page is never stuck and never deletes what was not previewed. In every run of events
  from the opened page, as long as its session is the stored one, a raised flag (a write in
  progress, a refresh, a preview) always belongs to one unsettled call with the current token, and
  the answer of that call, be it a value or any error, lowers every flag; and each deletion that was
  sent targets the profile whose deletion preview the user confirmed.
\<close>

theorem page_never_stuck:
  fixes events level tenant
  defines "pg \<equiv> page_run (open_page level tenant) events"
  shows "(if pp_current pg \<and> \<not> idle pg
          then \<exists>n. releasing pg n \<and> (\<forall>result. idle (page_step pg (CallSettled n result)))
          else True) \<and>
    list_all (\<lambda>(target, previewed). target = previewed) (pp_deletions pg)"
proof -
  have ok: "page_ok pg" unfolding pg_def by (intro page_ok_run page_ok_open)
  have "\<exists>n. releasing pg n" if "pp_current pg" "\<not> idle pg"
  proof -
    have "holder pg is_create \<or> holder pg is_update \<or> holder pg is_delete \<or> holder pg is_refresh \<or> holder pg is_preview"
      using ok that by (auto simp: page_ok_def flags_ok_def idle_def)
    then show ?thesis by (auto simp: holder_def releasing_def)
  qed
  then show ?thesis using releasing_idle[OF ok] ok_parts(9)[OF ok] by auto
qed

end
