(* ===== verification/ZonePicker.thy ===== *)
theory ZonePicker
  imports ProfilePage Addresses
begin

text \<open>
  The controls of the permission-profile form and the labels of the profile list, from
  \<^verbatim>\<open>web/features/company/profile-management.tsx\<close>: the scope selector, the zone switches and the
  text fields as updates of the form, each behind the condition under which the page offers it.
\<close>

section \<open>Zones and tenants\<close>

datatype visibility = Private | Authenticated | Public

record domain_zone =
  zz_id :: string
  zz_tenant_id :: string
  zz_owner_user_id :: "string option"
  zz_parent_zone_id :: "string option"
  zz_domain :: string
  zz_visibility :: visibility
  zz_allow_random_subdomains :: bool
  zz_is_verified :: bool
  zz_mx_verified :: bool
  zz_txt_record :: "string option"
  zz_dkim_selector :: string
  zz_dkim_enabled :: bool
  zz_dkim_required_for_send :: bool
  zz_created_at :: string
  zz_verified_at :: "string option"

record tenant =
  tn_id :: string
  tn_name :: string
  tn_plan_id :: string
  tn_is_super :: bool
  tn_created_at :: string

text \<open>The ellipsis of \<^verbatim>\<open>shortId\<close> is a parameter: it lies outside the characters of the model.\<close>

definition shortId :: "string \<Rightarrow> string \<Rightarrow> string" where
  "shortId ellipsis i = js_slice i 0 8 @ ellipsis"

definition formatQuota :: "string \<Rightarrow> int \<Rightarrow> string" where
  "formatQuota infinity n = (if n = 0 then infinity else js_of_int n)"

datatype profile_scope = SystemScope | GlobalScope | TenantScope

definition profileScope :: "permission_profile \<Rightarrow> profile_scope" where
  "profileScope p =
     (if ff_is_system p then SystemScope
      else if ff_tenant_id p \<noteq> None \<and> ff_tenant_id p \<noteq> Some [] then TenantScope else GlobalScope)"

fun tenantLabel :: "string \<Rightarrow> tenant list \<Rightarrow> string option \<Rightarrow> string" where
  "tenantLabel ellipsis tenants None = ''global''"
| "tenantLabel ellipsis tenants (Some i) =
     (if i = [] then ''global''
      else case find (\<lambda>t. tn_id t = i) tenants of Some t \<Rightarrow> tn_name t | None \<Rightarrow> shortId ellipsis i)"

definition zoneLabel :: "string \<Rightarrow> domain_zone \<Rightarrow> string" where
  "zoneLabel ellipsis z = (if zz_domain z \<noteq> [] then zz_domain z else shortId ellipsis (zz_id z))"

text \<open>
  The zone column: \<^verbatim>\<open>zoneById\<close> is \<^verbatim>\<open>new Map(...)\<close> of the listed zones, so a later
  zone with the same id replaces an earlier one.
\<close>

definition zone_by_id :: "domain_zone list \<Rightarrow> string \<Rightarrow> domain_zone option" where
  "zone_by_id zones = foldl (\<lambda>m z. m(zz_id z \<mapsto> z)) Map.empty zones"

definition zone_column :: "string \<Rightarrow> domain_zone list \<Rightarrow> string \<Rightarrow> string list option \<Rightarrow> string" where
  "zone_column ellipsis zones every ids =
     (case ids of
        Some (i # is') \<Rightarrow>
          join '', '' (take 2 (map (\<lambda>i. case zone_by_id zones i of Some z \<Rightarrow> zz_domain z
                                        | None \<Rightarrow> shortId ellipsis i) (i # is')))
      | _ \<Rightarrow> every)"

section \<open>The controls\<close>

record picker =
  pk_platform :: bool
  pk_options :: "domain_zone list"
  pk_locked :: bool
  pk_disabled :: bool

text \<open>A non-empty tenant id, as the conditions \<^verbatim>\<open>form.tenant_id\<close> test it.\<close>

definition scoped_tenant :: "profile_form \<Rightarrow> string option" where
  "scoped_tenant f = (if pf_tenant_id f = Some [] then None else pf_tenant_id f)"

definition scopedDomainOptions :: "picker \<Rightarrow> profile_form \<Rightarrow> domain_zone list" where
  "scopedDomainOptions pk f =
     (case (pk_platform pk, scoped_tenant f) of
        (True, Some t) \<Rightarrow> filter (\<lambda>z. zz_tenant_id z = t) (pk_options pk)
      | (True, None) \<Rightarrow> []
      | (False, _) \<Rightarrow> pk_options pk)"

definition domainPickerDisabled :: "picker \<Rightarrow> profile_form \<Rightarrow> bool" where
  "domainPickerDisabled pk f = (pk_platform pk \<and> scoped_tenant f = None)"

definition GLOBAL_PROFILE_SCOPE :: string where
  "GLOBAL_PROFILE_SCOPE = ''__global__''"

definition choose_scope :: "picker \<Rightarrow> string \<Rightarrow> profile_form \<Rightarrow> profile_form" where
  "choose_scope pk value f =
     (let next = (if value = GLOBAL_PROFILE_SCOPE then None else Some value)
      in f\<lparr>pf_tenant_id := next,
           pf_allowed_zone_ids :=
             (if next \<noteq> None \<and> next \<noteq> Some []
              then filter (\<lambda>i. \<exists>z\<in>set (pk_options pk). zz_id z = i \<and> Some (zz_tenant_id z) = next) (pf_allowed_zone_ids f)
              else [])\<rparr>)"

definition toggle_zone :: "domain_zone \<Rightarrow> bool \<Rightarrow> profile_form \<Rightarrow> profile_form" where
  "toggle_zone z checked f =
     f\<lparr>pf_allowed_zone_ids :=
         (if checked then js_unique (pf_allowed_zone_ids f @ [zz_id z])
          else filter (\<lambda>i. i \<noteq> zz_id z) (pf_allowed_zone_ids f))\<rparr>"

fun set_flag :: "boolean_field \<Rightarrow> bool \<Rightarrow> profile_form \<Rightarrow> profile_form" where
  "set_flag CanSend b f = f\<lparr>pf_can_send := b\<rparr>"
| "set_flag CanCreateDomains b f = f\<lparr>pf_can_create_domains := b\<rparr>"
| "set_flag CanCreateRoutes b f = f\<lparr>pf_can_create_routes := b\<rparr>"
| "set_flag CanCreateApiKeys b f = f\<lparr>pf_can_create_api_keys := b\<rparr>"

fun set_quota :: "number_field \<Rightarrow> string \<Rightarrow> profile_form \<Rightarrow> profile_form" where
  "set_quota DailySendQuota v f = f\<lparr>pf_daily_send_quota := v\<rparr>"
| "set_quota DailyReceiveQuota v f = f\<lparr>pf_daily_receive_quota := v\<rparr>"
| "set_quota MaxMailboxes v f = f\<lparr>pf_max_mailboxes := v\<rparr>"
| "set_quota MaxDomains v f = f\<lparr>pf_max_domains := v\<rparr>"

datatype control = TypeName string | TypeDescription string | ChooseScope string
  | SwitchFlag boolean_field bool | TypeQuota number_field string | AllowAllDomains
  | SwitchZone domain_zone bool

text \<open>
  A control the user operates: disabled ones do nothing, the scope selector is only rendered for a
  platform administrator, and a zone switch only for the zones on offer.
\<close>

fun operate :: "picker \<Rightarrow> profile_form \<Rightarrow> control \<Rightarrow> profile_form" where
  "operate pk f (TypeName v) = (if pk_disabled pk then f else f\<lparr>pf_name := v\<rparr>)"
| "operate pk f (TypeDescription v) = (if pk_disabled pk then f else f\<lparr>pf_description := v\<rparr>)"
| "operate pk f (ChooseScope v) =
     (if pk_disabled pk \<or> pk_locked pk \<or> \<not> pk_platform pk then f else choose_scope pk v f)"
| "operate pk f (SwitchFlag b v) = (if pk_disabled pk then f else set_flag b v f)"
| "operate pk f (TypeQuota q v) = (if pk_disabled pk then f else set_quota q v f)"
| "operate pk f AllowAllDomains =
     (if pk_disabled pk \<or> domainPickerDisabled pk f then f else f\<lparr>pf_allowed_zone_ids := []\<rparr>)"
| "operate pk f (SwitchZone z v) =
     (if pk_disabled pk \<or> domainPickerDisabled pk f \<or> z \<notin> set (scopedDomainOptions pk f) then f
      else toggle_zone z v f)"

text \<open>
  The list of domains is read again while the form is open, and the form is disabled while it is saved.
  \<^verbatim>\<open>offers\<close> are the zones of all lists that were on offer in a run.
\<close>

datatype picker_event = Operated control | DomainsRead "domain_zone list" | FormDisabled bool

fun picker_step :: "picker \<times> profile_form \<Rightarrow> picker_event \<Rightarrow> picker \<times> profile_form" where
  "picker_step (pk, f) (Operated c) = (pk, operate pk f c)"
| "picker_step (pk, f) (DomainsRead zs) = (pk\<lparr>pk_options := zs\<rparr>, f)"
| "picker_step (pk, f) (FormDisabled b) = (pk\<lparr>pk_disabled := b\<rparr>, f)"

fun zones_read :: "picker_event \<Rightarrow> domain_zone list" where
  "zones_read (DomainsRead zs) = zs"
| "zones_read _ = []"

definition offers :: "picker \<Rightarrow> picker_event list \<Rightarrow> domain_zone list" where
  "offers pk es = pk_options pk @ concat (map zones_read es)"

section \<open>Confinement\<close>

definition confined :: "domain_zone list \<Rightarrow> picker \<times> profile_form \<Rightarrow> bool" where
  "confined zs s \<longleftrightarrow>
     distinct (pf_allowed_zone_ids (snd s)) \<and> (\<not> pk_platform (fst s) \<longrightarrow> pf_tenant_id (snd s) = None) \<and>
     set (pf_allowed_zone_ids (snd s)) \<subseteq>
       zz_id ` {z \<in> set zs. pk_platform (fst s) \<longrightarrow> Some (zz_tenant_id z) = scoped_tenant (snd s)}"

lemma set_flag_fields [simp]:
  "pf_allowed_zone_ids (set_flag b v f) = pf_allowed_zone_ids f" "pf_tenant_id (set_flag b v f) = pf_tenant_id f"
  by (cases b; simp)+

lemma set_quota_fields [simp]:
  "pf_allowed_zone_ids (set_quota q v f) = pf_allowed_zone_ids f" "pf_tenant_id (set_quota q v f) = pf_tenant_id f"
  by (cases q; simp)+

lemma confined_cong:
  assumes "confined zs (pk, f)" "pf_allowed_zone_ids g = pf_allowed_zone_ids f" "pf_tenant_id g = pf_tenant_id f"
    "pk_platform pk' = pk_platform pk" "set zs \<subseteq> set zs'"
  shows "confined zs' (pk', g)"
proof -
  have "scoped_tenant g = scoped_tenant f" using assms(3) by (simp add: scoped_tenant_def)
  moreover have "set (pf_allowed_zone_ids g) \<subseteq> zz_id ` {z \<in> set zs. pk_platform pk \<longrightarrow> Some (zz_tenant_id z) = scoped_tenant f}"
    using assms(1,2) by (simp add: confined_def)
  then have "set (pf_allowed_zone_ids g) \<subseteq> zz_id ` {z \<in> set zs'. pk_platform pk \<longrightarrow> Some (zz_tenant_id z) = scoped_tenant f}"
    by (rule subset_trans) (use assms(5) in blast)
  ultimately show ?thesis using assms(1-4) by (simp add: confined_def)
qed

lemma confined_choose:
  assumes "confined zs (pk, f)" "pk_platform pk" "set (pk_options pk) \<subseteq> set zs"
  shows "confined zs (pk, choose_scope pk v f)"
  using assms by (fastforce simp: confined_def choose_scope_def scoped_tenant_def Let_def)

lemma confined_toggle:
  assumes "confined zs (pk, f)" "z \<in> set (scopedDomainOptions pk f)" "set (pk_options pk) \<subseteq> set zs"
  shows "confined zs (pk, toggle_zone z v f)"
proof -
  have "z \<in> {z \<in> set zs. pk_platform pk \<longrightarrow> Some (zz_tenant_id z) = scoped_tenant f}"
    using assms(2,3) by (auto simp: scopedDomainOptions_def split: bool.splits option.splits if_splits)
  moreover have "scoped_tenant (toggle_zone z v f) = scoped_tenant f" by (simp add: scoped_tenant_def toggle_zone_def)
  ultimately show ?thesis using assms(1) by (auto simp: confined_def toggle_zone_def)
qed

lemma confined_operate:
  assumes "confined zs (pk, f)" "set (pk_options pk) \<subseteq> set zs"
  shows "confined zs (pk, operate pk f c)"
proof (cases c)
  case (ChooseScope v)
  with assms show ?thesis by (simp add: confined_choose)
next
  case (SwitchZone z v)
  with assms show ?thesis by (simp add: confined_toggle)
next
  case AllowAllDomains
  with assms show ?thesis by (simp add: confined_def)
qed (use assms in \<open>auto intro: confined_cong[OF assms(1)]\<close>)

lemma confined_run:
  "confined zs (pk, f) \<Longrightarrow> set (pk_options pk) \<subseteq> set zs \<Longrightarrow>
     confined (zs @ concat (map zones_read es)) (foldl picker_step (pk, f) es) \<and>
     pk_platform (fst (foldl picker_step (pk, f) es)) = pk_platform pk"
proof (induction es arbitrary: zs pk f)
  case (Cons e es)
  obtain pk' f' where s: "picker_step (pk, f) e = (pk', f')" by fastforce
  have "confined (zs @ zones_read e) (pk', f')" "set (pk_options pk') \<subseteq> set (zs @ zones_read e)"
    "pk_platform pk' = pk_platform pk"
    using s Cons.prems confined_operate[OF Cons.prems] by (cases e; auto intro: confined_cong[OF Cons.prems(1)])+
  with Cons.IH[of "zs @ zones_read e" pk' f'] show ?case by (simp add: s)
qed simp

text \<open>
  C37: a new profile names only zones that were on offer: whatever controls the user operates, and
  however often the list of domains is read again meanwhile, the zone ids of the form are distinct and
  each belongs to a zone that some list offered, of the tenant the form is scoped to (for a tenant
  administrator, to a zone of that administrator's lists); a global scope allows no single zone, and a
  tenant administrator's form never gets a scope.
\<close>

theorem zone_picker_confined:
  fixes es pk
  defines "f \<equiv> snd (foldl picker_step (pk, defaultForm) es)"
  shows "distinct (pf_allowed_zone_ids f) \<and>
    (if pk_platform pk
     then (case scoped_tenant f of
             Some t \<Rightarrow> set (pf_allowed_zone_ids f) \<subseteq> zz_id ` {z \<in> set (offers pk es). zz_tenant_id z = t}
           | None \<Rightarrow> pf_allowed_zone_ids f = [])
     else set (pf_allowed_zone_ids f) \<subseteq> zz_id ` set (offers pk es) \<and> pf_tenant_id f = None)"
proof -
  have "confined (pk_options pk) (pk, defaultForm)" by (simp add: confined_def defaultForm_def)
  from confined_run[OF this, of es]
  have c: "confined (offers pk es) (foldl picker_step (pk, defaultForm) es)"
    "pk_platform (fst (foldl picker_step (pk, defaultForm) es)) = pk_platform pk" by (simp_all add: offers_def)
  show ?thesis
  proof (cases "scoped_tenant f")
    case None
    then show ?thesis using c by (cases "pk_platform pk") (simp_all add: confined_def f_def)
  next
    case (Some t)
    have "{z \<in> set (offers pk es). Some (zz_tenant_id z) = scoped_tenant f} = {z \<in> set (offers pk es). zz_tenant_id z = t}"
      using Some by auto
    then show ?thesis using c Some by (cases "pk_platform pk") (simp_all add: confined_def f_def)
  qed
qed

text \<open>A zone of another tenant is not on offer, and a zone that the next list leaves out stays chosen.\<close>

lemma sample_picker:
  "let z = (\<lambda>i t. \<lparr>zz_id = i, zz_tenant_id = t, zz_owner_user_id = None, zz_parent_zone_id = None, zz_domain = i,
         zz_visibility = Private, zz_allow_random_subdomains = False, zz_is_verified = True, zz_mx_verified = True,
         zz_txt_record = None, zz_dkim_selector = [], zz_dkim_enabled = False, zz_dkim_required_for_send = False,
         zz_created_at = [], zz_verified_at = None\<rparr>);
       pk = \<lparr>pk_platform = True, pk_options = [z ''a'' ''t'', z ''b'' ''u''], pk_locked = False, pk_disabled = False\<rparr>
   in pf_allowed_zone_ids (snd (foldl picker_step (pk, defaultForm)
        [Operated (ChooseScope ''t''), Operated (SwitchZone (z ''a'' ''t'') True), Operated (SwitchZone (z ''b'' ''u'') True),
         DomainsRead []])) = [''a'']"
  by code_simp

end
