(* ===== verification/Simulation.thy ===== *)
theory Simulation
  imports Prelude
begin

text \<open>
  Runs of an event system that keeps a ghost history, against a protocol automaton over that history.
  One step is \<^verbatim>\<open>traced\<close> when what it adds to the history is accepted and the simulation holds
  again; the locale carries that law from steps to runs, once for all event systems.
\<close>

definition traced ::
    "('s \<Rightarrow> 'e list) \<Rightarrow> ('p \<Rightarrow> 'e \<Rightarrow> 'p option) \<Rightarrow> ('p \<Rightarrow> 's \<Rightarrow> bool) \<Rightarrow> 'p \<Rightarrow> 's \<Rightarrow> 's \<Rightarrow> bool" where
  "traced log_of proto sim z s s' \<longleftrightarrow>
     (\<exists>xs z'. log_of s' = log_of s @ xs \<and> accepts proto z xs = Some z' \<and> sim z' s')"

lemma traced_quiet: "log_of s' = log_of s \<Longrightarrow> sim z s' \<Longrightarrow> traced log_of proto sim z s s'"
  unfolding traced_def by (rule exI[of _ "[]"]) simp

lemma traced_one:
  assumes "log_of s' = log_of s @ [x]" "proto z x = Some z'" "sim z' s'"
  shows "traced log_of proto sim z s s'"
  unfolding traced_def by (rule exI[of _ "[x]"], rule exI[of _ z']) (use assms in simp)

lemma traced_trans:
  assumes "traced log_of proto sim z s q" "\<And>y. sim y q \<Longrightarrow> traced log_of proto sim y q s'"
  shows "traced log_of proto sim z s s'"
proof -
  obtain xs y where s: "log_of q = log_of s @ xs" "accepts proto z xs = Some y" "sim y q"
    using assms(1) unfolding traced_def by blast
  obtain ys w where r: "log_of s' = log_of q @ ys" "accepts proto y ys = Some w" "sim w s'"
    using assms(2)[OF s(3)] unfolding traced_def by blast
  show ?thesis unfolding traced_def
    by (rule exI[of _ "xs @ ys"], rule exI[of _ w]) (use s r in \<open>simp add: accepts_append\<close>)
qed

lemma traced_sim: "traced log_of proto sim z s s' \<Longrightarrow> \<exists>y. sim y s'"
  unfolding traced_def by blast

lemma traced_from: "log_of s = log_of q \<Longrightarrow> traced log_of proto sim z s s' \<longleftrightarrow> traced log_of proto sim z q s'"
  by (simp add: traced_def)

locale simulation =
  fixes step :: "'s \<Rightarrow> 'v \<Rightarrow> 's" and log_of :: "'s \<Rightarrow> 'e list"
    and proto :: "'p \<Rightarrow> 'e \<Rightarrow> 'p option" and sim :: "'p \<Rightarrow> 's \<Rightarrow> bool"
  assumes step_traced: "sim z s \<Longrightarrow> traced log_of proto sim z s (step s v)"
begin

lemma run_traced: "sim z s \<Longrightarrow> traced log_of proto sim z s (foldl step s vs)"
proof (induction vs arbitrary: z s)
  case (Cons v vs)
  show ?case using traced_trans[OF step_traced[OF Cons.prems] Cons.IH] by simp
qed (simp add: traced_quiet)

lemma run_accepted:
  assumes "sim z s" "log_of s = []"
  obtains y where "accepts proto z (log_of (foldl step s vs)) = Some y" "sim y (foldl step s vs)"
  using run_traced[OF assms(1), of vs] assms(2) unfolding traced_def by auto

end

end
