(* ===== verification/MemberPage.thy ===== *)
theory MemberPage
  imports ProfilePage AdminApi Addresses Simulation
begin

text \<open>
  The member page of \<^verbatim>\<open>web/features/company/user-management.tsx\<close>: the rows with their guards and
  the permission dialog, a reactive component over the permission editor of \<^verbatim>\<open>PermissionEditor\<close>
  and the adapters of \<^verbatim>\<open>AdminApi\<close>. The page may only write against the snapshot it shows, and
  after anything that makes the snapshot doubtful only an explicit reload lets it write again.
\<close>

section \<open>Members and the form\<close>

datatype member_role = SuperAdminRole | AdminRole | UserRole

record member =
  mu_id :: string
  mu_tenant_id :: string
  mu_email :: string
  mu_display_name :: string
  mu_role :: member_role
  mu_permission_profile_id :: "string option"
  mu_is_active :: bool
  mu_created_at :: string
  mu_updated_at :: string
  mu_last_login_at :: "string option"

definition NONE_PROFILE :: string where
  "NONE_PROFILE = ''__none__''"

definition emptyOverrideForm :: permission_form where
  "emptyOverrideForm = \<lparr>f_flag = (\<lambda>_. None), f_quota = (\<lambda>_. []),
     f_domain = \<lparr>da_mode = Inherit, da_zone_ids = []\<rparr>\<rparr>"

text \<open>The controls of the override form.\<close>

datatype override_control = SetOverride boolean_field "bool option" | TypeOverride number_field string
  | ChooseDomains domain_mode | SwitchDomain string bool

definition switch_domain :: "string \<Rightarrow> bool \<Rightarrow> domain_access \<Rightarrow> domain_access" where
  "switch_domain i checked d =
     (let current = (if da_mode d = ListedZones then da_zone_ids d else []);
          zone_ids = (if checked then js_unique (current @ [i]) else filter (\<lambda>j. j \<noteq> i) current)
      in \<lparr>da_mode = (if zone_ids \<noteq> [] then ListedZones else NoZones), da_zone_ids = zone_ids\<rparr>)"

fun edit_override :: "override_control \<Rightarrow> permission_form \<Rightarrow> permission_form" where
  "edit_override (SetOverride b v) f = f\<lparr>f_flag := (f_flag f)(b := v)\<rparr>"
| "edit_override (TypeOverride q v) f = f\<lparr>f_quota := (f_quota f)(q := v)\<rparr>"
| "edit_override (ChooseDomains mode) f =
     (if mode = ListedZones then f else f\<lparr>f_domain := \<lparr>da_mode = mode, da_zone_ids = []\<rparr>\<rparr>)"
| "edit_override (SwitchDomain i checked) f = f\<lparr>f_domain := switch_domain i checked (f_domain f)\<rparr>"

section \<open>State\<close>

text \<open>
  A call of the dialog remembers what its closure captured: the render's active tenant and member,
  and the epoch. \<^verbatim>\<open>mp_request\<close> is the call whose controller \<^verbatim>\<open>permRequest\<close> holds.
  \<^verbatim>\<open>mp_log\<close> is a ghost history of what the dialog shows and sends.
\<close>

datatype write_kind = Patch | Assign | Reset

datatype member_call = LoadEditor "string option" member | WriteEditor "string option" member write_kind json

record member_flight =
  ml_call :: member_call
  ml_epoch :: nat
  ml_aborted :: bool
  ml_done :: bool

datatype member_entry = LoadSent string | LoadApplied string json | LoadFailed
  | Wrote string write_kind json | WriteApplied string json | WriteFailed | Dropped

record member_page =
  mp_level :: level
  mp_actor :: "(string \<times> string) option"
  mp_tenant :: "string option"
  mp_current :: bool
  mp_revoked_scope :: bool
  mp_event_revoked :: bool
  mp_profiles :: "json list"
  mp_user :: "member option"
  mp_effective :: "json option"
  mp_form :: permission_form
  mp_snapshot :: "json option"
  mp_loading :: bool
  mp_needs_reload :: bool
  mp_conflict :: bool
  mp_epoch :: nat
  mp_request :: "nat option"
  mp_profile_id :: string
  mp_selected_revision :: "string option"
  mp_saving :: bool
  mp_resetting :: bool
  mp_flights :: "member_flight list"
  mp_log :: "member_entry list"
  mp_updates :: "(string \<times> bool) list"
  mp_deletions :: "(string option \<times> member) list"

definition open_members :: "level \<Rightarrow> (string \<times> string) option \<Rightarrow> string option \<Rightarrow> member_page" where
  "open_members level actor tenant =
     \<lparr>mp_level = level, mp_actor = actor, mp_tenant = tenant, mp_current = True, mp_revoked_scope = False,
      mp_event_revoked = False, mp_profiles = [], mp_user = None, mp_effective = None,
      mp_form = emptyOverrideForm, mp_snapshot = None, mp_loading = False, mp_needs_reload = False,
      mp_conflict = False, mp_epoch = 1, mp_request = None, mp_profile_id = NONE_PROFILE,
      mp_selected_revision = None, mp_saving = False, mp_resetting = False, mp_flights = [], mp_log = [],
      mp_updates = [], mp_deletions = []\<rparr>"

definition logged :: "member_entry \<Rightarrow> member_page \<Rightarrow> member_page" where
  "logged x pg = pg\<lparr>mp_log := mp_log pg @ [x]\<rparr>"

definition named_tenant :: "member_page \<Rightarrow> string option" where
  "named_tenant pg = (if mp_tenant pg = Some [] then None else mp_tenant pg)"

section \<open>Rows\<close>

definition currentMemberContext :: "member_page \<Rightarrow> bool" where
  "currentMemberContext pg = (mp_current pg \<and> \<not> mp_revoked_scope pg)"

definition canManageMember :: "member_page \<Rightarrow> member \<Rightarrow> bool" where
  "canManageMember pg u =
     (\<not> mp_event_revoked pg \<and> mp_actor pg \<noteq> None \<and> fst (the (mp_actor pg)) \<noteq> [] \<and>
      named_tenant pg = Some (mu_tenant_id u) \<and>
      (mp_level pg = SuperAdmin \<or>
       (mp_level pg = Admin \<and> snd (the (mp_actor pg)) = mu_tenant_id u \<and> mu_role u = UserRole)))"

definition canDeleteMember :: "member_page \<Rightarrow> member \<Rightarrow> bool" where
  "canDeleteMember pg u = (canManageMember pg u \<and> mu_id u \<noteq> fst (the (mp_actor pg)))"

definition handleToggleActive :: "member \<Rightarrow> member_page \<Rightarrow> member_page" where
  "handleToggleActive u pg =
     (if \<not> canManageMember pg u \<or> \<not> currentMemberContext pg then pg
      else pg\<lparr>mp_updates := mp_updates pg @ [(mu_id u, \<not> mu_is_active u)]\<rparr>)"

text \<open>While the confirmation is on screen, another tab may change the stored session.\<close>

definition handleDeleteMember :: "member \<Rightarrow> dialog \<Rightarrow> bool \<Rightarrow> member_page \<Rightarrow> member_page" where
  "handleDeleteMember u window kept pg =
     (if \<not> canDeleteMember pg u \<or> \<not> currentMemberContext pg then pg
      else let pg' = pg\<lparr>mp_current := kept\<rparr>
           in if \<not> safeConfirm window \<or> \<not> canDeleteMember pg' u \<or> \<not> currentMemberContext pg' then pg'
              else pg'\<lparr>mp_deletions := mp_deletions pg' @ [(mp_tenant pg', u)]\<rparr>)"

section \<open>The dialog\<close>

fun text_of :: "json option \<Rightarrow> string option" where
  "text_of (Some (JStr s)) = Some s"
| "text_of _ = None"

definition abort_request :: "member_page \<Rightarrow> member_page" where
  "abort_request pg =
     (case mp_request pg of None \<Rightarrow> pg
      | Some n \<Rightarrow> pg\<lparr>mp_flights := (mp_flights pg)[n := (mp_flights pg ! n)\<lparr>ml_aborted := True\<rparr>]\<rparr>)"

definition member_call_sent :: "member_call \<Rightarrow> member_page \<Rightarrow> member_page" where
  "member_call_sent c pg = pg\<lparr>mp_request := Some (length (mp_flights pg)),
     mp_flights := mp_flights pg @ [\<lparr>ml_call = c, ml_epoch = mp_epoch pg, ml_aborted = False, ml_done = False\<rparr>]\<rparr>"

definition next_epoch :: "member_page \<Rightarrow> member_page" where
  "next_epoch pg = abort_request (pg\<lparr>mp_epoch := Suc (mp_epoch pg)\<rparr>)"

text \<open>
  \<^verbatim>\<open>loadPermSnapshot\<close>; when the target is of another tenant the load throws before anything is
  sent, and its controller is one no call uses.
\<close>

definition loadPermSnapshot :: "member \<Rightarrow> member_page \<Rightarrow> member_page" where
  "loadPermSnapshot u pg =
     (let pg' = (next_epoch pg)\<lparr>mp_loading := True, mp_snapshot := None, mp_effective := None,
            mp_form := emptyOverrideForm, mp_needs_reload := False, mp_conflict := False\<rparr>
      in if named_tenant pg' \<noteq> Some (mu_tenant_id u)
         then logged Dropped (pg'\<lparr>mp_request := None, mp_loading := False\<rparr>)
         else logged (LoadSent (mu_id u)) (member_call_sent (LoadEditor (mp_tenant pg') u) pg'))"

definition openPermDialog :: "member \<Rightarrow> member_page \<Rightarrow> member_page" where
  "openPermDialog u pg =
     loadPermSnapshot u (pg\<lparr>mp_user := Some u, mp_saving := False, mp_resetting := False\<rparr>)"

definition closePermDialog :: "member_page \<Rightarrow> member_page" where
  "closePermDialog pg =
     logged Dropped ((next_epoch pg)\<lparr>mp_user := None, mp_snapshot := None, mp_effective := None,
       mp_saving := False, mp_resetting := False\<rparr>)"

definition members_invalidated :: "member_page \<Rightarrow> member_page" where
  "members_invalidated pg =
     (if mp_user pg = None then pg
      else logged Dropped ((next_epoch pg)\<lparr>mp_loading := False, mp_saving := False, mp_resetting := False,
             mp_needs_reload := True, mp_conflict := True, mp_effective := None\<rparr>))"

definition members_revoked :: "member_page \<Rightarrow> member_page" where
  "members_revoked pg =
     (closePermDialog (pg\<lparr>mp_revoked_scope := True\<rparr>))\<lparr>mp_form := emptyOverrideForm, mp_event_revoked := True\<rparr>"

definition members_session :: "level \<Rightarrow> (string \<times> string) option \<Rightarrow> string option \<Rightarrow> member_page \<Rightarrow> member_page" where
  "members_session level actor tenant pg =
     logged Dropped ((next_epoch pg)\<lparr>mp_user := None, mp_snapshot := None, mp_effective := None,
       mp_form := emptyOverrideForm, mp_loading := False, mp_saving := False, mp_resetting := False,
       mp_needs_reload := False, mp_conflict := False, mp_level := level, mp_actor := actor,
       mp_tenant := tenant, mp_current := True, mp_revoked_scope := False, mp_event_revoked := False\<rparr>)"

text \<open>Leaving the page takes its state along; the cleanup of its effect ends every call.\<close>

definition members_unmounted :: "member_page \<Rightarrow> member_page" where
  "members_unmounted pg = logged Dropped ((next_epoch pg)\<lparr>mp_user := None, mp_snapshot := None\<rparr>)"

definition editorProfiles :: "member_page \<Rightarrow> json list" where
  "editorProfiles pg =
     (let p = opt_prop (mp_snapshot pg) ''profile''
      in if truthy p then the p # filter (\<lambda>q. \<not> strict_eq (get_prop q ''id'') (opt_prop p ''id'')) (mp_profiles pg)
         else mp_profiles pg)"

definition knownProfile :: "string \<Rightarrow> member_page \<Rightarrow> json option" where
  "knownProfile i pg =
     (case find (\<lambda>p. get_prop p ''id'' = Some (JStr i)) (editorProfiles pg) of
        None \<Rightarrow> None
      | Some p \<Rightarrow>
          if \<not> nullish (get_prop p ''tenant_id'') \<and>
             \<not> strict_eq (get_prop p ''tenant_id'') (opt_prop (mp_snapshot pg) ''tenant_id'') then None
          else if validateObservedPermissionProfile (Some p) = Inr () then Some p else None)"

definition editorTenantBound :: "member_page \<Rightarrow> bool" where
  "editorTenantBound pg =
     (\<not> mp_event_revoked pg \<and> named_tenant pg \<noteq> None \<and>
      opt_prop (mp_snapshot pg) ''tenant_id'' = Some (JStr (the (named_tenant pg))) \<and>
      map_option mu_tenant_id (mp_user pg) = named_tenant pg)"

definition editorBusy :: "member_page \<Rightarrow> bool" where
  "editorBusy pg = (mp_loading pg \<or> mp_needs_reload pg \<or> mp_saving pg \<or> mp_resetting pg)"

definition capability :: "string \<Rightarrow> member_page \<Rightarrow> bool" where
  "capability k pg = truthy (opt_prop (opt_prop (mp_snapshot pg) ''capabilities'') k)"

definition canAssign :: "member_page \<Rightarrow> bool" where
  "canAssign pg = (editorTenantBound pg \<and> capability ''assign_profile'' pg \<and> \<not> editorBusy pg)"

definition canPatch :: "member_page \<Rightarrow> bool" where
  "canPatch pg = (editorTenantBound pg \<and> capability ''patch'' pg \<and> \<not> editorBusy pg)"

definition chosen_profile :: "member_page \<Rightarrow> string option" where
  "chosen_profile pg = (if mp_profile_id pg = NONE_PROFILE then None else Some (mp_profile_id pg))"

definition observed_revision :: "member_page \<Rightarrow> string \<Rightarrow> string option" where
  "observed_revision pg k = text_of (opt_prop (opt_prop (mp_snapshot pg) ''revision'') k)"

definition assignmentChanged :: "member_page \<Rightarrow> bool" where
  "assignmentChanged pg = (mp_snapshot pg \<noteq> None \<and> chosen_profile pg \<noteq> observed_revision pg ''profile_id'')"

definition observedDestination :: "member_page \<Rightarrow> bool" where
  "observedDestination pg =
     (mp_profile_id pg = NONE_PROFILE \<or>
      (mp_selected_revision pg \<noteq> None \<and>
       opt_prop (knownProfile (mp_profile_id pg) pg) ''revision'' = Some (JStr (the (mp_selected_revision pg)))))"

definition handlePermProfileChange :: "string option \<Rightarrow> member_page \<Rightarrow> member_page" where
  "handlePermProfileChange value pg =
     (if \<not> canAssign pg then pg
      else let i = (case value of Some v \<Rightarrow> v | None \<Rightarrow> NONE_PROFILE)
           in if i = NONE_PROFILE then pg\<lparr>mp_profile_id := i, mp_selected_revision := None\<rparr>
              else (case knownProfile i pg of
                      None \<Rightarrow> pg
                    | Some p \<Rightarrow> pg\<lparr>mp_profile_id := i, mp_selected_revision := text_of (get_prop p ''revision'')\<rparr>))"

definition pendingCommand :: "member_page \<Rightarrow> json option" where
  "pendingCommand pg =
     (case mp_snapshot pg of
        None \<Rightarrow> None
      | Some s \<Rightarrow> (case buildPermissionEditorCommand (Some s) (mp_form pg) of Inr c \<Rightarrow> Some c | Inl _ \<Rightarrow> None))"

definition hasChangedFields :: "member_page \<Rightarrow> bool" where
  "hasChangedFields pg = (spread (opt_prop (pendingCommand pg) ''patch'') \<noteq> [])"

definition canSave :: "member_page \<Rightarrow> bool" where
  "canSave pg =
     (pendingCommand pg \<noteq> None \<and> \<not> editorBusy pg \<and>
      (if assignmentChanged pg
       then canAssign pg \<and> observedDestination pg \<and> (\<not> hasChangedFields pg \<or> capability ''patch'' pg)
       else canPatch pg \<and> hasChangedFields pg))"

definition failPermWrite :: "exn \<Rightarrow> member_page \<Rightarrow> member_page" where
  "failPermWrite e pg = pg\<lparr>mp_needs_reload := True, mp_conflict :=
     (permissionError e ''code'' \<in> {Some (JStr ''CONFLICT''), Some (JStr ''REVISION_CONFLICT'')})\<rparr>"

text \<open>The page calls the adapter with whatever command it has built.\<close>

definition write_editor :: "member \<Rightarrow> write_kind \<Rightarrow> json \<Rightarrow> member_page \<Rightarrow> member_page" where
  "write_editor u k c pg =
     logged (Wrote (mu_id u) k c) ((member_call_sent (WriteEditor (mp_tenant pg) u k c) pg)
       \<lparr>mp_saving := (k \<noteq> Reset), mp_resetting := (k = Reset)\<rparr>)"

definition text_or_null :: "string option \<Rightarrow> json" where
  "text_or_null v = (case v of Some s \<Rightarrow> JStr s | None \<Rightarrow> JNull)"

definition assignment_command :: "member_page \<Rightarrow> json \<Rightarrow> json" where
  "assignment_command pg c = JObj (merge_objects (spread (Some c))
     [(''profile_id'', text_or_null (chosen_profile pg)), (''profile_revision'', text_or_null (mp_selected_revision pg))])"

definition handleSaveOverrides :: "member_page \<Rightarrow> member_page" where
  "handleSaveOverrides pg =
     (case (mp_user pg, pendingCommand pg) of
        (Some u, Some c) \<Rightarrow>
          if mp_snapshot pg = None \<or> \<not> canSave pg then pg
          else if assignmentChanged pg then write_editor u Assign (assignment_command pg c) pg
          else write_editor u Patch c pg
      | _ \<Rightarrow> pg)"

definition reset_patch :: json where
  "reset_patch = JObj ([(''can_send'', JNull), (''daily_send_quota'', JNull), (''daily_receive_quota'', JNull),
     (''max_mailboxes'', JNull), (''max_domains'', JNull), (''can_create_domains'', JNull),
     (''can_create_routes'', JNull), (''can_create_api_keys'', JNull),
     (''domain_access'', JObj [(''mode'', JStr ''inherit''), (''zone_ids'', JArr [])])])"

definition reset_command :: "json \<Rightarrow> json" where
  "reset_command s = JObj [(''expected_revision'', JObj (spread (get_prop s ''revision''))), (''patch'', reset_patch)]"

definition handleResetOverrides :: "member_page \<Rightarrow> member_page" where
  "handleResetOverrides pg =
     (case (mp_user pg, mp_snapshot pg) of
        (Some u, Some s) \<Rightarrow>
          if \<not> canPatch pg \<or> assignmentChanged pg then pg else write_editor u Reset (reset_command s) pg
      | _ \<Rightarrow> pg)"

section \<open>Answers\<close>

definition assertPermTenant :: "string option \<Rightarrow> json \<Rightarrow> member \<Rightarrow> bool" where
  "assertPermTenant tenant s u =
     (tenant \<noteq> None \<and> tenant \<noteq> Some [] \<and> Some (mu_tenant_id u) = tenant \<and>
      get_prop s ''tenant_id'' = Some (JStr (mu_tenant_id u)) \<and>
      opt_prop (get_prop s ''revision'') ''tenant_id'' = Some (JStr (mu_tenant_id u)) \<and>
      get_prop s ''user_id'' = Some (JStr (mu_id u)))"

text \<open>
  The state setters run up to the one whose argument throws; the result says whether it did.
\<close>

definition applyPermSnapshot :: "json \<Rightarrow> member_page \<Rightarrow> bool \<times> member_page" where
  "applyPermSnapshot s pg =
     (let revision = get_prop s ''revision'';
          pg' = pg\<lparr>mp_snapshot := Some s,
            mp_profile_id := (case text_of (opt_prop revision ''profile_id'') of Some i \<Rightarrow> i | None \<Rightarrow> NONE_PROFILE),
            mp_selected_revision := text_of (opt_prop revision ''profile_revision''),
            mp_effective := get_prop s ''effective''\<rparr>
      in case permissionEditorFormFromSnapshot (Some s) of
           Inl m \<Rightarrow> (False, pg')
         | Inr f \<Rightarrow> (True, pg'\<lparr>mp_form := f, mp_conflict := False, mp_needs_reload := False\<rparr>))"

text \<open>What the adapter returns for the \<^verbatim>\<open>data\<close> of an answer.\<close>

definition adapter_answer :: "string \<Rightarrow> exn + json \<Rightarrow> exn + json" where
  "adapter_answer u result =
     (case result of
        Inl e \<Rightarrow> Inl e
      | Inr v \<Rightarrow> (case validatePermissionEditorSnapshot (Some v) (Some u) of Inr _ \<Rightarrow> Inr v | Inl m \<Rightarrow> Inl (Err m)))"

text \<open>
  The adapters check a command before anything is sent; the call with a command that is refused ends in
  that error, and no request goes out.
\<close>

definition check_write :: "write_kind \<Rightarrow> json \<Rightarrow> string \<Rightarrow> unit checked" where
  "check_write k c u =
     (if k = Assign then validateAssignmentCommand (Some c) u else validatePermissionEditorCommand (Some c) u)"

definition written_answer :: "write_kind \<Rightarrow> json \<Rightarrow> string \<Rightarrow> exn + json \<Rightarrow> exn + json" where
  "written_answer k c u result =
     (case check_write k c u of Inl m \<Rightarrow> Inl (Err m) | Inr _ \<Rightarrow> adapter_answer u result)"

definition editor_loaded :: "string option \<Rightarrow> member \<Rightarrow> exn + json \<Rightarrow> member_page \<Rightarrow> member_page" where
  "editor_loaded tenant u result pg =
     (case adapter_answer (mu_id u) result of
        Inl e \<Rightarrow> logged LoadFailed pg
      | Inr s \<Rightarrow>
          if \<not> assertPermTenant tenant s u then logged LoadFailed pg
          else (case applyPermSnapshot s pg of
                  (applied, pg') \<Rightarrow> logged (if applied then LoadApplied (mu_id u) s else LoadFailed) pg'))
       \<lparr>mp_loading := False\<rparr>"

definition editor_written :: "string option \<Rightarrow> member \<Rightarrow> write_kind \<Rightarrow> json \<Rightarrow> exn + json \<Rightarrow> member_page \<Rightarrow> member_page" where
  "editor_written tenant u k c result pg =
     (let pg' = (case written_answer k c (mu_id u) result of
            Inl e \<Rightarrow> logged WriteFailed (failPermWrite e pg)
          | Inr s \<Rightarrow>
              if \<not> assertPermTenant tenant s u
              then logged WriteFailed (failPermWrite (Err ''Permission editor belongs to a different active tenant'') pg)
              else (case applyPermSnapshot s pg of
                      (applied, pg') \<Rightarrow> if applied then logged (WriteApplied (mu_id u) s) pg'
                        else logged WriteFailed (failPermWrite (Err ''TypeError'') pg')))
      in if k = Reset then pg'\<lparr>mp_resetting := False\<rparr> else pg'\<lparr>mp_saving := False\<rparr>)"

fun member_answer :: "member_call \<Rightarrow> exn + json \<Rightarrow> member_page \<Rightarrow> member_page" where
  "member_answer (LoadEditor tenant u) result pg = editor_loaded tenant u result pg"
| "member_answer (WriteEditor tenant u k c) result pg = editor_written tenant u k c result pg"

definition member_done :: "nat \<Rightarrow> member_page \<Rightarrow> member_page" where
  "member_done n pg = pg\<lparr>mp_flights := (mp_flights pg)[n := (mp_flights pg ! n)\<lparr>ml_done := True\<rparr>]\<rparr>"

text \<open>
  An answer of an older epoch, or of an aborted call, changes nothing but the flag that its
  \<^verbatim>\<open>finally\<close> clears when only the abort is newer.
\<close>

definition member_settled :: "nat \<Rightarrow> exn + json \<Rightarrow> member_page \<Rightarrow> member_page" where
  "member_settled n result pg =
     (if n < length (mp_flights pg) \<and> \<not> ml_done (mp_flights pg ! n)
      then let f = mp_flights pg ! n; pg' = member_done n pg
           in if ml_epoch f \<noteq> mp_epoch pg then pg'
              else if ml_aborted f
              then (case ml_call f of
                      LoadEditor t u \<Rightarrow> pg'\<lparr>mp_loading := False\<rparr>
                    | WriteEditor t u k c \<Rightarrow> if k = Reset then pg'\<lparr>mp_resetting := False\<rparr> else pg'\<lparr>mp_saving := False\<rparr>)
              else member_answer (ml_call f) result pg'
      else pg)"

section \<open>Events\<close>

datatype member_event =
    MSessionLeft | MSessionChanged level "(string \<times> string) option" "string option" | MInvalidated | MRevoked
  | MUnmounted
  | ProfilesRead "json list" | OpenClicked member | CloseClicked | ReloadClicked | ProfileChosen "string option"
  | Control override_control | SaveOverrides | ResetOverrides | MSettled nat "exn + json"
  | ActiveToggled member | DeleteMember member dialog bool

text \<open>The dialog is modal: the rows are out of reach while it is open.\<close>

fun member_step :: "member_page \<Rightarrow> member_event \<Rightarrow> member_page" where
  "member_step pg MSessionLeft = pg\<lparr>mp_current := False\<rparr>"
| "member_step pg (MSessionChanged level actor tenant) = members_session level actor tenant pg"
| "member_step pg MInvalidated = members_invalidated pg"
| "member_step pg MRevoked = members_revoked pg"
| "member_step pg MUnmounted = members_unmounted pg"
| "member_step pg (ProfilesRead ps) = pg\<lparr>mp_profiles := ps\<rparr>"
| "member_step pg (OpenClicked u) = (if mp_user pg = None then openPermDialog u pg else pg)"
| "member_step pg CloseClicked = (if mp_user pg \<noteq> None then closePermDialog pg else pg)"
| "member_step pg ReloadClicked =
     (case mp_user pg of
        Some u \<Rightarrow> if mp_loading pg \<or> mp_saving pg \<or> mp_resetting pg then pg else loadPermSnapshot u pg
      | None \<Rightarrow> pg)"
| "member_step pg (ProfileChosen v) = (if mp_user pg \<noteq> None then handlePermProfileChange v pg else pg)"
| "member_step pg (Control c) =
     (if mp_user pg \<noteq> None \<and> canPatch pg then pg\<lparr>mp_form := edit_override c (mp_form pg)\<rparr> else pg)"
| "member_step pg SaveOverrides = handleSaveOverrides pg"
| "member_step pg ResetOverrides = handleResetOverrides pg"
| "member_step pg (MSettled n result) = member_settled n result pg"
| "member_step pg (ActiveToggled u) = (if mp_user pg = None then handleToggleActive u pg else pg)"
| "member_step pg (DeleteMember u window kept) =
     (if mp_user pg = None then handleDeleteMember u window kept pg else pg)"

abbreviation member_run :: "member_page \<Rightarrow> member_event list \<Rightarrow> member_page" where
  "member_run \<equiv> foldl member_step"


section \<open>Commands that the validators accept\<close>

lemma revision_spread:
  assumes "validatePermissionRevision r target = Inr ()"
  shows "r = Some (JObj (spread r))"
proof (cases r)
  case (Some x)
  then show ?thesis using assms by (cases x) (auto simp: validatePermissionRevision_def)
qed (use assms in \<open>simp add: validatePermissionRevision_def\<close>)

lemma revision_untargeted:
  "validatePermissionRevision r (Some u) = Inr () \<Longrightarrow> validatePermissionRevision r None = Inr ()"
  by (auto simp: validatePermissionRevision_def)

lemma snapshot_untargeted:
  "validatePermissionEditorSnapshot s (Some u) = Inr () \<Longrightarrow> validatePermissionEditorSnapshot s None = Inr ()"
  by (auto simp: validatePermissionEditorSnapshot_def dest: revision_untargeted)

lemma snapshot_revision:
  "validatePermissionEditorSnapshot s (Some u) = Inr () \<Longrightarrow>
     validatePermissionRevision (opt_prop s ''revision'') (Some u) = Inr ()"
  by (auto simp: validatePermissionEditorSnapshot_def)

lemma snapshot_form:
  assumes "validatePermissionEditorSnapshot s (Some u) = Inr ()"
  shows "\<exists>f. permissionEditorFormFromSnapshot s = Inr f"
proof -
  note v = snapshot_untargeted[OF assms]
  have "truthy (opt_prop s ''overrides'') \<Longrightarrow> \<exists>d. normalizedDomainAccess (opt_prop (opt_prop s ''overrides'') ''domain_access'') = Inr d"
    using v by (auto simp: validatePermissionEditorSnapshot_def validate_overrides_def validateDomainAccess_def
        split: if_splits)
  with v show ?thesis by (auto simp: permissionEditorFormFromSnapshot_def Let_def)
qed

lemma flag_intents: "(k, v) \<in> set (flag_patch original form) \<Longrightarrow> check_intent (k, v) = Inr ()"
  by (auto simp: flag_patch_def check_intent_def is_boolean_name_def flag_json_def split: option.splits if_splits)

lemma quota_intents:
  assumes "quota_patch original form permissionNumberFields = Inr quotas" "(k, v) \<in> set quotas"
  shows "check_intent (k, v) = Inr ()"
proof -
  obtain f n where f: "k = number_name f" "numericIntent (f_quota form f) = Inr n" "v = quota_json n"
    using quota_patch_Inr[OF assms(1) all_number_fields(2)] assms(2) by blast
  have "n = None \<or> PermissionEditor.quota (Some v)"
    using wire_quota_json[OF f(2)] f(3) by (cases n) (simp_all add: PermissionEditor.quota_def)
  then show ?thesis using f(1,3) number_names[of f]
    by (auto simp: check_intent_def quota_json_def)
qed

lemma domain_intents:
  "good_domain (f_domain form) \<Longrightarrow> (k, v) \<in> set (domain_patch original form) \<Longrightarrow> check_intent (k, v) = Inr ()"
  by (auto simp: domain_patch_def check_intent_def is_boolean_name_def is_number_name_def
      permissionBooleanFields_def permissionNumberFields_def validateDomainAccess_def domain_json_normalized
      split: if_splits)

lemma built_command:
  assumes "buildPermissionEditorCommand s form = Inr c" "validatePermissionEditorSnapshot s (Some u) = Inr ()"
  shows "get_prop c ''expected_revision'' = opt_prop s ''revision''"
    and "opt_prop s ''revision'' = Some (JObj (spread (opt_prop s ''revision'')))"
    and "spread (get_prop c ''patch'') \<noteq> [] \<Longrightarrow> validatePermissionEditorCommand (Some c) u = Inr ()"
    and "\<exists>kvs. get_prop c ''patch'' = Some (JObj kvs)" and "is_object c"
    and "own_keys c = [''expected_revision'', ''patch'']"
proof -
  obtain original quotas where q: "quota_patch original form permissionNumberFields = Inr quotas"
    "good_domain (f_domain form)"
    "c = JObj [(''expected_revision'', JObj (spread (opt_prop s ''revision''))),
       (''patch'', JObj (flag_patch original form @ quotas @ domain_patch original form))]"
    using assms(1) by (elim build_parts) simp
  note r = snapshot_revision[OF assms(2)]
  show "opt_prop s ''revision'' = Some (JObj (spread (opt_prop s ''revision'')))"
    by (rule revision_spread[OF r])
  then show "get_prop c ''expected_revision'' = opt_prop s ''revision''" by (simp add: q(3))
  moreover have "each check_intent (flag_patch original form @ quotas @ domain_patch original form) = Inr ()"
    using flag_intents quota_intents[OF q(1)] domain_intents[OF q(2)] by auto
  ultimately show "spread (get_prop c ''patch'') \<noteq> [] \<Longrightarrow> validatePermissionEditorCommand (Some c) u = Inr ()"
    using r by (simp add: validatePermissionEditorCommand_def q(3) nullish_def Let_def)
  show "\<exists>kvs. get_prop c ''patch'' = Some (JObj kvs)" "is_object c" "own_keys c = [''expected_revision'', ''patch'']"
    by (simp_all add: q(3))
qed


lemma text_of_Some: "text_of v = Some s \<longleftrightarrow> v = Some (JStr s)"
  by (cases v rule: text_of.cases) auto

lemma known_destination:
  assumes "observedDestination pg" "mp_profile_id pg \<noteq> NONE_PROFILE"
  obtains r where "mp_selected_revision pg = Some r" "isUUID (Some (JStr (mp_profile_id pg)))"
    "decimalRevision (Some (JStr r))"
proof -
  from assms obtain r where r: "mp_selected_revision pg = Some r"
    "opt_prop (knownProfile (mp_profile_id pg) pg) ''revision'' = Some (JStr r)"
    by (auto simp: observedDestination_def)
  then obtain p where p: "knownProfile (mp_profile_id pg) pg = Some p" "get_prop p ''revision'' = Some (JStr r)"
    by (cases "knownProfile (mp_profile_id pg) pg") auto
  have "validateObservedPermissionProfile (Some p) = Inr ()" "get_prop p ''id'' = Some (JStr (mp_profile_id pg))"
    using p(1) by (auto simp: knownProfile_def find_Some_iff split: option.splits if_splits)
  then have "isUUID (Some (JStr (mp_profile_id pg))) \<and> decimalRevision (get_prop p ''revision'')"
    by (auto simp: validateObservedPermissionProfile_def Let_def simp del: decimalRevision.simps)
  with r p(2) that show ?thesis by simp
qed

lemma same_checks:
  assumes "get_prop d ''expected_revision'' = get_prop c ''expected_revision''" "get_prop d ''patch'' = get_prop c ''patch''"
  shows "is_object c \<Longrightarrow> is_object d \<Longrightarrow>
    validatePermissionEditorCommand (Some d) u = validatePermissionEditorCommand (Some c) u"
  using assms by (cases c; cases d) (simp_all add: validatePermissionEditorCommand_def deref_def nullish_def)

lemma assignment_valid:
  assumes "is_object d" "validatePermissionRevision (get_prop d ''expected_revision'') (Some u) = Inr ()"
    and "get_prop d ''profile_id'' = Some i" "get_prop d ''profile_revision'' = Some r" "get_prop d ''patch'' = Some (JObj ps)"
    and "if i = JNull then r = JNull else isUUID (Some i) \<and> decimalRevision (Some r)"
    and "ps \<noteq> [] \<Longrightarrow> validatePermissionEditorCommand (Some d) u = Inr ()"
  shows "validateAssignmentCommand (Some d) u = Inr ()"
proof -
  have d: "deref (Some d) ''expected_revision'' = Inr (get_prop d ''expected_revision'')"
    using assms(1) by (cases d) (simp_all add: nullish_def)
  show ?thesis using assms(6,7)
    by (simp add: validateAssignmentCommand_def d assms(2-5) own_def Let_def del: decimalRevision.simps isUUID.simps)
qed

lemma assignment_accepted:
  assumes "mp_snapshot pg = Some s" "validatePermissionEditorSnapshot (Some s) (Some u) = Inr ()"
    and "pendingCommand pg = Some c" "observedDestination pg"
    and "mp_profile_id pg = NONE_PROFILE \<longrightarrow> mp_selected_revision pg = None"
  shows "validateAssignmentCommand (Some (assignment_command pg c)) u = Inr ()"
    and "get_prop (assignment_command pg c) ''expected_revision'' = get_prop s ''revision''"
proof -
  have b: "buildPermissionEditorCommand (Some s) (mp_form pg) = Inr c"
    using assms(1,3) by (auto simp: pendingCommand_def split: sum.splits)
  note c = built_command[OF b assms(2)]
  let ?d = "assignment_command pg c"
  obtain kvs where k: "c = JObj kvs" using c(5) by (cases c) simp_all
  have g: "get_prop ?d j = (if j = ''profile_id'' then Some (text_or_null (chosen_profile pg))
      else if j = ''profile_revision'' then Some (text_or_null (mp_selected_revision pg)) else get_prop c j)" for j
    by (simp add: assignment_command_def k map_of_merge)
  show e: "get_prop ?d ''expected_revision'' = get_prop s ''revision''" using c(1) by (simp add: g)
  have r: "validatePermissionRevision (get_prop s ''revision'') (Some u) = Inr ()"
    using snapshot_revision[OF assms(2)] by simp
  have o: "is_object ?d" by (simp add: assignment_command_def)
  have p: "if text_or_null (chosen_profile pg) = JNull then text_or_null (mp_selected_revision pg) = JNull
      else isUUID (Some (text_or_null (chosen_profile pg))) \<and>
        decimalRevision (Some (text_or_null (mp_selected_revision pg)))"
  proof (cases "mp_profile_id pg = NONE_PROFILE")
    case True
    then show ?thesis using assms(5) by (simp add: chosen_profile_def text_or_null_def)
  next
    case False
    from known_destination[OF assms(4) False] obtain r where "mp_selected_revision pg = Some r"
      "isUUID (Some (JStr (mp_profile_id pg)))" "decimalRevision (Some (JStr r))" by blast
    then show ?thesis
      using False by (simp add: chosen_profile_def text_or_null_def del: decimalRevision.simps isUUID.simps)
  qed
  obtain ps where ps: "get_prop c ''patch'' = Some (JObj ps)" using c(4) by blast
  have "ps \<noteq> [] \<Longrightarrow> validatePermissionEditorCommand (Some ?d) u = Inr ()"
    using c(3) same_checks[of ?d c u] o c(5) ps by (simp add: g)
  then show "validateAssignmentCommand (Some ?d) u = Inr ()"
    using e r p ps o by (intro assignment_valid[where i = "text_or_null (chosen_profile pg)"
          and r = "text_or_null (mp_selected_revision pg)" and ps = ps]) (simp_all add: g)
qed

lemma reset_accepted:
  assumes "validatePermissionEditorSnapshot (Some s) (Some u) = Inr ()"
  shows "validatePermissionEditorCommand (Some (reset_command s)) u = Inr ()"
    and "get_prop (reset_command s) ''expected_revision'' = get_prop s ''revision''"
proof -
  have r: "validatePermissionRevision (get_prop s ''revision'') (Some u) = Inr ()"
    using snapshot_revision[OF assms] by simp
  have s: "Some (JObj (spread (get_prop s ''revision''))) = get_prop s ''revision''"
    using revision_spread[OF r] by simp
  show "get_prop (reset_command s) ''expected_revision'' = get_prop s ''revision''"
    using s by (simp add: reset_command_def)
  have "each check_intent (spread (Some reset_patch)) = Inr ()"
    by (simp add: reset_patch_def check_intent_def is_boolean_name_def is_number_name_def permissionBooleanFields_def
        permissionNumberFields_def validateDomainAccess_def normalizedDomainAccess_def domain_modes_def
        zone_ids_fit_def zone_values_def Let_def)
  then show "validatePermissionEditorCommand (Some (reset_command s)) u = Inr ()"
    using r s by (simp add: validatePermissionEditorCommand_def reset_command_def nullish_def Let_def)
      (simp add: reset_patch_def)
qed


section \<open>The protocol of the dialog\<close>

text \<open>
  What the dialog may do with the server, told by its observations: a write goes out only against the
  snapshot that is shown, with that snapshot's revision and accepted by the adapter's validator; one
  call is pending at a time; and after a failure, an invalidation or a closing nothing is written until
  a new load was asked for and answered.
\<close>

datatype view = NoView | Loading string | View string json | Writing string json

definition bound_to_user :: "string \<Rightarrow> json \<Rightarrow> bool" where
  "bound_to_user u s \<longleftrightarrow> validatePermissionEditorSnapshot (Some s) (Some u) = Inr ()"

definition write_fits :: "string \<Rightarrow> json \<Rightarrow> write_kind \<Rightarrow> json \<Rightarrow> bool" where
  "write_fits u s k c \<longleftrightarrow>
     check_write k c u = Inr () \<and> get_prop c ''expected_revision'' = get_prop s ''revision''"

fun member_protocol :: "view \<Rightarrow> member_entry \<Rightarrow> view option" where
  "member_protocol z Dropped = Some NoView"
| "member_protocol NoView (LoadSent u) = Some (Loading u)"
| "member_protocol (View v s) (LoadSent u) = (if u = v then Some (Loading u) else None)"
| "member_protocol (Loading u) LoadFailed = Some NoView"
| "member_protocol (Loading u) (LoadApplied v s) = (if v = u \<and> bound_to_user u s then Some (View u s) else None)"
| "member_protocol (View u s) (Wrote v k c) = (if v = u \<and> write_fits u s k c then Some (Writing u s) else None)"
| "member_protocol (Writing u s) (WriteApplied v s') = (if v = u \<and> bound_to_user u s' then Some (View u s') else None)"
| "member_protocol (Writing u s) WriteFailed = Some NoView"
| "member_protocol z x = None"

definition live :: "member_page \<Rightarrow> nat \<Rightarrow> bool" where
  "live pg n \<longleftrightarrow> n < length (mp_flights pg) \<and> \<not> ml_done (mp_flights pg ! n) \<and>
     ml_epoch (mp_flights pg ! n) = mp_epoch pg"

definition none_live :: "member_page \<Rightarrow> bool" where
  "none_live pg \<longleftrightarrow> (\<forall>n. \<not> live pg n)"

definition only_live :: "member_page \<Rightarrow> member_call \<Rightarrow> bool" where
  "only_live pg c \<longleftrightarrow> (\<exists>n. live pg n \<and> \<not> ml_aborted (mp_flights pg ! n) \<and> ml_call (mp_flights pg ! n) = c \<and>
     (\<forall>k. live pg k \<longrightarrow> k = n))"

definition old_flights :: "member_page \<Rightarrow> bool" where
  "old_flights pg \<longleftrightarrow> list_all (\<lambda>f. ml_epoch f \<le> mp_epoch pg) (mp_flights pg)"

definition sel_ok :: "member_page \<Rightarrow> bool" where
  "sel_ok pg \<longleftrightarrow> (mp_profile_id pg = NONE_PROFILE \<longrightarrow> mp_selected_revision pg = None)"

definition quiet :: "member_page \<Rightarrow> bool" where
  "quiet pg \<longleftrightarrow> \<not> mp_loading pg \<and> \<not> mp_saving pg \<and> \<not> mp_resetting pg"

definition shows_user :: "string \<Rightarrow> member_page \<Rightarrow> bool" where
  "shows_user u pg \<longleftrightarrow> map_option mu_id (mp_user pg) = Some u"

fun shown :: "view \<Rightarrow> member_page \<Rightarrow> bool" where
  "shown NoView pg \<longleftrightarrow> none_live pg \<and>
     (if mp_user pg = None then mp_snapshot pg = None else quiet pg \<and> (mp_snapshot pg = None \<or> mp_needs_reload pg))"
| "shown (Loading u) pg \<longleftrightarrow> mp_loading pg \<and> \<not> mp_saving pg \<and> \<not> mp_resetting pg \<and> mp_snapshot pg = None \<and>
     (\<exists>t m. mp_user pg = Some m \<and> mu_id m = u \<and> only_live pg (LoadEditor t m))"
| "shown (View u s) pg \<longleftrightarrow> none_live pg \<and> quiet pg \<and> \<not> mp_needs_reload pg \<and> mp_snapshot pg = Some s \<and>
     bound_to_user u s \<and> shows_user u pg"
| "shown (Writing u s) pg \<longleftrightarrow> \<not> mp_loading pg \<and> \<not> mp_needs_reload pg \<and> mp_snapshot pg = Some s \<and>
     (\<exists>t m k c. mp_user pg = Some m \<and> mu_id m = u \<and> mp_saving pg = (k \<noteq> Reset) \<and> mp_resetting pg = (k = Reset) \<and>
       only_live pg (WriteEditor t m k c))"

definition member_sim :: "view \<Rightarrow> member_page \<Rightarrow> bool" where
  "member_sim z pg \<longleftrightarrow> old_flights pg \<and> sel_ok pg \<and> shown z pg"

text \<open>Every step adds a history that the protocol allows, and keeps the simulation.\<close>

abbreviation follows :: "view \<Rightarrow> member_page \<Rightarrow> member_page \<Rightarrow> bool" where
  "follows \<equiv> traced mp_log member_protocol member_sim"

subsection \<open>What an abort keeps\<close>

lemma abort_fields [simp]:
  "mp_epoch (abort_request pg) = mp_epoch pg" "mp_user (abort_request pg) = mp_user pg"
  "mp_log (abort_request pg) = mp_log pg" "mp_profile_id (abort_request pg) = mp_profile_id pg"
  "mp_selected_revision (abort_request pg) = mp_selected_revision pg" "mp_tenant (abort_request pg) = mp_tenant pg"
  "length (mp_flights (abort_request pg)) = length (mp_flights pg)"
  "mp_saving (abort_request pg) = mp_saving pg" "mp_resetting (abort_request pg) = mp_resetting pg"
  "mp_loading (abort_request pg) = mp_loading pg" "mp_snapshot (abort_request pg) = mp_snapshot pg"
  by (simp_all add: abort_request_def split: option.split)

lemma abort_epochs: "map ml_epoch (mp_flights (abort_request pg)) = map ml_epoch (mp_flights pg)"
proof (cases "mp_request pg")
  case (Some n)
  then show ?thesis
    by (cases "n < length (mp_flights pg)") (auto simp: abort_request_def nth_list_update intro!: nth_equalityI)
qed (simp add: abort_request_def)

lemma next_epoch_fields [simp]:
  "mp_epoch (next_epoch pg) = Suc (mp_epoch pg)" "mp_user (next_epoch pg) = mp_user pg"
  "mp_log (next_epoch pg) = mp_log pg" "mp_profile_id (next_epoch pg) = mp_profile_id pg"
  "mp_selected_revision (next_epoch pg) = mp_selected_revision pg" "mp_tenant (next_epoch pg) = mp_tenant pg"
  "mp_saving (next_epoch pg) = mp_saving pg" "mp_resetting (next_epoch pg) = mp_resetting pg"
  "mp_loading (next_epoch pg) = mp_loading pg" "mp_snapshot (next_epoch pg) = mp_snapshot pg"
  by (simp_all add: next_epoch_def)

lemma next_epoch_old:
  assumes "old_flights pg" "f \<in> set (mp_flights (next_epoch pg))"
  shows "ml_epoch f \<le> mp_epoch pg"
proof -
  have "map ml_epoch (mp_flights (next_epoch pg)) = map ml_epoch (mp_flights pg)"
    by (simp add: next_epoch_def abort_epochs)
  moreover have "ml_epoch f \<in> set (map ml_epoch (mp_flights (next_epoch pg)))" using assms(2) by simp
  ultimately show ?thesis using assms(1) by (auto simp: old_flights_def list_all_iff)
qed

lemma live_cong:
  assumes "mp_flights q = mp_flights p" "mp_epoch q = mp_epoch p"
  shows "none_live q = none_live p" "only_live q c = only_live p c" "old_flights q = old_flights p"
  using assms by (simp_all add: none_live_def only_live_def live_def old_flights_def)

lemma bumped:
  assumes "old_flights p" "mp_flights q = mp_flights (next_epoch p)" "mp_epoch q = Suc (mp_epoch p)"
  shows "none_live q" "old_flights q"
proof -
  have e: "ml_epoch f \<le> mp_epoch p" if "f \<in> set (mp_flights q)" for f
    using next_epoch_old[OF assms(1)] that assms(2) by simp
  show "old_flights q" using e assms(3) by (fastforce simp: old_flights_def list_all_iff)
  show "none_live q" using e assms(3) nth_mem by (fastforce simp: none_live_def live_def)
qed

lemma sent_live:
  assumes "old_flights p" "none_live p" "mp_flights q = mp_flights (member_call_sent c p)" "mp_epoch q = mp_epoch p"
  shows "only_live q c" "old_flights q"
proof -
  have l: "live q n \<longleftrightarrow> n = length (mp_flights p)" for n
    using assms(2-4) by (auto simp: live_def none_live_def member_call_sent_def nth_append less_Suc_eq)
  show "only_live q c" using assms(3) by (auto simp: only_live_def l member_call_sent_def)
  show "old_flights q" using assms(1,3,4) by (simp add: old_flights_def member_call_sent_def)
qed


subsection \<open>Each operation\<close>

definition cleared :: "member_page \<Rightarrow> member_page" where
  "cleared p = (next_epoch p)\<lparr>mp_loading := True, mp_snapshot := None, mp_effective := None,
     mp_form := emptyOverrideForm, mp_needs_reload := False, mp_conflict := False\<rparr>"

lemma load_eq:
  "loadPermSnapshot u p =
     (if named_tenant p \<noteq> Some (mu_tenant_id u)
      then logged Dropped ((cleared p)\<lparr>mp_request := None, mp_loading := False\<rparr>)
      else logged (LoadSent (mu_id u)) (member_call_sent (LoadEditor (mp_tenant p) u) (cleared p)))"
  by (simp add: loadPermSnapshot_def cleared_def named_tenant_def Let_def)

lemma follows_load:
  assumes "old_flights p" "sel_ok p" "mp_user p = Some u" "\<not> mp_saving p" "\<not> mp_resetting p"
    and "z = NoView \<or> (\<exists>s. z = View (mu_id u) s)"
  shows "follows z p (loadPermSnapshot u p)"
proof (cases "named_tenant p = Some (mu_tenant_id u)")
  case False
  then have e: "loadPermSnapshot u p = logged Dropped ((cleared p)\<lparr>mp_request := None, mp_loading := False\<rparr>)"
    by (simp add: load_eq)
  have "member_sim NoView (loadPermSnapshot u p)"
    using bumped[OF assms(1), of "loadPermSnapshot u p"] assms(2-5)
    by (simp add: e member_sim_def sel_ok_def cleared_def logged_def quiet_def)
  then show ?thesis
    by (intro traced_one[where x = Dropped and z' = NoView]) (simp_all add: e cleared_def logged_def)
next
  case True
  then have e: "loadPermSnapshot u p = logged (LoadSent (mu_id u)) (member_call_sent (LoadEditor (mp_tenant p) u) (cleared p))"
    by (simp add: load_eq)
  have m: "none_live (cleared p)" "old_flights (cleared p)"
    using bumped[OF assms(1), of "cleared p"] by (simp_all add: cleared_def)
  have "only_live (loadPermSnapshot u p) (LoadEditor (mp_tenant p) u)" "old_flights (loadPermSnapshot u p)"
    using sent_live[OF m(2,1), of "loadPermSnapshot u p" "LoadEditor (mp_tenant p) u"]
    by (simp_all add: e logged_def member_call_sent_def)
  then have "member_sim (Loading (mu_id u)) (loadPermSnapshot u p)"
    using assms(2-5) by (simp add: e member_sim_def sel_ok_def cleared_def logged_def member_call_sent_def) blast
  then show ?thesis using assms(6)
    by (intro traced_one[where x = "LoadSent (mu_id u)" and z' = "Loading (mu_id u)"])
      (auto simp: e cleared_def logged_def member_call_sent_def)
qed

lemma follows_write:
  assumes "member_sim (View (mu_id u) s) p" "mp_user p = Some u" "write_fits (mu_id u) s k c"
  shows "follows (View (mu_id u) s) p (write_editor u k c p)"
proof -
  let ?q = "write_editor u k c p"
  have e: "?q = logged (Wrote (mu_id u) k c) ((member_call_sent (WriteEditor (mp_tenant p) u k c) p)
      \<lparr>mp_saving := (k \<noteq> Reset), mp_resetting := (k = Reset)\<rparr>)"
    using assms(3) by (simp add: write_editor_def write_fits_def)
  have q: "mp_flights ?q = mp_flights (member_call_sent (WriteEditor (mp_tenant p) u k c) p)" "mp_epoch ?q = mp_epoch p"
    by (simp_all add: e logged_def member_call_sent_def)
  have s: "old_flights p" "none_live p" using assms(1) by (simp_all add: member_sim_def)
  have "member_sim (Writing (mu_id u) s) ?q"
    using assms(1,2) sent_live[OF s q]
    by (auto simp: member_sim_def sel_ok_def e logged_def member_call_sent_def quiet_def)
  then show ?thesis using assms(3)
    by (intro traced_one[where x = "Wrote (mu_id u) k c"]) (simp_all add: e logged_def member_call_sent_def)
qed

lemma view_of_snapshot:
  assumes "member_sim z p" "mp_user p = Some u" "mp_snapshot p = Some s" "\<not> editorBusy p"
  shows "z = View (mu_id u) s"
  using assms by (cases z) (auto simp: member_sim_def editorBusy_def shows_user_def)

lemma follows_save:
  assumes "member_sim z p"
  shows "follows z p (handleSaveOverrides p)"
proof (cases "handleSaveOverrides p = p")
  case False
  then obtain u c s where u: "mp_user p = Some u" and c: "pendingCommand p = Some c"
    and s: "mp_snapshot p = Some s" and g: "canSave p"
    by (auto simp: handleSaveOverrides_def split: option.splits if_splits)
  then have z: "z = View (mu_id u) s" using view_of_snapshot[OF assms] by (simp add: canSave_def)
  have v: "validatePermissionEditorSnapshot (Some s) (Some (mu_id u)) = Inr ()"
    using assms z by (simp add: member_sim_def bound_to_user_def)
  have b: "buildPermissionEditorCommand (Some s) (mp_form p) = Inr c"
    using c s by (auto simp: pendingCommand_def split: sum.splits)
  show ?thesis
  proof (cases "assignmentChanged p")
    case True
    have "mp_profile_id p = NONE_PROFILE \<longrightarrow> mp_selected_revision p = None"
      using assms by (simp add: member_sim_def sel_ok_def)
    moreover have "observedDestination p" using g True by (simp add: canSave_def)
    ultimately have "write_fits (mu_id u) s Assign (assignment_command p c)"
      using assignment_accepted[OF s v c] by (simp add: write_fits_def check_write_def)
    then show ?thesis using follows_write[of u s p] assms z u c s g True
      by (simp add: handleSaveOverrides_def)
  next
    case changed: False
    have "spread (get_prop c ''patch'') \<noteq> []"
      using g changed c by (simp add: canSave_def hasChangedFields_def)
    then have "write_fits (mu_id u) s Patch c"
      using built_command(1,3)[OF b v] by (simp add: write_fits_def check_write_def)
    then show ?thesis using follows_write[of u s p] assms z u c s g changed
      by (simp add: handleSaveOverrides_def)
  qed
qed (simp add: traced_quiet assms)

lemma follows_reset:
  assumes "member_sim z p"
  shows "follows z p (handleResetOverrides p)"
proof (cases "handleResetOverrides p = p")
  case False
  then obtain u s where u: "mp_user p = Some u" "mp_snapshot p = Some s" "canPatch p" "\<not> assignmentChanged p"
    by (auto simp: handleResetOverrides_def split: option.splits if_splits)
  then have z: "z = View (mu_id u) s" using view_of_snapshot[OF assms] by (simp add: canPatch_def)
  have "validatePermissionEditorSnapshot (Some s) (Some (mu_id u)) = Inr ()"
    using assms z by (simp add: member_sim_def bound_to_user_def)
  from reset_accepted[OF this] have "write_fits (mu_id u) s Reset (reset_command s)"
    by (simp add: write_fits_def check_write_def)
  then show ?thesis using follows_write[of u s p] assms z u by (simp add: handleResetOverrides_def)
qed (simp add: traced_quiet assms)


lemma flight_done_live:
  "live (member_done n pg) k \<longleftrightarrow> live pg k \<and> k \<noteq> n"
  by (cases "k = n") (auto simp: live_def member_done_def nth_list_update)

lemma flight_done_other: "k \<noteq> n \<Longrightarrow> mp_flights (member_done n pg) ! k = mp_flights pg ! k"
  by (simp add: member_done_def)

lemma flight_done_fields [simp]:
  "mp_epoch (member_done n pg) = mp_epoch pg" "mp_user (member_done n pg) = mp_user pg"
  "mp_log (member_done n pg) = mp_log pg" "mp_loading (member_done n pg) = mp_loading pg"
  "mp_saving (member_done n pg) = mp_saving pg" "mp_resetting (member_done n pg) = mp_resetting pg"
  "mp_snapshot (member_done n pg) = mp_snapshot pg" "mp_needs_reload (member_done n pg) = mp_needs_reload pg"
  "mp_profile_id (member_done n pg) = mp_profile_id pg" "mp_selected_revision (member_done n pg) = mp_selected_revision pg"
  by (simp_all add: member_done_def)

lemma flight_done_old: "old_flights pg \<Longrightarrow> old_flights (member_done n pg)"
  by (cases "n < length (mp_flights pg)")
    (auto simp: old_flights_def member_done_def list_all_length nth_list_update)

lemma flight_done_stale:
  assumes "member_sim z pg" "\<not> live pg n"
  shows "member_sim z (member_done n pg)"
proof -
  have l: "live (member_done n pg) k = live pg k" for k using assms(2) by (auto simp: flight_done_live)
  have o: "only_live (member_done n pg) c = only_live pg c" for c
    unfolding only_live_def l using assms(2) flight_done_other by metis
  have f: "none_live (member_done n pg) = none_live pg" "quiet (member_done n pg) = quiet pg"
    "shows_user u (member_done n pg) = shows_user u pg" for u
    by (simp_all add: none_live_def l quiet_def shows_user_def)
  show ?thesis using assms(1) flight_done_old by (cases z) (simp_all add: member_sim_def sel_ok_def f o)
qed

lemma only_live_is:
  "only_live pg c \<Longrightarrow> live pg n \<Longrightarrow>
     ml_call (mp_flights pg ! n) = c \<and> \<not> ml_aborted (mp_flights pg ! n) \<and> none_live (member_done n pg)"
  by (auto simp: only_live_def none_live_def flight_done_live)

lemma written_bound: "written_answer k c u result = Inr s \<Longrightarrow> adapter_answer u result = Inr s"
  by (simp add: written_answer_def split: sum.splits)

lemma assert_bound:
  "adapter_answer u result = Inr s \<Longrightarrow> bound_to_user u s"
  by (auto simp: adapter_answer_def bound_to_user_def split: sum.splits)

lemma applied_form:
  assumes "bound_to_user u s"
  obtains pg' where "applyPermSnapshot s pg = (True, pg')" "mp_snapshot pg' = Some s" "\<not> mp_needs_reload pg'"
    "mp_log pg' = mp_log pg" "mp_flights pg' = mp_flights pg" "mp_epoch pg' = mp_epoch pg"
    "mp_user pg' = mp_user pg" "mp_loading pg' = mp_loading pg" "mp_saving pg' = mp_saving pg"
    "mp_resetting pg' = mp_resetting pg" "sel_ok pg'"
proof -
  obtain f where f: "permissionEditorFormFromSnapshot (Some s) = Inr f"
    using snapshot_form assms by (auto simp: bound_to_user_def)
  have "validatePermissionRevision (get_prop s ''revision'') (Some u) = Inr ()"
    using snapshot_revision assms by (fastforce simp: bound_to_user_def)
  then have "\<exists>i.
      (if opt_prop (get_prop s ''revision'') ''profile_id'' = Some JNull
       then opt_prop (get_prop s ''revision'') ''profile_revision'' = Some JNull
       else opt_prop (get_prop s ''revision'') ''profile_id'' = Some (JStr i) \<and> valid_id i)"
    by (auto simp: validatePermissionRevision_def isUUID_iff split: if_splits)
  moreover have "\<not> valid_id NONE_PROFILE" by (simp add: NONE_PROFILE_def) code_simp
  ultimately have "sel_ok (snd (applyPermSnapshot s pg))"
    by (auto simp: sel_ok_def applyPermSnapshot_def f Let_def split: if_splits)
  with that show ?thesis by (auto simp: applyPermSnapshot_def f Let_def)
qed

lemma follows_settled:
  assumes "member_sim z pg"
  shows "follows z pg (member_settled n result pg)"
proof (cases "live pg n")
  case False
  then have "member_settled n result pg = pg \<or> member_settled n result pg = member_done n pg"
    by (auto simp: member_settled_def live_def Let_def)
  then show ?thesis using flight_done_stale[OF assms False] assms by (auto intro: traced_quiet)
next
  case True
  have o: "old_flights (member_done n pg)" "sel_ok (member_done n pg)"
    using assms flight_done_old by (simp_all add: member_sim_def sel_ok_def)
  have e: "member_settled n result pg = member_answer (ml_call (mp_flights pg ! n)) result (member_done n pg)"
    if "\<not> ml_aborted (mp_flights pg ! n)" using True that by (simp add: member_settled_def live_def Let_def)
  show ?thesis
  proof (cases z)
    case (Loading u)
    with assms obtain t m where m: "mp_user pg = Some m" "mu_id m = u" "only_live pg (LoadEditor t m)"
      "mp_loading pg" "\<not> mp_saving pg" "\<not> mp_resetting pg" "mp_snapshot pg = None"
      by (auto simp: member_sim_def)
    note l = only_live_is[OF m(3) True]
    have q: "member_settled n result pg = editor_loaded t m result (member_done n pg)" using e l by simp
    show ?thesis
    proof (cases "\<exists>s. adapter_answer u result = Inr s \<and> assertPermTenant t s m")
      case False
      then have "editor_loaded t m result (member_done n pg) = (logged LoadFailed (member_done n pg))\<lparr>mp_loading := False\<rparr>"
        by (auto simp: editor_loaded_def m(2) split: sum.splits)
      then show ?thesis using Loading m l o live_cong[of "(logged LoadFailed (member_done n pg))\<lparr>mp_loading := False\<rparr>" "member_done n pg"]
        by (intro traced_one[where x = LoadFailed and z' = NoView])
          (simp_all add: q logged_def member_sim_def sel_ok_def quiet_def)
    next
      case loaded: True
      then obtain s where s: "adapter_answer u result = Inr s" "assertPermTenant t s m" by blast
      obtain p where p: "applyPermSnapshot s (member_done n pg) = (True, p)" "mp_snapshot p = Some s"
        "\<not> mp_needs_reload p" "mp_log p = mp_log pg" "mp_flights p = mp_flights (member_done n pg)"
        "mp_epoch p = mp_epoch pg" "mp_user p = mp_user pg" "mp_loading p = mp_loading pg" "mp_saving p = mp_saving pg"
        "mp_resetting p = mp_resetting pg" "sel_ok p"
        using applied_form[OF assert_bound[OF s(1)], of "member_done n pg"] by auto
      let ?q = "(logged (LoadApplied u s) p)\<lparr>mp_loading := False\<rparr>"
      have "editor_loaded t m result (member_done n pg) = ?q"
        using s p(1) by (simp add: editor_loaded_def m(2))
      then show ?thesis
        using Loading m l o p assert_bound[OF s(1)] live_cong[of ?q "member_done n pg"]
        by (intro traced_one[where x = "LoadApplied u s" and z' = "View u s"])
          (simp_all add: q logged_def member_sim_def sel_ok_def quiet_def shows_user_def)
    qed
  next
    case (Writing u s)
    with assms obtain t m k c where m: "mp_user pg = Some m" "mu_id m = u" "only_live pg (WriteEditor t m k c)"
      "\<not> mp_loading pg" "mp_saving pg = (k \<noteq> Reset)" "mp_resetting pg = (k = Reset)"
      by (auto simp: member_sim_def)
    note l = only_live_is[OF m(3) True]
    have q: "member_settled n result pg = editor_written t m k c result (member_done n pg)" using e l by simp
    show ?thesis
    proof (cases "\<exists>s. written_answer k c u result = Inr s \<and> assertPermTenant t s m")
      case False
      have "\<exists>x. editor_written t m k c result (member_done n pg) =
          (let p = logged WriteFailed (failPermWrite x (member_done n pg))
           in if k = Reset then p\<lparr>mp_resetting := False\<rparr> else p\<lparr>mp_saving := False\<rparr>)"
      proof (cases "written_answer k c u result")
        case (Inl x)
        then show ?thesis by (intro exI[of _ x]) (simp add: editor_written_def m(2))
      next
        case (Inr s)
        with False show ?thesis by (simp add: editor_written_def m(2)) blast
      qed
      then obtain x where "editor_written t m k c result (member_done n pg) =
          (let p = logged WriteFailed (failPermWrite x (member_done n pg))
           in if k = Reset then p\<lparr>mp_resetting := False\<rparr> else p\<lparr>mp_saving := False\<rparr>)" by blast
      then show ?thesis using Writing m l o
          live_cong[of "member_settled n result pg" "member_done n pg"]
        by (intro traced_one[where x = WriteFailed and z' = NoView])
          (simp_all add: q logged_def failPermWrite_def member_sim_def sel_ok_def quiet_def Let_def)
    next
      case written: True
      then obtain s' where s: "written_answer k c u result = Inr s'" "assertPermTenant t s' m" by blast
      obtain p where p: "applyPermSnapshot s' (member_done n pg) = (True, p)" "mp_snapshot p = Some s'"
        "\<not> mp_needs_reload p" "mp_log p = mp_log pg" "mp_flights p = mp_flights (member_done n pg)"
        "mp_epoch p = mp_epoch pg" "mp_user p = mp_user pg" "mp_loading p = mp_loading pg" "mp_saving p = mp_saving pg"
        "mp_resetting p = mp_resetting pg" "sel_ok p"
        using applied_form[OF assert_bound[OF written_bound[OF s(1)]], of "member_done n pg"] by auto
      have "editor_written t m k c result (member_done n pg) =
          (let p = logged (WriteApplied u s') p
           in if k = Reset then p\<lparr>mp_resetting := False\<rparr> else p\<lparr>mp_saving := False\<rparr>)"
        using s p(1) by (simp add: editor_written_def m(2))
      then show ?thesis
        using Writing m l o p assert_bound[OF written_bound[OF s(1)]] live_cong[of "member_settled n result pg" "member_done n pg"]
        by (intro traced_one[where x = "WriteApplied u s'" and z' = "View u s'"])
          (simp_all add: q logged_def member_sim_def sel_ok_def quiet_def shows_user_def Let_def)
    qed
  qed (use assms True in \<open>auto simp: member_sim_def none_live_def\<close>)
qed


lemma member_sim_cong:
  assumes "member_sim z p" "mp_flights q = mp_flights p" "mp_epoch q = mp_epoch p" "mp_user q = mp_user p"
    and "mp_snapshot q = mp_snapshot p" "mp_loading q = mp_loading p" "mp_saving q = mp_saving p"
    and "mp_resetting q = mp_resetting p" "mp_needs_reload q = mp_needs_reload p" "sel_ok q"
  shows "member_sim z q"
proof -
  have c: "quiet q = quiet p" "shows_user u q = shows_user u p" for u using assms by (simp_all add: quiet_def shows_user_def)
  show ?thesis using assms by (cases z) (simp_all add: member_sim_def live_cong[OF assms(2,3)] c)
qed

text \<open>A bump of the epoch that gives the dialog up.\<close>

lemma follows_dropped:
  assumes "member_sim z p" "mp_log q = mp_log p @ [Dropped]" "mp_flights q = mp_flights (next_epoch p)"
    and "mp_epoch q = Suc (mp_epoch p)" "mp_profile_id q = mp_profile_id p"
    and "mp_selected_revision q = mp_selected_revision p"
    and "if mp_user q = None then mp_snapshot q = None else quiet q \<and> mp_needs_reload q"
  shows "follows z p q"
proof (rule traced_one[where log_of = mp_log, OF assms(2)])
  show "member_protocol z Dropped = Some NoView" by (cases z) simp_all
  show "member_sim NoView q"
    using assms(1,5-7) bumped[OF _ assms(3,4)] by (auto simp: member_sim_def sel_ok_def)
qed

lemma follows_profile:
  assumes "member_sim z p"
  shows "follows z p (handlePermProfileChange v p)"
proof (rule traced_quiet)
  have "sel_ok p" using assms by (simp add: member_sim_def)
  then have "sel_ok (handlePermProfileChange v p)"
    by (auto simp: handlePermProfileChange_def sel_ok_def Let_def split: option.split)
  then show "member_sim z (handlePermProfileChange v p)"
    by (intro member_sim_cong[OF assms]) (simp_all add: handlePermProfileChange_def Let_def split: option.split)
qed (simp add: handlePermProfileChange_def Let_def split: option.split)

lemma next_epoch_flights:
  "mp_flights (next_epoch (p\<lparr>mp_revoked_scope := b\<rparr>)) = mp_flights (next_epoch p)"
  by (simp add: next_epoch_def abort_request_def split: option.split)

lemma follows_step:
  assumes "member_sim z p"
  shows "follows z p (member_step p e)"
proof (cases e)
  case (MSessionChanged level actor tenant)
  then show ?thesis
    by (auto intro!: follows_dropped[OF assms] simp: members_session_def logged_def)
next
  case MInvalidated
  then show ?thesis using assms traced_quiet[of mp_log p p member_sim z member_protocol]
    by (auto intro!: follows_dropped[OF assms] simp: members_invalidated_def logged_def quiet_def)
next
  case MRevoked
  then show ?thesis
    by (auto intro!: follows_dropped[OF assms] simp: members_revoked_def closePermDialog_def logged_def
        next_epoch_flights)
next
  case MUnmounted
  then show ?thesis
    by (auto intro!: follows_dropped[OF assms] simp: members_unmounted_def logged_def)
next
  case CloseClicked
  then show ?thesis using assms traced_quiet[of mp_log p p member_sim z member_protocol]
    by (auto intro!: follows_dropped[OF assms] simp: closePermDialog_def logged_def)
next
  case (OpenClicked u)
  let ?p = "p\<lparr>mp_user := Some u, mp_saving := False, mp_resetting := False\<rparr>"
  show ?thesis
  proof (cases "mp_user p = None")
    case True
    then have "z = NoView" using assms by (cases z) (auto simp: member_sim_def shows_user_def)
    moreover have "old_flights ?p" "sel_ok ?p"
      using assms live_cong[of ?p p] by (simp_all add: member_sim_def sel_ok_def)
    ultimately have "follows z ?p (loadPermSnapshot u ?p)" by (intro follows_load) simp_all
    then show ?thesis using OpenClicked True by (simp add: openPermDialog_def traced_def)
  qed (use OpenClicked assms in \<open>auto simp: traced_quiet\<close>)
next
  case ReloadClicked
  show ?thesis
  proof (cases "\<exists>u. mp_user p = Some u \<and> quiet p")
    case True
    then obtain u where u: "mp_user p = Some u" "quiet p" by blast
    have "z = NoView \<or> (\<exists>s. z = View (mu_id u) s)"
      using assms u by (cases z) (auto simp: member_sim_def shows_user_def quiet_def)
    then show ?thesis using follows_load[of p u z] assms u ReloadClicked
      by (auto simp: member_sim_def quiet_def)
  qed (use ReloadClicked assms in \<open>auto simp: quiet_def traced_quiet split: option.splits\<close>)
next
  case (Control c)
  then show ?thesis using assms
    by (auto intro!: traced_quiet member_sim_cong[OF assms] simp: sel_ok_def member_sim_def)
next
  case (ProfilesRead ps)
  then show ?thesis using assms
    by (auto intro!: traced_quiet member_sim_cong[OF assms] simp: sel_ok_def member_sim_def)
next
  case MSessionLeft
  then show ?thesis using assms
    by (auto intro!: traced_quiet member_sim_cong[OF assms] simp: sel_ok_def member_sim_def)
next
  case (ActiveToggled u)
  then show ?thesis using assms
    by (auto intro!: traced_quiet member_sim_cong[OF assms] simp: sel_ok_def member_sim_def handleToggleActive_def)
next
  case (DeleteMember u w b)
  then show ?thesis using assms
    by (auto intro!: traced_quiet member_sim_cong[OF assms] simp: sel_ok_def member_sim_def handleDeleteMember_def Let_def)
next
  case (ProfileChosen v)
  then show ?thesis using assms follows_profile traced_quiet[of mp_log p p member_sim z member_protocol] by simp
qed (use assms in \<open>simp_all add: follows_save follows_reset follows_settled\<close>)

interpretation members: simulation member_step mp_log member_protocol member_sim
  by unfold_locales (rule follows_step)

lemma member_sim_open: "member_sim NoView (open_members level actor tenant)"
  by (simp add: member_sim_def old_flights_def sel_ok_def none_live_def live_def open_members_def)

lemma applied_flags [simp]:
  "mp_loading (snd (applyPermSnapshot s p)) = mp_loading p" "mp_saving (snd (applyPermSnapshot s p)) = mp_saving p"
  "mp_resetting (snd (applyPermSnapshot s p)) = mp_resetting p"
  by (simp_all add: applyPermSnapshot_def Let_def split: sum.split)

lemma logged_flags [simp]:
  "mp_loading (logged x p) = mp_loading p" "mp_saving (logged x p) = mp_saving p" "mp_resetting (logged x p) = mp_resetting p"
  "mp_loading (failPermWrite e p) = mp_loading p" "mp_saving (failPermWrite e p) = mp_saving p"
  "mp_resetting (failPermWrite e p) = mp_resetting p"
  by (simp_all add: logged_def failPermWrite_def)

lemma loaded_flags:
  "\<not> mp_loading (editor_loaded t u result p)" "mp_saving (editor_loaded t u result p) = mp_saving p"
  "mp_resetting (editor_loaded t u result p) = mp_resetting p"
  by (simp_all add: editor_loaded_def case_prod_unfold split: sum.split)

lemma written_flags:
  "mp_loading (editor_written t u k c result p) = mp_loading p"
  "mp_saving (editor_written t u k c result p) = (mp_saving p \<and> k = Reset)"
  "mp_resetting (editor_written t u k c result p) = (mp_resetting p \<and> k \<noteq> Reset)"
  by (simp_all add: editor_written_def case_prod_unfold Let_def split: sum.split)

definition awaits :: "member_page \<Rightarrow> member_call \<Rightarrow> bool" where
  "awaits pg c \<longleftrightarrow>
     (case c of
        LoadEditor t m \<Rightarrow> \<not> mp_saving pg \<and> \<not> mp_resetting pg
      | WriteEditor t m k d \<Rightarrow> \<not> mp_loading pg \<and> mp_saving pg = (k \<noteq> Reset) \<and> mp_resetting pg = (k = Reset))"

lemma opened_log: "mp_log (open_members level actor tenant) = []"
  by (simp add: open_members_def)

section \<open>Properties\<close>

text \<open>
  C6: whatever happens around it, the permission dialog follows its protocol: every write goes out
  against the snapshot that is shown for that user, carries its revision and passes the adapter's
  validator; it is the only pending call; its answer is applied only while it is still awaited; and
  after a refusal, a server error, an invalidation, a revocation, a closing or a new session nothing is
  written until a new load was asked for and answered with a snapshot bound to that user.
\<close>

theorem member_dialog_protocol:
  "accepts member_protocol NoView (mp_log (member_run (open_members level actor tenant) events)) \<noteq> None"
  using members.run_traced[OF member_sim_open[of level actor tenant], of events] opened_log
  by (auto simp: traced_def)

text \<open>
  C38: the dialog is never stuck: in every run, while it is open and shows that it is loading, saving
  or resetting, one unsettled call exists whose answer, a value or any error, ends that.
\<close>

theorem member_never_stuck:
  fixes level actor tenant events
  defines "pg \<equiv> member_run (open_members level actor tenant) events"
  shows "if mp_user pg \<noteq> None \<and> \<not> quiet pg
    then \<exists>n. live pg n \<and> (\<forall>result. quiet (member_step pg (MSettled n result)))
    else True"
proof -
  obtain z where z: "member_sim z pg"
    using members.run_traced[OF member_sim_open[of level actor tenant], of events] by (auto simp: traced_def pg_def)
  have ends: "\<exists>n. live pg n \<and> (\<forall>result. quiet (member_settled n result pg))"
    if c: "only_live pg c" and u: "awaits pg c" for c
  proof -
    obtain n where n: "live pg n" using c by (auto simp: only_live_def)
    have "member_settled n result pg = member_answer c result (member_done n pg)" for result
      using only_live_is[OF c n] n by (simp add: member_settled_def live_def Let_def)
    then have "quiet (member_settled n result pg)" for result
      using u by (cases c) (auto simp: awaits_def quiet_def loaded_flags written_flags)
    with n show ?thesis by blast
  qed
  show ?thesis
  proof (cases "mp_user pg \<noteq> None \<and> \<not> quiet pg")
    case True
    have "\<exists>c. only_live pg c \<and> awaits pg c"
    proof (cases z)
      case (Loading u)
      then show ?thesis using z by (auto simp: member_sim_def awaits_def)
    next
      case (Writing u s)
      with z obtain t m k c where "mp_saving pg = (k \<noteq> Reset)" "mp_resetting pg = (k = Reset)" "\<not> mp_loading pg"
        "only_live pg (WriteEditor t m k c)" by (auto simp: member_sim_def)
      then have "awaits pg (WriteEditor t m k c)" by (simp add: awaits_def)
      with \<open>only_live pg (WriteEditor t m k c)\<close> show ?thesis by blast
    qed (use z True in \<open>auto simp: member_sim_def\<close>)
    with ends True show ?thesis by auto
  qed auto
qed


section \<open>Rows and a run\<close>

text \<open>
  A member is deleted only after a confirmation, while the session the row was rendered for is still
  the stored one after it, and never the actor: the context is checked again behind the dialog.
\<close>

lemma deletion_guarded:
  "if mp_deletions (handleDeleteMember u window kept pg) \<noteq> mp_deletions pg
   then safeConfirm window \<and> kept \<and> canDeleteMember pg u \<and> currentMemberContext pg \<and>
     mp_deletions (handleDeleteMember u window kept pg) = mp_deletions pg @ [(Some (mu_tenant_id u), u)]
   else True"
  by (auto simp: handleDeleteMember_def currentMemberContext_def canDeleteMember_def canManageMember_def
      named_tenant_def Let_def split: if_splits)

text \<open>The answers of the dialog are those the adapter lets through.\<close>

lemma adapter_answer_bound:
  assumes "payload_json response = JObj [(''data'', v)]"
  shows "bound_response u response w =
    (case adapter_answer u (Inr v) of Inr s \<Rightarrow> (Ret (payload_json response), w) | Inl e \<Rightarrow> (Throw e, w))"
  by (simp add: bound_response_def read_prop_def assms adapter_answer_def or_throw_def bnd_def ret_def throw_def
      deref_def nullish_def split: sum.split)

definition sample_member :: member where
  "sample_member = \<lparr>mu_id = editor_user, mu_tenant_id = editor_tenant, mu_email = ''a'', mu_display_name = ''A'',
     mu_role = UserRole, mu_permission_profile_id = None, mu_is_active = True, mu_created_at = ''now'',
     mu_updated_at = ''now'', mu_last_login_at = None\<rparr>"

lemma sample_bound: "validatePermissionEditorSnapshot (Some example_snapshot) (Some editor_user) = Inr ()"
proof -
  have "validatePermissionRevision (get_prop example_snapshot ''revision'') (Some editor_user) = Inr ()"
    by (simp add: example_snapshot_def editor_revision_def validatePermissionRevision_def example_ids nullish_def
        del: decimalRevision.simps)
  with example_snapshot_valid show ?thesis by (auto simp: validatePermissionEditorSnapshot_def)
qed

text \<open>A load, a reset against the loaded snapshot, and its failure, after which nothing is sent.\<close>

lemma sample_dialog:
  "mp_log (member_run (open_members SuperAdmin None (Some editor_tenant))
     [OpenClicked sample_member, MSettled 0 (Inr example_snapshot), ResetOverrides,
      MSettled 1 (Inl (Err ''offline'')), ResetOverrides]) =
   [LoadSent editor_user, LoadApplied editor_user example_snapshot,
    Wrote editor_user Reset (reset_command example_snapshot), WriteFailed]"
proof -
  let ?p0 = "open_members SuperAdmin None (Some editor_tenant)"
  let ?p1 = "member_step ?p0 (OpenClicked sample_member)"
  let ?p2 = "member_step ?p1 (MSettled 0 (Inr example_snapshot))"
  have f: "permissionEditorFormFromSnapshot (Some example_snapshot) = Inr original_form" by (rule example_snapshot_form)
  have g: "get_prop example_snapshot ''tenant_id'' = Some (JStr editor_tenant)"
    "opt_prop (get_prop example_snapshot ''revision'') ''tenant_id'' = Some (JStr editor_tenant)"
    "get_prop example_snapshot ''user_id'' = Some (JStr editor_user)"
    "opt_prop (get_prop example_snapshot ''revision'') ''profile_id'' = Some JNull"
    "opt_prop (get_prop example_snapshot ''capabilities'') ''patch'' = Some (JBool True)"
    by (simp_all add: example_snapshot_def editor_revision_def)
  have n: "editor_tenant \<noteq> []" by (simp add: editor_tenant_def)
  have p1: "mp_log ?p1 = [LoadSent editor_user]" "mp_user ?p1 = Some sample_member" "mp_tenant ?p1 = Some editor_tenant"
    "mp_flights ?p1 = [\<lparr>ml_call = LoadEditor (Some editor_tenant) sample_member, ml_epoch = 2, ml_aborted = False, ml_done = False\<rparr>]"
    "mp_epoch ?p1 = 2" "\<not> mp_saving ?p1" "\<not> mp_resetting ?p1" "\<not> mp_event_revoked ?p1"
    using n by (simp_all add: open_members_def openPermDialog_def load_eq cleared_def next_epoch_def abort_request_def
        logged_def member_call_sent_def named_tenant_def sample_member_def)
  have "?p2 = editor_loaded (Some editor_tenant) sample_member (Inr example_snapshot) (member_done 0 ?p1)"
    using p1 by (simp add: member_settled_def Let_def del: member_step.simps(7))
  then have p2: "mp_log ?p2 = [LoadSent editor_user, LoadApplied editor_user example_snapshot]"
    "mp_user ?p2 = Some sample_member" "mp_tenant ?p2 = Some editor_tenant" "mp_snapshot ?p2 = Some example_snapshot"
    "mp_profile_id ?p2 = NONE_PROFILE" "\<not> mp_event_revoked ?p2" "\<not> editorBusy ?p2"
    using p1 n g f sample_bound
    by (simp_all add: editor_loaded_def adapter_answer_def assertPermTenant_def applyPermSnapshot_def member_done_def
        logged_def sample_member_def editorBusy_def Let_def del: member_step.simps(7))
  let ?p3 = "member_step ?p2 ResetOverrides"
  let ?w = "WriteEditor (Some editor_tenant) sample_member Reset (reset_command example_snapshot)"
  have u: "mu_id sample_member = editor_user" "mu_tenant_id sample_member = editor_tenant" by (simp_all add: sample_member_def)
  have c: "canPatch ?p2" "\<not> assignmentChanged ?p2"
    using p2 g n u by (simp_all add: canPatch_def editorTenantBound_def capability_def named_tenant_def
        assignmentChanged_def chosen_profile_def observed_revision_def del: member_step.simps)
  have s: "mp_flights ?p2 = mp_flights (member_done 0 ?p1)" "mp_epoch ?p2 = 2"
    using \<open>?p2 = _\<close> p1(5) n g f sample_bound
    by (simp_all add: editor_loaded_def adapter_answer_def assertPermTenant_def applyPermSnapshot_def member_done_def
        logged_def u Let_def del: member_step.simps)
  have "?p3 = logged (Wrote editor_user Reset (reset_command example_snapshot))
      ((member_call_sent ?w ?p2)\<lparr>mp_saving := False, mp_resetting := True\<rparr>)"
    using c p2(2-4) u reset_accepted(1)[OF sample_bound]
    by (simp add: handleResetOverrides_def write_editor_def check_write_def del: member_step.simps(7,14))
  moreover have "length (mp_flights ?p2) = 1" using s p1(4) by (simp add: member_done_def del: member_step.simps)
  ultimately have p3: "mp_log ?p3 = mp_log ?p2 @ [Wrote editor_user Reset (reset_command example_snapshot)]"
    "length (mp_flights ?p3) = 2" "mp_user ?p3 = Some sample_member" "mp_snapshot ?p3 = Some example_snapshot"
    "mp_flights ?p3 ! 1 = \<lparr>ml_call = ?w, ml_epoch = 2, ml_aborted = False, ml_done = False\<rparr>" "mp_epoch ?p3 = 2"
    using p2(2,4) s(2) by (simp_all add: logged_def member_call_sent_def nth_append del: member_step.simps)
  let ?p4 = "member_step ?p3 (MSettled 1 (Inl (Err ''offline'')))"
  have r: "check_write Reset (reset_command example_snapshot) (mu_id sample_member) = Inr ()"
    using reset_accepted(1)[OF sample_bound] u by (simp add: check_write_def)
  have "?p4 = (logged WriteFailed (failPermWrite (Err ''offline'') (member_done 1 ?p3)))\<lparr>mp_resetting := False\<rparr>"
    using p3(2,5,6) r by (simp add: member_settled_def editor_written_def written_answer_def adapter_answer_def Let_def
        del: member_step.simps(7,12,13,14)) (simp add: member_settled_def editor_written_def written_answer_def adapter_answer_def)
  then have p4: "mp_log ?p4 = mp_log ?p3 @ [WriteFailed]" "editorBusy ?p4"
    by (simp_all add: logged_def failPermWrite_def editorBusy_def del: member_step.simps)
  then have "member_step ?p4 ResetOverrides = ?p4"
    by (simp add: handleResetOverrides_def canPatch_def del: member_step.simps(7,14) split: option.split)
  then show ?thesis using p2(1) p3(1) p4(1) by (simp del: member_step.simps)
qed


section \<open>The page on its adapters\<close>

text \<open>The adapter that a write calls.\<close>

definition write_call :: "write_kind \<Rightarrow> string \<Rightarrow> json \<Rightarrow> json io" where
  "write_call k u c = (if k = Assign then assignUserPermissionEditor u c else patchUserPermissionEditor u c)"

lemma accepted_writes:
  "accepts member_protocol z xs \<noteq> None \<Longrightarrow>
     list_all (\<lambda>x. case x of Wrote u k c \<Rightarrow> check_write k c u = Inr () | _ \<Rightarrow> True) xs"
proof (induction xs arbitrary: z)
  case (Cons x xs)
  obtain z' where "member_protocol z x = Some z'" "accepts member_protocol z' xs \<noteq> None"
    using Cons.prems by (cases "member_protocol z x") auto
  then show ?case using Cons.IH
    by (cases "(z, x)" rule: member_protocol.cases) (auto simp: write_fits_def split: if_splits)
qed simp

end
