(* ===== verification/SendPolicy.thy ===== *)
theory SendPolicy
  imports CompanyApi ErrorCode Simulation
begin

text \<open>
  The send-policy editor of one mailbox, \<^verbatim>\<open>web/components/company/send-policy.tsx\<close>: a form over a
  row that its parent refreshes, which saves with the revision it was opened on. Old reads may arrive
  after newer ones, so the form keeps the highest revision it has seen and asks for a review whenever
  its own is not that one.
\<close>

section \<open>Rows\<close>

text \<open>
  The fields of a \<^verbatim>\<open>WorkMailbox\<close> that the form reads. Numbers of a JSON text are finite.
\<close>

record policy_row =
  pl_id :: string
  pl_revision :: rat
  pl_send_policy :: "string option"

definition POLICY_VALUES :: "send_policy list" where
  "POLICY_VALUES = [Free, TemplateRequired, Disabled]"

text \<open>\<^verbatim>\<open>policySnapshot\<close>; \<^const>\<open>None\<close> for a value that is no array.\<close>

definition policySnapshot :: "policy_row list option \<Rightarrow> string \<Rightarrow> rat \<Rightarrow> rat option \<Rightarrow> policy_row option" where
  "policySnapshot value i minimum newerThan =
     (case value of
        None \<Rightarrow> None
      | Some rows \<Rightarrow>
          (case filter (\<lambda>row. pl_id row = i) rows of
             [s] \<Rightarrow>
               if \<not> is_safe_integer (Fin (pl_revision s)) \<or> pl_revision s < 1 \<or> pl_revision s < minimum \<or>
                  (newerThan \<noteq> None \<and> pl_revision s \<le> the newerThan) \<or>
                  \<not> list_ex (\<lambda>p. Some (policy_name p) = pl_send_policy s) POLICY_VALUES
               then None else Some s
           | _ \<Rightarrow> None))"

section \<open>The form\<close>

text \<open>
  The pending action of \<^verbatim>\<open>useAction\<close>: a review with the bounds its closure holds, the write with
  its choice and revision, and the two refreshes that follow it. \<^verbatim>\<open>po_parent\<close> identifies the row
  object of the parent; \<^verbatim>\<open>po_log\<close> is a ghost history.
\<close>

datatype policy_action = Reviewing rat "rat option" | Putting "send_policy option" rat
  | RefreshAfterConflict exn | RefreshAfterSave rat rat

datatype policy_entry = Seen rat | Put rat "send_policy option" | Acknowledged rat | Reported exn

record policy_form =
  po_current :: bool
  po_mounted :: bool
  po_mailbox :: policy_row
  po_parent :: nat
  po_choice :: "send_policy option"
  po_revision :: rat
  po_required :: "(rat \<times> rat option) option"
  po_reviewed :: "(policy_row \<times> nat) option"
  po_highest :: rat
  po_action :: "policy_action option"
  po_log :: "policy_entry list"

definition open_policy :: "policy_row \<Rightarrow> policy_form" where
  "open_policy row = \<lparr>po_current = True, po_mounted = True, po_mailbox = row, po_parent = 0,
     po_choice = None, po_revision = pl_revision row, po_required = None, po_reviewed = None,
     po_highest = pl_revision row, po_action = None, po_log = []\<rparr>"

definition noted :: "policy_entry \<Rightarrow> policy_form \<Rightarrow> policy_form" where
  "noted x f = f\<lparr>po_log := po_log f @ [x]\<rparr>"

definition current_row :: "policy_form \<Rightarrow> policy_row" where
  "current_row f =
     (case po_reviewed f of
        Some (v, parent) \<Rightarrow>
          if pl_revision v > pl_revision (po_mailbox f) \<or>
             (pl_revision v = pl_revision (po_mailbox f) \<and> parent = po_parent f)
          then v else po_mailbox f
      | None \<Rightarrow> po_mailbox f)"

text \<open>A render raises the high-water mark; the layout effect commits it.\<close>

definition render_policy :: "policy_form \<Rightarrow> policy_form" where
  "render_policy f =
     (if pl_revision (current_row f) > po_highest f then f\<lparr>po_highest := pl_revision (current_row f)\<rparr> else f)"

definition owns_policy :: "policy_form \<Rightarrow> bool" where
  "owns_policy f = (po_mounted f \<and> po_current f)"

definition policy_stale :: "policy_form \<Rightarrow> bool" where
  "policy_stale f = (po_required f \<noteq> None \<or> po_revision f \<noteq> pl_revision (current_row f) \<or> po_revision f < po_highest f)"

definition effective_policy :: "policy_form \<Rightarrow> string" where
  "effective_policy f = (case pl_send_policy (current_row f) of Some p \<Rightarrow> p | None \<Rightarrow> ''free'')"

definition adopt_policy :: "policy_row \<Rightarrow> policy_form \<Rightarrow> policy_form" where
  "adopt_policy s f = noted (Seen (pl_revision s))
     (f\<lparr>po_reviewed := Some (s, po_parent f), po_revision := pl_revision s, po_required := None\<rparr>)"

definition review_policy :: "policy_form \<Rightarrow> policy_form" where
  "review_policy f =
     (if \<not> owns_policy f \<or> po_action f \<noteq> None then f
      else if po_required f = None \<and> pl_revision (current_row f) \<ge> max (po_revision f) (po_highest f)
      then f\<lparr>po_choice := None, po_revision := pl_revision (current_row f)\<rparr>
      else f\<lparr>po_action := Some (Reviewing (case po_required f of Some (m, _) \<Rightarrow> m | None \<Rightarrow> po_revision f)
              (case po_required f of Some (_, n) \<Rightarrow> n | None \<Rightarrow> None))\<rparr>)"

definition save_policy :: "policy_form \<Rightarrow> policy_form" where
  "save_policy f =
     (if po_action f \<noteq> None \<or> policy_stale f \<or> \<not> owns_policy f then f
      else noted (Put (po_revision f) (po_choice f)) (f\<lparr>po_action := Some (Putting (po_choice f) (po_revision f))\<rparr>))"

definition end_policy :: "exn option \<Rightarrow> policy_form \<Rightarrow> policy_form" where
  "end_policy e f = (let f' = f\<lparr>po_action := None\<rparr> in case e of Some x \<Rightarrow> noted (Reported x) f' | None \<Rightarrow> f')"

definition not_confirmed :: exn where
  "not_confirmed = Err ''Could not confirm this mailbox's current policy. Read and review again.''"

definition review_answered :: "rat \<Rightarrow> rat option \<Rightarrow> exn + policy_row list option \<Rightarrow> policy_form \<Rightarrow> policy_form" where
  "review_answered minimum newerThan result f =
     (if \<not> owns_policy f then end_policy None f
      else case result of
        Inl e \<Rightarrow> end_policy (Some e) f
      | Inr rows \<Rightarrow>
          (case policySnapshot rows (pl_id (po_mailbox f)) (max minimum (po_highest f)) newerThan of
             None \<Rightarrow> end_policy (Some not_confirmed) f
           | Some s \<Rightarrow> end_policy None ((adopt_policy s f)\<lparr>po_choice := None\<rparr>)))"

definition put_answered :: "rat \<Rightarrow> exn option \<Rightarrow> policy_form \<Rightarrow> policy_form" where
  "put_answered revision failure f =
     (if \<not> owns_policy f then end_policy None f
      else case failure of
        Some e \<Rightarrow>
          if isConflict e
          then f\<lparr>po_required := Some (max revision (po_highest f), None), po_action := Some (RefreshAfterConflict e)\<rparr>
          else end_policy (Some e) f
      | None \<Rightarrow> noted (Acknowledged revision)
          (f\<lparr>po_required := Some (max revision (po_highest f), Some revision),
             po_action := Some (RefreshAfterSave (max revision (po_highest f)) revision)\<rparr>))"

definition refreshed_after_save :: "rat \<Rightarrow> rat \<Rightarrow> exn + policy_row list option \<Rightarrow> policy_form \<Rightarrow> policy_form" where
  "refreshed_after_save minimum newerThan result f =
     (case result of
        Inl e \<Rightarrow> end_policy None f
      | Inr rows \<Rightarrow>
          if \<not> owns_policy f then end_policy None f
          else (case policySnapshot rows (pl_id (po_mailbox f)) (max minimum (po_highest f)) (Some newerThan) of
                  None \<Rightarrow> end_policy None f
                | Some s \<Rightarrow> end_policy None (adopt_policy s f)))"

text \<open>The pending action is answered; a write answers with an error or nothing, a read with rows.\<close>

fun policy_answered :: "policy_action \<Rightarrow> exn + policy_row list option \<Rightarrow> policy_form \<Rightarrow> policy_form" where
  "policy_answered (Reviewing m n) result f = review_answered m n result f"
| "policy_answered (Putting c r) result f = put_answered r (case result of Inl e \<Rightarrow> Some e | Inr _ \<Rightarrow> None) f"
| "policy_answered (RefreshAfterConflict e) result f = end_policy (if owns_policy f then Some e else None) f"
| "policy_answered (RefreshAfterSave m n) result f = refreshed_after_save m n result f"

datatype policy_event = PolicySessionLeft | PolicyUnmounted | ParentRow policy_row | Choose "send_policy option"
  | ReviewClicked | SavePolicy | PolicyAnswered "exn + policy_row list option"

fun policy_event_step :: "policy_form \<Rightarrow> policy_event \<Rightarrow> policy_form" where
  "policy_event_step f PolicySessionLeft = f\<lparr>po_current := False\<rparr>"
| "policy_event_step f PolicyUnmounted = f\<lparr>po_mounted := False\<rparr>"
| "policy_event_step f (ParentRow row) =
     (if pl_id row = pl_id (po_mailbox f)
      then noted (Seen (pl_revision row)) (f\<lparr>po_mailbox := row, po_parent := Suc (po_parent f)\<rparr>) else f)"
| "policy_event_step f (Choose c) =
     (if po_action f \<noteq> None \<and> po_required f \<noteq> None then f else f\<lparr>po_choice := c\<rparr>)"
| "policy_event_step f ReviewClicked = (if policy_stale f \<and> po_action f = None then review_policy f else f)"
| "policy_event_step f SavePolicy = save_policy f"
| "policy_event_step f (PolicyAnswered result) =
     (case po_action f of Some a \<Rightarrow> policy_answered a result f | None \<Rightarrow> f)"

definition policy_step :: "policy_form \<Rightarrow> policy_event \<Rightarrow> policy_form" where
  "policy_step f e = render_policy (policy_event_step f e)"

abbreviation policy_run :: "policy_form \<Rightarrow> policy_event list \<Rightarrow> policy_form" where
  "policy_run \<equiv> foldl policy_step"

section \<open>The protocol\<close>

text \<open>
  The state is the highest revision seen and the last one a write was acknowledged for: a write
  must name a revision at least as high as the first and higher than the second.
\<close>

fun policy_protocol :: "rat \<times> rat option \<Rightarrow> policy_entry \<Rightarrow> (rat \<times> rat option) option" where
  "policy_protocol (hi, acked) (Seen r) = Some (max hi r, acked)"
| "policy_protocol (hi, acked) (Put r c) =
     (if hi \<le> r \<and> (case acked of Some a \<Rightarrow> a < r | None \<Rightarrow> True) then Some (hi, acked) else None)"
| "policy_protocol (hi, acked) (Acknowledged r) = Some (hi, Some r)"
| "policy_protocol (hi, acked) (Reported e) = Some (hi, acked)"

definition past :: "rat option \<Rightarrow> rat \<Rightarrow> bool" where
  "past acked r \<longleftrightarrow> (case acked of Some a \<Rightarrow> a < r | None \<Rightarrow> True)"

text \<open>Every snapshot that passes these bounds is above the last acknowledged revision.\<close>

definition fenced :: "rat option \<Rightarrow> rat \<Rightarrow> rat option \<Rightarrow> bool" where
  "fenced acked m n \<longleftrightarrow>
     (case n of Some x \<Rightarrow> (case acked of Some a \<Rightarrow> a \<le> x | None \<Rightarrow> True)
      | None \<Rightarrow> (case acked of Some a \<Rightarrow> a < m | None \<Rightarrow> True))"

fun reviewed_below :: "rat \<Rightarrow> (policy_row \<times> nat) option \<Rightarrow> bool" where
  "reviewed_below hi (Some (v, parent)) \<longleftrightarrow> pl_revision v \<le> hi"
| "reviewed_below hi None \<longleftrightarrow> True"

fun required_ok :: "rat option \<Rightarrow> rat \<Rightarrow> (rat \<times> rat option) option \<Rightarrow> bool" where
  "required_ok acked revision None \<longleftrightarrow> past acked revision"
| "required_ok acked revision (Some (m, None)) \<longleftrightarrow> fenced acked m None \<and> past acked revision"
| "required_ok acked revision (Some (m, Some n)) \<longleftrightarrow> fenced acked m (Some n)"

fun action_ok :: "rat option \<Rightarrow> rat \<Rightarrow> (rat \<times> rat option) option \<Rightarrow> policy_action option \<Rightarrow> bool" where
  "action_ok acked revision required (Some (Reviewing m n)) \<longleftrightarrow> fenced acked m n"
| "action_ok acked revision required (Some (Putting c r)) \<longleftrightarrow> past acked r \<and> required = None \<and> revision = r"
| "action_ok acked revision required (Some (RefreshAfterSave m n)) \<longleftrightarrow> fenced acked m (Some n)"
| "action_ok acked revision required _ \<longleftrightarrow> True"

definition policy_sim :: "rat \<times> rat option \<Rightarrow> policy_form \<Rightarrow> bool" where
  "policy_sim z f \<longleftrightarrow> po_highest f = fst z \<and> pl_revision (po_mailbox f) \<le> fst z \<and>
     reviewed_below (fst z) (po_reviewed f) \<and> required_ok (snd z) (po_revision f) (po_required f) \<and>
     action_ok (snd z) (po_revision f) (po_required f) (po_action f)"

lemma snapshot_bounds:
  assumes "policySnapshot rows i m n = Some s"
  shows "m \<le> pl_revision s" "\<And>x. n = Some x \<Longrightarrow> x < pl_revision s" "pl_id s = i"
proof -
  obtain rs where "rows = Some rs" "filter (\<lambda>row. pl_id row = i) rs = [s]"
    and b: "\<not> pl_revision s < m" "\<not> (n \<noteq> None \<and> pl_revision s \<le> the n)"
    using assms by (auto simp: policySnapshot_def split: option.splits list.splits if_splits)
  then have "s \<in> set (filter (\<lambda>row. pl_id row = i) rs)" by simp
  then show "pl_id s = i" by simp
  show "m \<le> pl_revision s" "\<And>x. n = Some x \<Longrightarrow> x < pl_revision s" using b by auto
qed

lemma fenced_past:
  assumes "fenced acked m n" "policySnapshot rows i (max m h) n = Some s"
  shows "past acked (pl_revision s)" "h \<le> pl_revision s"
  using assms(1) snapshot_bounds[OF assms(2)]
  by (cases acked; cases n; force simp: fenced_def past_def)+

lemma past_mono: "past acked r \<Longrightarrow> r \<le> s \<Longrightarrow> past acked s"
  by (cases acked) (simp_all add: past_def)

lemma sim_current: "policy_sim z f \<Longrightarrow> pl_revision (current_row f) \<le> po_highest f"
  by (auto simp: policy_sim_def current_row_def split: option.splits)

lemma sim_render: "policy_sim z f \<Longrightarrow> render_policy f = f"
  using sim_current by (fastforce simp: render_policy_def)

abbreviation policy_follows :: "rat \<times> rat option \<Rightarrow> policy_form \<Rightarrow> policy_form \<Rightarrow> bool" where
  "policy_follows \<equiv> traced po_log policy_protocol policy_sim"

lemma sim_end:
  assumes "policy_sim z f"
  shows "policy_sim z (end_policy e f)"
  using assms by (cases e) (simp_all add: policy_sim_def end_policy_def noted_def)

lemma follows_end:
  assumes "policy_sim z f"
  shows "policy_follows z f (render_policy (end_policy e f))"
proof (cases e)
  case None
  then show ?thesis using sim_end[OF assms, of e] sim_render[OF sim_end[OF assms, of e]]
    by (intro traced_quiet) (simp_all add: end_policy_def)
next
  case (Some x)
  then show ?thesis using sim_end[OF assms, of e] sim_render[OF sim_end[OF assms, of e]]
    by (intro traced_one[where x = "Reported x" and z' = z]) (simp_all add: end_policy_def noted_def, cases z, simp)
qed

text \<open>Adopting a snapshot that passed the bounds, and a new row of the parent.\<close>

lemma follows_adopt:
  assumes "policy_sim z f" "past (snd z) (pl_revision s)" "po_highest f \<le> pl_revision s"
    and "f' = end_policy None ((adopt_policy s f)\<lparr>po_choice := c\<rparr>)"
  shows "policy_follows z f (render_policy f')"
proof -
  have m: "pl_revision (po_mailbox f) \<le> pl_revision s" "po_highest f = fst z"
    using assms(1,3) by (simp_all add: policy_sim_def)
  have c: "current_row f' = s"
    using m by (auto simp: assms(4) current_row_def end_policy_def adopt_policy_def noted_def)
  have r: "render_policy f' = f'\<lparr>po_highest := pl_revision s\<rparr>"
    using assms(3) by (auto simp: render_policy_def c) (simp add: assms(4) end_policy_def adopt_policy_def noted_def)
  have "policy_sim (max (fst z) (pl_revision s), snd z) (render_policy f')"
    using m assms(2,3) unfolding r
    by (simp add: policy_sim_def assms(4) end_policy_def adopt_policy_def noted_def max_def)
  then show ?thesis
    by (intro traced_one[where x = "Seen (pl_revision s)" and z' = "(max (fst z) (pl_revision s), snd z)"])
      (simp_all add: r, simp add: assms(4) end_policy_def adopt_policy_def noted_def, cases z, simp)
qed

lemma follows_parent:
  assumes "policy_sim z f"
    and "f' = noted (Seen (pl_revision row)) (f\<lparr>po_mailbox := row, po_parent := Suc (po_parent f)\<rparr>)"
  shows "policy_follows z f (render_policy f')"
proof -
  have h: "po_highest f = fst z" "reviewed_below (fst z) (po_reviewed f)" using assms(1) by (simp_all add: policy_sim_def)
  have r: "render_policy f' = f'\<lparr>po_highest := max (fst z) (pl_revision row)\<rparr>"
  proof (cases "po_reviewed f")
    case None
    then show ?thesis using h(1) by (simp add: render_policy_def current_row_def assms(2) noted_def max_def)
  next
    case (Some vp)
    then show ?thesis using h
      by (cases vp) (auto simp: render_policy_def current_row_def assms(2) noted_def max_def)
  qed
  have "reviewed_below (max (fst z) (pl_revision row)) (po_reviewed f)"
    using h(2) by (cases "(fst z, po_reviewed f)" rule: reviewed_below.cases) auto
  then have "policy_sim (max (fst z) (pl_revision row), snd z) (render_policy f')"
    using assms(1) unfolding r by (simp add: policy_sim_def assms(2) noted_def)
  then show ?thesis
    by (intro traced_one[where x = "Seen (pl_revision row)" and z' = "(max (fst z) (pl_revision row), snd z)"])
      (simp_all add: r, simp add: assms(2) noted_def, cases z, simp)
qed


lemma follows_answer:
  assumes "policy_sim z f" "po_action f = Some a"
  shows "policy_follows z f (render_policy (policy_answered a result f))"
proof (cases a)
  case (Reviewing m n)
  show ?thesis
  proof (cases "\<exists>rows s. result = Inr rows \<and> owns_policy f \<and>
      policySnapshot rows (pl_id (po_mailbox f)) (max m (po_highest f)) n = Some s")
    case True
    then obtain rows s where s: "result = Inr rows" "owns_policy f"
      "policySnapshot rows (pl_id (po_mailbox f)) (max m (po_highest f)) n = Some s" by blast
    have "fenced (snd z) m n" using assms Reviewing by (simp add: policy_sim_def)
    from fenced_past[OF this s(3)] show ?thesis
      using follows_adopt[OF assms(1)] s Reviewing by (simp add: review_answered_def)
  next
    case False
    have "\<exists>e. review_answered m n result f = end_policy e f"
    proof (cases result)
      case (Inr rows)
      then show ?thesis using False
        by (cases "policySnapshot rows (pl_id (po_mailbox f)) (max m (po_highest f)) n";
            cases "owns_policy f") (auto simp: review_answered_def)
    qed (auto simp: review_answered_def)
    then obtain e where "review_answered m n result f = end_policy e f" by blast
    then show ?thesis using follows_end[OF assms(1)] Reviewing by simp
  qed
next
  case (Putting c r)
  have p: "past (snd z) r" "po_required f = None" "po_revision f = r" "po_highest f = fst z"
    using assms Putting by (simp_all add: policy_sim_def)
  show ?thesis
  proof (cases "owns_policy f \<and> (\<exists>e. result = Inl e \<and> isConflict e)")
    case True
    then obtain e where e: "result = Inl e" "isConflict e" "owns_policy f" by blast
    define q where "q = f\<lparr>po_required := Some (max r (po_highest f), None), po_action := Some (RefreshAfterConflict e)\<rparr>"
    have "fenced (snd z) (max r (fst z)) None"
      using past_mono[OF p(1), of "max r (fst z)"] by (simp add: fenced_def past_def)
    then have "policy_sim z q" using assms(1) p by (simp add: policy_sim_def q_def)
    then show ?thesis using e Putting sim_render[of z q]
      by (intro traced_quiet) (simp_all add: put_answered_def q_def)
  next
    case failed: False
    show ?thesis
    proof (cases "owns_policy f \<and> (\<exists>rows. result = Inr rows)")
      case True
      then obtain rows where e: "result = Inr rows" "owns_policy f" by blast
      define q where "q = noted (Acknowledged r) (f\<lparr>po_required := Some (max r (po_highest f), Some r),
        po_action := Some (RefreshAfterSave (max r (po_highest f)) r)\<rparr>)"
      have "policy_sim (fst z, Some r) q"
        using assms(1) by (simp add: policy_sim_def q_def noted_def fenced_def)
      then show ?thesis using e Putting sim_render[of "(fst z, Some r)" q]
        by (intro traced_one[where x = "Acknowledged r" and z' = "(fst z, Some r)"])
          (simp_all add: put_answered_def q_def[symmetric], simp add: q_def noted_def, cases z, simp)
    next
      case False
      then have "\<exists>e. policy_answered a result f = end_policy e f"
        using failed Putting by (cases result) (auto simp: put_answered_def)
      then show ?thesis using follows_end[OF assms(1)] by force
    qed
  qed
next
  case (RefreshAfterSave m n)
  show ?thesis
  proof (cases "\<exists>rows s. result = Inr rows \<and> owns_policy f \<and>
      policySnapshot rows (pl_id (po_mailbox f)) (max m (po_highest f)) (Some n) = Some s")
    case True
    then obtain rows s where s: "result = Inr rows" "owns_policy f"
      "policySnapshot rows (pl_id (po_mailbox f)) (max m (po_highest f)) (Some n) = Some s" by blast
    have "fenced (snd z) m (Some n)" using assms RefreshAfterSave by (simp add: policy_sim_def)
    from fenced_past[OF this s(3)] show ?thesis
      using follows_adopt[OF assms(1), where c = "po_choice f"] s RefreshAfterSave
      by (simp add: refreshed_after_save_def adopt_policy_def noted_def)
  next
    case False
    then have "refreshed_after_save m n result f = end_policy None f"
      by (auto simp: refreshed_after_save_def split: sum.splits option.splits)
    then show ?thesis using follows_end[OF assms(1)] RefreshAfterSave by simp
  qed
qed (use follows_end[OF assms(1)] in simp)

lemma follows_policy_step:
  assumes "policy_sim z f"
  shows "policy_follows z f (policy_step f e)"
proof (cases e)
  case (ParentRow row)
  then show ?thesis using follows_parent[OF assms] traced_quiet[of po_log f f policy_sim z policy_protocol] sim_render[OF assms] assms
    by (simp add: policy_step_def)
next
  case (PolicyAnswered result)
  then show ?thesis using follows_answer[OF assms] traced_quiet[of po_log f f policy_sim z policy_protocol] sim_render[OF assms] assms
    by (cases "po_action f") (simp_all add: policy_step_def)
next
  case ReviewClicked
  define q where "q = policy_event_step f e"
  have "policy_sim z q"
  proof (cases "q = f")
    case False
    then have g: "po_action f = None" "owns_policy f"
      by (auto simp: q_def ReviewClicked review_policy_def split: if_splits)
    show ?thesis
    proof (cases "po_required f")
      case None
      then have r: "past (snd z) (po_revision f)" using assms by (simp add: policy_sim_def)
      then have "fenced (snd z) (po_revision f) None" by (simp add: fenced_def past_def)
      moreover have "max (po_revision f) (po_highest f) \<le> pl_revision (current_row f) \<Longrightarrow>
          past (snd z) (pl_revision (current_row f))" using past_mono[OF r] by simp
      ultimately show ?thesis using assms None g
        by (simp add: q_def ReviewClicked review_policy_def policy_sim_def)
    next
      case (Some mn)
      obtain m n where "mn = (m, n)" by (cases mn)
      with Some assms have "fenced (snd z) m n" by (cases n) (simp_all add: policy_sim_def)
      then show ?thesis using assms Some g \<open>mn = (m, n)\<close>
        by (simp add: q_def ReviewClicked review_policy_def policy_sim_def)
    qed
  qed (use assms in simp)
  moreover have "po_log q = po_log f" by (simp add: q_def ReviewClicked review_policy_def)
  ultimately show ?thesis using sim_render[of z q] traced_quiet[of po_log q f policy_sim z policy_protocol] by (simp add: policy_step_def q_def)
next
  case SavePolicy
  show ?thesis
  proof (cases "save_policy f = f")
    case False
    then have g: "po_action f = None" "\<not> policy_stale f" by (auto simp: save_policy_def split: if_splits)
    then have n: "po_required f = None" "\<not> po_revision f < po_highest f" unfolding policy_stale_def by blast+
    then have r: "po_required f = None" "past (snd z) (po_revision f)" "fst z \<le> po_revision f"
      using assms by (simp_all add: policy_sim_def)
    define q where "q = noted (Put (po_revision f) (po_choice f)) (f\<lparr>po_action := Some (Putting (po_choice f) (po_revision f))\<rparr>)"
    have s: "save_policy f = q" using False by (auto simp: save_policy_def q_def split: if_splits)
    have "policy_sim z q" using assms r by (simp add: policy_sim_def q_def noted_def)
    then show ?thesis using SavePolicy s r sim_render[of z q]
      by (intro traced_one[where x = "Put (po_revision f) (po_choice f)" and z' = z])
        (simp_all add: policy_step_def, simp add: q_def noted_def, cases z, simp add: past_def)
  qed (use SavePolicy sim_render[OF assms] traced_quiet[of po_log f f policy_sim z policy_protocol] assms in \<open>simp add: policy_step_def\<close>)
next
  case PolicySessionLeft
  define q where "q = f\<lparr>po_current := False\<rparr>"
  have "policy_sim z q" using assms by (simp add: policy_sim_def q_def)
  then show ?thesis using PolicySessionLeft sim_render[of z q] traced_quiet[of po_log q f policy_sim z policy_protocol] by (simp add: policy_step_def q_def)
next
  case PolicyUnmounted
  define q where "q = f\<lparr>po_mounted := False\<rparr>"
  have "policy_sim z q" using assms by (simp add: policy_sim_def q_def)
  then show ?thesis using PolicyUnmounted sim_render[of z q] traced_quiet[of po_log q f policy_sim z policy_protocol] by (simp add: policy_step_def q_def)
next
  case (Choose c)
  define q where "q = policy_event_step f e"
  have "policy_sim z q" "po_log q = po_log f" using assms by (simp_all add: policy_sim_def q_def Choose)
  then show ?thesis using Choose sim_render[of z q] traced_quiet[of po_log q f policy_sim z policy_protocol] by (simp add: policy_step_def q_def)
qed

interpretation policy: simulation policy_step po_log policy_protocol policy_sim
  by unfold_locales (rule follows_policy_step)

section \<open>Properties\<close>

text \<open>
  C7: whatever order old and new reads arrive in, every override that the form saves names the
  highest revision the form has seen of the mailbox, and one higher than any it was already
  acknowledged for: it never writes over a version the administrator was not shown, and never
  replays a write that succeeded.
\<close>

theorem policy_writes_latest:
  "accepts policy_protocol (pl_revision row, None) (po_log (policy_run (open_policy row) events)) \<noteq> None"
proof -
  have "policy_sim (pl_revision row, None) (open_policy row)"
    by (simp add: policy_sim_def open_policy_def past_def)
  then obtain y where "accepts policy_protocol (pl_revision row, None) (po_log (policy_run (open_policy row) events)) = Some y"
    by (rule policy.run_accepted[where vs = events]) (simp add: open_policy_def)
  then show ?thesis by simp
qed


text \<open>
  A run: the override is saved at revision 3, a stale read does not reopen the form, the read of
  revision 4 does, and the next save names 4.
\<close>

lemma sample_policy:
  "let row = (\<lambda>n. \<lparr>pl_id = ''m'', pl_revision = n, pl_send_policy = Some ''free''\<rparr>) in
   po_log (policy_run (open_policy (row 3))
     [Choose (Some Disabled), SavePolicy, PolicyAnswered (Inr None), PolicyAnswered (Inr (Some [row 3])),
      SavePolicy, ReviewClicked, PolicyAnswered (Inr (Some [row 4])), SavePolicy]) =
   [Put 3 (Some Disabled), Acknowledged 3, Seen 4, Put 4 None]"
  by code_simp

end
