(* ===== verification/TemplateDraft.thy ===== *)
theory TemplateDraft
  imports CompanyApi
begin

text \<open>
  The mail templates that an administrator edits and the two merges that keep unsaved edits when the
  server answers: \<^verbatim>\<open>reconcileSaved\<close> of \<^verbatim>\<open>web/components/company/templates/editor.tsx\<close> after
  a save, and \<^verbatim>\<open>mergeVersionDraft\<close> of \<^verbatim>\<open>web/app/(dashboard)/company/templates/page.tsx\<close>
  after the revocation of a version.
\<close>

section \<open>Templates\<close>

datatype variable_type = TextVariable | EmailVariable | IntegerVariable | DateVariable | UrlVariable

record template_variable =
  tv_name :: string
  tv_type :: variable_type
  tv_required :: bool
  tv_max_length :: rat
  tv_options :: "string list option"

record template_draft =
  td_subject :: string
  td_text_body :: string
  td_html_body :: string
  td_variables :: "template_variable list"

text \<open>
  A \<^verbatim>\<open>MailTemplateEditor\<close>, and a \<^verbatim>\<open>MailTemplate\<close> when it has an id. \<^verbatim>\<open>tp_shaped\<close>
  says that the name and the draft have the declared types; a missing revision is a number that is not
  a safe integer.
\<close>

record template =
  tp_id :: "string option"
  tp_name :: string
  tp_draft :: template_draft
  tp_revision :: rat
  tp_retired :: bool
  tp_updated_at :: "string option"
  tp_shaped :: bool

text \<open>
  The client and the server list the fields of a draft in one order, so that two drafts have the same
  \<^verbatim>\<open>JSON.stringify\<close> exactly when they are equal.
\<close>

definition sameFields :: "template \<Rightarrow> template \<Rightarrow> bool" where
  "sameFields left right = (tp_name left = tp_name right \<and> tp_draft left = tp_draft right)"

text \<open>The field of a response, unless the editor has moved on from the value that was sent.\<close>

definition keep_edited :: "'a \<Rightarrow> 'a \<Rightarrow> 'a \<Rightarrow> 'a" where
  "keep_edited current snapshot saved = (if current = snapshot then saved else current)"

definition reconcileSaved :: "template option \<Rightarrow> template \<Rightarrow> template \<Rightarrow> template option" where
  "reconcileSaved current snapshot saved =
     (case current of
        None \<Rightarrow> None
      | Some c \<Rightarrow>
          if tp_id c \<noteq> tp_id snapshot \<or> tp_revision c \<noteq> tp_revision snapshot then Some c
          else Some (saved\<lparr>
            tp_name := keep_edited (tp_name c) (tp_name snapshot) (tp_name saved),
            tp_draft := \<lparr>
              td_subject = keep_edited (td_subject (tp_draft c)) (td_subject (tp_draft snapshot)) (td_subject (tp_draft saved)),
              td_text_body = keep_edited (td_text_body (tp_draft c)) (td_text_body (tp_draft snapshot)) (td_text_body (tp_draft saved)),
              td_html_body = keep_edited (td_html_body (tp_draft c)) (td_html_body (tp_draft snapshot)) (td_html_body (tp_draft saved)),
              td_variables = keep_edited (td_variables (tp_draft c)) (td_variables (tp_draft snapshot)) (td_variables (tp_draft saved))\<rparr>\<rparr>))"

text \<open>\<^verbatim>\<open>field\<close> of the merge, with the conflict that it reports in the second component.\<close>

definition merge_field :: "bool \<Rightarrow> 'a \<Rightarrow> 'a \<Rightarrow> 'a \<Rightarrow> 'a \<times> bool" where
  "merge_field reviewed local before remote =
     (if local = before then (remote, False)
      else (local, remote \<noteq> before \<and> local \<noteq> remote \<and> \<not> reviewed))"

definition mergeVersionDraft :: "template \<Rightarrow> template \<Rightarrow> template \<Rightarrow> bool \<Rightarrow> template \<times> bool" where
  "mergeVersionDraft current baseline fresh reviewed =
     (let (subject, c1) = merge_field reviewed (td_subject (tp_draft current)) (td_subject (tp_draft baseline)) (td_subject (tp_draft fresh));
          (text_body, c2) = merge_field reviewed (td_text_body (tp_draft current)) (td_text_body (tp_draft baseline)) (td_text_body (tp_draft fresh));
          (html_body, c3) = merge_field reviewed (td_html_body (tp_draft current)) (td_html_body (tp_draft baseline)) (td_html_body (tp_draft fresh));
          (variables, c4) = merge_field reviewed (td_variables (tp_draft current)) (td_variables (tp_draft baseline)) (td_variables (tp_draft fresh));
          (nm, c5) = merge_field reviewed (tp_name current) (tp_name baseline) (tp_name fresh)
      in (fresh\<lparr>tp_name := nm, tp_draft := \<lparr>td_subject = subject, td_text_body = text_body,
            td_html_body = html_body, td_variables = variables\<rparr>\<rparr>, c1 \<or> c2 \<or> c3 \<or> c4 \<or> c5))"

section \<open>Editing\<close>

text \<open>\<^verbatim>\<open>split\<close> at line ends and the body that a save sends.\<close>

fun split_lines :: "string \<Rightarrow> string list" where
  "split_lines [] = [[]]"
| "split_lines (c # cs) =
     (if c = CHR 0x0A then [] # split_lines cs
      else case split_lines cs of [] \<Rightarrow> [[c]] | l # ls \<Rightarrow> (c # l) # ls)"

definition sent_variable :: "template_variable \<Rightarrow> template_variable" where
  "sent_variable v = v\<lparr>tv_options := map_option (filter (\<lambda>x. x \<noteq> [])) (tv_options v)\<rparr>"

definition sent_draft :: "template_draft \<Rightarrow> template_draft" where
  "sent_draft d = d\<lparr>td_variables := map sent_variable (td_variables d)\<rparr>"

section \<open>Calls\<close>

text \<open>The requests of a save, a publication, a retirement and a preview.\<close>

fun type_text :: "variable_type \<Rightarrow> string" where
  "type_text TextVariable = ''text''"
| "type_text EmailVariable = ''email''"
| "type_text IntegerVariable = ''integer''"
| "type_text DateVariable = ''date''"
| "type_text UrlVariable = ''url''"

definition variable_json :: "template_variable \<Rightarrow> json" where
  "variable_json v = JObj ([(''name'', JStr (tv_name v)), (''type'', JStr (type_text (tv_type v))),
     (''required'', JBool (tv_required v)), (''max_length'', JNum (Fin (tv_max_length v)))] @
     (case tv_options v of Some xs \<Rightarrow> [(''options'', JArr (map JStr xs))] | None \<Rightarrow> []))"

definition draft_json :: "template_draft \<Rightarrow> json" where
  "draft_json d = JObj [(''subject'', JStr (td_subject d)), (''text_body'', JStr (td_text_body d)),
     (''html_body'', JStr (td_html_body d)), (''variables'', JArr (map variable_json (td_variables d)))]"

definition save_call :: "template \<Rightarrow> json option io" where
  "save_call e =
     (let body = JObj [(''name'', JStr (tp_name e)), (''revision'', JNum (Fin (tp_revision e))),
            (''draft'', draft_json (sent_draft (tp_draft e)))]
      in case tp_id e of
           Some i \<Rightarrow> if i = [] then company ''/templates'' (post body)
                    else company (''/templates/'' @ i) (with_body ''PUT'' body)
         | None \<Rightarrow> company ''/templates'' (post body))"

definition publish_call :: "string \<Rightarrow> rat \<Rightarrow> json option io" where
  "publish_call i r = company (''/templates/'' @ i @ ''/publish'') (post (JObj [(''revision'', JNum (Fin r))]))"

definition retire_call :: "string \<Rightarrow> rat \<Rightarrow> bool \<Rightarrow> json option io" where
  "retire_call i r retired = company (''/templates/'' @ i @ ''/retire'')
     (post (JObj [(''revision'', JNum (Fin r)), (''retired'', JBool retired)]))"

definition preview_call :: "string \<Rightarrow> template_draft \<Rightarrow> (string \<times> string) list \<Rightarrow> json option io" where
  "preview_call mailbox d vars = company ''/templates/preview''
     (post (JObj [(''mailbox_id'', JStr mailbox), (''draft'', draft_json d),
       (''vars'', JObj (map (\<lambda>(n, v). (n, JStr v)) vars))]))"

section \<open>The controls\<close>

datatype variable_change = VariableName string | VariableType variable_type | VariableLength rat
  | VariableRequired bool | VariableOptions string

fun changed_variable :: "variable_change \<Rightarrow> template_variable \<Rightarrow> template_variable" where
  "changed_variable (VariableName x) v = v\<lparr>tv_name := x\<rparr>"
| "changed_variable (VariableType x) v = v\<lparr>tv_type := x\<rparr>"
| "changed_variable (VariableLength x) v = v\<lparr>tv_max_length := x\<rparr>"
| "changed_variable (VariableRequired x) v = v\<lparr>tv_required := x\<rparr>"
| "changed_variable (VariableOptions x) v = v\<lparr>tv_options := Some (split_lines x)\<rparr>"

datatype draft_change = TypeSubject string | TypeText string | TypeHtml string
  | ChangeVariable nat variable_change | RemoveVariable nat | AddVariable

definition new_variable :: "nat \<Rightarrow> template_variable" where
  "new_variable n = \<lparr>tv_name = ''field_'' @ js_of_nat (n + 1), tv_type = TextVariable, tv_required = True,
     tv_max_length = 200, tv_options = None\<rparr>"

definition remove_nth :: "nat \<Rightarrow> 'a list \<Rightarrow> 'a list" where
  "remove_nth i xs = take i xs @ drop (Suc i) xs"

fun changed_draft :: "draft_change \<Rightarrow> template_draft \<Rightarrow> template_draft" where
  "changed_draft (TypeSubject x) d = d\<lparr>td_subject := x\<rparr>"
| "changed_draft (TypeText x) d = d\<lparr>td_text_body := x\<rparr>"
| "changed_draft (TypeHtml x) d = d\<lparr>td_html_body := x\<rparr>"
| "changed_draft (ChangeVariable i x) d =
     d\<lparr>td_variables := (if i < length (td_variables d)
        then (td_variables d)[i := changed_variable x (td_variables d ! i)] else td_variables d)\<rparr>"
| "changed_draft (RemoveVariable i) d = d\<lparr>td_variables := remove_nth i (td_variables d)\<rparr>"
| "changed_draft AddVariable d =
     (if length (td_variables d) \<ge> 32 then d
      else d\<lparr>td_variables := td_variables d @ [new_variable (length (td_variables d))]\<rparr>)"

section \<open>The merges keep edits\<close>

text \<open>
  A field that the user changed since the base survives; a field that the user left alone is the
  server's.
\<close>

lemma merge_field_reference:
  "fst (merge_field reviewed local before remote) = (if local = before then remote else local)"
  by (simp add: merge_field_def)

lemma merge_field_agrees:
  "\<not> snd (merge_field False local before remote) \<Longrightarrow>
     fst (merge_field False local before remote) = fst (merge_field False remote before local)"
  by (auto simp: merge_field_def split: if_splits)

lemma reconcile_unedited:
  "reconcileSaved (Some s) s saved = Some saved"
  by (simp add: reconcileSaved_def keep_edited_def)

lemma reconcile_same_fields:
  assumes "tp_id c = tp_id snapshot" "tp_revision c = tp_revision snapshot" "sameFields c snapshot"
  shows "reconcileSaved (Some c) snapshot saved = Some saved"
  using assms by (simp add: reconcileSaved_def keep_edited_def sameFields_def)

lemma reconcile_id_revision:
  "reconcileSaved (Some c) snapshot saved = Some e \<Longrightarrow>
     (tp_id e, tp_revision e) = (if tp_id c = tp_id snapshot \<and> tp_revision c = tp_revision snapshot
       then (tp_id saved, tp_revision saved) else (tp_id c, tp_revision c))"
  by (auto simp: reconcileSaved_def split: if_splits)

lemma merge_version_meta [simp]:
  "tp_id (fst (mergeVersionDraft c b f r)) = tp_id f" "tp_revision (fst (mergeVersionDraft c b f r)) = tp_revision f"
  "tp_retired (fst (mergeVersionDraft c b f r)) = tp_retired f"
  by (simp_all add: mergeVersionDraft_def Let_def split_beta)

lemma split_lines_join:
  "concat (map (\<lambda>l. l @ [CHR 0x0A]) (split_lines x)) = x @ [CHR 0x0A]"
proof (induction x)
  case (Cons c cs)
  then show ?case by (cases "split_lines cs") (auto split: list.splits)
qed simp

lemma merge_is_reconcile:
  assumes "tp_id current = tp_id baseline" "tp_revision current = tp_revision baseline"
  shows "reconcileSaved (Some current) baseline fresh = Some (fst (mergeVersionDraft current baseline fresh reviewed))"
  using assms by (simp add: reconcileSaved_def mergeVersionDraft_def split_beta keep_edited_def merge_field_reference)

text \<open>
  C10: a merge after a revocation that reports no conflict loses nothing on either side: merging
  the server's template into the editor's and the editor's into the server's give the same name and
  draft, under the server's id and revision, and the result is the one by which a save is reconciled:
  every field changed locally is kept and every other is the server's.
\<close>

theorem version_merge_loses_nothing:
  assumes "mergeVersionDraft current baseline fresh False = (merged, False)"
    and "tp_id current = tp_id baseline" "tp_revision current = tp_revision baseline"
  shows "sameFields merged (fst (mergeVersionDraft fresh baseline current False)) \<and>
    tp_id merged = tp_id fresh \<and> tp_revision merged = tp_revision fresh \<and>
    reconcileSaved (Some current) baseline fresh = Some merged"
proof -
  have m: "merged = fst (mergeVersionDraft current baseline fresh False)" "\<not> snd (mergeVersionDraft current baseline fresh False)"
    using assms(1) by simp_all
  have "sameFields merged (fst (mergeVersionDraft fresh baseline current False))"
    using m(2) unfolding m(1) sameFields_def mergeVersionDraft_def Let_def split_beta
    by simp (intro conjI merge_field_agrees; blast)
  then show ?thesis using merge_is_reconcile[OF assms(2,3), of fresh False] by (simp add: m(1))
qed

theorem version_merge_loses_nothing_witness:
  "let d = \<lparr>td_subject = ''a'', td_text_body = ''b'', td_html_body = '''', td_variables = []\<rparr>;
       base = \<lparr>tp_id = Some ''t'', tp_name = ''n'', tp_draft = d, tp_revision = 3, tp_retired = False,
         tp_updated_at = None, tp_shaped = True\<rparr>;
       current = base\<lparr>tp_draft := d\<lparr>td_subject := ''mine''\<rparr>\<rparr>;
       fresh = base\<lparr>tp_draft := d\<lparr>td_text_body := ''theirs''\<rparr>, tp_revision := 4\<rparr>;
       merged = fresh\<lparr>tp_draft := d\<lparr>td_subject := ''mine'', td_text_body := ''theirs''\<rparr>\<rparr>
   in reconcileSaved (Some current) base fresh = Some merged \<and>
      sameFields merged (fst (mergeVersionDraft fresh base current False))"
  unfolding Let_def
  by (rule conjI; rule version_merge_loses_nothing[THEN conjunct2, THEN conjunct2, THEN conjunct2]
      version_merge_loses_nothing[THEN conjunct1])
    (simp_all add: mergeVersionDraft_def merge_field_def)

end
