(* ===== verification/TemplatePage.thy ===== *)
theory TemplatePage
  imports TemplateDraft ErrorCode "HOL-Library.AList"
begin

text \<open>
  The template administration of \<^verbatim>\<open>web/app/(dashboard)/company/templates/page.tsx\<close> with the editor
  \<^verbatim>\<open>web/components/company/templates/editor.tsx\<close> and the guards of \<^verbatim>\<open>library.tsx\<close> and
  \<^verbatim>\<open>versions.tsx\<close>, as one event system: the page keeps the selected template and the review that
  follows a revocation, the editor is mounted while its tab is open and again for every selection.
\<close>

section \<open>State\<close>

datatype template_tab = LibraryTab | EditorTab | VersionsTab | GrantsTab

text \<open>An \<^verbatim>\<open>Error\<close> whose message ends with \<^verbatim>\<open>errorText\<close> of the cause, if there is one.\<close>

type_synonym trouble = "string \<times> exn option"

record version_review =
  vr_owner :: nat
  vr_id :: string
  vr_revision :: rat
  vr_baseline :: template
  vr_acknowledged :: bool
  vr_fresh :: "template option"
  vr_error :: "trouble option"

record template_library =
  lb_data :: "template list option"
  lb_error :: "exn option"
  lb_loading :: bool
  lb_validating :: bool

text \<open>What the closure of a retirement holds: the row, the generation and the editor's object.\<close>

record retirement =
  rt_template :: template
  rt_generation :: nat
  rt_edit :: "(nat \<times> template) option"

datatype page_action = Retiring retirement | RetireRead retirement | RetryRead | RetryBoxes
  | RevokingVersion version_review nat | ReadingRevision version_review nat
  | PublishingList version_review nat template

record published =
  pb_saved :: template
  pb_owner :: nat
  pb_edits :: nat

record rendered =
  rn_subject :: string
  rn_text_body :: string
  rn_html_body :: string

text \<open>What a preview depends on: the draft, the values, the mailbox and its address.\<close>

type_synonym preview_signature =
  "template_draft option \<times> (string \<times> string) list \<times> string \<times> string option"

datatype editor_action = Saving template nat bool | Resaving template nat bool | Publishing template nat
  | PublicationRead published | Previewing nat preview_signature

record flight =
  fl_owner :: nat
  fl_generation :: nat
  fl_action :: editor_action

text \<open>A ghost history of what is sent, acknowledged and adopted; a publication and a save with what is on the screen.\<close>

datatype template_entry = Selected | OpenedEditor
  | SaveSent template bool | SaveAcked template | PublishSent "string option" rat "template option"
  | VersionPublished | PublicationReread rat | WriteEnded
  | RevokeSent string nat rat | RevokeAcked | RevisionAdopted rat
  | RetireSent "string option" rat bool | Previewed preview_signature rendered

text \<open>
  Objects are numbered: \<^verbatim>\<open>tq_edit\<close> carries the identity of the edited object, \<^verbatim>\<open>te_instance\<close>
  that of the mounted editor and \<^verbatim>\<open>te_intent\<close> that of \<^verbatim>\<open>previewIntent\<close>. Calls of an editor
  that was unmounted stay in \<^verbatim>\<open>te_flights\<close> until they are answered.
\<close>

record template_page =
  tq_current :: bool
  tq_mounted :: bool
  tq_tab :: template_tab
  tq_generation :: nat
  tq_edit :: "(nat \<times> template) option"
  tq_baseline :: "template option"
  tq_review :: "version_review option"
  tq_mailbox :: string
  tq_boxes :: "(string \<times> string) list"
  tq_version_key :: nat
  tq_library :: template_library
  tq_checking :: bool
  tq_recovery :: "trouble option"
  tq_action :: "page_action option"
  te_instance :: nat
  te_vars :: "(string \<times> string) list"
  te_preview :: "(nat \<times> rendered) option"
  te_publication :: "published option"
  te_edits :: nat
  te_intent :: nat
  te_signature :: preview_signature
  te_flights :: "flight list"
  tq_objects :: nat
  tq_log :: "template_entry list"

definition open_templates :: template_page where
  "open_templates = \<lparr>tq_current = True, tq_mounted = True, tq_tab = LibraryTab, tq_generation = 0,
     tq_edit = None, tq_baseline = None, tq_review = None, tq_mailbox = [], tq_boxes = [], tq_version_key = 0,
     tq_library = \<lparr>lb_data = None, lb_error = None, lb_loading = True, lb_validating = True\<rparr>,
     tq_checking = False, tq_recovery = None, tq_action = None, te_instance = 0, te_vars = [], te_preview = None,
     te_publication = None, te_edits = 0, te_intent = 0, te_signature = (None, [], [], None), te_flights = [],
     tq_objects = 1, tq_log = []\<rparr>"

definition logged :: "template_entry \<Rightarrow> template_page \<Rightarrow> template_page" where
  "logged x pg = pg\<lparr>tq_log := tq_log pg @ [x]\<rparr>"

definition owns_page :: "template_page \<Rightarrow> bool" where
  "owns_page pg = (tq_mounted pg \<and> tq_current pg)"

definition owns_instance :: "nat \<Rightarrow> template_page \<Rightarrow> bool" where
  "owns_instance n pg = (owns_page pg \<and> tq_tab pg = EditorTab \<and> te_instance pg = n)"

definition editor_live :: "template_page \<Rightarrow> editor_action list" where
  "editor_live pg = map fl_action (filter (\<lambda>f. fl_owner f = te_instance pg) (te_flights pg))"

definition editor_free :: "template_page \<Rightarrow> bool" where
  "editor_free pg = (owns_page pg \<and> tq_tab pg = EditorTab \<and> editor_live pg = [])"

definition edit_id :: "template_page \<Rightarrow> string option" where
  "edit_id pg = (case tq_edit pg of Some (x, e) \<Rightarrow> tp_id e | None \<Rightarrow> None)"

definition put_edit :: "template option \<Rightarrow> template_page \<Rightarrow> template_page" where
  "put_edit v pg = pg\<lparr>tq_edit := map_option (Pair (tq_objects pg)) v, tq_objects := Suc (tq_objects pg)\<rparr>"

definition libraryReady :: "template_page \<Rightarrow> bool" where
  "libraryReady pg = (tq_recovery pg = None \<and> lb_error (tq_library pg) = None \<and> \<not> lb_loading (tq_library pg) \<and>
     \<not> tq_checking pg \<and> \<not> lb_validating (tq_library pg) \<and> lb_data (tq_library pg) \<noteq> None)"

definition activeMailbox :: "template_page \<Rightarrow> string" where
  "activeMailbox pg = (if tq_mailbox pg \<noteq> [] then tq_mailbox pg
     else case tq_boxes pg of [] \<Rightarrow> [] | (i, a) # _ \<Rightarrow> i)"

definition selectedMailbox :: "template_page \<Rightarrow> string option" where
  "selectedMailbox pg = map_of (tq_boxes pg) (activeMailbox pg)"

text \<open>Answers of the server, read as what the caller expects.\<close>

datatype template_answer = TemplateBody template | TemplateList "template list option"
  | RenderedBody "rendered option" | OtherBody

fun as_template :: "exn + template_answer \<Rightarrow> template option" where
  "as_template (Inr (TemplateBody v)) = Some v"
| "as_template _ = None"

fun as_list :: "exn + template_answer \<Rightarrow> template list option" where
  "as_list (Inr (TemplateList v)) = v"
| "as_list _ = None"

fun as_rendered :: "exn + template_answer \<Rightarrow> rendered option" where
  "as_rendered (Inr (RenderedBody v)) = v"
| "as_rendered _ = None"

fun failed_with :: "exn + template_answer \<Rightarrow> exn" where
  "failed_with (Inl e) = e"
| "failed_with (Inr v) = Err ''Invalid template library response. Reload the library.''"

section \<open>Rendering\<close>

text \<open>
  A render of the editor drops the values of variables that are no longer declared and starts a new
  preview intent when the signature has changed.
\<close>

definition declared_vars :: "template_page \<Rightarrow> (string \<times> string) list" where
  "declared_vars pg =
     (let declared = (case tq_edit pg of Some (x, e) \<Rightarrow> map tv_name (td_variables (tp_draft e)) | None \<Rightarrow> [])
      in filter (\<lambda>(n, v). n \<in> set declared) (te_vars pg))"

definition signature_of :: "template_page \<Rightarrow> preview_signature" where
  "signature_of pg = (map_option (\<lambda>(x, e). tp_draft e) (tq_edit pg), te_vars pg, activeMailbox pg, selectedMailbox pg)"

definition render_editor :: "template_page \<Rightarrow> template_page" where
  "render_editor pg =
     (if tq_tab pg \<noteq> EditorTab then pg
      else let pg' = pg\<lparr>te_vars := declared_vars pg\<rparr>
           in if te_signature pg' = signature_of pg' then pg'
              else pg'\<lparr>te_signature := signature_of pg', te_intent := Suc (te_intent pg')\<rparr>)"

definition shown_preview :: "template_page \<Rightarrow> rendered option" where
  "shown_preview pg =
     (if tq_tab pg \<noteq> EditorTab \<or> \<not> tq_current pg then None
      else case te_preview pg of Some (i, v) \<Rightarrow> if i = te_intent pg then Some v else None | None \<Rightarrow> None)"

definition mount_editor :: "template_page \<Rightarrow> template_page" where
  "mount_editor pg = logged OpenedEditor
     (pg\<lparr>tq_tab := EditorTab, te_instance := tq_objects pg, tq_objects := Suc (tq_objects pg), te_vars := [],
       te_preview := None, te_publication := None, te_edits := 0, te_intent := Suc (te_intent pg)\<rparr>)"

definition select_tab :: "template_tab \<Rightarrow> template_page \<Rightarrow> template_page" where
  "select_tab tab pg =
     (if tab = tq_tab pg then pg else if tab = EditorTab then mount_editor pg else pg\<lparr>tq_tab := tab\<rparr>)"

section \<open>The page\<close>

definition replaceEdit :: "template \<Rightarrow> template_page \<Rightarrow> template_page" where
  "replaceEdit v pg = logged Selected
     ((put_edit (Some v) pg)\<lparr>tq_generation := Suc (tq_generation pg), tq_baseline := Some v, tq_review := None\<rparr>)"

definition selectTemplate :: "nat \<Rightarrow> template_page \<Rightarrow> template_page" where
  "selectTemplate n pg =
     (case lb_data (tq_library pg) of
        Some rows \<Rightarrow>
          if libraryReady pg \<and> tq_tab pg = LibraryTab \<and> n < length rows
          then mount_editor (replaceEdit (rows ! n) pg) else pg
      | None \<Rightarrow> pg)"

definition blank_template :: template where
  "blank_template = \<lparr>tp_id = None, tp_name = [],
     tp_draft = \<lparr>td_subject = ''Hello {{.customer_name}}'',
       td_text_body = ''Hello {{.customer_name}},'' @ [CHR 0x0A, CHR 0x0A] @ ''{{.employee_name}}'' @
         [CHR 0x0A] @ ''{{.company_name}}'',
       td_html_body = [],
       td_variables = [\<lparr>tv_name = ''customer_name'', tv_type = TextVariable, tv_required = True,
         tv_max_length = 100, tv_options = None\<rparr>]\<rparr>,
     tp_revision = 0, tp_retired = False, tp_updated_at = None, tp_shaped = True\<rparr>"

definition newTemplate :: "template_page \<Rightarrow> template_page" where
  "newTemplate pg =
     (if tq_action pg \<noteq> None then pg
      else mount_editor ((replaceEdit blank_template pg)\<lparr>tq_mailbox := []\<rparr>))"

definition retireTemplate :: "nat \<Rightarrow> template_page \<Rightarrow> template_page" where
  "retireTemplate n pg =
     (case lb_data (tq_library pg) of
        Some rows \<Rightarrow>
          if tq_action pg = None \<and> owns_page pg \<and> libraryReady pg \<and> tq_tab pg = LibraryTab \<and> n < length rows
          then logged (RetireSent (tp_id (rows ! n)) (tp_revision (rows ! n)) (\<not> tp_retired (rows ! n)))
            (pg\<lparr>tq_action := Some (Retiring \<lparr>rt_template = rows ! n, rt_generation = tq_generation pg,
              rt_edit = tq_edit pg\<rparr>)\<rparr>)
          else pg
      | None \<Rightarrow> pg)"

text \<open>The answer of \<^verbatim>\<open>refreshTemplateLibrary\<close>, for a page that still owns it.\<close>

definition library_read :: "template list \<Rightarrow> template_page \<Rightarrow> template_page" where
  "library_read rows pg =
     pg\<lparr>tq_library := (tq_library pg)\<lparr>lb_data := Some rows, lb_error := None\<rparr>, tq_recovery := None,
        tq_checking := False\<rparr>"

definition close_retired :: "retirement \<Rightarrow> template_page \<Rightarrow> template_page" where
  "close_retired r pg =
     (case rt_edit r of
        Some (x, e) \<Rightarrow>
          if tp_id e = tp_id (rt_template r) \<and> tq_generation pg = rt_generation r \<and>
             map_option fst (tq_edit pg) = Some x
          then pg\<lparr>tq_edit := None\<rparr> else pg
      | None \<Rightarrow> pg)"

definition retire_saved :: string where
  "retire_saved = ''Template status was saved, but the library could not be refreshed. Retry loading to check the current state.''"

definition retire_unconfirmed :: string where
  "retire_unconfirmed = ''The template status change could not be confirmed. Reload the library before trying again.''"

definition retirement_answered :: "retirement \<Rightarrow> exn + template_answer \<Rightarrow> template_page \<Rightarrow> template_page" where
  "retirement_answered r result pg =
     (if \<not> owns_page pg then pg
      else case result of
        Inl e \<Rightarrow> pg\<lparr>tq_recovery := Some (retire_unconfirmed, Some e)\<rparr>
      | Inr _ \<Rightarrow> pg\<lparr>tq_checking := True, tq_action := Some (RetireRead r)\<rparr>)"

definition retire_library_read :: "retirement \<Rightarrow> exn + template_answer \<Rightarrow> template_page \<Rightarrow> template_page" where
  "retire_library_read r result pg =
     (if \<not> owns_page pg then pg
      else case as_list result of
        None \<Rightarrow> pg\<lparr>tq_checking := False, tq_recovery := Some (retire_saved, Some (failed_with result))\<rparr>
      | Some rows \<Rightarrow> close_retired r (library_read rows pg))"

definition retry_library :: "template_page \<Rightarrow> template_page" where
  "retry_library pg =
     (if tq_action pg \<noteq> None then pg
      else if owns_page pg then pg\<lparr>tq_checking := True, tq_action := Some RetryRead\<rparr>
      else pg\<lparr>tq_action := Some RetryBoxes\<rparr>)"

definition retry_answered :: "exn + template_answer \<Rightarrow> template_page \<Rightarrow> template_page" where
  "retry_answered result pg =
     (if \<not> owns_page pg then pg
      else case as_list result of
        None \<Rightarrow> pg\<lparr>tq_checking := False\<rparr>
      | Some rows \<Rightarrow> (library_read rows pg)\<lparr>tq_action := Some RetryBoxes\<rparr>)"

subsection \<open>Revoking a version\<close>

record revocable =
  rv_template_id :: string
  rv_version :: nat
  rv_revoked :: bool

definition owns_review :: "nat \<Rightarrow> version_review \<Rightarrow> template_page \<Rightarrow> bool" where
  "owns_review generation review pg =
     (owns_page pg \<and> tq_generation pg = generation \<and> map_option vr_owner (tq_review pg) = Some (vr_owner review))"

text \<open>The click on a confirmed version of the history of the edited template.\<close>

definition revokeVersion :: "revocable \<Rightarrow> template_page \<Rightarrow> template_page" where
  "revokeVersion v pg =
     (case (tq_edit pg, tq_baseline pg) of
        (Some (x, e), Some b) \<Rightarrow>
          if owns_page pg \<and> tq_tab pg = VersionsTab \<and> tq_action pg = None \<and> tq_review pg = None \<and>
             tp_id e \<noteq> None \<and> tp_id e \<noteq> Some [] \<and> tp_id b = tp_id e \<and> tp_revision b = tp_revision e \<and>
             Some (rv_template_id v) = tp_id e \<and> \<not> rv_revoked v
          then let review = \<lparr>vr_owner = tq_objects pg, vr_id = the (tp_id e), vr_revision = tp_revision e,
                     vr_baseline = b, vr_acknowledged = False, vr_fresh = None, vr_error = None\<rparr>
               in logged (RevokeSent (vr_id review) (rv_version v) (vr_revision review))
                    (pg\<lparr>tq_objects := Suc (tq_objects pg), tq_review := Some review,
                       tq_action := Some (RevokingVersion review (tq_generation pg))\<rparr>)
          else pg
      | _ \<Rightarrow> pg)"

definition revoke_unconfirmed :: string where
  "revoke_unconfirmed = ''The version revocation could not be confirmed. Refresh the template revision first; unsaved content is retained.''"

definition revoke_unread :: string where
  "revoke_unread = ''The version was revoked, but its current template revision could not be confirmed. Refresh the revision; unsaved content is retained.''"

definition revocation_answered :: "version_review \<Rightarrow> nat \<Rightarrow> exn + template_answer \<Rightarrow> template_page \<Rightarrow> template_page" where
  "revocation_answered review g result pg =
     (if \<not> owns_review g review pg then pg
      else case result of
        Inl e \<Rightarrow> pg\<lparr>tq_review := Some (review\<lparr>vr_error := Some (revoke_unconfirmed, Some e)\<rparr>)\<rparr>
      | Inr _ \<Rightarrow> let acknowledged = review\<lparr>vr_acknowledged := True\<rparr>
                 in logged RevokeAcked (pg\<lparr>tq_review := Some acknowledged, tq_action := Some (ReadingRevision acknowledged g)\<rparr>))"

definition revision_failed :: "version_review \<Rightarrow> exn \<Rightarrow> template_page \<Rightarrow> template_page" where
  "revision_failed review e pg =
     pg\<lparr>tq_review := Some (review\<lparr>vr_fresh := None,
        vr_error := Some (if vr_acknowledged review then revoke_unread else revoke_unconfirmed, Some e)\<rparr>)\<rparr>"

definition revision_usable :: "version_review \<Rightarrow> template \<Rightarrow> bool" where
  "revision_usable review fresh =
     (is_safe_integer (Fin (tp_revision fresh)) \<and> vr_revision review \<le> tp_revision fresh \<and>
      \<not> (vr_acknowledged review \<and> tp_revision fresh = vr_revision review) \<and> tp_shaped fresh)"

definition revision_read :: "version_review \<Rightarrow> nat \<Rightarrow> exn + template_answer \<Rightarrow> template_page \<Rightarrow> template_page" where
  "revision_read review g result pg =
     (if \<not> owns_review g review pg then pg
      else case as_list result of
        None \<Rightarrow> revision_failed review (failed_with result) pg
      | Some rows \<Rightarrow>
          (case find (\<lambda>v. tp_id v = Some (vr_id review)) rows of
             Some fresh \<Rightarrow>
               if revision_usable review fresh
               then pg\<lparr>tq_library := (tq_library pg)\<lparr>lb_data := Some rows, lb_error := None\<rparr>,
                      tq_action := Some (PublishingList review g fresh)\<rparr>
               else revision_failed review (Err ''The current template revision is unavailable. Retry the refresh.'') pg
           | None \<Rightarrow> revision_failed review (Err ''The current template revision is unavailable. Retry the refresh.'') pg))"

definition old_read :: trouble where
  "old_read = (''The template read is older than the acknowledged draft. Refresh the revision again.'', None)"

definition changed_elsewhere :: trouble where
  "changed_elsewhere = (''The template changed in fields you edited. Review the latest content before keeping your edits; your draft is retained.'', None)"

definition adopt_revision :: "template \<Rightarrow> template \<Rightarrow> template_page \<Rightarrow> template_page" where
  "adopt_revision e fresh pg =
     logged (RevisionAdopted (tp_revision fresh)) ((put_edit (Some e) pg)\<lparr>tq_baseline := Some fresh, tq_review := None\<rparr>)"

definition merge_revision :: "version_review \<Rightarrow> template \<Rightarrow> template_page \<Rightarrow> template_page" where
  "merge_revision review fresh pg =
     (case tq_edit pg of
        Some (x, e) \<Rightarrow>
          if tp_id e \<noteq> Some (vr_id review) then pg
          else if tp_revision fresh < tp_revision e then pg\<lparr>tq_review := Some (review\<lparr>vr_error := Some old_read\<rparr>)\<rparr>
          else if snd (mergeVersionDraft e (vr_baseline review) fresh False)
          then pg\<lparr>tq_review := Some (review\<lparr>vr_fresh := Some fresh, vr_error := Some changed_elsewhere\<rparr>)\<rparr>
          else adopt_revision (fst (mergeVersionDraft e (vr_baseline review) fresh False)) fresh pg
      | None \<Rightarrow> pg)"

definition list_published :: "version_review \<Rightarrow> nat \<Rightarrow> template \<Rightarrow> exn + template_answer \<Rightarrow> template_page \<Rightarrow> template_page" where
  "list_published review g fresh result pg =
     (if \<not> owns_review g review pg then pg
      else case result of
        Inl e \<Rightarrow> revision_failed review e pg
      | Inr _ \<Rightarrow> (merge_revision review fresh pg)\<lparr>tq_version_key := Suc (tq_version_key pg)\<rparr>)"

definition refresh_revision :: "template_page \<Rightarrow> template_page" where
  "refresh_revision pg =
     (case tq_review pg of
        Some review \<Rightarrow>
          if tq_action pg = None \<and> owns_page pg
          then pg\<lparr>tq_action := Some (ReadingRevision review (tq_generation pg))\<rparr> else pg
      | None \<Rightarrow> pg)"

definition keepReviewedEdits :: "template_page \<Rightarrow> template_page" where
  "keepReviewedEdits pg =
     (case (tq_review pg, tq_edit pg) of
        (Some review, Some (x, e)) \<Rightarrow>
          (case vr_fresh review of
             Some fresh \<Rightarrow>
               if tq_action pg = None \<and> owns_page pg
               then adopt_revision (fst (mergeVersionDraft e (vr_baseline review) fresh True)) fresh pg else pg
           | None \<Rightarrow> pg)
      | _ \<Rightarrow> pg)"

text \<open>The awaited call of the page's action is answered; a branch that starts no other call ends the action.\<close>

fun page_answered :: "page_action \<Rightarrow> exn + template_answer \<Rightarrow> template_page \<Rightarrow> template_page" where
  "page_answered (Retiring r) result pg = retirement_answered r result pg"
| "page_answered (RetireRead r) result pg = retire_library_read r result pg"
| "page_answered RetryRead result pg = retry_answered result pg"
| "page_answered RetryBoxes result pg = pg"
| "page_answered (RevokingVersion review g) result pg = revocation_answered review g result pg"
| "page_answered (ReadingRevision review g) result pg = revision_read review g result pg"
| "page_answered (PublishingList review g fresh) result pg = list_published review g fresh result pg"

end
