(* ===== verification/TemplateEditor.thy ===== *)
theory TemplateEditor
  imports TemplatePage
begin

text \<open>
  The operations of the template editor, \<^verbatim>\<open>web/components/company/templates/editor.tsx\<close>, on the
  state of \<^verbatim>\<open>TemplatePage\<close>, the events of page and editor, and the order in which a template is
  written: what is published is what was saved and is on the screen, and a revision that was published
  or revoked is not written again before it was read anew.
\<close>

section \<open>Editing and preview\<close>

definition type_name :: "string \<Rightarrow> template_page \<Rightarrow> template_page" where
  "type_name s pg =
     (case tq_edit pg of
        Some (x, e) \<Rightarrow> (put_edit (Some (e\<lparr>tp_name := s\<rparr>)) pg)\<lparr>te_edits := Suc (te_edits pg)\<rparr>
      | None \<Rightarrow> pg)"

definition update_draft :: "draft_change \<Rightarrow> template_page \<Rightarrow> template_page" where
  "update_draft c pg =
     (case tq_edit pg of
        Some (x, e) \<Rightarrow> (put_edit (Some (e\<lparr>tp_draft := changed_draft c (tp_draft e)\<rparr>)) pg)
            \<lparr>te_edits := Suc (te_edits pg), te_preview := None\<rparr>
      | None \<Rightarrow> pg)"

definition choose_mailbox :: "string \<Rightarrow> template_page \<Rightarrow> template_page" where
  "choose_mailbox i pg = pg\<lparr>tq_mailbox := i, te_preview := None\<rparr>"

definition type_preview_value :: "string \<Rightarrow> string \<Rightarrow> template_page \<Rightarrow> template_page" where
  "type_preview_value n v pg = pg\<lparr>te_vars := AList.update n v (te_vars pg), te_preview := None\<rparr>"

definition launch :: "editor_action \<Rightarrow> template_page \<Rightarrow> template_page" where
  "launch a pg = pg\<lparr>te_flights := te_flights pg @
     [\<lparr>fl_owner = te_instance pg, fl_generation = tq_generation pg, fl_action = a\<rparr>]\<rparr>"

definition renderPreview :: "template_page \<Rightarrow> template_page" where
  "renderPreview pg =
     (if editor_free pg \<and> tq_edit pg \<noteq> None \<and> selectedMailbox pg \<noteq> None
      then launch (Previewing (te_intent pg) (te_signature pg)) pg else pg)"

definition preview_answered :: "nat \<Rightarrow> nat \<Rightarrow> preview_signature \<Rightarrow> exn + template_answer \<Rightarrow> template_page \<Rightarrow> template_page" where
  "preview_answered owner intent sig result pg =
     (if \<not> owns_instance owner pg \<or> te_intent pg \<noteq> intent then pg
      else case as_rendered result of
        Some v \<Rightarrow> logged (Previewed sig v) (pg\<lparr>te_preview := Some (intent, v)\<rparr>)
      | None \<Rightarrow> pg)"

section \<open>Save and publish\<close>

definition save_template :: "bool \<Rightarrow> template_page \<Rightarrow> template_page" where
  "save_template publish pg =
     (case tq_edit pg of
        Some (x, e) \<Rightarrow>
          if editor_free pg \<and> tq_review pg = None \<and> te_publication pg = None \<and> tp_name e \<noteq> [] \<and>
             \<not> (publish \<and> tp_retired e)
          then launch (Saving e (te_edits pg) publish) (logged (SaveSent e publish) pg) else pg
      | None \<Rightarrow> pg)"

text \<open>A call of a living editor ends without another one.\<close>

definition end_write :: "nat \<Rightarrow> template_page \<Rightarrow> template_page" where
  "end_write owner pg = (if owns_instance owner pg then logged WriteEnded pg else pg)"

definition valid_save :: "template \<Rightarrow> template \<Rightarrow> bool" where
  "valid_save snapshot res =
     (tp_id res \<noteq> None \<and> tp_id res \<noteq> Some [] \<and>
      (tp_id snapshot = None \<or> tp_id snapshot = Some [] \<or> tp_id res = tp_id snapshot) \<and>
      is_safe_integer (Fin (tp_revision res)) \<and> tp_revision snapshot < tp_revision res)"

definition onSaved :: "nat \<Rightarrow> template \<Rightarrow> template_page \<Rightarrow> template_page" where
  "onSaved g saved pg =
     (case tq_edit pg of
        Some (x, e) \<Rightarrow>
          if tq_generation pg = g \<and> tp_id e = tp_id saved \<and> tp_revision e = tp_revision saved
          then pg\<lparr>tq_baseline := Some saved\<rparr> else pg
      | None \<Rightarrow> pg)"

definition saved_answered ::
    "nat \<Rightarrow> nat \<Rightarrow> template \<Rightarrow> nat \<Rightarrow> bool \<Rightarrow> exn + template_answer \<Rightarrow> template_page \<Rightarrow> template_page" where
  "saved_answered owner g snapshot started publish result pg =
     (if \<not> owns_instance owner pg then pg
      else case (as_template result, tq_edit pg) of
        (Some res, Some (x, e)) \<Rightarrow>
          if valid_save snapshot res \<and> tp_id e = tp_id snapshot \<and> tp_revision e = tp_revision snapshot
          then launch (Resaving res started publish)
            (logged (SaveAcked res) (onSaved g res (put_edit (reconcileSaved (Some e) snapshot res) pg)))
          else end_write owner pg
      | _ \<Rightarrow> end_write owner pg)"

definition resaved_answered ::
    "nat \<Rightarrow> template \<Rightarrow> nat \<Rightarrow> bool \<Rightarrow> exn + template_answer \<Rightarrow> template_page \<Rightarrow> template_page" where
  "resaved_answered owner res started publish result pg =
     (if \<not> owns_instance owner pg then pg
      else case result of
        Inl e \<Rightarrow> end_write owner pg
      | Inr _ \<Rightarrow>
          if \<not> publish \<or> te_edits pg \<noteq> started then end_write owner pg
          else launch (Publishing res started)
            (logged (PublishSent (tp_id res) (tp_revision res) (map_option snd (tq_edit pg))) pg))"

definition finish_publication :: "published \<Rightarrow> template_page \<Rightarrow> template_page" where
  "finish_publication p pg = (if owns_instance (pb_owner p) pg then launch (PublicationRead p) pg else pg)"

definition publish_answered :: "nat \<Rightarrow> template \<Rightarrow> nat \<Rightarrow> exn + template_answer \<Rightarrow> template_page \<Rightarrow> template_page" where
  "publish_answered owner res started result pg =
     (if \<not> owns_instance owner pg then pg
      else case result of
        Inl e \<Rightarrow> end_write owner pg
      | Inr _ \<Rightarrow>
          let p = \<lparr>pb_saved = res, pb_owner = owner, pb_edits = started\<rparr>
          in finish_publication p (logged VersionPublished (pg\<lparr>te_publication := Some p\<rparr>)))"

definition refresh_publication :: "template_page \<Rightarrow> template_page" where
  "refresh_publication pg =
     (case te_publication pg of
        Some p \<Rightarrow> if editor_free pg \<and> tq_edit pg \<noteq> None then finish_publication p pg else pg
      | None \<Rightarrow> pg)"

definition onPublished :: "nat \<Rightarrow> template \<Rightarrow> template \<Rightarrow> template_page \<Rightarrow> template_page" where
  "onPublished g value fresh pg =
     (case tq_edit pg of
        Some (x, e) \<Rightarrow>
          (if tq_generation pg = g \<and> tp_id e = tp_id value then pg\<lparr>tq_baseline := Some fresh\<rparr> else pg)
      | None \<Rightarrow> pg)\<lparr>tq_version_key := Suc (tq_version_key pg)\<rparr>"

definition close_published :: "published \<Rightarrow> template \<Rightarrow> template_page \<Rightarrow> template_page" where
  "close_published p fresh pg =
     (case tq_edit pg of
        Some (x, e) \<Rightarrow>
          if tp_id e \<noteq> tp_id (pb_saved p) \<or> tp_revision e \<noteq> tp_revision (pb_saved p) then pg
          else if te_edits pg \<noteq> pb_edits p then put_edit (reconcileSaved (Some e) (pb_saved p) fresh) pg
          else pg\<lparr>tq_edit := None\<rparr>
      | None \<Rightarrow> pg)"

definition publication_read ::
    "nat \<Rightarrow> published \<Rightarrow> exn + template_answer \<Rightarrow> template_page \<Rightarrow> template_page" where
  "publication_read g p result pg =
     (case Option.bind (as_list result) (find (\<lambda>v. tp_id v = tp_id (pb_saved p))) of
        None \<Rightarrow> pg
      | Some fresh \<Rightarrow>
          let pg' = onPublished g (pb_saved p) fresh pg
          in if \<not> owns_instance (pb_owner p) pg' then pg'
             else if \<not> is_safe_integer (Fin (tp_revision fresh)) \<or> tp_revision fresh \<le> tp_revision (pb_saved p) then pg'
             else if te_edits pg' \<noteq> pb_edits p \<and> \<not> sameFields fresh (pb_saved p) then pg'
             else logged (PublicationReread (tp_revision fresh))
               ((close_published p fresh pg')\<lparr>te_publication := None, te_vars := [], te_preview := None\<rparr>))"

fun flight_answered :: "flight \<Rightarrow> exn + template_answer \<Rightarrow> template_page \<Rightarrow> template_page" where
  "flight_answered \<lparr>fl_owner = n, fl_generation = g, fl_action = Saving s k b\<rparr> result pg = saved_answered n g s k b result pg"
| "flight_answered \<lparr>fl_owner = n, fl_generation = g, fl_action = Resaving s k b\<rparr> result pg = resaved_answered n s k b result pg"
| "flight_answered \<lparr>fl_owner = n, fl_generation = g, fl_action = Publishing s k\<rparr> result pg = publish_answered n s k result pg"
| "flight_answered \<lparr>fl_owner = n, fl_generation = g, fl_action = PublicationRead p\<rparr> result pg = publication_read g p result pg"
| "flight_answered \<lparr>fl_owner = n, fl_generation = g, fl_action = Previewing i s\<rparr> result pg = preview_answered n i s result pg"

section \<open>Events\<close>

datatype template_event = TemplateSessionLeft | TemplatesUnmounted | TabChosen template_tab
  | LibraryState template_library | BoxesState "(string \<times> string) list"
  | SelectTemplate nat | NewTemplate | RetireClicked nat | RetryLibrary
  | RevokeClicked revocable | RefreshRevision | KeepEdits | PageAnswered "exn + template_answer"
  | NameTyped string | DraftChanged draft_change | MailboxChosen string | ValueTyped string string
  | PreviewClicked | SaveClicked bool | RefreshPublication | FlightAnswered nat "exn + template_answer"

definition editor_shown :: "template_page \<Rightarrow> bool" where
  "editor_shown pg = (tq_tab pg = EditorTab \<and> tq_edit pg \<noteq> None)"

fun template_event_step :: "template_page \<Rightarrow> template_event \<Rightarrow> template_page" where
  "template_event_step pg TemplateSessionLeft = pg\<lparr>tq_current := False\<rparr>"
| "template_event_step pg TemplatesUnmounted = pg\<lparr>tq_mounted := False\<rparr>"
| "template_event_step pg (TabChosen tab) = select_tab tab pg"
| "template_event_step pg (LibraryState lib) = pg\<lparr>tq_library := lib\<rparr>"
| "template_event_step pg (BoxesState boxes) = pg\<lparr>tq_boxes := boxes\<rparr>"
| "template_event_step pg (SelectTemplate n) = selectTemplate n pg"
| "template_event_step pg NewTemplate = newTemplate pg"
| "template_event_step pg (RetireClicked n) = retireTemplate n pg"
| "template_event_step pg RetryLibrary = retry_library pg"
| "template_event_step pg (RevokeClicked v) = revokeVersion v pg"
| "template_event_step pg RefreshRevision = refresh_revision pg"
| "template_event_step pg KeepEdits = keepReviewedEdits pg"
| "template_event_step pg (PageAnswered result) =
     (case tq_action pg of Some a \<Rightarrow> page_answered a result (pg\<lparr>tq_action := None\<rparr>) | None \<Rightarrow> pg)"
| "template_event_step pg (NameTyped s) = (if editor_shown pg then type_name s pg else pg)"
| "template_event_step pg (DraftChanged c) = (if editor_shown pg then update_draft c pg else pg)"
| "template_event_step pg (MailboxChosen i) =
     (if editor_shown pg \<or> tq_tab pg = GrantsTab then choose_mailbox i pg else pg)"
| "template_event_step pg (ValueTyped n v) = (if editor_shown pg then type_preview_value n v pg else pg)"
| "template_event_step pg PreviewClicked = renderPreview pg"
| "template_event_step pg (SaveClicked publish) = save_template publish pg"
| "template_event_step pg RefreshPublication = refresh_publication pg"
| "template_event_step pg (FlightAnswered k result) =
     (if k < length (te_flights pg)
      then flight_answered (te_flights pg ! k) result (pg\<lparr>te_flights := remove_nth k (te_flights pg)\<rparr>) else pg)"

definition template_step :: "template_page \<Rightarrow> template_event \<Rightarrow> template_page" where
  "template_step pg e = render_editor (if tq_mounted pg then template_event_step pg e else pg)"

abbreviation template_run :: "template_page \<Rightarrow> template_event list \<Rightarrow> template_page" where
  "template_run \<equiv> foldl template_step"

end
