(* ===== verification/TemplateProtocol.thy ===== *)
theory TemplateProtocol
  imports TemplateEditor Simulation
begin

text \<open>
  The order in which the template page writes: an abstract protocol over the history that the page of
  \<^verbatim>\<open>TemplatePage\<close> and \<^verbatim>\<open>TemplateEditor\<close> leaves behind, and the simulation that shows every run follows it.
\<close>

section \<open>The protocol\<close>

text \<open>
  The fence stands while a revocation at some revision was sent, and then acknowledged, for the template
  that is selected; a new selection takes it away, and with it the review. The phase is that of the writes
  of the editor that is mounted; an editor mounted anew knows nothing of the writes before it, so that a
  publication which still waits for its revision is forgotten then (\<^verbatim>\<open>publication_forgotten\<close> in
  \<^verbatim>\<open>TemplatePreview\<close>).
\<close>

datatype fence = Unfenced | Fenced rat bool

datatype write_phase = NoWrite | SaveOut template bool | SaveIn template bool | PublishOut template | PublishIn template

fun template_protocol :: "fence \<times> write_phase \<Rightarrow> template_entry \<Rightarrow> (fence \<times> write_phase) option" where
  "template_protocol (f, p) Selected = Some (Unfenced, p)"
| "template_protocol (f, p) OpenedEditor = Some (f, NoWrite)"
| "template_protocol (f, p) (SaveSent e publish) =
     (if f = Unfenced \<and> p = NoWrite then Some (f, SaveOut e publish) else None)"
| "template_protocol (f, p) (SaveAcked res) =
     (case p of SaveOut e publish \<Rightarrow> if valid_save e res then Some (f, SaveIn res publish) else None | _ \<Rightarrow> None)"
| "template_protocol (f, p) (PublishSent i r shown) =
     (case (p, shown) of
        (SaveIn res publish, Some e) \<Rightarrow>
          if publish \<and> f = Unfenced \<and> i = tp_id res \<and> r = tp_revision res \<and> sameFields e res \<and>
             tp_id e = tp_id res \<and> tp_revision e = tp_revision res
          then Some (f, PublishOut res) else None
      | _ \<Rightarrow> None)"
| "template_protocol (f, p) VersionPublished =
     (case p of PublishOut res \<Rightarrow> Some (f, PublishIn res) | _ \<Rightarrow> None)"
| "template_protocol (f, p) (PublicationReread r) =
     (case p of PublishIn res \<Rightarrow> if tp_revision res < r then Some (f, NoWrite) else None | _ \<Rightarrow> None)"
| "template_protocol (f, p) WriteEnded = (case p of PublishIn res \<Rightarrow> None | _ \<Rightarrow> Some (f, NoWrite))"
| "template_protocol (f, p) (RevokeSent i v r) = (if f = Unfenced then Some (Fenced r False, p) else None)"
| "template_protocol (f, p) RevokeAcked = (case f of Fenced r a \<Rightarrow> Some (Fenced r True, p) | _ \<Rightarrow> None)"
| "template_protocol (f, p) (RevisionAdopted r') =
     (case f of Fenced r a \<Rightarrow> if r \<le> r' \<and> (a \<longrightarrow> r < r') then Some (Unfenced, p) else None | _ \<Rightarrow> None)"
| "template_protocol (f, p) (RetireSent i r retired) = Some (f, p)"
| "template_protocol (f, p) (Previewed s v) = Some (f, p)"

section \<open>The simulation\<close>

definition alive :: "template_page \<Rightarrow> bool" where
  "alive pg = (owns_page pg \<and> tq_tab pg = EditorTab)"

definition newer_than :: "version_review \<Rightarrow> template \<Rightarrow> bool" where
  "newer_than r v = (vr_revision r \<le> tp_revision v \<and> (vr_acknowledged r \<longrightarrow> vr_revision r < tp_revision v))"

fun fence_ok :: "fence \<Rightarrow> version_review option \<Rightarrow> bool" where
  "fence_ok f None \<longleftrightarrow> f = Unfenced"
| "fence_ok f (Some r) \<longleftrightarrow> f = Fenced (vr_revision r) (vr_acknowledged r) \<and>
     (case vr_fresh r of Some v \<Rightarrow> newer_than r v | None \<Rightarrow> True)"

fun action_review :: "page_action option \<Rightarrow> version_review option" where
  "action_review (Some (RevokingVersion r g)) = Some r"
| "action_review (Some (ReadingRevision r g)) = Some r"
| "action_review (Some (PublishingList r g v)) = Some r"
| "action_review _ = None"

fun action_read :: "page_action option \<Rightarrow> bool" where
  "action_read (Some (PublishingList r g v)) \<longleftrightarrow> newer_than r v"
| "action_read (Some (RevokingVersion r g)) \<longleftrightarrow> vr_fresh r = None"
| "action_read _ \<longleftrightarrow> True"

text \<open>The copy of the review that an action holds agrees with that of the page while it is the same one.\<close>

definition same_review :: "version_review \<Rightarrow> version_review \<Rightarrow> bool" where
  "same_review r r' \<longleftrightarrow> (vr_owner r = vr_owner r' \<longrightarrow>
     vr_revision r = vr_revision r' \<and> vr_acknowledged r = vr_acknowledged r')"

fun reviews_linked :: "nat \<Rightarrow> version_review option \<Rightarrow> version_review option \<Rightarrow> bool" where
  "reviews_linked n (Some r) (Some r') \<longleftrightarrow> vr_owner r < n \<and> vr_owner r' < n \<and> same_review r r' \<and>
     (case vr_fresh r' of Some v \<Rightarrow> newer_than r' v | None \<Rightarrow> True)"
| "reviews_linked n (Some r) None \<longleftrightarrow> vr_owner r < n"
| "reviews_linked n None (Some r') \<longleftrightarrow> vr_owner r' < n \<and> (case vr_fresh r' of Some v \<Rightarrow> newer_than r' v | None \<Rightarrow> True)"
| "reviews_linked n None None \<longleftrightarrow> True"

fun pinned_edit :: "page_action option \<Rightarrow> nat option" where
  "pinned_edit (Some (Retiring r)) = map_option fst (rt_edit r)"
| "pinned_edit (Some (RetireRead r)) = map_option fst (rt_edit r)"
| "pinned_edit _ = None"

fun below :: "nat option \<Rightarrow> nat \<Rightarrow> bool" where
  "below (Some x) n \<longleftrightarrow> x < n"
| "below None n \<longleftrightarrow> True"

text \<open>The call that reads a publication belongs to the editor that published.\<close>

fun own_publication :: "editor_action \<Rightarrow> nat \<Rightarrow> bool" where
  "own_publication (PublicationRead p) n \<longleftrightarrow> pb_owner p = n"
| "own_publication _ n \<longleftrightarrow> True"

definition numbered :: "template_page \<Rightarrow> bool" where
  "numbered pg \<longleftrightarrow> te_instance pg < tq_objects pg \<and> list_all (\<lambda>f. fl_owner f < tq_objects pg) (te_flights pg) \<and>
     list_all (\<lambda>f. own_publication (fl_action f) (fl_owner f)) (te_flights pg) \<and>
     below (map_option fst (tq_edit pg)) (tq_objects pg) \<and> below (pinned_edit (tq_action pg)) (tq_objects pg)"

fun still_sent :: "template \<Rightarrow> (nat \<times> template) option \<Rightarrow> bool" where
  "still_sent s (Some (x, e)) \<longleftrightarrow> e = s"
| "still_sent s None \<longleftrightarrow> True"

fun still_saved :: "template \<Rightarrow> (nat \<times> template) option \<Rightarrow> bool" where
  "still_saved s (Some (x, e)) \<longleftrightarrow> sameFields e s \<and> tp_id e = tp_id s \<and> tp_revision e = tp_revision s"
| "still_saved s None \<longleftrightarrow> False"

fun pin_before :: "nat option \<Rightarrow> (nat \<times> template) option \<Rightarrow> bool" where
  "pin_before (Some x) (Some (y, e)) \<longleftrightarrow> x < y"
| "pin_before _ _ \<longleftrightarrow> True"

fun published_ok :: "write_phase \<Rightarrow> bool \<Rightarrow> published option \<Rightarrow> bool" where
  "published_ok ph unfenced (Some p) \<longleftrightarrow> ph = PublishIn (pb_saved p) \<and> unfenced"
| "published_ok ph unfenced None \<longleftrightarrow> ph = NoWrite"

fun writes_ok :: "write_phase \<Rightarrow> bool \<Rightarrow> (nat \<times> template) option \<Rightarrow> nat \<Rightarrow> published option \<Rightarrow> nat option \<Rightarrow>
    editor_action list \<Rightarrow> bool" where
  "writes_ok ph unfenced edit n pub pin [] \<longleftrightarrow> published_ok ph unfenced pub"
| "writes_ok ph unfenced edit n pub pin [Previewing i s] \<longleftrightarrow> published_ok ph unfenced pub"
| "writes_ok ph unfenced edit n pub pin [PublicationRead p] \<longleftrightarrow> published_ok ph unfenced pub \<and> pub = Some p"
| "writes_ok ph unfenced edit n pub pin [Saving s k b] \<longleftrightarrow> ph = SaveOut s b \<and> pub = None \<and> unfenced \<and> k \<le> n \<and>
     (n = k \<longrightarrow> still_sent s edit)"
| "writes_ok ph unfenced edit n pub pin [Resaving s k b] \<longleftrightarrow> ph = SaveIn s b \<and> pub = None \<and> unfenced \<and> k \<le> n \<and>
     (n = k \<longrightarrow> still_saved s edit) \<and> pin_before pin edit"
| "writes_ok ph unfenced edit n pub pin [Publishing s k] \<longleftrightarrow> ph = PublishOut s \<and> pub = None \<and> unfenced"
| "writes_ok ph unfenced edit n pub pin _ \<longleftrightarrow> False"

definition template_sim :: "fence \<times> write_phase \<Rightarrow> template_page \<Rightarrow> bool" where
  "template_sim z pg \<longleftrightarrow> fence_ok (fst z) (tq_review pg) \<and>
     reviews_linked (tq_objects pg) (tq_review pg) (action_review (tq_action pg)) \<and> action_read (tq_action pg) \<and>
     numbered pg \<and>
     (alive pg \<longrightarrow> writes_ok (snd z) (tq_review pg = None) (tq_edit pg) (te_edits pg) (te_publication pg)
        (pinned_edit (tq_action pg)) (editor_live pg))"

abbreviation template_follows :: "fence \<times> write_phase \<Rightarrow> template_page \<Rightarrow> template_page \<Rightarrow> bool" where
  "template_follows \<equiv> traced tq_log template_protocol template_sim"

lemmas template_quiet = traced_quiet[where log_of = tq_log and proto = template_protocol and sim = template_sim]
lemmas template_one = traced_one[where log_of = tq_log and proto = template_protocol and sim = template_sim]
lemmas template_trans = traced_trans[where log_of = tq_log and proto = template_protocol and sim = template_sim]
lemmas template_from = traced_from[where log_of = tq_log and proto = template_protocol and sim = template_sim]

lemmas template_frame = template_sim_def alive_def owns_page_def numbered_def editor_live_def

lemma sim_render_editor [simp]: "template_sim z (render_editor pg) \<longleftrightarrow> template_sim z pg"
  by (simp add: render_editor_def Let_def template_frame)

lemma log_render_editor [simp]: "tq_log (render_editor pg) = tq_log pg"
  by (simp add: render_editor_def Let_def)

lemma follows_render_editor: "template_follows z pg (render_editor pg') \<longleftrightarrow> template_follows z pg pg'"
  by (simp add: traced_def)


section \<open>The page\<close>

lemma sim_put_none:
  assumes "template_sim z pg" "pin_before (pinned_edit (tq_action pg)) (tq_edit pg) \<longrightarrow> \<not> alive pg \<or> (\<forall>s k b. editor_live pg \<noteq> [Resaving s k b])"
  shows "template_sim z (pg\<lparr>tq_edit := None\<rparr>)"
  using assms by (cases "(snd z, tq_review pg = None, tq_edit pg, te_edits pg, te_publication pg,
      pinned_edit (tq_action pg), editor_live pg)" rule: writes_ok.cases) (auto simp: template_frame)

lemma reviews_mono: "reviews_linked n r r' \<Longrightarrow> n \<le> m \<Longrightarrow> reviews_linked m r r'"
  by (cases "(n, r, r')" rule: reviews_linked.cases) auto

lemma below_mono: "below x n \<Longrightarrow> n \<le> m \<Longrightarrow> below x m"
  by (cases x) auto

lemma numbered_mono: "list_all (\<lambda>f. fl_owner f < n) fs \<Longrightarrow> n \<le> m \<Longrightarrow> list_all (\<lambda>f. fl_owner f < m) fs"
  by (auto elim: list.pred_mono_strong)

text \<open>A new editor has no calls in flight.\<close>

lemma follows_mount:
  assumes "template_sim z pg"
  shows "template_follows z pg (mount_editor pg)"
proof (rule template_one[of _ _ OpenedEditor])
  have "filter (\<lambda>f. fl_owner f = tq_objects pg) (te_flights pg) = []"
    using assms by (auto simp: template_sim_def numbered_def list_all_iff filter_empty_conv)
  then show "template_sim (fst z, NoWrite) (mount_editor pg)"
    using assms reviews_mono[of "tq_objects pg" _ _ "Suc (tq_objects pg)"]
      numbered_mono[of "tq_objects pg" "te_flights pg" "Suc (tq_objects pg)"] below_mono[of _ "tq_objects pg" "Suc (tq_objects pg)"]
    by (simp add: template_frame mount_editor_def logged_def)
  show "template_protocol z OpenedEditor = Some (fst z, NoWrite)" by (cases z) simp
qed (simp add: mount_editor_def logged_def)

lemma dead_sim:
  assumes "template_sim z pg" "\<not> alive pg'"
    and "tq_review pg' = tq_review pg" "tq_action pg' = tq_action pg" "numbered pg'" "tq_objects pg \<le> tq_objects pg'"
  shows "template_sim z pg'"
  using assms reviews_mono[of "tq_objects pg"] by (simp add: template_sim_def)

lemma follows_select_tab:
  assumes "template_sim z pg"
  shows "template_follows z pg (select_tab tab pg)"
proof (cases "tab = tq_tab pg \<or> tab = EditorTab")
  case True
  then show ?thesis using follows_mount[OF assms] template_quiet[OF refl assms] by (auto simp: select_tab_def)
next
  case False
  have "template_sim z (pg\<lparr>tq_tab := tab\<rparr>)"
    by (rule dead_sim[OF assms]) (use False assms in \<open>simp_all add: alive_def template_sim_def numbered_def\<close>)
  then show ?thesis using False by (intro template_quiet) (simp_all add: select_tab_def)
qed

text \<open>
  A selection replaces the edited object, after which the editor is mounted anew; in between the page
  is that of no editor.
\<close>

lemma follows_replace:
  assumes "template_sim z pg"
  shows "template_follows z pg (mount_editor ((replaceEdit v pg)\<lparr>tq_mailbox := i\<rparr>))"
proof -
  define q where "q = (replaceEdit v pg)\<lparr>tq_mailbox := i, tq_tab := LibraryTab\<rparr>"
  have "template_follows z pg q"
  proof (rule template_one[of _ _ Selected])
    show "template_protocol z Selected = Some (Unfenced, snd z)" by (cases z) simp
    have "reviews_linked (Suc (tq_objects pg)) None (action_review (tq_action pg))"
      using assms by (cases "(tq_objects pg, tq_review pg, action_review (tq_action pg))" rule: reviews_linked.cases)
        (auto simp: template_sim_def)
    then show "template_sim (Unfenced, snd z) q"
      using assms numbered_mono[of "tq_objects pg" "te_flights pg" "Suc (tq_objects pg)"]
        below_mono[of _ "tq_objects pg" "Suc (tq_objects pg)"]
      by (simp add: template_frame q_def replaceEdit_def logged_def put_edit_def)
  qed (simp add: q_def replaceEdit_def logged_def put_edit_def)
  then have "template_follows z pg (mount_editor q)" by (rule template_trans) (rule follows_mount)
  moreover have "mount_editor q = mount_editor ((replaceEdit v pg)\<lparr>tq_mailbox := i\<rparr>)"
    by (simp add: q_def mount_editor_def logged_def replaceEdit_def put_edit_def)
  ultimately show ?thesis by simp
qed

lemma follows_same: "template_sim z pg \<Longrightarrow> template_follows z pg pg"
  by (simp add: template_quiet)

lemma follows_selections:
  assumes "template_sim z pg"
  shows "template_follows z pg (selectTemplate n pg)" "template_follows z pg (newTemplate pg)"
proof -
  have "mount_editor (replaceEdit v pg) = mount_editor ((replaceEdit v pg)\<lparr>tq_mailbox := tq_mailbox pg\<rparr>)" for v
    by (simp add: replaceEdit_def logged_def put_edit_def mount_editor_def)
  then show "template_follows z pg (selectTemplate n pg)"
    using follows_replace[OF assms] follows_same[OF assms] by (auto simp: selectTemplate_def split: option.splits)
  show "template_follows z pg (newTemplate pg)"
    using follows_replace[OF assms] follows_same[OF assms] by (simp add: newTemplate_def)
qed



text \<open>Ending the page's action, and starting one that holds no review, keep the simulation.\<close>

lemma sim_end_action:
  assumes "template_sim z pg"
  shows "template_sim z (pg\<lparr>tq_action := None\<rparr>)"
proof -
  have "reviews_linked (tq_objects pg) (tq_review pg) None"
    using assms by (cases "(tq_objects pg, tq_review pg, action_review (tq_action pg))" rule: reviews_linked.cases)
      (auto simp: template_sim_def)
  moreover have "alive pg \<Longrightarrow> writes_ok (snd z) (tq_review pg = None) (tq_edit pg) (te_edits pg) (te_publication pg)
        None (editor_live pg)"
    using assms by (cases "(snd z, tq_review pg = None, tq_edit pg, te_edits pg, te_publication pg,
      pinned_edit (tq_action pg), editor_live pg)" rule: writes_ok.cases) (auto simp: template_sim_def)
  ultimately show ?thesis using assms by (simp add: template_frame)
qed

lemma sim_retry:
  assumes "template_sim z pg" "tq_action pg = None"
  shows "template_sim z (retry_library pg)"
  using assms by (simp add: retry_library_def template_frame)

lemma follows_retire:
  assumes "template_sim z pg"
  shows "template_follows z pg (retireTemplate n pg)"
proof (cases "retireTemplate n pg = pg")
  case False
  then obtain rows where r: "lb_data (tq_library pg) = Some rows" "tq_action pg = None" "tq_tab pg = LibraryTab"
    "retireTemplate n pg = logged (RetireSent (tp_id (rows ! n)) (tp_revision (rows ! n)) (\<not> tp_retired (rows ! n)))
            (pg\<lparr>tq_action := Some (Retiring \<lparr>rt_template = rows ! n, rt_generation = tq_generation pg,
              rt_edit = tq_edit pg\<rparr>)\<rparr>)"
    by (auto simp: retireTemplate_def split: option.splits if_splits)
  have "template_sim z (retireTemplate n pg)"
    using assms r(2,3) by (simp add: r(4) template_frame logged_def)
  then show ?thesis
    by (intro template_one[of _ _ "RetireSent (tp_id (rows ! n)) (tp_revision (rows ! n)) (\<not> tp_retired (rows ! n))" _ z])
      (simp_all add: r(4) logged_def, cases z, simp)
qed (simp add: follows_same[OF assms])

lemma follows_revoke:
  assumes "template_sim z pg"
  shows "template_follows z pg (revokeVersion v pg)"
proof (cases "revokeVersion v pg = pg")
  case False
  then obtain x e b where r: "tq_edit pg = Some (x, e)" "tq_baseline pg = Some b"
    by (auto simp: revokeVersion_def split: option.splits prod.splits)
  define review where "review = \<lparr>vr_owner = tq_objects pg, vr_id = the (tp_id e), vr_revision = tp_revision e,
                     vr_baseline = b, vr_acknowledged = False, vr_fresh = None, vr_error = None\<rparr>"
  have g: "tq_tab pg = VersionsTab" "tq_action pg = None" "tq_review pg = None"
    "revokeVersion v pg = logged (RevokeSent (vr_id review) (rv_version v) (vr_revision review))
                    (pg\<lparr>tq_objects := Suc (tq_objects pg), tq_review := Some review,
                       tq_action := Some (RevokingVersion review (tq_generation pg))\<rparr>)"
    using False r by (auto simp: revokeVersion_def review_def Let_def split: if_splits)
  have "template_sim (Fenced (vr_revision review) False, snd z) (revokeVersion v pg)"
    using assms g(1-3) numbered_mono[of "tq_objects pg" "te_flights pg" "Suc (tq_objects pg)"]
      below_mono[of _ "tq_objects pg" "Suc (tq_objects pg)"]
    by (simp add: g(4) template_frame logged_def same_review_def) (simp add: review_def)
  moreover have "fst z = Unfenced" using assms g(3) by (simp add: template_sim_def)
  ultimately show ?thesis
    by (intro template_one[of _ _ "RevokeSent (vr_id review) (rv_version v) (vr_revision review)"
        _ "(Fenced (vr_revision review) False, snd z)"]) (simp_all add: g(4) logged_def, cases z, simp)
qed (simp add: follows_same[OF assms])

lemma follows_refresh_revision:
  assumes "template_sim z pg"
  shows "template_follows z pg (refresh_revision pg)"
proof (cases "refresh_revision pg = pg")
  case False
  then obtain review where r: "tq_review pg = Some review" "tq_action pg = None"
    "refresh_revision pg = pg\<lparr>tq_action := Some (ReadingRevision review (tq_generation pg))\<rparr>"
    by (auto simp: refresh_revision_def split: option.splits if_splits)
  have "template_sim z (refresh_revision pg)"
    using assms r(1,2) by (simp add: r(3) template_frame same_review_def)
  then show ?thesis by (intro template_quiet) (simp_all add: r(3))
qed (simp add: follows_same[OF assms])

text \<open>A page whose review is set may have no write in flight, so that the edited object can be replaced.\<close>

lemma writes_fenced:
  assumes "writes_ok ph False edit n pub pin live"
  shows "pub = None" "writes_ok ph True edit' n None pin' live"
  using assms by (cases "(ph, False, edit, n, pub, pin, live)" rule: writes_ok.cases;
    cases pub; simp)+

lemma follows_adopt_revision:
  assumes "template_sim z pg" "tq_action pg = None" "tq_review pg = Some r" "newer_than r fresh"
  shows "template_follows z pg (adopt_revision e fresh pg)"
proof (rule template_one[of _ _ "RevisionAdopted (tp_revision fresh)"])
  have f: "fst z = Fenced (vr_revision r) (vr_acknowledged r)" using assms(1,3) by (simp add: template_sim_def)
  then show "template_protocol z (RevisionAdopted (tp_revision fresh)) = Some (Unfenced, snd z)"
    using assms(4) by (cases z) (simp add: newer_than_def)
  have "alive pg \<Longrightarrow> writes_ok (snd z) True (Some (tq_objects pg, e)) (te_edits pg) None None (editor_live pg)"
    and "alive pg \<Longrightarrow> te_publication pg = None"
    using assms(1-3) writes_fenced[of "snd z" "tq_edit pg" "te_edits pg" "te_publication pg" None "editor_live pg"]
    by (simp_all add: template_sim_def)
  then show "template_sim (Unfenced, snd z) (adopt_revision e fresh pg)"
    using assms(1,2) numbered_mono[of "tq_objects pg" "te_flights pg" "Suc (tq_objects pg)"]
    by (auto simp: template_frame adopt_revision_def logged_def put_edit_def)
qed (simp add: adopt_revision_def logged_def put_edit_def)

lemma follows_keep:
  assumes "template_sim z pg"
  shows "template_follows z pg (keepReviewedEdits pg)"
proof (cases "keepReviewedEdits pg = pg")
  case False
  then obtain review x e fresh where r: "tq_review pg = Some review" "tq_action pg = None" "vr_fresh review = Some fresh"
    "keepReviewedEdits pg = adopt_revision (fst (mergeVersionDraft e (vr_baseline review) fresh True)) fresh pg"
    by (auto simp: keepReviewedEdits_def split: option.splits if_splits)
  have "newer_than review fresh" using assms r(1,3) by (simp add: template_sim_def)
  from follows_adopt_revision[OF assms r(2,1) this] show ?thesis by (simp add: r(4))
qed (simp add: follows_same[OF assms])


lemma sim_library [simp]:
  "template_sim z (pg\<lparr>tq_library := lib, tq_recovery := r, tq_checking := b\<rparr>) = template_sim z pg"
  "template_sim z (pg\<lparr>tq_library := lib\<rparr>) = template_sim z pg"
  "template_sim z (pg\<lparr>tq_recovery := r\<rparr>) = template_sim z pg"
  "template_sim z (pg\<lparr>tq_checking := b\<rparr>) = template_sim z pg"
  "template_sim z (pg\<lparr>tq_checking := b, tq_recovery := r\<rparr>) = template_sim z pg"
  "template_sim z (pg\<lparr>tq_checking := b, tq_action := a\<rparr>) = template_sim z (pg\<lparr>tq_action := a\<rparr>)"
  "template_sim z (pg\<lparr>tq_library := lib, tq_action := a\<rparr>) = template_sim z (pg\<lparr>tq_action := a\<rparr>)"
  "template_sim z (pg\<lparr>tq_version_key := k\<rparr>) = template_sim z pg"
  "template_sim z (pg\<lparr>tq_baseline := bl\<rparr>) = template_sim z pg"
  "template_sim z (pg\<lparr>tq_boxes := bs\<rparr>) = template_sim z pg"
  "template_sim z (pg\<lparr>te_vars := vs\<rparr>) = template_sim z pg"
  "template_sim z (pg\<lparr>te_preview := p\<rparr>) = template_sim z pg"
  "template_sim z (pg\<lparr>tq_log := l\<rparr>) = template_sim z pg"
  by (simp_all add: template_frame)

lemma library_read_frame [simp]:
  "template_sim z (library_read rows pg) = template_sim z pg" "tq_log (library_read rows pg) = tq_log pg"
  by (simp_all add: library_read_def template_frame)

lemma follows_retire_answers:
  assumes "template_sim z pg"
  shows "tq_action pg = Some (Retiring r) \<Longrightarrow>
      template_follows z pg (retirement_answered r result (pg\<lparr>tq_action := None\<rparr>))"
    and "tq_action pg = Some (RetireRead r) \<Longrightarrow>
      template_follows z pg (retire_library_read r result (pg\<lparr>tq_action := None\<rparr>))"
proof -
  note e = sim_end_action[OF assms]
  show "template_follows z pg (retirement_answered r result (pg\<lparr>tq_action := None\<rparr>))" if "tq_action pg = Some (Retiring r)"
  proof -
    have "template_sim z (pg\<lparr>tq_action := Some (RetireRead r), tq_checking := True\<rparr>)"
      using assms that by (simp add: template_frame)
    then show ?thesis using e by (intro template_quiet)
      (auto simp: retirement_answered_def split: sum.splits)
  qed
  show "template_follows z pg (retire_library_read r result (pg\<lparr>tq_action := None\<rparr>))" if a: "tq_action pg = Some (RetireRead r)"
  proof -
    have c: "template_sim z (close_retired r (pg\<lparr>tq_action := None\<rparr>))"
    proof (cases "close_retired r (pg\<lparr>tq_action := None\<rparr>) = pg\<lparr>tq_action := None\<rparr>")
      case False
      then obtain x e where x: "rt_edit r = Some (x, e)" "map_option fst (tq_edit pg) = Some x"
        "close_retired r (pg\<lparr>tq_action := None\<rparr>) = pg\<lparr>tq_edit := None, tq_action := None\<rparr>"
        by (auto simp: close_retired_def split: option.splits if_splits)
      then have "\<not> pin_before (pinned_edit (tq_action pg)) (tq_edit pg)" using a by auto
      then have "template_sim z (pg\<lparr>tq_edit := None\<rparr>)" using sim_put_none[OF assms] by blast
      from sim_end_action[OF this] show ?thesis by (simp add: x(3))
    qed (use e in simp)
    have "close_retired r (library_read rows q) = library_read rows (close_retired r q)" for rows q
      by (auto simp: close_retired_def library_read_def split: option.splits)
    moreover have "tq_log (close_retired r q) = tq_log q" for q by (simp add: close_retired_def split: option.splits)
    ultimately show ?thesis using c e
      by (intro template_quiet) (auto simp: retire_library_read_def split: option.splits)
  qed
qed

lemma follows_retry_answer:
  assumes "template_sim z pg"
  shows "template_follows z pg (retry_answered result (pg\<lparr>tq_action := None\<rparr>))"
proof -
  note e = sim_end_action[OF assms]
  have "template_sim z (pg\<lparr>tq_action := Some RetryBoxes\<rparr>)" using e by (simp add: template_frame)
  then have "template_sim z ((library_read rows (pg\<lparr>tq_action := None\<rparr>))\<lparr>tq_action := Some RetryBoxes\<rparr>)" for rows
    by (simp add: template_frame library_read_def)
  then show ?thesis using e
    by (intro template_quiet) (auto simp: retry_answered_def library_read_def split: option.splits)
qed

lemma sim_set_review:
  assumes "template_sim z pg" "tq_action pg = None" "tq_review pg = Some r"
    and "vr_owner r' = vr_owner r" "vr_revision r' = vr_revision r" "vr_acknowledged r' = vr_acknowledged r"
    and "case vr_fresh r' of Some v \<Rightarrow> newer_than r' v | None \<Rightarrow> True"
  shows "template_sim z (pg\<lparr>tq_review := Some r'\<rparr>)"
  using assms by (simp add: template_frame)

text \<open>What the simulation says of the review an action holds, once the page still has that review.\<close>

lemma held_review:
  assumes "template_sim z pg" "action_review (tq_action pg) = Some r" "owns_review g r pg"
  obtains r0 where "tq_review pg = Some r0" "vr_owner r0 = vr_owner r" "vr_revision r0 = vr_revision r"
    "vr_acknowledged r0 = vr_acknowledged r" "case vr_fresh r of Some v \<Rightarrow> newer_than r v | None \<Rightarrow> True"
proof -
  obtain r0 where "tq_review pg = Some r0" "vr_owner r0 = vr_owner r" using assms(3) by (auto simp: owns_review_def)
  moreover then have "same_review r0 r" "case vr_fresh r of Some v \<Rightarrow> newer_than r v | None \<Rightarrow> True"
    using assms(1,2) by (simp_all add: template_sim_def)
  ultimately show ?thesis using that by (simp add: same_review_def)
qed

lemma owns_review_end [simp]: "owns_review g r (pg\<lparr>tq_action := a\<rparr>) = owns_review g r pg"
  by (simp add: owns_review_def owns_page_def)

lemma follows_revision_failed:
  assumes "template_sim z pg" "action_review (tq_action pg) = Some r" "owns_review g r pg"
  shows "template_follows z pg (revision_failed r e (pg\<lparr>tq_action := None\<rparr>))"
proof (rule template_quiet)
  obtain r0 where r0: "tq_review pg = Some r0" "vr_owner r0 = vr_owner r" "vr_revision r0 = vr_revision r"
    "vr_acknowledged r0 = vr_acknowledged r" using held_review[OF assms] by blast
  then show "template_sim z (revision_failed r e (pg\<lparr>tq_action := None\<rparr>))"
    unfolding revision_failed_def by (intro sim_set_review[OF sim_end_action[OF assms(1)], where r = r0]) simp_all
qed (simp add: revision_failed_def)


lemma follows_revocation_answer:
  assumes "template_sim z pg" "tq_action pg = Some (RevokingVersion r g)"
  shows "template_follows z pg (revocation_answered r g result (pg\<lparr>tq_action := None\<rparr>))"
proof (cases "owns_review g r pg")
  case True
  obtain r0 where r0: "tq_review pg = Some r0" "vr_owner r0 = vr_owner r" "vr_revision r0 = vr_revision r"
    "vr_acknowledged r0 = vr_acknowledged r" using held_review[OF assms(1) _ True] assms(2) by auto
  have fresh: "vr_fresh r = None" using assms by (simp add: template_sim_def)
  show ?thesis
  proof (cases result)
    case (Inl e)
    have "template_sim z ((pg\<lparr>tq_action := None\<rparr>)\<lparr>tq_review := Some (r\<lparr>vr_error := Some (revoke_unconfirmed, Some e)\<rparr>)\<rparr>)"
      by (rule sim_set_review[OF sim_end_action[OF assms(1)], where r = r0]) (use r0 fresh in simp_all)
    then show ?thesis using Inl True by (intro template_quiet) (simp_all add: revocation_answered_def)
  next
    case (Inr v)
    define r' where "r' = r\<lparr>vr_acknowledged := True\<rparr>"
    have q: "revocation_answered r g result (pg\<lparr>tq_action := None\<rparr>) = logged RevokeAcked
        (pg\<lparr>tq_review := Some r', tq_action := Some (ReadingRevision r' g)\<rparr>)"
      using Inr True by (simp add: revocation_answered_def r'_def Let_def)
    have "template_sim (Fenced (vr_revision r) True, snd z) (revocation_answered r g result (pg\<lparr>tq_action := None\<rparr>))"
      using sim_end_action[OF assms(1)] assms r0 fresh unfolding q
      by (simp add: template_frame logged_def r'_def same_review_def)
    moreover have "fst z = Fenced (vr_revision r) (vr_acknowledged r)" using assms(1) r0 by (simp add: template_sim_def)
    ultimately show ?thesis
      by (intro template_one[of _ _ RevokeAcked _ "(Fenced (vr_revision r) True, snd z)"])
        (simp_all add: q logged_def, cases z, simp)
  qed
qed (use sim_end_action[OF assms(1)] in \<open>simp add: revocation_answered_def template_quiet\<close>)

lemma usable_newer: "revision_usable r v \<Longrightarrow> newer_than r v"
  by (auto simp: revision_usable_def newer_than_def)

lemma follows_revision_read:
  assumes "template_sim z pg" "tq_action pg = Some (ReadingRevision r g)"
  shows "template_follows z pg (revision_read r g result (pg\<lparr>tq_action := None\<rparr>))"
proof (cases "owns_review g r pg \<and> (\<exists>rows fresh. as_list result = Some rows \<and>
    find (\<lambda>v. tp_id v = Some (vr_id r)) rows = Some fresh \<and> revision_usable r fresh)")
  case True
  then obtain rows fresh where f: "owns_review g r pg" "as_list result = Some rows"
    "find (\<lambda>v. tp_id v = Some (vr_id r)) rows = Some fresh" "revision_usable r fresh" by blast
  have "template_sim z (pg\<lparr>tq_action := Some (PublishingList r g fresh)\<rparr>)"
    using assms usable_newer[OF f(4)] by (simp add: template_frame)
  then show ?thesis using f by (intro template_quiet) (simp_all add: revision_read_def)
next
  case False
  show ?thesis
  proof (cases "owns_review g r pg")
    case True
    have "\<exists>e. revision_read r g result (pg\<lparr>tq_action := None\<rparr>) = revision_failed r e (pg\<lparr>tq_action := None\<rparr>)"
    proof (cases "as_list result")
      case (Some rows)
      then show ?thesis using False True
        by (cases "find (\<lambda>v. tp_id v = Some (vr_id r)) rows") (auto simp: revision_read_def)
    qed (use True in \<open>auto simp: revision_read_def\<close>)
    then obtain e where "revision_read r g result (pg\<lparr>tq_action := None\<rparr>) = revision_failed r e (pg\<lparr>tq_action := None\<rparr>)"
      by blast
    then show ?thesis using follows_revision_failed[OF assms(1) _ True] assms(2) by simp
  qed (use sim_end_action[OF assms(1)] in \<open>simp add: revision_read_def template_quiet\<close>)
qed

lemma follows_merge:
  assumes "template_sim z pg" "tq_action pg = Some (PublishingList r g fresh)" "owns_review g r pg"
  shows "template_follows z pg (merge_revision r fresh (pg\<lparr>tq_action := None\<rparr>))"
proof -
  define q where "q = pg\<lparr>tq_action := None\<rparr>"
  have s: "template_sim z q" "tq_action q = None" using sim_end_action[OF assms(1)] by (simp_all add: q_def)
  have n: "newer_than r fresh" using assms(1,2) by (simp add: template_sim_def)
  obtain r0 where r0: "tq_review q = Some r0" "vr_owner r0 = vr_owner r" "vr_revision r0 = vr_revision r"
    "vr_acknowledged r0 = vr_acknowledged r" "case vr_fresh r of Some v \<Rightarrow> newer_than r v | None \<Rightarrow> True"
    using held_review[OF assms(1) _ assms(3)] assms(2) by (auto simp: q_def)
  have "template_sim z (q\<lparr>tq_review := Some (r\<lparr>vr_error := Some old_read\<rparr>)\<rparr>)"
    by (rule sim_set_review[OF s r0(1)]) (use r0 in \<open>simp_all add: newer_than_def split: option.splits\<close>)
  moreover have "template_sim z (q\<lparr>tq_review := Some (r\<lparr>vr_fresh := Some fresh, vr_error := Some changed_elsewhere\<rparr>)\<rparr>)"
    by (rule sim_set_review[OF s r0(1)]) (use r0 n in \<open>simp_all add: newer_than_def\<close>)
  moreover have "template_follows z q (adopt_revision e fresh q)" for e
    by (rule follows_adopt_revision[OF s r0(1)]) (use n r0 in \<open>simp add: newer_than_def\<close>)
  ultimately have "template_follows z q (merge_revision r fresh q)"
    using s(1) template_quiet[of _ q z] by (auto simp: merge_revision_def split: option.splits)
  then show ?thesis using template_from[of pg q z] by (simp add: q_def)
qed

lemma follows_key: "template_follows z pg (q\<lparr>tq_version_key := k\<rparr>) \<longleftrightarrow> template_follows z pg q"
  by (simp add: traced_def)

lemma follows_list_published:
  assumes "template_sim z pg" "tq_action pg = Some (PublishingList r g fresh)"
  shows "template_follows z pg (list_published r g fresh result (pg\<lparr>tq_action := None\<rparr>))"
proof (cases "owns_review g r pg")
  case True
  then show ?thesis using follows_merge[OF assms True] follows_revision_failed[OF assms(1) _ True] assms(2)
    by (cases result) (simp_all add: list_published_def follows_key)
qed (use sim_end_action[OF assms(1)] in \<open>simp add: list_published_def template_quiet\<close>)

lemma follows_page_answered:
  assumes "template_sim z pg" "tq_action pg = Some a"
  shows "template_follows z pg (page_answered a result (pg\<lparr>tq_action := None\<rparr>))"
  using assms follows_retire_answers[OF assms(1)] follows_retry_answer[OF assms(1)]
    follows_revocation_answer[OF assms(1)] follows_revision_read[OF assms(1)] follows_list_published[OF assms(1)]
    template_quiet[OF _ sim_end_action[OF assms(1)]]
  by (cases a) simp_all


section \<open>The editor\<close>

lemma writes_edited:
  assumes "writes_ok ph u edit n pub pin live" "below pin m"
  shows "writes_ok ph u (Some (m, e)) (Suc n) pub pin live"
  using assms by (cases "(ph, u, edit, n, pub, pin, live)" rule: writes_ok.cases; cases pin) auto

lemma sim_edited:
  assumes "template_sim z pg"
  shows "template_sim z ((put_edit (Some e) pg)\<lparr>te_edits := Suc (te_edits pg)\<rparr>)"
  using assms reviews_mono[of "tq_objects pg" _ _ "Suc (tq_objects pg)"]
    numbered_mono[of "tq_objects pg" "te_flights pg" "Suc (tq_objects pg)"] below_mono[of _ "tq_objects pg" "Suc (tq_objects pg)"]
    writes_edited[of "snd z" "tq_review pg = None" "tq_edit pg" "te_edits pg" "te_publication pg" "pinned_edit (tq_action pg)"
      "editor_live pg" "tq_objects pg" e]
  by (simp add: template_frame put_edit_def)

lemma follows_typing:
  assumes "template_sim z pg"
  shows "template_follows z pg (type_name s pg)" "template_follows z pg (update_draft c pg)"
    "template_follows z pg (choose_mailbox i pg)" "template_follows z pg (type_preview_value n v pg)"
proof -
  have p: "template_sim z (q\<lparr>te_edits := m, te_preview := None\<rparr>) = template_sim z (q\<lparr>te_edits := m\<rparr>)" for q m
    by (simp add: template_frame)
  have r: "(put_edit v pg)\<lparr>te_preview := None, te_edits := m\<rparr> = (put_edit v pg)\<lparr>te_edits := m, te_preview := None\<rparr>" for v m
    by simp
  show "template_follows z pg (type_name s pg)"
    using sim_edited[OF assms] assms
    by (intro template_quiet) (auto simp: type_name_def put_edit_def split: option.splits)
  show "template_follows z pg (update_draft c pg)"
  proof (cases "tq_edit pg")
    case (Some xe)
    obtain x e where "xe = (x, e)" by (cases xe)
    with Some have u: "update_draft c pg = (put_edit (Some (e\<lparr>tp_draft := changed_draft c (tp_draft e)\<rparr>)) pg)
        \<lparr>te_edits := Suc (te_edits pg)\<rparr>\<lparr>te_preview := None\<rparr>" by (simp add: update_draft_def)
    show ?thesis using sim_edited[OF assms] unfolding u
      by (intro template_quiet) (simp_all only: sim_library, simp add: put_edit_def)
  qed (simp add: update_draft_def follows_same[OF assms])
  show "template_follows z pg (choose_mailbox i pg)" "template_follows z pg (type_preview_value n v pg)"
    using assms by (intro template_quiet; simp add: choose_mailbox_def type_preview_value_def template_frame)+
qed

lemma live_launch [simp]: "editor_live (launch a pg) = editor_live pg @ [a]"
  by (simp add: editor_live_def launch_def)

lemma launch_frame [simp]:
  "tq_log (launch a pg) = tq_log pg" "tq_review (launch a pg) = tq_review pg" "tq_action (launch a pg) = tq_action pg"
  "tq_edit (launch a pg) = tq_edit pg" "te_edits (launch a pg) = te_edits pg" "te_publication (launch a pg) = te_publication pg"
  "tq_objects (launch a pg) = tq_objects pg" "alive (launch a pg) = alive pg" 
  "numbered pg \<Longrightarrow> own_publication a (te_instance pg) \<Longrightarrow> numbered (launch a pg)"
  by (simp_all add: launch_def alive_def owns_page_def numbered_def)

lemma logged_frame [simp]:
  "tq_log (logged x pg) = tq_log pg @ [x]" "tq_review (logged x pg) = tq_review pg" "tq_action (logged x pg) = tq_action pg"
  "tq_edit (logged x pg) = tq_edit pg" "te_edits (logged x pg) = te_edits pg" "te_publication (logged x pg) = te_publication pg"
  "tq_objects (logged x pg) = tq_objects pg" "alive (logged x pg) = alive pg" "numbered (logged x pg) = numbered pg"
  "te_instance (logged x pg) = te_instance pg" "editor_live (logged x pg) = editor_live pg" "owns_instance n (logged x pg) = owns_instance n pg"
  by (simp_all add: logged_def alive_def owns_page_def numbered_def editor_live_def owns_instance_def)

lemma editor_free_iff: "editor_free pg \<longleftrightarrow> alive pg \<and> editor_live pg = []"
  by (simp add: editor_free_def alive_def)

lemma sim_launch:
  assumes "template_sim z pg" "alive pg" "editor_live pg = []"
    and "published_ok (snd z) (tq_review pg = None) (te_publication pg) \<Longrightarrow>
      writes_ok y (tq_review pg = None) (tq_edit pg) (te_edits pg) (te_publication pg) (pinned_edit (tq_action pg)) [a]"
    and "own_publication a (te_instance pg)"
  shows "template_sim (fst z, y) (launch a pg)"
proof -
  have "published_ok (snd z) (tq_review pg = None) (te_publication pg)" using assms(1-3) by (simp add: template_sim_def)
  from assms(4)[OF this] show ?thesis using assms(1,3,5) unfolding template_sim_def by simp
qed

lemma follows_preview:
  assumes "template_sim z pg"
  shows "template_follows z pg (renderPreview pg)"
  using sim_launch[OF assms, of "snd z" "Previewing (te_intent pg) (te_signature pg)"] assms
  by (intro template_quiet) (auto simp: renderPreview_def editor_free_iff)

lemma follows_save_template:
  assumes "template_sim z pg"
  shows "template_follows z pg (save_template publish pg)"
proof (cases "save_template publish pg = pg")
  case False
  then obtain x e where g: "tq_edit pg = Some (x, e)" "alive pg" "editor_live pg = []" "tq_review pg = None"
    "te_publication pg = None"
    "save_template publish pg = launch (Saving e (te_edits pg) publish) (logged (SaveSent e publish) pg)"
    by (auto simp: save_template_def editor_free_iff split: option.splits if_splits)
  have "template_sim (fst z, SaveOut e publish) (save_template publish pg)"
    using assms g(1-5) unfolding g(6) by (simp add: template_sim_def)
  moreover have "z = (Unfenced, NoWrite)" using assms g(2-5) by (cases z) (simp add: template_sim_def)
  ultimately show ?thesis
    by (intro template_one[of _ _ "SaveSent e publish" _ "(fst z, SaveOut e publish)"]) (simp_all add: g(6))
qed (simp add: follows_same[OF assms])

lemma follows_refresh_publication:
  assumes "template_sim z pg"
  shows "template_follows z pg (refresh_publication pg)"
proof (cases "refresh_publication pg = pg")
  case False
  then obtain p where g: "te_publication pg = Some p" "alive pg" "editor_live pg = []"
    "te_instance pg = pb_owner p" "refresh_publication pg = launch (PublicationRead p) pg"
    by (auto simp: refresh_publication_def finish_publication_def editor_free_iff owns_instance_def split: option.splits if_splits)
  have "template_sim z (refresh_publication pg)"
    using sim_launch[OF assms g(2,3), of "snd z" "PublicationRead p"] g(1,4) unfolding g(5) by simp
  then show ?thesis by (intro template_quiet) (simp_all add: g(5))
qed (simp add: follows_same[OF assms])


subsection \<open>Answers\<close>

lemma filter_remove_nth:
  assumes "k < length xs"
  shows "\<not> P (xs ! k) \<Longrightarrow> filter P (remove_nth k xs) = filter P xs"
    and "P (xs ! k) \<Longrightarrow> length (filter P xs) = Suc (length (filter P (remove_nth k xs)))"
proof -
  have x: "xs = take k xs @ xs ! k # drop (Suc k) xs" using assms by (rule id_take_nth_drop)
  have f: "filter P xs = filter P (take k xs) @ filter P (xs ! k # drop (Suc k) xs)"
    using arg_cong[OF x, of "filter P"] by simp
  show "\<not> P (xs ! k) \<Longrightarrow> filter P (remove_nth k xs) = filter P xs" using f by (simp add: remove_nth_def)
  show "P (xs ! k) \<Longrightarrow> length (filter P xs) = Suc (length (filter P (remove_nth k xs)))"
    using f by (simp add: remove_nth_def)
qed

lemma writes_single: "writes_ok ph u edit n pub pin live \<Longrightarrow> length live \<le> 1"
  by (cases "(ph, u, edit, n, pub, pin, live)" rule: writes_ok.cases) auto

text \<open>
  The page without the answered call: that of a foreign call is in the same relation, and the call of
  the living editor was its only one.
\<close>

abbreviation without_flight :: "nat \<Rightarrow> template_page \<Rightarrow> template_page" where
  "without_flight k pg \<equiv> pg\<lparr>te_flights := remove_nth k (te_flights pg)\<rparr>"

lemma remove_numbered: "list_all P xs \<Longrightarrow> list_all P (remove_nth k xs)"
  by (auto simp: list_all_iff remove_nth_def dest: in_set_takeD in_set_dropD)

lemma foreign_flight:
  assumes "template_sim z pg" "k < length (te_flights pg)"
    and "\<not> owns_instance (fl_owner (te_flights pg ! k)) (without_flight k pg)"
  shows "template_sim z (without_flight k pg)"
  using assms filter_remove_nth(1)[OF assms(2), of "\<lambda>f. fl_owner f = te_instance pg"]
  by (simp add: template_frame owns_instance_def remove_numbered) metis

lemma own_flight:
  assumes "template_sim z pg" "k < length (te_flights pg)"
    and "owns_instance (fl_owner (te_flights pg ! k)) (without_flight k pg)"
  defines "q \<equiv> without_flight k pg"
  shows "editor_live q = []" "alive q" "numbered q" "fence_ok (fst z) (tq_review q)"
    "reviews_linked (tq_objects q) (tq_review q) (action_review (tq_action q))" "action_read (tq_action q)"
    "writes_ok (snd z) (tq_review q = None) (tq_edit q) (te_edits q) (te_publication q) (pinned_edit (tq_action q))
       [fl_action (te_flights pg ! k)]"
proof -
  let ?P = "\<lambda>f. fl_owner f = te_instance pg"
  have a: "alive pg" "?P (te_flights pg ! k)" using assms(3) by (simp_all add: owns_instance_def alive_def owns_page_def)
  have w: "writes_ok (snd z) (tq_review pg = None) (tq_edit pg) (te_edits pg) (te_publication pg)
      (pinned_edit (tq_action pg)) (editor_live pg)" using assms(1) a(1) by (simp add: template_sim_def)
  have l: "length (filter ?P (te_flights pg)) = 1" "filter ?P (remove_nth k (te_flights pg)) = []"
    using writes_single[OF w] filter_remove_nth(2)[OF assms(2), of ?P] a(2) by (simp_all add: editor_live_def)
  then obtain f where f: "filter ?P (te_flights pg) = [f]" by (auto simp: length_Suc_conv)
  have "te_flights pg ! k \<in> set (filter ?P (te_flights pg))" using assms(2) a(2) by simp
  then have "f = te_flights pg ! k" unfolding f by simp
  with f w show "writes_ok (snd z) (tq_review q = None) (tq_edit q) (te_edits q) (te_publication q)
      (pinned_edit (tq_action q)) [fl_action (te_flights pg ! k)]" by (simp add: q_def editor_live_def)
  show "editor_live q = []" "alive q" "numbered q" "fence_ok (fst z) (tq_review q)"
    "reviews_linked (tq_objects q) (tq_review q) (action_review (tq_action q))" "action_read (tq_action q)"
    using assms(1) a(1) l(2) by (simp_all add: q_def template_frame remove_numbered)
qed


definition answering :: "fence \<times> write_phase \<Rightarrow> template_page \<Rightarrow> editor_action \<Rightarrow> bool" where
  "answering z q a \<longleftrightarrow> editor_live q = [] \<and> alive q \<and> numbered q \<and> fence_ok (fst z) (tq_review q) \<and>
     reviews_linked (tq_objects q) (tq_review q) (action_review (tq_action q)) \<and> action_read (tq_action q) \<and>
     writes_ok (snd z) (tq_review q = None) (tq_edit q) (te_edits q) (te_publication q) (pinned_edit (tq_action q)) [a]"

lemma answering_rest:
  assumes "answering z q a" "published_ok y (tq_review q = None) (te_publication q)"
  shows "template_sim (fst z, y) q"
  using assms by (simp add: answering_def template_sim_def)

lemma follows_end_write:
  assumes "answering z q a" "owns_instance n q" "te_publication q = None" "snd z \<noteq> PublishIn (the (case snd z of PublishIn s \<Rightarrow> Some s | _ \<Rightarrow> None))"
  shows "template_follows z q (end_write n q)"
proof (rule template_one[of _ _ WriteEnded])
  show "template_protocol z WriteEnded = Some (fst z, NoWrite)"
    using assms(4) by (cases z) (simp split: write_phase.splits)
  show "template_sim (fst z, NoWrite) (end_write n q)"
    using assms(1-3) by (simp add: end_write_def answering_def template_sim_def)
qed (simp add: end_write_def assms(2))

lemma follows_preview_answer:
  assumes "answering z q (Previewing i s)" "owns_instance n q"
  shows "template_follows z q (preview_answered n i s result q)"
proof -
  have r: "template_sim z q" using answering_rest[OF assms(1), of "snd z"] assms(1) by (simp add: answering_def)
  show ?thesis
  proof (cases "as_rendered result")
    case (Some v)
    have "template_sim z (logged (Previewed s v) (q\<lparr>te_preview := Some (i, v)\<rparr>))"
      using r by (simp add: template_frame logged_def)
    then have "template_follows z q (logged (Previewed s v) (q\<lparr>te_preview := Some (i, v)\<rparr>))"
      by (intro template_one[of _ _ "Previewed s v" _ z]) (simp_all, cases z, simp)
    then show ?thesis using Some follows_same[OF r] by (simp add: preview_answered_def)
  qed (use follows_same[OF r] in \<open>simp add: preview_answered_def\<close>)
qed

lemma onSaved_frame [simp]:
  "tq_log (onSaved g v pg) = tq_log pg" "tq_review (onSaved g v pg) = tq_review pg" "tq_action (onSaved g v pg) = tq_action pg"
  "tq_edit (onSaved g v pg) = tq_edit pg" "te_edits (onSaved g v pg) = te_edits pg" "te_publication (onSaved g v pg) = te_publication pg"
  "tq_objects (onSaved g v pg) = tq_objects pg" "alive (onSaved g v pg) = alive pg" "numbered (onSaved g v pg) = numbered pg"
  "editor_live (onSaved g v pg) = editor_live pg"
  by (simp_all add: onSaved_def alive_def owns_page_def numbered_def editor_live_def split: option.splits)

lemma put_edit_frame [simp]:
  "tq_log (put_edit v pg) = tq_log pg" "tq_review (put_edit v pg) = tq_review pg" "tq_action (put_edit v pg) = tq_action pg"
  "te_edits (put_edit v pg) = te_edits pg" "te_publication (put_edit v pg) = te_publication pg"
  "tq_edit (put_edit v pg) = map_option (Pair (tq_objects pg)) v"
  "tq_objects (put_edit v pg) = Suc (tq_objects pg)" "alive (put_edit v pg) = alive pg" "editor_live (put_edit v pg) = editor_live pg"
  by (simp_all add: put_edit_def alive_def owns_page_def editor_live_def)

lemma numbered_put_edit [simp]: "numbered pg \<Longrightarrow> numbered (put_edit v pg)"
  using numbered_mono[of "tq_objects pg" "te_flights pg" "Suc (tq_objects pg)"] below_mono[of _ "tq_objects pg" "Suc (tq_objects pg)"]
  by (cases v) (simp_all add: numbered_def put_edit_def)

lemma follows_saved_answer:
  assumes "answering z q (Saving s k b)" "owns_instance n q"
  shows "template_follows z q (saved_answered n g s k b result q)"
proof -
  have w: "snd z = SaveOut s b" "te_publication q = None" "tq_review q = None" "k \<le> te_edits q"
    "te_edits q = k \<longrightarrow> still_sent s (tq_edit q)" "fst z = Unfenced"
    using assms(1) by (auto simp: answering_def)
  have e: "template_follows z q (end_write n q)" using follows_end_write[OF assms w(2)] w(1) by simp
  show ?thesis
  proof (cases "saved_answered n g s k b result q = end_write n q")
    case False
    then obtain res x e where c: "as_template result = Some res" "tq_edit q = Some (x, e)" "valid_save s res"
      "tp_id e = tp_id s" "tp_revision e = tp_revision s"
      using assms(2) by (auto simp: saved_answered_def split: option.splits if_splits)
    define q1 where "q1 = logged (SaveAcked res) (onSaved g res (put_edit (reconcileSaved (Some e) s res) q))"
    have eq: "saved_answered n g s k b result q = launch (Resaving res k b) q1"
      using c assms(2) by (simp add: saved_answered_def q1_def)
    have "still_saved res (map_option (Pair (tq_objects q)) (reconcileSaved (Some e) s res))" if "te_edits q = k"
      using w(5) that c(2) reconcile_unedited[of s res] by (simp add: sameFields_def)
    moreover have "pin_before (pinned_edit (tq_action q)) (map_option (Pair (tq_objects q)) (reconcileSaved (Some e) s res))"
      using assms(1) by (cases "reconcileSaved (Some e) s res"; cases "pinned_edit (tq_action q)")
        (simp_all add: answering_def numbered_def)
    moreover have "reviews_linked (Suc (tq_objects q)) None (action_review (tq_action q))"
      using assms(1) w(3) reviews_mono[of "tq_objects q" None "action_review (tq_action q)" "Suc (tq_objects q)"] by (simp add: answering_def)
    ultimately have "template_sim (Unfenced, SaveIn res b) (launch (Resaving res k b) q1)"
      using assms(1) w unfolding answering_def template_sim_def q1_def by simp
    then show ?thesis unfolding eq
      by (intro template_one[of _ _ "SaveAcked res" _ "(Unfenced, SaveIn res b)"])
        (use w(1,6) c(3) in \<open>simp_all add: q1_def\<close>, cases z, simp)
  qed (use e in simp)
qed

lemma follows_resaved_answer:
  assumes "answering z q (Resaving s k b)" "owns_instance n q"
  shows "template_follows z q (resaved_answered n s k b result q)"
proof -
  have w: "snd z = SaveIn s b" "te_publication q = None" "tq_review q = None"
    "te_edits q = k \<longrightarrow> still_saved s (tq_edit q)" "fst z = Unfenced"
    using assms(1) by (auto simp: answering_def)
  have e: "template_follows z q (end_write n q)" using follows_end_write[OF assms w(2)] w(1) by simp
  show ?thesis
  proof (cases "resaved_answered n s k b result q = end_write n q")
    case False
    then have c: "b" "te_edits q = k" "resaved_answered n s k b result q =
        launch (Publishing s k) (logged (PublishSent (tp_id s) (tp_revision s) (map_option snd (tq_edit q))) q)"
      using assms(2) by (auto simp: resaved_answered_def split: sum.splits if_splits)
    then obtain x e where x: "tq_edit q = Some (x, e)" "sameFields e s" "tp_id e = tp_id s" "tp_revision e = tp_revision s"
      using w(4) by (cases "(s, tq_edit q)" rule: still_saved.cases) auto
    have "template_sim (Unfenced, PublishOut s) (resaved_answered n s k b result q)"
      using assms(1) w unfolding answering_def template_sim_def c(3) by simp
    then show ?thesis
      by (intro template_one[of _ _ "PublishSent (tp_id s) (tp_revision s) (map_option snd (tq_edit q))" _ "(Unfenced, PublishOut s)"])
        (unfold c(3), use w(1,5) c(1) x in \<open>simp_all\<close>, cases z, simp)
  qed (use e in simp)
qed


lemma follows_publish_answer:
  assumes "answering z q (Publishing s k)" "owns_instance n q"
  shows "template_follows z q (publish_answered n s k result q)"
proof -
  have w: "snd z = PublishOut s" "te_publication q = None" "tq_review q = None" "fst z = Unfenced"
    using assms(1) by (auto simp: answering_def)
  show ?thesis
  proof (cases result)
    case (Inl e)
    then show ?thesis using follows_end_write[OF assms w(2)] w(1) assms(2) by (simp add: publish_answered_def)
  next
    case (Inr v)
    define p where "p = \<lparr>pb_saved = s, pb_owner = n, pb_edits = k\<rparr>"
    define q1 where "q1 = q\<lparr>te_publication := Some p\<rparr>"
    have own: "owns_instance n q1" using assms(2) by (simp add: q1_def owns_instance_def owns_page_def)
    have eq: "publish_answered n s k result q = launch (PublicationRead p) (logged VersionPublished q1)"
      using Inr assms(2) own by (simp add: publish_answered_def finish_publication_def p_def q1_def Let_def)
    have f: "editor_live q1 = []" "alive q1" "numbered q1" "tq_log q1 = tq_log q" "tq_review q1 = None"
      "tq_action q1 = tq_action q" "tq_objects q1 = tq_objects q" "te_publication q1 = Some p"
      "te_instance q1 = n"
      using assms w(3) by (simp_all add: q1_def answering_def editor_live_def alive_def owns_page_def owns_instance_def numbered_def)
    have "template_sim (Unfenced, PublishIn s) (launch (PublicationRead p) (logged VersionPublished q1))"
      using assms(1) w f unfolding answering_def template_sim_def by (simp add: p_def)
    then show ?thesis unfolding eq
      by (intro template_one[of _ _ VersionPublished _ "(Unfenced, PublishIn s)"]) (use w f in \<open>simp_all\<close>, cases z, simp)
  qed
qed

lemma onPublished_frame [simp]:
  "tq_log (onPublished g v f pg) = tq_log pg" "template_sim z (onPublished g v f pg) = template_sim z pg"
  "tq_edit (onPublished g v f pg) = tq_edit pg" "te_edits (onPublished g v f pg) = te_edits pg"
  "tq_review (onPublished g v f pg) = tq_review pg" "tq_action (onPublished g v f pg) = tq_action pg"
  "owns_instance n (onPublished g v f pg) = owns_instance n pg" "answering z (onPublished g v f pg) a = answering z pg a"
  by (simp_all add: onPublished_def template_frame owns_instance_def answering_def split: option.splits)

lemma publication_stays:
  assumes "template_sim z q" "\<not> owns_instance (pb_owner p) q"
  shows "template_follows z q (publication_read g p result q)"
  using assms by (intro template_quiet) (simp_all add: publication_read_def Let_def split: option.splits)

lemma close_published_cases:
  "close_published p fresh q = q \<or> (\<exists>v. close_published p fresh q = put_edit v q) \<or>
     close_published p fresh q = q\<lparr>tq_edit := None\<rparr>"
  unfolding close_published_def by (auto split: option.splits)

lemma writes_closed:
  assumes "answering z q (PublicationRead p)"
  shows "template_sim (Unfenced, NoWrite) ((close_published p fresh q)\<lparr>te_publication := None, te_vars := [], te_preview := None\<rparr>)"
proof -
  have w: "tq_review q = None" using assms by (auto simp: answering_def)
  have r: "reviews_linked (Suc (tq_objects q)) None (action_review (tq_action q))"
    using assms w reviews_mono[of "tq_objects q" None "action_review (tq_action q)" "Suc (tq_objects q)"] by (simp add: answering_def)
  have c: "tq_review (close_published p fresh q) = None" "tq_action (close_published p fresh q) = tq_action q"
    "alive (close_published p fresh q)" "editor_live (close_published p fresh q) = []"
    "reviews_linked (tq_objects (close_published p fresh q)) None (action_review (tq_action q))"
    "numbered (close_published p fresh q)"
    using assms w r close_published_cases[of p fresh q]
    by (elim disjE exE; simp add: answering_def; simp add: alive_def owns_page_def editor_live_def numbered_def)+
  have l: "editor_live (x\<lparr>te_publication := None, te_vars := [], te_preview := None\<rparr>) = editor_live x"
    "alive (x\<lparr>te_publication := None, te_vars := [], te_preview := None\<rparr>) = alive x"
    "numbered (x\<lparr>te_publication := None, te_vars := [], te_preview := None\<rparr>) = numbered x" for x
    by (simp_all add: editor_live_def alive_def owns_page_def numbered_def)
  show ?thesis using assms c by (simp add: template_sim_def l answering_def)
qed

lemma follows_publication_read:
  assumes "answering z q (PublicationRead p)"
  shows "template_follows z q (publication_read g p result q)"
proof -
  have w: "snd z = PublishIn (pb_saved p)" "tq_review q = None" "fst z = Unfenced" "te_publication q = Some p"
    using assms by (auto simp: answering_def)
  have s: "template_sim z q" using answering_rest[OF assms, of "snd z"] w by (cases z) simp
  show ?thesis
  proof (cases "\<exists>fresh. Option.bind (as_list result) (find (\<lambda>v. tp_id v = tp_id (pb_saved p))) = Some fresh \<and>
      owns_instance (pb_owner p) q \<and> is_safe_integer (Fin (tp_revision fresh)) \<and>
      tp_revision (pb_saved p) < tp_revision fresh \<and> (te_edits q = pb_edits p \<or> sameFields fresh (pb_saved p))")
    case True
    then obtain fresh where f: "Option.bind (as_list result) (find (\<lambda>v. tp_id v = tp_id (pb_saved p))) = Some fresh"
      "owns_instance (pb_owner p) q" "is_safe_integer (Fin (tp_revision fresh))" "tp_revision (pb_saved p) < tp_revision fresh"
      "te_edits q = pb_edits p \<or> sameFields fresh (pb_saved p)" by blast
    define q1 where "q1 = onPublished g (pb_saved p) fresh q"
    have eq: "publication_read g p result q = logged (PublicationReread (tp_revision fresh))
        ((close_published p fresh q1)\<lparr>te_publication := None, te_vars := [], te_preview := None\<rparr>)"
      using f by (auto simp: publication_read_def q1_def Let_def)
    have "template_sim (Unfenced, NoWrite) (publication_read g p result q)"
      using writes_closed[of z q1 p fresh] assms unfolding eq by (simp add: q1_def logged_def)
    moreover have "tq_log (close_published p fresh q1) = tq_log q"
      by (auto simp: close_published_def q1_def split: option.splits)
    ultimately show ?thesis
      by (intro template_one[of _ _ "PublicationReread (tp_revision fresh)" _ "(Unfenced, NoWrite)"])
        (use w f(4) in \<open>simp_all add: eq\<close>, cases z, simp)
  next
    case False
    then have "publication_read g p result q = q \<or>
        (\<exists>fresh. publication_read g p result q = onPublished g (pb_saved p) fresh q)"
      by (cases "Option.bind (as_list result) (find (\<lambda>v. tp_id v = tp_id (pb_saved p)))")
        (auto simp: publication_read_def Let_def)
    then show ?thesis using s by (auto intro: template_quiet)
  qed
qed

text \<open>An answer to a call whose editor is gone changes at most what the page keeps.\<close>

lemma foreign_answer:
  assumes "template_sim z q" "\<not> owns_instance (fl_owner f) q" "\<And>p. fl_action f = PublicationRead p \<Longrightarrow> pb_owner p = fl_owner f"
  shows "template_follows z q (flight_answered f result q)"
proof (cases f)
  case (fields n g a)
  then show ?thesis using assms follows_same[OF assms(1)] publication_stays[OF assms(1)]
    by (cases a) (simp_all add: saved_answered_def resaved_answered_def publish_answered_def preview_answered_def)
qed

lemma follows_flight_answered:
  assumes "answering z q (fl_action f)" "owns_instance (fl_owner f) q"
  shows "template_follows z q (flight_answered f result q)"
proof (cases f)
  case (fields n g a)
  then show ?thesis using assms follows_saved_answer[of z q] follows_resaved_answer[of z q] follows_publish_answer[of z q]
    follows_publication_read[of z q] follows_preview_answer[of z q]
    by (cases a) simp_all
qed


section \<open>Every run\<close>

lemma follows_flight_event:
  assumes "template_sim z pg" "k < length (te_flights pg)"
  shows "template_follows z pg (flight_answered (te_flights pg ! k) result (without_flight k pg))"
proof -
  have "own_publication (fl_action (te_flights pg ! k)) (fl_owner (te_flights pg ! k))"
    using assms by (simp add: template_sim_def numbered_def list_all_length)
  then have p: "fl_action (te_flights pg ! k) = PublicationRead p \<Longrightarrow> pb_owner p = fl_owner (te_flights pg ! k)" for p by simp
  have "template_follows z (without_flight k pg) (flight_answered (te_flights pg ! k) result (without_flight k pg))"
  proof (cases "owns_instance (fl_owner (te_flights pg ! k)) (without_flight k pg)")
    case True
    have "answering z (without_flight k pg) (fl_action (te_flights pg ! k))"
      unfolding answering_def using own_flight[OF assms True] by blast
    then show ?thesis using True by (rule follows_flight_answered)
  next
    case False
    then show ?thesis using foreign_answer[OF foreign_flight[OF assms False] False] p by blast
  qed
  then show ?thesis using template_from[of "without_flight k pg" pg] by simp
qed

lemma follows_template_event:
  assumes "template_sim z pg"
  shows "template_follows z pg (template_event_step pg e)"
proof (cases e)
  case TemplateSessionLeft
  have "template_sim z (pg\<lparr>tq_current := False\<rparr>)"
    by (rule dead_sim[OF assms]) (use assms in \<open>simp_all add: template_sim_def numbered_def alive_def owns_page_def\<close>)
  then show ?thesis using TemplateSessionLeft by (intro template_quiet) simp_all
next
  case TemplatesUnmounted
  have "template_sim z (pg\<lparr>tq_mounted := False\<rparr>)"
    by (rule dead_sim[OF assms]) (use assms in \<open>simp_all add: template_sim_def numbered_def alive_def owns_page_def\<close>)
  then show ?thesis using TemplatesUnmounted by (intro template_quiet) simp_all
next
  case RetryLibrary
  have "tq_log (retry_library pg) = tq_log pg" "tq_action pg \<noteq> None \<Longrightarrow> retry_library pg = pg"
    by (simp_all add: retry_library_def)
  then show ?thesis using RetryLibrary sim_retry[OF assms] assms
    by (cases "tq_action pg") (auto intro: template_quiet)
next
  case (PageAnswered result)
  then show ?thesis using follows_page_answered[OF assms] follows_same[OF assms] by (cases "tq_action pg") simp_all
qed (use follows_same[OF assms] follows_select_tab[OF assms] follows_selections[OF assms] follows_retire[OF assms]
    follows_revoke[OF assms] follows_refresh_revision[OF assms] follows_keep[OF assms] follows_typing[OF assms]
    follows_preview[OF assms] follows_save_template[OF assms] follows_refresh_publication[OF assms]
    follows_flight_event[OF assms] assms in \<open>simp_all add: template_quiet\<close>)

lemma follows_template_step:
  assumes "template_sim z pg"
  shows "template_follows z pg (template_step pg e)"
  using follows_template_event[OF assms] follows_same[OF assms] by (simp add: template_step_def follows_render_editor)

interpretation templates: simulation template_step tq_log template_protocol template_sim
  by unfold_locales (rule follows_template_step)

lemma sim_open_templates: "template_sim (Unfenced, NoWrite) open_templates"
  by (simp add: template_frame open_templates_def)


end
