(* ===== verification/TemplatePreview.thy ===== *)
theory TemplatePreview
  imports TemplateProtocol
begin

text \<open>
  The preview that the template editor shows is the answer of the server to exactly the draft, the
  values and the mailbox that are on the screen, in every run.
\<close>

fun preview_of :: "editor_action \<Rightarrow> (nat \<times> preview_signature) option" where
  "preview_of (Previewing i s) = Some (i, s)"
| "preview_of _ = None"

definition preview_ok :: "template_page \<Rightarrow> bool" where
  "preview_ok pg \<longleftrightarrow>
     (\<forall>f\<in>set (te_flights pg). \<forall>i s. preview_of (fl_action f) = Some (i, s) \<longrightarrow>
        i \<le> te_intent pg \<and> (i = te_intent pg \<longrightarrow> s = te_signature pg)) \<and>
     (\<forall>i v. te_preview pg = Some (i, v) \<longrightarrow> i \<le> te_intent pg \<and>
        (i = te_intent pg \<longrightarrow> Previewed (te_signature pg) v \<in> set (tq_log pg)))"

text \<open>Operations that neither start a preview nor change what it depends on.\<close>

definition keeps_preview :: "template_page \<Rightarrow> template_page \<Rightarrow> bool" where
  "keeps_preview pg pg' \<longleftrightarrow> te_intent pg' = te_intent pg \<and> te_signature pg' = te_signature pg \<and>
     (te_preview pg' = te_preview pg \<or> te_preview pg' = None) \<and> set (tq_log pg) \<subseteq> set (tq_log pg') \<and>
     (\<forall>f\<in>set (te_flights pg'). preview_of (fl_action f) \<noteq> None \<longrightarrow> f \<in> set (te_flights pg))"

lemma keeps_preview_ok:
  assumes k: "keeps_preview pg pg'" and ok: "preview_ok pg"
  shows "preview_ok pg'"
  unfolding preview_ok_def
proof (intro conjI ballI allI impI)
  fix f i s assume f: "f \<in> set (te_flights pg')" "preview_of (fl_action f) = Some (i, s)"
  then have "f \<in> set (te_flights pg)" using k unfolding keeps_preview_def by (metis option.distinct(1))
  then have "i \<le> te_intent pg \<and> (i = te_intent pg \<longrightarrow> s = te_signature pg)"
    using ok f(2) unfolding preview_ok_def by blast
  then show "i \<le> te_intent pg'" and "i = te_intent pg' \<Longrightarrow> s = te_signature pg'"
    using k by (simp_all add: keeps_preview_def)
next
  fix i v assume p: "te_preview pg' = Some (i, v)"
  then have "te_preview pg = Some (i, v)" using k by (auto simp: keeps_preview_def)
  then have i: "i \<le> te_intent pg" "i = te_intent pg \<longrightarrow> Previewed (te_signature pg) v \<in> set (tq_log pg)"
    using ok unfolding preview_ok_def by blast+
  show "i \<le> te_intent pg'" using i(1) k by (simp add: keeps_preview_def)
  show "Previewed (te_signature pg') v \<in> set (tq_log pg')" if "i = te_intent pg'"
    using i(2) k that by (auto simp: keeps_preview_def)
qed

lemma keeps_trans:
  assumes "keeps_preview pg q" "keeps_preview q pg'"
  shows "keeps_preview pg pg'"
  unfolding keeps_preview_def
proof (intro conjI)
  show "te_intent pg' = te_intent pg" "te_signature pg' = te_signature pg" using assms by (simp_all add: keeps_preview_def)
  show "te_preview pg' = te_preview pg \<or> te_preview pg' = None" "set (tq_log pg) \<subseteq> set (tq_log pg')"
    using assms by (auto simp: keeps_preview_def)
  show "\<forall>f\<in>set (te_flights pg'). preview_of (fl_action f) \<noteq> None \<longrightarrow> f \<in> set (te_flights pg)"
    using assms unfolding keeps_preview_def by blast
qed

lemma keeps_refl [simp]: "keeps_preview pg pg"
  by (simp add: keeps_preview_def)

named_theorems kept

lemma kept_basic [kept]:
  "keeps_preview pg (logged x pg)" "keeps_preview pg (put_edit v pg)"
  "preview_of a = None \<Longrightarrow> keeps_preview pg (launch a pg)" "keeps_preview pg (library_read rows pg)"
  "keeps_preview pg (close_retired r pg)" "keeps_preview pg (revision_failed rv e pg)"
  "keeps_preview pg (adopt_revision t f pg)" "keeps_preview pg (onSaved g t pg)" "keeps_preview pg (onPublished g t f pg)"
  "keeps_preview pg (end_write n pg)"
  by (auto simp: keeps_preview_def logged_def put_edit_def launch_def library_read_def close_retired_def revision_failed_def
    adopt_revision_def onSaved_def onPublished_def end_write_def split: option.splits)

lemma kept_updates [kept]:
  "keeps_preview pg (pg\<lparr>tq_action := a\<rparr>)" "keeps_preview pg (pg\<lparr>tq_review := r\<rparr>)"
  "keeps_preview pg (pg\<lparr>tq_recovery := t\<rparr>)" "keeps_preview pg (pg\<lparr>tq_checking := b\<rparr>)"
  "keeps_preview pg (pg\<lparr>tq_edit := x\<rparr>)" "keeps_preview pg (pg\<lparr>te_publication := p\<rparr>)"
  by (simp_all add: keeps_preview_def)

lemma kept_page [kept]:
  "keeps_preview pg (retireTemplate n pg)" "keeps_preview pg (retry_library pg)" "keeps_preview pg (revokeVersion v pg)"
  "keeps_preview pg (refresh_revision pg)" "keeps_preview pg (keepReviewedEdits pg)"
  "keeps_preview pg (retirement_answered r res pg)" "keeps_preview pg (retry_answered res pg)"
  "keeps_preview pg (revocation_answered rv g res pg)" "keeps_preview pg (revision_read rv g res pg)"
  "keeps_preview pg (merge_revision rv f pg)"
  by (auto simp: keeps_preview_def logged_def put_edit_def library_read_def retireTemplate_def retry_library_def
    revokeVersion_def refresh_revision_def keepReviewedEdits_def adopt_revision_def retirement_answered_def
    retry_answered_def revocation_answered_def revision_read_def revision_failed_def merge_revision_def Let_def
    split: option.splits sum.splits)

lemma keeps_put: "keeps_preview pg q \<Longrightarrow> keeps_preview pg (q\<lparr>tq_version_key := k\<rparr>)"
  "keeps_preview pg q \<Longrightarrow> keeps_preview pg (q\<lparr>te_publication := None, te_vars := [], te_preview := None\<rparr>)"
  "keeps_preview pg q \<Longrightarrow> keeps_preview pg (q\<lparr>te_edits := m\<rparr>)"
  "keeps_preview pg q \<Longrightarrow> keeps_preview pg (q\<lparr>te_edits := m, te_preview := None\<rparr>)"
  by (simp_all add: keeps_preview_def)

lemma kept_answers [kept]:
  "keeps_preview pg (page_answered a res pg)"
proof -
  have "keeps_preview pg (retire_library_read r result pg)" for r result
  proof (cases "as_list result")
    case (Some rows)
    have "keeps_preview pg (close_retired r (library_read rows pg))" by (rule keeps_trans) (rule kept_basic)+
    then show ?thesis using Some by (simp add: retire_library_read_def)
  qed (simp add: retire_library_read_def keeps_preview_def)
  moreover have "keeps_preview pg (list_published rv g f res pg)" for rv g f
    using kept_basic(6) keeps_put(1)[OF kept_page(10)] by (auto simp: list_published_def split: sum.splits)
  ultimately show ?thesis using kept_page by (cases a) simp_all
qed

lemma kept_editor [kept]:
  "keeps_preview pg (type_name s pg)" "keeps_preview pg (update_draft c pg)" "keeps_preview pg (choose_mailbox i pg)"
  "keeps_preview pg (type_preview_value nm v pg)" "keeps_preview pg (save_template b pg)"
  "keeps_preview pg (finish_publication p pg)" "keeps_preview pg (refresh_publication pg)"
  "keeps_preview pg (resaved_answered n t k b res pg)"
  by (auto simp: keeps_preview_def type_name_def update_draft_def choose_mailbox_def type_preview_value_def save_template_def
    finish_publication_def refresh_publication_def resaved_answered_def end_write_def launch_def logged_def put_edit_def
    split: option.splits sum.splits)

lemma kept_saved [kept]: "keeps_preview pg (saved_answered n g s k b res pg)"
proof -
  have "keeps_preview pg (launch (Resaving r k b) (logged x (onSaved g r (put_edit v pg))))" for r x v
    by (rule keeps_trans[OF keeps_trans[OF keeps_trans[OF kept_basic(2) kept_basic(8)] kept_basic(1)] kept_basic(3)]) simp
  then show ?thesis using kept_basic(10) by (auto simp: saved_answered_def split: option.splits)
qed

lemma kept_published [kept]: "keeps_preview pg (publish_answered n s k res pg)"
proof -
  have "keeps_preview pg (finish_publication p (logged VersionPublished (pg\<lparr>te_publication := Some p\<rparr>)))" for p
    by (rule keeps_trans[OF keeps_trans[OF kept_updates(6) kept_basic(1)] kept_editor(6)])
  then show ?thesis using kept_basic(10) by (auto simp: publish_answered_def Let_def split: sum.splits)
qed

lemma kept_publication [kept]: "keeps_preview pg (publication_read g p res pg)"
proof -
  have c: "keeps_preview pg (close_published p f pg)" for f pg
    using close_published_cases[of p f pg] by (elim disjE exE) (simp_all add: kept_basic kept_updates)
  have "keeps_preview pg (logged x ((close_published p f (onPublished g t f pg))
      \<lparr>te_publication := None, te_vars := [], te_preview := None\<rparr>))" for x f t
    by (rule keeps_trans[OF keeps_put(2)[OF keeps_trans[OF kept_basic(9) c]] kept_basic(1)])
  then show ?thesis using kept_basic(9) by (auto simp: publication_read_def Let_def split: option.splits)
qed


lemma mounted_preview [simp]: "preview_ok pg \<Longrightarrow> preview_ok (mount_editor pg)"
  unfolding preview_ok_def mount_editor_def logged_def by (auto dest: le_imp_less_Suc)

lemma rendered_preview: "preview_ok pg \<Longrightarrow> preview_ok (render_editor pg)"
  unfolding preview_ok_def render_editor_def Let_def by (auto dest: le_imp_less_Suc)

lemma replaced_preview: "preview_ok pg \<Longrightarrow> preview_ok (replaceEdit v pg)"
  "preview_ok pg \<Longrightarrow> preview_ok ((replaceEdit v pg)\<lparr>tq_mailbox := i\<rparr>)"
  by (rule keeps_preview_ok[of pg]; auto simp: keeps_preview_def replaceEdit_def logged_def put_edit_def)+

lemma launched_preview: "preview_ok pg \<Longrightarrow> preview_ok (renderPreview pg)"
  unfolding preview_ok_def renderPreview_def launch_def by auto

lemma preview_answered_ok:
  assumes "preview_ok pg" "f \<in> set (te_flights pg)" "preview_of (fl_action f) = Some (i, s)"
    and "keeps_preview pg q"
  shows "preview_ok (preview_answered n i s result q)"
proof (cases "preview_answered n i s result q = q")
  case False
  then obtain v where v: "te_intent q = i" "preview_answered n i s result q = logged (Previewed s v) (q\<lparr>te_preview := Some (i, v)\<rparr>)"
    by (auto simp: preview_answered_def split: option.splits if_splits)
  have "i = te_intent pg" "te_signature q = te_signature pg" using assms(4) v(1) by (simp_all add: keeps_preview_def)
  then have "te_signature q = s" using assms(1-3) unfolding preview_ok_def by metis
  then show ?thesis using keeps_preview_ok[OF assms(4,1)] v by (auto simp: preview_ok_def logged_def)
qed (use keeps_preview_ok[OF assms(4,1)] in simp)

lemma flight_preview:
  assumes "preview_ok pg" "k < length (te_flights pg)"
  shows "preview_ok (flight_answered (te_flights pg ! k) result (without_flight k pg))"
proof -
  have q: "keeps_preview pg (without_flight k pg)"
    by (auto simp: keeps_preview_def remove_nth_def dest: in_set_takeD in_set_dropD)
  show ?thesis
  proof (cases "te_flights pg ! k")
    case (fields n g a)
    show ?thesis
    proof (cases "preview_of a")
      case None
      have "keeps_preview (without_flight k pg) (flight_answered (te_flights pg ! k) result (without_flight k pg))"
        using None kept by (cases a) (simp_all add: fields)
      then show ?thesis using keeps_preview_ok[OF keeps_trans[OF q] assms(1)] by blast
    next
      case (Some x)
      then obtain i s where "a = Previewing i s" by (cases a) simp_all
      then show ?thesis using preview_answered_ok[OF assms(1) nth_mem[OF assms(2)] _ q] by (simp add: fields)
    qed
  qed
qed

lemma event_preview:
  assumes "preview_ok pg"
  shows "preview_ok (template_event_step pg e)"
proof -
  note k = keeps_preview_ok[OF _ assms]
  have u: "preview_ok (pg\<lparr>tq_current := False\<rparr>)" "preview_ok (pg\<lparr>tq_mounted := False\<rparr>)"
    "preview_ok (pg\<lparr>tq_library := l\<rparr>)" "preview_ok (pg\<lparr>tq_boxes := bs\<rparr>)" "preview_ok (pg\<lparr>tq_tab := tab\<rparr>)" for l bs tab
    by (rule k; simp add: keeps_preview_def)+
  show ?thesis
  proof (cases e)
    case (PageAnswered result)
    show ?thesis
    proof (cases "tq_action pg")
      case (Some a)
      then show ?thesis using PageAnswered k[OF keeps_trans[OF kept_updates(1) kept_answers]] by simp
    qed (use PageAnswered assms in simp)
  next
    case (SelectTemplate n)
    then show ?thesis using assms replaced_preview(1) by (auto simp: selectTemplate_def split: option.splits)
  next
    case NewTemplate
    then show ?thesis using assms replaced_preview(2) by (auto simp: newTemplate_def)
  next
    case (TabChosen tab)
    then show ?thesis using TabChosen assms u by (simp add: select_tab_def)
  next
    case PreviewClicked
    then show ?thesis using launched_preview[OF assms] by simp
  next
    case (FlightAnswered i result)
    then show ?thesis using assms flight_preview[OF assms] by simp
  qed (use assms k[OF kept_page(1)] k[OF kept_page(2)] k[OF kept_page(3)] k[OF kept_page(4)] k[OF kept_page(5)]
      k[OF kept_editor(1)] k[OF kept_editor(2)] k[OF kept_editor(3)] k[OF kept_editor(4)] k[OF kept_editor(5)]
      k[OF kept_editor(7)] u in \<open>simp_all\<close>)
qed

lemma run_preview:
  "preview_ok (template_run open_templates events) \<and>
     (tq_tab (template_run open_templates events) = EditorTab \<longrightarrow>
        te_signature (template_run open_templates events) = signature_of (template_run open_templates events))"
proof (induction events rule: rev_induct)
  case (snoc e events)
  have "te_signature (render_editor q) = signature_of (render_editor q)" if "tq_tab (render_editor q) = EditorTab" for q
    using that by (auto simp: render_editor_def signature_of_def selectedMailbox_def activeMailbox_def Let_def)
  then show ?case using snoc event_preview rendered_preview by (simp add: template_step_def)
qed (simp add: preview_ok_def open_templates_def)

text \<open>
  C9: whatever is typed, chosen, saved or refreshed while previews are computed, a preview on the
  screen is the server's rendering of exactly the draft, the declared values and the sender that the
  editor shows with it, and was requested for them.
\<close>

theorem preview_shows_current:
  "case shown_preview (template_run open_templates events) of
     Some v \<Rightarrow> Previewed (signature_of (template_run open_templates events)) v \<in> set (tq_log (template_run open_templates events))
   | None \<Rightarrow> True"
  using run_preview[of events] unfolding preview_ok_def shown_preview_def
  by (auto split: option.splits)


section \<open>Two runs\<close>

definition sample_template :: "string \<Rightarrow> rat \<Rightarrow> template" where
  "sample_template s n = \<lparr>tp_id = Some ''t'', tp_name = ''Welcome'',
     tp_draft = \<lparr>td_subject = s, td_text_body = [], td_html_body = [], td_variables = []\<rparr>,
     tp_revision = n, tp_retired = False, tp_updated_at = None, tp_shaped = True\<rparr>"

definition publishing_events :: "template_event list" where
  "publishing_events = [
     LibraryState \<lparr>lb_data = Some [sample_template ''a'' 3], lb_error = None, lb_loading = False, lb_validating = False\<rparr>,
     SelectTemplate 0, DraftChanged (TypeSubject ''b''), SaveClicked True,
     FlightAnswered 0 (Inr (TemplateBody (sample_template ''b'' 4))), FlightAnswered 0 (Inr OtherBody),
     FlightAnswered 0 (Inr OtherBody)]"

text \<open>A template is edited, saved, published and read again.\<close>

lemma sample_publication:
  "tq_log (template_run open_templates (publishing_events @ [FlightAnswered 0 (Inr (TemplateList (Some [sample_template ''b'' 5])))])) =
     [Selected, OpenedEditor, SaveSent (sample_template ''b'' 3) True, SaveAcked (sample_template ''b'' 4),
      PublishSent (Some ''t'') 4 (Some (sample_template ''b'' 4)), VersionPublished, PublicationReread 5]"
  by code_simp

text \<open>
  Leaving the editor's tab while the published revision is being read forgets the publication: the
  editor is mounted again over the outdated revision and offers to save it.
\<close>

lemma publication_forgotten:
  "tq_log (template_run open_templates (publishing_events @ [TabChosen LibraryTab, TabChosen EditorTab, SaveClicked False])) =
     [Selected, OpenedEditor, SaveSent (sample_template ''b'' 3) True, SaveAcked (sample_template ''b'' 4),
      PublishSent (Some ''t'') 4 (Some (sample_template ''b'' 4)), VersionPublished, OpenedEditor,
      SaveSent (sample_template ''b'' 4) False]"
  by code_simp

end
