(* ===== verification/Offboarding.thy ===== *)
theory Offboarding
  imports CompanyApi ErrorCode Simulation
begin

text \<open>
  The offboarding panel of \<^verbatim>\<open>web/features/company/offboarding-panel.tsx\<close>: an administrator previews
  what disabling an account and handing its mailboxes over would do, and executes exactly that plan.
  Any committed change of the selection, of the administrator's authority or of the directory retires
  the preview and every answer that is still on its way.
\<close>

section \<open>State\<close>

text \<open>The fields of an employee and of the signed-in user that the panel reads.\<close>

record employee =
  em_id :: string
  em_tenant_id :: string
  em_role :: string
  em_is_active :: bool

record offboarding_plan =
  of_id :: string
  of_target_id :: string
  of_drafts :: draft_disposal
  of_executed :: bool

text \<open>What the signature of a selection is built from.\<close>

record selection =
  sl_scope :: nat
  sl_user :: "(string \<times> string \<times> string) option"
  sl_tenant :: "string option"
  sl_target :: string
  sl_successor :: string
  sl_disposition :: draft_disposal
  sl_reason :: string
  sl_valid :: bool

datatype offboarding_action = Inspecting nat nat | Executing nat nat offboarding_plan | Refreshing nat

datatype offboarding_entry = NewIntent selection bool
  | PreviewSent string string draft_disposal string | PlanRead offboarding_plan | PlanDropped
  | ExecuteSent string string | ExecuteAnswered offboarding_plan | ExecuteFailed

text \<open>
  \<^verbatim>\<open>fp_selection\<close> and \<^verbatim>\<open>fp_intent\<close> carry the identities of the two state objects; the store's
  scope may be ahead of the rendered one. \<^verbatim>\<open>fp_log\<close> is a ghost history.
\<close>

record panel =
  fp_store_scope :: nat
  fp_scope :: nat
  fp_mounted :: bool
  fp_employees :: "employee list"
  fp_ready :: bool
  fp_user :: "employee option"
  fp_tenant :: "string option"
  fp_target :: string
  fp_successor :: string
  fp_reason :: string
  fp_disposition :: draft_disposal
  fp_inspection :: "(nat \<times> nat \<times> offboarding_plan) option"
  fp_conflict :: bool
  fp_selection :: "nat \<times> selection"
  fp_intent :: "nat \<times> nat \<times> bool"
  fp_action :: "offboarding_action option"
  fp_log :: "offboarding_entry list"

definition recorded :: "offboarding_entry \<Rightarrow> panel \<Rightarrow> panel" where
  "recorded x pg = pg\<lparr>fp_log := fp_log pg @ [x]\<rparr>"

fun or_else :: "'a option \<Rightarrow> 'a option \<Rightarrow> 'a option" where
  "or_else (Some x) y = Some x"
| "or_else None y = y"

definition selectedTenant :: "panel \<Rightarrow> string option" where
  "selectedTenant pg = or_else (fp_tenant pg) (map_option em_tenant_id (fp_user pg))"

fun managed_by :: "employee option \<Rightarrow> string option \<Rightarrow> employee list \<Rightarrow> employee list" where
  "managed_by None tenant employees = []"
| "managed_by (Some user) tenant employees = filter (\<lambda>u. Some (em_tenant_id u) = tenant \<and>
     (em_role user = ''super_admin'' \<or> tenant = Some (em_tenant_id user)) \<and>
     em_id u \<noteq> em_id user \<and>
     (em_role user = ''super_admin'' \<or> (em_role user = ''admin'' \<and> em_role u = ''user''))) employees"

definition manageable :: "panel \<Rightarrow> employee list" where
  "manageable pg = managed_by (fp_user pg) (selectedTenant pg) (fp_employees pg)"

definition successors :: "panel \<Rightarrow> employee list" where
  "successors pg = filter (\<lambda>u. em_is_active u \<and> em_id u \<noteq> fp_target pg) (manageable pg)"

definition validSelection :: "panel \<Rightarrow> bool" where
  "validSelection pg = (list_ex (\<lambda>u. em_id u = fp_target pg) (manageable pg) \<and>
     list_ex (\<lambda>u. em_id u = fp_successor pg) (successors pg))"

definition signature :: "panel \<Rightarrow> selection" where
  "signature pg = \<lparr>sl_scope = fp_scope pg,
     sl_user = map_option (\<lambda>u. (em_id u, em_role u, em_tenant_id u)) (fp_user pg),
     sl_tenant = selectedTenant pg, sl_target = fp_target pg, sl_successor = fp_successor pg,
     sl_disposition = fp_disposition pg, sl_reason = fp_reason pg, sl_valid = validSelection pg\<rparr>"

text \<open>A render starts a new selection, and a new intent, when what they are made of has changed.\<close>

definition render_selection :: "panel \<Rightarrow> panel" where
  "render_selection pg =
     (if snd (fp_selection pg) = signature pg then pg
      else pg\<lparr>fp_selection := (Suc (fst (fp_selection pg)), signature pg)\<rparr>)"

definition render_intent :: "panel \<Rightarrow> panel" where
  "render_intent pg =
     (if snd (fp_intent pg) = (fst (fp_selection pg), fp_ready pg) then pg
      else recorded (NewIntent (snd (fp_selection pg)) (fp_ready pg))
        (pg\<lparr>fp_intent := (Suc (fst (fp_intent pg)), fst (fp_selection pg), fp_ready pg)\<rparr>))"

definition render_panel :: "panel \<Rightarrow> panel" where
  "render_panel pg = render_intent (render_selection pg)"

definition blank_selection :: selection where
  "blank_selection = \<lparr>sl_scope = 0, sl_user = None, sl_tenant = None, sl_target = [], sl_successor = [],
     sl_disposition = SealDrafts, sl_reason = [], sl_valid = False\<rparr>"

definition open_panel :: "nat \<Rightarrow> employee list \<Rightarrow> bool \<Rightarrow> employee option \<Rightarrow> string option \<Rightarrow> panel" where
  "open_panel scope employees ready user tenant =
     (let pg = \<lparr>fp_store_scope = scope, fp_scope = scope, fp_mounted = True, fp_employees = employees, fp_ready = ready,
            fp_user = user, fp_tenant = tenant, fp_target = [], fp_successor = [], fp_reason = [], fp_disposition = SealDrafts,
            fp_inspection = None, fp_conflict = False, fp_selection = (0, blank_selection), fp_intent = (0, 0, ready),
            fp_action = None, fp_log = []\<rparr>
      in pg\<lparr>fp_selection := (0, signature pg)\<rparr>)"

definition shown_plan :: "panel \<Rightarrow> offboarding_plan option" where
  "shown_plan pg =
     (case fp_inspection pg of
        None \<Rightarrow> None
      | Some (owner, sel, v) \<Rightarrow>
          if of_executed v then (if sel = fst (fp_selection pg) then Some v else None)
          else if fp_ready pg \<and> owner = fst (fp_intent pg) then Some v else None)"

definition owns_intent :: "nat \<Rightarrow> panel \<Rightarrow> bool" where
  "owns_intent owner pg = (fp_mounted pg \<and> fst (fp_intent pg) = owner \<and> fp_scope pg = fp_store_scope pg)"

section \<open>Operations\<close>

definition previewPlan :: "panel \<Rightarrow> panel" where
  "previewPlan pg =
     (if fp_action pg = None \<and> shown_plan pg = None \<and> fp_ready pg \<and> owns_intent (fst (fp_intent pg)) pg \<and>
         validSelection pg \<and> 8 \<le> length (js_trim (fp_reason pg))
      then recorded (PreviewSent (fp_target pg) (fp_successor pg) (fp_disposition pg) (fp_reason pg))
        (pg\<lparr>fp_action := Some (Inspecting (fst (fp_intent pg)) (fst (fp_selection pg)))\<rparr>)
      else pg)"

definition executePlan :: "bool \<Rightarrow> panel \<Rightarrow> panel" where
  "executePlan confirmed pg =
     (case shown_plan pg of
        None \<Rightarrow> pg
      | Some plan \<Rightarrow>
          if fp_action pg = None \<and> fp_ready pg \<and> \<not> of_executed plan \<and> validSelection pg \<and>
             owns_intent (fst (fp_intent pg)) pg \<and> confirmed
          then recorded (ExecuteSent (of_target_id plan) (of_id plan))
            (pg\<lparr>fp_action := Some (Executing (fst (fp_intent pg)) (fst (fp_selection pg)) plan)\<rparr>)
          else pg)"

definition revise :: "panel \<Rightarrow> panel" where
  "revise pg =
     (case shown_plan pg of
        None \<Rightarrow> pg
      | Some plan \<Rightarrow>
          if fp_action pg = None \<and> \<not> of_executed plan then recorded PlanDropped (pg\<lparr>fp_inspection := None\<rparr>) else pg)"

definition previewed :: "nat \<Rightarrow> nat \<Rightarrow> exn + offboarding_plan \<Rightarrow> panel \<Rightarrow> panel" where
  "previewed owner sel result pg =
     (if \<not> owns_intent owner pg then pg
      else case result of
        Inl e \<Rightarrow> pg
      | Inr v \<Rightarrow> recorded (PlanRead v) (pg\<lparr>fp_inspection := Some (owner, sel, v), fp_conflict := False\<rparr>))"

definition executed :: "nat \<Rightarrow> nat \<Rightarrow> exn + offboarding_plan \<Rightarrow> panel \<Rightarrow> panel" where
  "executed owner sel result pg =
     (if \<not> owns_intent owner pg then pg
      else case result of
        Inr v \<Rightarrow> recorded (ExecuteAnswered v)
          (pg\<lparr>fp_inspection := Some (owner, sel, v), fp_action := Some (Refreshing owner)\<rparr>)
      | Inl e \<Rightarrow> if isConflict e then recorded PlanDropped (pg\<lparr>fp_inspection := None, fp_conflict := True\<rparr>)
                 else recorded ExecuteFailed pg)"

text \<open>The refresh that follows an execution is inside the same \<^verbatim>\<open>try\<close>.\<close>

definition refreshed :: "nat \<Rightarrow> exn + offboarding_plan \<Rightarrow> panel \<Rightarrow> panel" where
  "refreshed owner result pg =
     (case result of
        Inl e \<Rightarrow> if owns_intent owner pg \<and> isConflict e
                 then recorded PlanDropped (pg\<lparr>fp_inspection := None, fp_conflict := True\<rparr>) else pg
      | Inr _ \<Rightarrow> pg)"

fun offboarding_answered :: "offboarding_action \<Rightarrow> exn + offboarding_plan \<Rightarrow> panel \<Rightarrow> panel" where
  "offboarding_answered (Inspecting owner sel) result pg = previewed owner sel result pg"
| "offboarding_answered (Executing owner sel plan) result pg = executed owner sel result pg"
| "offboarding_answered (Refreshing owner) result pg = refreshed owner result pg"

datatype panel_event = StoreMoved | AuthRendered "employee option" "string option" | Directory "employee list" bool
  | PanelUnmounted | TargetChosen string | SuccessorChosen string | ReasonTyped string | DispositionChosen draft_disposal
  | PreviewPlan | ExecutePlan bool | Revise | PanelAnswered "exn + offboarding_plan"

text \<open>The form is shown while there is no plan. The scope of the session never comes back to an earlier one.\<close>

fun panel_event_step :: "panel \<Rightarrow> panel_event \<Rightarrow> panel" where
  "panel_event_step pg StoreMoved = pg\<lparr>fp_store_scope := Suc (fp_store_scope pg)\<rparr>"
| "panel_event_step pg (AuthRendered user tenant) =
     pg\<lparr>fp_scope := fp_store_scope pg, fp_user := user, fp_tenant := tenant\<rparr>"
| "panel_event_step pg (Directory employees ready) = pg\<lparr>fp_employees := employees, fp_ready := ready\<rparr>"
| "panel_event_step pg PanelUnmounted = pg\<lparr>fp_mounted := False\<rparr>"
| "panel_event_step pg (TargetChosen i) = (if shown_plan pg = None \<and> fp_ready pg then pg\<lparr>fp_target := i\<rparr> else pg)"
| "panel_event_step pg (SuccessorChosen i) = (if shown_plan pg = None \<and> fp_ready pg then pg\<lparr>fp_successor := i\<rparr> else pg)"
| "panel_event_step pg (ReasonTyped s) = (if shown_plan pg = None then pg\<lparr>fp_reason := s\<rparr> else pg)"
| "panel_event_step pg (DispositionChosen d) = (if shown_plan pg = None then pg\<lparr>fp_disposition := d\<rparr> else pg)"
| "panel_event_step pg PreviewPlan = previewPlan pg"
| "panel_event_step pg (ExecutePlan confirmed) = executePlan confirmed pg"
| "panel_event_step pg Revise = revise pg"
| "panel_event_step pg (PanelAnswered result) =
     (case fp_action pg of Some a \<Rightarrow> offboarding_answered a result (pg\<lparr>fp_action := None\<rparr>) | None \<Rightarrow> pg)"

definition panel_step :: "panel \<Rightarrow> panel_event \<Rightarrow> panel" where
  "panel_step pg e = (if fp_mounted pg then render_panel (panel_event_step pg e) else pg)"

abbreviation panel_run :: "panel \<Rightarrow> panel_event list \<Rightarrow> panel" where
  "panel_run \<equiv> foldl panel_step"

section \<open>The protocol\<close>

datatype stage = NoPlan | Asked | Planned offboarding_plan | Running offboarding_plan

text \<open>The state is the committed selection, whether the directory is ready, and the stage of its plan.\<close>

fun offboarding_protocol :: "selection \<times> bool \<times> stage \<Rightarrow> offboarding_entry \<Rightarrow> (selection \<times> bool \<times> stage) option" where
  "offboarding_protocol (sel, ready, st) (NewIntent sel' ready') = Some (sel', ready', NoPlan)"
| "offboarding_protocol (sel, ready, st) (PreviewSent target successor disposition reason) =
     (if ready \<and> sl_valid sel \<and> target = sl_target sel \<and> successor = sl_successor sel \<and>
         disposition = sl_disposition sel \<and> reason = sl_reason sel \<and> 8 \<le> length (js_trim reason)
      then Some (sel, ready, Asked) else None)"
| "offboarding_protocol (sel, ready, st) (PlanRead p) = (if st = Asked then Some (sel, ready, Planned p) else None)"
| "offboarding_protocol (sel, ready, st) PlanDropped = Some (sel, ready, NoPlan)"
| "offboarding_protocol (sel, ready, st) (ExecuteSent target plan) =
     (case st of
        Planned p \<Rightarrow> if ready \<and> sl_valid sel \<and> \<not> of_executed p \<and> target = of_target_id p \<and> plan = of_id p
                     then Some (sel, ready, Running p) else None
      | _ \<Rightarrow> None)"
| "offboarding_protocol (sel, ready, st) (ExecuteAnswered p) =
     (case st of Running q \<Rightarrow> Some (sel, ready, Planned p) | _ \<Rightarrow> None)"
| "offboarding_protocol (sel, ready, st) ExecuteFailed =
     (case st of Running q \<Rightarrow> Some (sel, ready, Planned q) | _ \<Rightarrow> None)"


section \<open>The simulation\<close>

fun plan_under :: "nat \<Rightarrow> (nat \<times> nat \<times> offboarding_plan) option \<Rightarrow> offboarding_plan option" where
  "plan_under i (Some (owner, sel, v)) = (if \<not> of_executed v \<and> owner = i then Some v else None)"
| "plan_under i None = None"

definition live_plan :: "panel \<Rightarrow> offboarding_plan option" where
  "live_plan pg = plan_under (fst (fp_intent pg)) (fp_inspection pg)"

fun resting :: "stage \<Rightarrow> offboarding_plan option \<Rightarrow> bool" where
  "resting st None \<longleftrightarrow> True"
| "resting st (Some p) \<longleftrightarrow> st = Planned p"

fun stage_ok :: "stage \<Rightarrow> nat \<Rightarrow> offboarding_plan option \<Rightarrow> offboarding_action option \<Rightarrow> bool" where
  "stage_ok st i plan (Some (Inspecting n s)) \<longleftrightarrow> (if n = i then st = Asked \<and> plan = None else resting st plan)"
| "stage_ok st i plan (Some (Executing n s p)) \<longleftrightarrow> (if n = i then st = Running p \<and> plan = Some p else resting st plan)"
| "stage_ok st i plan _ \<longleftrightarrow> resting st plan"

fun begun_by :: "nat \<Rightarrow> offboarding_action option \<Rightarrow> bool" where
  "begun_by i (Some (Inspecting n s)) \<longleftrightarrow> n \<le> i"
| "begun_by i (Some (Executing n s p)) \<longleftrightarrow> n \<le> i"
| "begun_by i _ \<longleftrightarrow> True"

fun inspected_by :: "nat \<Rightarrow> (nat \<times> nat \<times> offboarding_plan) option \<Rightarrow> bool" where
  "inspected_by i (Some (n, s, v)) \<longleftrightarrow> n \<le> i"
| "inspected_by i None \<longleftrightarrow> True"

definition panel_rel :: "selection \<times> bool \<times> stage \<Rightarrow> panel \<Rightarrow> bool" where
  "panel_rel z pg \<longleftrightarrow> fst z = snd (fp_selection pg) \<and> fst (snd z) = snd (snd (fp_intent pg)) \<and>
     fst (snd (fp_intent pg)) = fst (fp_selection pg) \<and> inspected_by (fst (fp_intent pg)) (fp_inspection pg) \<and>
     begun_by (fst (fp_intent pg)) (fp_action pg) \<and>
     sl_scope (snd (fp_selection pg)) \<le> fp_scope pg \<and> fp_scope pg \<le> fp_store_scope pg \<and>
     (sl_scope (snd (fp_selection pg)) = fp_store_scope pg \<longrightarrow>
        stage_ok (snd (snd z)) (fst (fp_intent pg)) (live_plan pg) (fp_action pg))"

definition panel_rendered :: "panel \<Rightarrow> bool" where
  "panel_rendered pg \<longleftrightarrow> snd (fp_selection pg) = signature pg \<and> snd (snd (fp_intent pg)) = fp_ready pg"

definition panel_sim :: "selection \<times> bool \<times> stage \<Rightarrow> panel \<Rightarrow> bool" where
  "panel_sim z pg \<longleftrightarrow> panel_rel z pg \<and> panel_rendered pg"



text \<open>A new intent makes the plan and the pending call those of an older one.\<close>

lemma fresh_intent:
  assumes "panel_rel z pg" "sl_scope (snd sel) \<le> fp_scope pg"
  shows "panel_rel (snd sel, r, NoPlan)
    (recorded x (pg\<lparr>fp_selection := sel, fp_intent := (Suc (fst (fp_intent pg)), fst sel, r)\<rparr>))"
proof -
  let ?q = "recorded x (pg\<lparr>fp_selection := sel, fp_intent := (Suc (fst (fp_intent pg)), fst sel, r)\<rparr>)"
  have "live_plan ?q = None"
    using assms by (cases "(fst (fp_intent pg), fp_inspection pg)" rule: inspected_by.cases)
      (auto simp: live_plan_def recorded_def panel_rel_def)
  moreover have "inspected_by (Suc (fst (fp_intent pg))) (fp_inspection pg)"
    using assms by (cases "(fst (fp_intent pg), fp_inspection pg)" rule: inspected_by.cases) (auto simp: panel_rel_def)
  moreover have "stage_ok NoPlan (Suc (fst (fp_intent pg))) None (fp_action pg)" "begun_by (Suc (fst (fp_intent pg))) (fp_action pg)"
    using assms by (cases "(fst (fp_intent pg), fp_action pg)" rule: begun_by.cases; simp add: panel_rel_def)+
  ultimately show ?thesis using assms by (simp add: panel_rel_def) (simp add: recorded_def)
qed

lemma traced_render:
  assumes "panel_rel z pg"
  shows "traced fp_log offboarding_protocol panel_sim z pg (render_panel pg)"
proof (cases "snd (fp_selection pg) = signature pg \<and> snd (snd (fp_intent pg)) = fp_ready pg")
  case True
  then have "render_panel pg = pg" using assms
    by (cases "fp_intent pg") (simp add: render_panel_def render_selection_def render_intent_def panel_rel_def)
  then show ?thesis using assms True by (intro traced_quiet) (simp_all add: panel_sim_def panel_rendered_def)
next
  case False
  define sel where "sel = (if snd (fp_selection pg) = signature pg then fp_selection pg
    else (Suc (fst (fp_selection pg)), signature pg))"
  have s: "snd sel = signature pg" "render_selection pg = pg\<lparr>fp_selection := sel\<rparr>" "sl_scope (snd sel) \<le> fp_scope pg"
    by (simp_all add: sel_def render_selection_def) (simp add: signature_def)
  have "snd (fp_intent pg) \<noteq> (fst sel, fp_ready pg)"
    using False assms by (cases "fp_intent pg") (auto simp: sel_def panel_rel_def)
  then have r: "render_panel pg = recorded (NewIntent (snd sel) (fp_ready pg))
      (pg\<lparr>fp_selection := sel, fp_intent := (Suc (fst (fp_intent pg)), fst sel, fp_ready pg)\<rparr>)"
    by (simp add: render_panel_def s(2) render_intent_def)
  have "signature (render_panel pg) = signature pg" unfolding r
    by (simp add: recorded_def signature_def selectedTenant_def validSelection_def manageable_def successors_def)
  then have "panel_rendered (render_panel pg)" using s(1) unfolding r by (simp add: panel_rendered_def recorded_def)
  then have "panel_sim (snd sel, fp_ready pg, NoPlan) (render_panel pg)"
    using fresh_intent[OF assms s(3), of "fp_ready pg" "NewIntent (snd sel) (fp_ready pg)"] unfolding r by (simp add: panel_sim_def)
  then show ?thesis
    by (intro traced_one[where x = "NewIntent (snd sel) (fp_ready pg)" and z' = "(snd sel, fp_ready pg, NoPlan)"])
      (simp_all add: r recorded_def, cases z, simp)
qed

lemma rel_frame:
  assumes "panel_rel z pg" "fp_selection q = fp_selection pg" "fp_intent q = fp_intent pg"
    and "fp_inspection q = fp_inspection pg" "fp_action q = fp_action pg"
    and "fp_scope q = fp_scope pg" "fp_store_scope q = fp_store_scope pg"
  shows "panel_rel z q"
  using assms by (simp add: panel_rel_def live_plan_def)

abbreviation panel_traced :: "selection \<times> bool \<times> stage \<Rightarrow> panel \<Rightarrow> panel \<Rightarrow> bool" where
  "panel_traced \<equiv> traced fp_log offboarding_protocol panel_rel"

lemma shown_live:
  assumes "fp_ready pg"
  shows "shown_plan pg = None \<Longrightarrow> live_plan pg = None"
    and "shown_plan pg = Some p \<Longrightarrow> \<not> of_executed p \<Longrightarrow> live_plan pg = Some p"
  using assms by (auto simp: shown_plan_def live_plan_def split: option.splits if_splits)

lemma sim_parts:
  assumes "panel_sim (sel, r, st) pg"
  shows "sel = signature pg" "r = fp_ready pg" "panel_rel (sel, r, st) pg"
  using assms unfolding panel_sim_def panel_rel_def panel_rendered_def by auto

lemma traced_preview_plan:
  assumes "panel_sim (sel, r, st) pg"
  shows "panel_traced (sel, r, st) pg (previewPlan pg)"
proof (cases "previewPlan pg = pg")
  case False
  then have g: "shown_plan pg = None" "fp_ready pg" "validSelection pg" "8 \<le> length (js_trim (fp_reason pg))"
    "previewPlan pg = recorded (PreviewSent (fp_target pg) (fp_successor pg) (fp_disposition pg) (fp_reason pg))
        (pg\<lparr>fp_action := Some (Inspecting (fst (fp_intent pg)) (fst (fp_selection pg)))\<rparr>)"
    by (auto simp: previewPlan_def split: if_splits)
  note s = sim_parts[OF assms]
  have "panel_rel (sel, r, Asked) (previewPlan pg)"
    using s(3) shown_live(1)[OF g(2,1)] unfolding g(5) by (simp add: panel_rel_def recorded_def live_plan_def)
  then show ?thesis
    by (intro traced_one[where x = "PreviewSent (fp_target pg) (fp_successor pg) (fp_disposition pg) (fp_reason pg)"])
      (simp_all add: g(5) recorded_def, simp add: s signature_def g)
qed (use sim_parts(3)[OF assms] in \<open>simp add: traced_quiet\<close>)

lemma traced_execute_plan:
  assumes "panel_sim (sel, r, st) pg"
  shows "panel_traced (sel, r, st) pg (executePlan c pg)"
proof (cases "executePlan c pg = pg")
  case False
  then obtain p where g: "shown_plan pg = Some p" "fp_ready pg" "validSelection pg" "\<not> of_executed p" "fp_action pg = None"
    "fp_scope pg = fp_store_scope pg" "executePlan c pg = recorded (ExecuteSent (of_target_id p) (of_id p))
            (pg\<lparr>fp_action := Some (Executing (fst (fp_intent pg)) (fst (fp_selection pg)) p)\<rparr>)"
    by (auto simp: executePlan_def owns_intent_def split: option.splits if_splits)
  note s = sim_parts[OF assms]
  have l: "live_plan pg = Some p" using shown_live(2)[OF g(2,1,4)] .
  have "sl_scope sel = fp_store_scope pg" using s(1) g(6) by (simp add: signature_def)
  then have st: "st = Planned p" using s(3) g(5) l by (simp add: panel_rel_def)
  have "panel_rel (sel, r, Running p) (executePlan c pg)"
    using s(3) l unfolding g(7) by (simp add: panel_rel_def recorded_def live_plan_def)
  then show ?thesis
    by (intro traced_one[where x = "ExecuteSent (of_target_id p) (of_id p)"])
      (simp_all add: g(7) recorded_def, simp add: s(1,2) st signature_def g)
qed (use sim_parts(3)[OF assms] in \<open>simp add: traced_quiet\<close>)

lemma traced_dropped:
  assumes "panel_rel (sel, r, st) pg" "fp_inspection q = None" "fp_selection q = fp_selection pg" "fp_intent q = fp_intent pg"
    and "fp_action q = None" "fp_scope q = fp_scope pg" "fp_store_scope q = fp_store_scope pg"
    and l: "fp_log q = fp_log pg @ [PlanDropped]"
  shows "panel_traced (sel, r, st) pg q"
proof (rule traced_one[where log_of = fp_log, OF l])
  show "panel_rel (sel, r, NoPlan) q" using assms by (simp add: panel_rel_def live_plan_def)
qed simp

lemma traced_revise_plan:
  assumes "panel_rel (sel, r, st) pg"
  shows "panel_traced (sel, r, st) pg (revise pg)"
proof (cases "revise pg = pg")
  case False
  then have "revise pg = recorded PlanDropped (pg\<lparr>fp_inspection := None\<rparr>)" "fp_action pg = None"
    by (auto simp: revise_def split: option.splits if_splits)
  then show ?thesis using assms by (intro traced_dropped) (simp_all add: recorded_def)
qed (simp add: assms traced_quiet)

text \<open>A call that the panel no longer owns ends without a trace.\<close>

lemma traced_foreign:
  assumes "panel_sim (sel, r, st) pg" "fp_mounted pg" "fp_action pg = Some (Inspecting n s) \<or> fp_action pg = Some (Executing n s p)"
    and "\<not> owns_intent n (pg\<lparr>fp_action := None\<rparr>)"
  shows "panel_traced (sel, r, st) pg (pg\<lparr>fp_action := None\<rparr>)"
proof -
  note s = sim_parts[OF assms(1)]
  have "n = fst (fp_intent pg) \<Longrightarrow> sl_scope sel \<noteq> fp_store_scope pg"
    using assms(2,4) s(1) by (auto simp: owns_intent_def signature_def)
  then have "panel_rel (sel, r, st) (pg\<lparr>fp_action := None\<rparr>)"
    using s(3) assms(3) by (cases "n = fst (fp_intent pg)") (auto simp: panel_rel_def live_plan_def)
  then show ?thesis by (intro traced_quiet) simp_all
qed

lemma traced_previewed:
  assumes "panel_sim (sel, r, st) pg" "fp_mounted pg" "fp_action pg = Some (Inspecting n s)"
  shows "panel_traced (sel, r, st) pg (previewed n s result (pg\<lparr>fp_action := None\<rparr>))"
proof (cases "owns_intent n (pg\<lparr>fp_action := None\<rparr>)")
  case True
  note p = sim_parts[OF assms(1)]
  have n: "n = fst (fp_intent pg)" "sl_scope sel = fp_store_scope pg"
    using True p(1) by (simp_all add: owns_intent_def signature_def)
  then have a: "st = Asked" "live_plan pg = None" using p(3) assms(3) by (simp_all add: panel_rel_def)
  show ?thesis
  proof (cases result)
    case (Inl e)
    then have "panel_rel (sel, r, st) (pg\<lparr>fp_action := None\<rparr>)" using p(3) a by (simp add: panel_rel_def live_plan_def)
    then show ?thesis using Inl True by (simp add: previewed_def traced_quiet)
  next
    case (Inr v)
    then have v: "previewed n s result (pg\<lparr>fp_action := None\<rparr>) = recorded (PlanRead v)
        (pg\<lparr>fp_action := None, fp_inspection := Some (n, s, v), fp_conflict := False\<rparr>)"
      using True by (simp add: previewed_def)
    have "panel_rel (sel, r, Planned v) (previewed n s result (pg\<lparr>fp_action := None\<rparr>))"
      using p(3) n(1) unfolding v by (simp add: panel_rel_def recorded_def live_plan_def)
    then show ?thesis
      by (intro traced_one[where x = "PlanRead v" and z' = "(sel, r, Planned v)"]) (use a in \<open>simp_all add: v recorded_def\<close>)
  qed
next
  case False
  then show ?thesis using traced_foreign[OF assms(1,2) _ False] assms(3) by (simp add: previewed_def)
qed

lemma traced_executed:
  assumes "panel_sim (sel, r, st) pg" "fp_mounted pg" "fp_action pg = Some (Executing n s p)"
  shows "panel_traced (sel, r, st) pg (executed n s result (pg\<lparr>fp_action := None\<rparr>))"
proof (cases "owns_intent n (pg\<lparr>fp_action := None\<rparr>)")
  case True
  note q = sim_parts[OF assms(1)]
  have n: "n = fst (fp_intent pg)" "sl_scope sel = fp_store_scope pg"
    using True q(1) by (simp_all add: owns_intent_def signature_def)
  then have a: "st = Running p" "live_plan pg = Some p" using q(3) assms(3) by (simp_all add: panel_rel_def)
  show ?thesis
  proof (cases result)
    case (Inr v)
    then have v: "executed n s result (pg\<lparr>fp_action := None\<rparr>) = recorded (ExecuteAnswered v)
        (pg\<lparr>fp_inspection := Some (n, s, v), fp_action := Some (Refreshing n)\<rparr>)"
      using True by (simp add: executed_def)
    have "panel_rel (sel, r, Planned v) (executed n s result (pg\<lparr>fp_action := None\<rparr>))"
      using q(3) n(1) unfolding v by (simp add: panel_rel_def recorded_def live_plan_def)
    then show ?thesis
      by (intro traced_one[where x = "ExecuteAnswered v" and z' = "(sel, r, Planned v)"]) (use a in \<open>simp_all add: v recorded_def\<close>)
  next
    case (Inl e)
    show ?thesis
    proof (cases "isConflict e")
      case conflict: True
      show ?thesis using q(3) Inl True conflict by (intro traced_dropped) (simp_all add: executed_def recorded_def)
    next
      case False
      then have v: "executed n s result (pg\<lparr>fp_action := None\<rparr>) = recorded ExecuteFailed (pg\<lparr>fp_action := None\<rparr>)"
        using Inl True by (simp add: executed_def)
      have "panel_rel (sel, r, Planned p) (executed n s result (pg\<lparr>fp_action := None\<rparr>))"
        using q(3) a(2) unfolding v by (simp add: panel_rel_def recorded_def live_plan_def)
      then show ?thesis
        by (intro traced_one[where x = ExecuteFailed and z' = "(sel, r, Planned p)"]) (use a in \<open>simp_all add: v recorded_def\<close>)
    qed
  qed
next
  case False
  then show ?thesis using traced_foreign[OF assms(1,2) _ False] assms(3) by (simp add: executed_def)
qed

lemma traced_panel_event:
  assumes "panel_sim (sel, r, st) pg" "fp_mounted pg"
  shows "panel_traced (sel, r, st) pg (panel_event_step pg e)"
proof -
  note p = sim_parts[OF assms(1)]
  have q: "panel_traced (sel, r, st) pg pg" using p(3) by (simp add: traced_quiet)
  have f: "panel_traced (sel, r, st) pg q" if "fp_log q = fp_log pg" "fp_selection q = fp_selection pg"
    "fp_intent q = fp_intent pg" "fp_inspection q = fp_inspection pg" "fp_action q = fp_action pg"
    "fp_scope q = fp_scope pg" "fp_store_scope q = fp_store_scope pg" for q
    using that by (intro traced_quiet rel_frame[OF p(3)])
  show ?thesis
  proof (cases e)
    case StoreMoved
    have "panel_rel (sel, r, st) (pg\<lparr>fp_store_scope := Suc (fp_store_scope pg)\<rparr>)" using p(3) by (simp add: panel_rel_def)
    then show ?thesis using StoreMoved by (intro traced_quiet) simp_all
  next
    case (AuthRendered user tenant)
    have "panel_rel (sel, r, st) (pg\<lparr>fp_scope := fp_store_scope pg, fp_user := user, fp_tenant := tenant\<rparr>)"
      using p(3) by (simp add: panel_rel_def live_plan_def)
    then show ?thesis using AuthRendered by (intro traced_quiet) simp_all
  next
    case (PanelAnswered result)
    show ?thesis
    proof (cases "fp_action pg")
      case (Some a)
      have "panel_traced (sel, r, st) pg (refreshed n result (pg\<lparr>fp_action := None\<rparr>))" if "a = Refreshing n" for n
      proof (cases "refreshed n result (pg\<lparr>fp_action := None\<rparr>) = pg\<lparr>fp_action := None\<rparr>")
        case True
        then show ?thesis using p(3) Some that by (simp add: panel_rel_def live_plan_def traced_quiet)
      next
        case False
        then have "refreshed n result (pg\<lparr>fp_action := None\<rparr>) =
            recorded PlanDropped (pg\<lparr>fp_action := None, fp_inspection := None, fp_conflict := True\<rparr>)"
          by (cases result) (auto simp: refreshed_def split: if_splits)
        then show ?thesis by (intro traced_dropped[OF p(3)]) (simp_all add: recorded_def)
      qed
      then show ?thesis using PanelAnswered Some traced_previewed[OF assms] traced_executed[OF assms]
        by (cases a) (simp_all add: traced_quiet)
    qed (use PanelAnswered q in simp)
  qed (use q f traced_preview_plan[OF assms(1)] traced_execute_plan[OF assms(1)] traced_revise_plan[OF p(3)] in simp_all)
qed

lemma traced_panel_step:
  assumes "panel_sim z pg"
  shows "traced fp_log offboarding_protocol panel_sim z pg (panel_step pg e)"
proof (cases "fp_mounted pg")
  case True
  obtain sel r st where z: "z = (sel, r, st)" by (cases z)
  obtain xs y where s: "fp_log (panel_event_step pg e) = fp_log pg @ xs" "accepts offboarding_protocol z xs = Some y"
    "panel_rel y (panel_event_step pg e)"
    using traced_panel_event[of sel r st pg e] assms True unfolding traced_def z by blast
  obtain ys w where t: "fp_log (render_panel (panel_event_step pg e)) = fp_log (panel_event_step pg e) @ ys"
    "accepts offboarding_protocol y ys = Some w" "panel_sim w (render_panel (panel_event_step pg e))"
    using traced_render[OF s(3)] unfolding traced_def by blast
  show ?thesis unfolding traced_def
    by (rule exI[of _ "xs @ ys"], rule exI[of _ w]) (use s t True in \<open>simp add: accepts_append panel_step_def\<close>)
qed (use assms in \<open>simp add: panel_step_def traced_quiet\<close>)

interpretation offboarding: simulation panel_step fp_log offboarding_protocol panel_sim
  by unfold_locales (rule traced_panel_step)

lemma panel_sim_open:
  "panel_sim (signature (open_panel scope employees ready user tenant), ready, NoPlan)
     (open_panel scope employees ready user tenant)"
  by (simp add: open_panel_def panel_sim_def panel_rel_def panel_rendered_def live_plan_def Let_def signature_def
      selectedTenant_def validSelection_def manageable_def successors_def)



text \<open>A run: preview, a change of the reason on the way, preview again, execution.\<close>

lemma sample_offboarding:
  "let e = (\<lambda>i. \<lparr>em_id = i, em_tenant_id = ''t'', em_role = ''user'', em_is_active = True\<rparr>);
       boss = (e ''b'')\<lparr>em_role := ''admin''\<rparr>;
       plan = (\<lambda>i. \<lparr>of_id = i, of_target_id = ''x'', of_drafts = SealDrafts, of_executed = False\<rparr>);
       log = fp_log (panel_run (open_panel 0 [e ''x'', e ''y'', boss] True (Some boss) None)
         [TargetChosen ''x'', SuccessorChosen ''y'', ReasonTyped ''ticket 42'', PreviewPlan,
          ReasonTyped ''ticket 43'', PanelAnswered (Inr (plan ''p'')), ExecutePlan True,
          PreviewPlan, PanelAnswered (Inr (plan ''q'')), ExecutePlan True,
          PanelAnswered (Inr ((plan ''q'')\<lparr>of_executed := True\<rparr>)), PanelAnswered (Inl (Err ''x'')), ExecutePlan True])
   in filter (\<lambda>x. case x of NewIntent _ _ \<Rightarrow> False | _ \<Rightarrow> True) log =
     [PreviewSent ''x'' ''y'' SealDrafts ''ticket 42'', PreviewSent ''x'' ''y'' SealDrafts ''ticket 43'',
      PlanRead (plan ''q''), ExecuteSent ''x'' ''q'', ExecuteAnswered ((plan ''q'')\<lparr>of_executed := True\<rparr>)]"
  by code_simp

end
