(* ===== verification/Workspace.thy ===== *)
theory Workspace
  imports Access Numerals Uri Simulation
begin

text \<open>
  The mail workspace of \<^verbatim>\<open>web/features/mail/workspace.tsx\<close>: the view that the URL selects, the editor
  that opens over it, and who may open an editor, close it and redirect. Preparations of a draft and
  sends take their time; meanwhile the user goes elsewhere.
\<close>

section \<open>The view in the URL\<close>

datatype folder = Inbox | SentFolder | Drafts | Archive | Trash | ReceiptsFolder

fun folder_name :: "folder \<Rightarrow> string" where
  "folder_name Inbox = ''inbox''"
| "folder_name SentFolder = ''sent''"
| "folder_name Drafts = ''drafts''"
| "folder_name Archive = ''archive''"
| "folder_name Trash = ''trash''"
| "folder_name ReceiptsFolder = ''receipts''"

definition folders :: "folder list" where
  "folders = [Inbox, SentFolder, Drafts, Archive, Trash, ReceiptsFolder]"

type_synonym params = "(string \<times> string) list"

text \<open>\<^verbatim>\<open>URLSearchParams\<close>: the first value of a name, its deletion, and its replacement in place.\<close>

definition params_delete :: "string \<Rightarrow> params \<Rightarrow> params" where
  "params_delete k ps = filter (\<lambda>(k', v). k' \<noteq> k) ps"

fun params_set :: "string \<Rightarrow> string \<Rightarrow> params \<Rightarrow> params" where
  "params_set k v [] = [(k, v)]"
| "params_set k v ((k', v') # ps) = (if k' = k then (k, v) # params_delete k ps else (k', v') # params_set k v ps)"

definition query_step :: "params \<Rightarrow> string \<times> string option \<Rightarrow> params" where
  "query_step ps kv =
     (case kv of
        (k, None) \<Rightarrow> params_delete k ps
      | (k, Some v) \<Rightarrow>
          if v = [] \<or> (k = ''page'' \<and> v = ''1'') \<or> (k = ''folder'' \<and> v = ''inbox'') then params_delete k ps
          else params_set k v ps)"

definition set_query :: "(string \<times> string option) list \<Rightarrow> params \<Rightarrow> params" where
  "set_query patch ps = foldl query_step ps patch"

text \<open>\<^verbatim>\<open>Number.parseInt(s, 10)\<close>.\<close>

definition parse_int :: "string \<Rightarrow> number" where
  "parse_int s =
     (let t = dropWhile is_space s;
          u = (case t of c # cs \<Rightarrow> if c = CHR ''-'' \<or> c = CHR ''+'' then cs else t | [] \<Rightarrow> []);
          ds = takeWhile is_digit u;
          n = magnitude (of_nat (digits_nat 10 ds))
      in if ds = [] then NaN else if t \<noteq> [] \<and> hd t = CHR ''-'' then negative n else n)"

text \<open>The integers that a double holds exactly are evaluated without rounding.\<close>

lemma parse_int_exact [code]:
  "parse_int s =
     (let t = dropWhile is_space s;
          u = (case t of c # cs \<Rightarrow> if c = CHR ''-'' \<or> c = CHR ''+'' then cs else t | [] \<Rightarrow> []);
          ds = takeWhile is_digit u; k = digits_nat 10 ds;
          n = (if int k \<le> 9007199254740991 then Fin (of_nat k) else magnitude (of_nat k))
      in if ds = [] then NaN else if t \<noteq> [] \<and> hd t = CHR ''-'' then negative n else n)"
  by (simp add: parse_int_def Let_def magnitude_nat)

definition page_of :: "string option \<Rightarrow> number" where
  "page_of v =
     (let n = parse_int (case v of Some s \<Rightarrow> s | None \<Rightarrow> ''1'');
          m = (if n = NaN \<or> n = Fin 0 then Fin 1 else n)
      in if num_less m (Fin 1) then Fin 1 else m)"

definition folder_of :: "string option \<Rightarrow> folder" where
  "folder_of v = (case find (\<lambda>f. Some (folder_name f) = v) folders of Some f \<Rightarrow> f | None \<Rightarrow> Inbox)"

record mail_view =
  vw_mailbox :: "string option"
  vw_folder :: folder
  vw_page :: number
  vw_q :: string
  vw_message :: string
  vw_source :: "string option"

definition text_param :: "string option \<Rightarrow> string" where
  "text_param v = (case v of Some s \<Rightarrow> s | None \<Rightarrow> [])"

definition view_of :: "params \<Rightarrow> mail_view" where
  "view_of ps = \<lparr>vw_mailbox = map_of ps ''mailbox'', vw_folder = folder_of (map_of ps ''folder''),
     vw_page = page_of (map_of ps ''page''), vw_q = text_param (map_of ps ''q''),
     vw_message = text_param (map_of ps ''message''), vw_source = map_of ps ''source''\<rparr>"

definition archive_sent :: "mail_view \<Rightarrow> bool" where
  "archive_sent v = (vw_folder v = SentFolder \<or> (vw_folder v \<in> {Archive, Trash} \<and> vw_source v = Some ''sent''))"

section \<open>Mailboxes\<close>

definition usable_boxes :: "bool \<Rightarrow> work_mailbox list option \<Rightarrow> work_mailbox list" where
  "usable_boxes failed boxes =
     (if failed then [] else case boxes of Some bs \<Rightarrow> filter (\<lambda>b. wm_can_read b \<or> wm_can_send b) bs | None \<Rightarrow> [])"

definition requested_box :: "work_mailbox list \<Rightarrow> string option \<Rightarrow> work_mailbox option" where
  "requested_box usable requested =
     (case requested of
        None \<Rightarrow> (case usable of [] \<Rightarrow> None | b # _ \<Rightarrow> Some b)
      | Some i \<Rightarrow> find (\<lambda>b. wm_id b = i) usable)"

definition sender_box :: "work_mailbox list \<Rightarrow> string option \<Rightarrow> work_mailbox option" where
  "sender_box usable requested =
     (if requested \<noteq> None \<and> requested_box usable requested = None then None
      else composeIdentity usable (requested_box usable requested))"

section \<open>State\<close>

record editor_draft =
  dt_mailbox_id :: string
  dt_revision :: number
  dt_payload :: json

text \<open>A preparation yields a stored draft, or a payload for which the sender of its render makes a draft.\<close>

datatype opening_kind = Stored | ComposedBy "string option"

record pending_editor =
  ox_view :: nat
  ox_intent :: nat
  ox_kind :: opening_kind

type_synonym view_key = "nat \<times> string option \<times> string option \<times> folder \<times> number \<times> string \<times> string \<times> bool"

datatype workspace_entry = Moved view_key | IntentTaken nat | OpenedFresh nat | OpenedPrepared nat nat
  | PreparationFailed nat | EditorClosed | SendStarted nat nat | Consumed nat | Redirected nat

text \<open>
  \<^verbatim>\<open>ws_intent\<close> is \<^verbatim>\<open>openingIntent.current\<close>; \<^verbatim>\<open>ws_navigation\<close> carries the identity of the
  navigation, which is also that of \<^verbatim>\<open>openingView.current\<close>; a send remembers the editor, the
  navigation and the scope of the render that started it.
\<close>

record workspace =
  ws_store_scope :: nat
  ws_scope :: nat
  ws_mounted :: bool
  ws_params :: params
  ws_boxes :: "work_mailbox list option"
  ws_failed :: bool
  ws_navigation :: "nat \<times> view_key"
  ws_intent :: nat
  ws_editor :: "(nat \<times> editor_draft) option"
  ws_openings :: "pending_editor list"
  ws_sends :: "(nat \<times> nat \<times> nat) list"
  ws_refreshed :: nat
  ws_objects :: nat
  ws_log :: "workspace_entry list"

definition marked :: "workspace_entry \<Rightarrow> workspace \<Rightarrow> workspace" where
  "marked x w = w\<lparr>ws_log := ws_log w @ [x]\<rparr>"

definition usable :: "workspace \<Rightarrow> work_mailbox list" where
  "usable w = usable_boxes (ws_failed w) (ws_boxes w)"

definition current_box :: "workspace \<Rightarrow> work_mailbox option" where
  "current_box w = requested_box (usable w) (vw_mailbox (view_of (ws_params w)))"

definition current_sender :: "workspace \<Rightarrow> work_mailbox option" where
  "current_sender w = sender_box (usable w) (vw_mailbox (view_of (ws_params w)))"

definition navigation_key :: "workspace \<Rightarrow> view_key" where
  "navigation_key w =
     (let v = view_of (ws_params w)
      in (ws_scope w, vw_mailbox v, map_option wm_id (current_box w), vw_folder v, vw_page v, vw_q v, vw_message v,
          archive_sent v))"

text \<open>The mailbox whose events are streamed, with the path of its stream.\<close>

definition stream_path :: "workspace \<Rightarrow> string option" where
  "stream_path w =
     (case current_box w of
        Some b \<Rightarrow> if wm_can_read b then Some (uri [''/api/v1/company/mailboxes/'', ''/events''] [wm_id b]) else None
      | None \<Rightarrow> None)"

definition render_workspace :: "workspace \<Rightarrow> workspace" where
  "render_workspace w =
     (if snd (ws_navigation w) = navigation_key w then w
      else marked (Moved (navigation_key w)) (w\<lparr>ws_navigation := (Suc (fst (ws_navigation w)), navigation_key w)\<rparr>))"

definition initial_workspace :: "nat \<Rightarrow> params \<Rightarrow> workspace" where
  "initial_workspace scope ps =
     (let w = \<lparr>ws_store_scope = scope, ws_scope = scope, ws_mounted = True, ws_params = ps, ws_boxes = None, ws_failed = False,
            ws_navigation = (0, (scope, None, None, Inbox, Fin 1, [], [], False)), ws_intent = 0, ws_editor = None,
            ws_openings = [], ws_sends = [], ws_refreshed = 0, ws_objects = 1, ws_log = []\<rparr>
      in w\<lparr>ws_navigation := (0, navigation_key w)\<rparr>)"

section \<open>Operations\<close>

definition go :: "(string \<times> string option) list \<Rightarrow> workspace \<Rightarrow> workspace" where
  "go patch w = w\<lparr>ws_params := set_query patch (ws_params w)\<rparr>"

text \<open>The signal to the readers; the callback carries the scope of the render that made it.\<close>

definition refresh_content :: "nat \<Rightarrow> workspace \<Rightarrow> workspace" where
  "refresh_content scope w = (if scope = ws_store_scope w then w\<lparr>ws_refreshed := Suc (ws_refreshed w)\<rparr> else w)"

text \<open>\<^verbatim>\<open>openingIntent.current = {}\<close>.\<close>

definition take_intent :: "workspace \<Rightarrow> workspace" where
  "take_intent w = marked (IntentTaken (ws_objects w)) (w\<lparr>ws_intent := ws_objects w, ws_objects := Suc (ws_objects w)\<rparr>)"

definition show_editor :: "editor_draft \<Rightarrow> workspace \<Rightarrow> workspace" where
  "show_editor d w = w\<lparr>ws_editor := Some (ws_objects w, d), ws_objects := Suc (ws_objects w)\<rparr>"

definition empty_payload :: json where
  "empty_payload = JObj [(''to'', JArr []), (''subject'', JStr []), (''text_body'', JStr [])]"

definition newDraft :: "string option \<Rightarrow> json \<Rightarrow> editor_draft option" where
  "newDraft sender payload = map_option (\<lambda>i. \<lparr>dt_mailbox_id = i, dt_revision = Fin 0, dt_payload = payload\<rparr>) sender"

definition start :: "workspace \<Rightarrow> workspace" where
  "start w =
     (if ws_editor w \<noteq> None \<or> current_sender w = None then w
      else case newDraft (map_option wm_id (current_sender w)) empty_payload of
        Some d \<Rightarrow> let w' = take_intent w in marked (OpenedFresh (ws_objects w')) (show_editor d w')
      | None \<Rightarrow> take_intent w)"

text \<open>A folder, shown while there is no editor, asks for a stored draft or a composed payload.\<close>

definition openEditor :: "bool \<Rightarrow> workspace \<Rightarrow> workspace" where
  "openEditor compose w =
     (if ws_editor w \<noteq> None then w
      else (take_intent w)\<lparr>ws_openings := ws_openings w @ [\<lparr>ox_view = fst (ws_navigation w), ox_intent = ws_objects w,
        ox_kind = (if compose then ComposedBy (map_option wm_id (current_sender w)) else Stored)\<rparr>]\<rparr>)"

definition owns_opening :: "pending_editor \<Rightarrow> workspace \<Rightarrow> bool" where
  "owns_opening x w = (ws_mounted w \<and> fst (ws_navigation w) = ox_view x \<and> ws_intent w = ox_intent x)"

datatype prepared = PreparedDraft "editor_draft option" | PreparedPayload json

fun prepared_draft :: "opening_kind \<Rightarrow> prepared \<Rightarrow> editor_draft option" where
  "prepared_draft Stored (PreparedDraft d) = d"
| "prepared_draft (ComposedBy sender) (PreparedPayload p) = newDraft sender p"
| "prepared_draft _ _ = None"

definition opened :: "pending_editor \<Rightarrow> exn + prepared \<Rightarrow> workspace \<Rightarrow> workspace" where
  "opened x result w =
     (case result of
        Inl e \<Rightarrow> if owns_opening x w then marked (PreparationFailed (ox_intent x)) w else w
      | Inr v \<Rightarrow>
          (case prepared_draft (ox_kind x) v of
             Some d \<Rightarrow> if owns_opening x w then marked (OpenedPrepared (ox_intent x) (ws_objects w)) (show_editor d w) else w
           | None \<Rightarrow> w))"

definition close_editor :: "workspace \<Rightarrow> workspace" where
  "close_editor w =
     (if ws_editor w = None then w else refresh_content (ws_scope w) (marked EditorClosed (w\<lparr>ws_editor := None\<rparr>)))"

definition send_started :: "workspace \<Rightarrow> workspace" where
  "send_started w =
     (case ws_editor w of
        Some (k, d) \<Rightarrow> marked (SendStarted k (fst (ws_navigation w)))
          (w\<lparr>ws_sends := ws_sends w @ [(k, fst (ws_navigation w), ws_scope w)]\<rparr>)
      | None \<Rightarrow> w)"

definition retire_editor :: "nat \<Rightarrow> workspace \<Rightarrow> workspace" where
  "retire_editor k w = (if map_option fst (ws_editor w) = Some k then marked (Consumed k) (w\<lparr>ws_editor := None\<rparr>) else w)"

text \<open>\<^verbatim>\<open>completion.current\<close> is that of the committed view, read before the editor is retired.\<close>

definition onSent :: "nat \<Rightarrow> nat \<Rightarrow> nat \<Rightarrow> workspace \<Rightarrow> workspace" where
  "onSent k nav scope w =
     (let here = fst (ws_navigation w) = nav \<and> map_option fst (ws_editor w) = Some k;
          w' = retire_editor k w
      in refresh_content scope
        (if here then marked (Redirected k) (go [(''folder'', Some ''receipts''), (''message'', None), (''page'', None)] w')
         else w'))"

datatype workspace_event = ScopeMoved | ScopeRendered | WorkspaceLeft | UrlChanged params
  | BoxesRead "work_mailbox list option" bool | FolderClicked folder | MailboxClicked string | SourceClicked bool
  | Searched string | PageClicked nat | MessageClicked string | RefreshClicked | StreamEvent string
  | ComposeClicked | OpenClicked bool | Prepared nat "exn + prepared" | EditorLeft | SendClicked | SendDone nat

fun workspace_event_step :: "workspace \<Rightarrow> workspace_event \<Rightarrow> workspace" where
  "workspace_event_step w ScopeMoved = w\<lparr>ws_store_scope := Suc (ws_store_scope w)\<rparr>"
| "workspace_event_step w ScopeRendered = w\<lparr>ws_scope := ws_store_scope w\<rparr>"
| "workspace_event_step w WorkspaceLeft = w\<lparr>ws_mounted := False\<rparr>"
| "workspace_event_step w (UrlChanged ps) = w\<lparr>ws_params := ps\<rparr>"
| "workspace_event_step w (BoxesRead bs failed) = w\<lparr>ws_boxes := bs, ws_failed := failed\<rparr>"
| "workspace_event_step w (FolderClicked f) =
     go [(''folder'', Some (folder_name f)), (''source'', None), (''page'', None), (''message'', None), (''q'', None)] w"
| "workspace_event_step w (MailboxClicked i) = go [(''mailbox'', Some i), (''message'', None), (''page'', None)] w"
| "workspace_event_step w (SourceClicked sent) =
     go [(''source'', if sent then Some ''sent'' else None), (''page'', None), (''message'', None)] w"
| "workspace_event_step w (Searched s) = go [(''q'', Some s), (''message'', None), (''page'', None)] w"
| "workspace_event_step w (PageClicked p) = go [(''page'', Some (js_of_nat p)), (''message'', None)] w"
| "workspace_event_step w (MessageClicked i) = go [(''message'', Some i)] w"
| "workspace_event_step w RefreshClicked = refresh_content (ws_scope w) w"
| "workspace_event_step w (StreamEvent t) =
     (if stream_path w \<noteq> None \<and> t \<noteq> ''ping'' then refresh_content (ws_scope w) w else w)"
| "workspace_event_step w ComposeClicked = start w"
| "workspace_event_step w (OpenClicked compose) = openEditor compose w"
| "workspace_event_step w (Prepared n result) =
     (if n < length (ws_openings w)
      then opened (ws_openings w ! n) result (w\<lparr>ws_openings := drop_nth n (ws_openings w)\<rparr>) else w)"
| "workspace_event_step w EditorLeft = close_editor w"
| "workspace_event_step w SendClicked = send_started w"
| "workspace_event_step w (SendDone n) =
     (if n < length (ws_sends w)
      then (case ws_sends w ! n of (k, nav, scope) \<Rightarrow> onSent k nav scope (w\<lparr>ws_sends := drop_nth n (ws_sends w)\<rparr>))
      else w)"

definition workspace_step :: "workspace \<Rightarrow> workspace_event \<Rightarrow> workspace" where
  "workspace_step w e = (if ws_mounted w then render_workspace (workspace_event_step w e) else w)"

abbreviation workspace_run :: "workspace \<Rightarrow> workspace_event list \<Rightarrow> workspace" where
  "workspace_run \<equiv> foldl workspace_step"

section \<open>The protocol\<close>

text \<open>
  The state is the last intent that may still open an editor in this view, the editor on the screen, the
  editors whose send was started in this view, and the editor that the entry just before consumed, which
  any other entry forgets.
\<close>

record ownership =
  ow_intent :: "nat option"
  ow_editor :: "nat option"
  ow_sending :: "nat set"
  ow_consumed :: "nat option"

fun workspace_protocol :: "ownership \<Rightarrow> workspace_entry \<Rightarrow> ownership option" where
  "workspace_protocol z (Moved k) = Some (z\<lparr>ow_intent := None, ow_sending := {}, ow_consumed := None\<rparr>)"
| "workspace_protocol z (IntentTaken n) = Some (z\<lparr>ow_intent := Some n, ow_consumed := None\<rparr>)"
| "workspace_protocol z (OpenedFresh k) =
     (if ow_editor z = None then Some (z\<lparr>ow_editor := Some k, ow_consumed := None\<rparr>) else None)"
| "workspace_protocol z (OpenedPrepared n k) =
     (if ow_intent z = Some n \<and> ow_editor z = None
      then Some (z\<lparr>ow_intent := None, ow_editor := Some k, ow_consumed := None\<rparr>) else None)"
| "workspace_protocol z (PreparationFailed n) =
     (if ow_intent z = Some n then Some (z\<lparr>ow_intent := None, ow_consumed := None\<rparr>) else None)"
| "workspace_protocol z EditorClosed =
     (if ow_editor z \<noteq> None then Some (z\<lparr>ow_editor := None, ow_consumed := None\<rparr>) else None)"
| "workspace_protocol z (SendStarted k n) =
     (if ow_editor z = Some k then Some (z\<lparr>ow_sending := insert k (ow_sending z), ow_consumed := None\<rparr>) else None)"
| "workspace_protocol z (Consumed k) =
     (if ow_editor z = Some k then Some (z\<lparr>ow_editor := None, ow_consumed := Some k\<rparr>) else None)"
| "workspace_protocol z (Redirected k) =
     (if k \<in> ow_sending z \<and> ow_consumed z = Some k then Some (z\<lparr>ow_consumed := None\<rparr>) else None)"

section \<open>The workspace follows the protocol\<close>

definition owned_opening :: "workspace \<Rightarrow> pending_editor \<Rightarrow> bool" where
  "owned_opening w x = (ox_view x = fst (ws_navigation w) \<and> ox_intent x = ws_intent w)"

definition workspace_sim :: "ownership \<Rightarrow> workspace \<Rightarrow> bool" where
  "workspace_sim z w \<longleftrightarrow>
     ow_editor z = map_option fst (ws_editor w) \<and>
     distinct (map ox_intent (ws_openings w)) \<and>
     (\<forall>x \<in> set (ws_openings w). ox_intent x < ws_objects w \<and> ox_view x \<le> fst (ws_navigation w)) \<and>
     (\<forall>x \<in> set (ws_openings w). owned_opening w x \<longrightarrow> ow_intent z = Some (ws_intent w) \<and> ws_editor w = None) \<and>
     (\<forall>s \<in> set (ws_sends w). fst (snd s) \<le> fst (ws_navigation w)) \<and>
     (\<forall>s \<in> set (ws_sends w). fst (snd s) = fst (ws_navigation w) \<longrightarrow> fst s \<in> ow_sending z)"

abbreviation workspace_traced :: "ownership \<Rightarrow> workspace \<Rightarrow> workspace \<Rightarrow> bool" where
  "workspace_traced \<equiv> traced ws_log workspace_protocol workspace_sim"

lemma workspace_sim_frame:
  assumes "workspace_sim z w" "ws_navigation w' = ws_navigation w" "ws_intent w' = ws_intent w"
    "ws_editor w' = ws_editor w" "ws_objects w' = ws_objects w" "distinct (map ox_intent (ws_openings w'))"
    "set (ws_openings w') \<subseteq> set (ws_openings w)" "set (ws_sends w') \<subseteq> set (ws_sends w)"
  shows "workspace_sim z w'"
  using assms unfolding workspace_sim_def owned_opening_def by (auto simp: subset_iff)

lemma workspace_sim_distinct: "workspace_sim z w \<Longrightarrow> distinct (map ox_intent (ws_openings w))"
  by (simp add: workspace_sim_def)

lemma frame_traced:
  assumes "workspace_sim z w" "ws_log w' = ws_log w" "ws_navigation w' = ws_navigation w" "ws_intent w' = ws_intent w"
    "ws_editor w' = ws_editor w" "ws_objects w' = ws_objects w" "ws_openings w' = ws_openings w"
    "set (ws_sends w') \<subseteq> set (ws_sends w)"
  shows "workspace_traced z w w'"
  by (rule traced_quiet[of ws_log, OF assms(2)], rule workspace_sim_frame[OF assms(1,3-6) _ _ assms(8)])
    (simp_all add: assms(7) workspace_sim_distinct[OF assms(1)])

lemma go_traced: "workspace_sim z w \<Longrightarrow> workspace_traced z w (go patch w)"
  by (erule frame_traced) (simp_all add: go_def)

lemma refresh_traced: "workspace_sim z w \<Longrightarrow> workspace_traced z w (refresh_content scope w)"
  by (erule frame_traced) (simp_all add: refresh_content_def)

lemma render_traced:
  assumes "workspace_sim z w"
  shows "workspace_traced z w (render_workspace w)"
proof (cases "snd (ws_navigation w) = navigation_key w")
  case True
  then show ?thesis using assms by (simp add: render_workspace_def traced_quiet)
next
  case False
  show ?thesis
    by (rule traced_one[of ws_log _ _ "Moved (navigation_key w)"]) (use False assms in
      \<open>auto simp: render_workspace_def marked_def workspace_sim_def owned_opening_def\<close>)
qed

lemma take_intent_traced: "workspace_sim z w \<Longrightarrow> workspace_traced z w (take_intent w)"
  by (rule traced_one[of ws_log _ _ "IntentTaken (ws_objects w)"])
    (auto simp: take_intent_def marked_def workspace_sim_def owned_opening_def)

lemma start_traced:
  assumes "workspace_sim z w"
  shows "workspace_traced z w (start w)"
proof (cases "ws_editor w \<noteq> None \<or> current_sender w = None")
  case True
  then show ?thesis using assms by (simp add: start_def traced_quiet)
next
  case False
  then have e: "ws_editor w = None" and "current_sender w \<noteq> None" by blast+
  then obtain b where b: "current_sender w = Some b" by blast
  define d where "d = \<lparr>dt_mailbox_id = wm_id b, dt_revision = Fin 0, dt_payload = empty_payload\<rparr>"
  have s: "start w = marked (OpenedFresh (ws_objects (take_intent w))) (show_editor d (take_intent w))"
    using b e by (simp add: start_def newDraft_def d_def Let_def)
  have t: "ws_intent (take_intent w) = ws_objects w" "ws_openings (take_intent w) = ws_openings w"
      "ws_editor (take_intent w) = None" "\<forall>x \<in> set (ws_openings w). ox_intent x < ws_objects w"
    using assms e by (simp_all add: take_intent_def marked_def workspace_sim_def)
  show ?thesis unfolding s
    by (rule traced_trans[OF take_intent_traced[OF assms]],
        rule traced_one[of ws_log _ _ "OpenedFresh (ws_objects (take_intent w))"])
      (use t in \<open>auto simp: marked_def show_editor_def workspace_sim_def owned_opening_def\<close>)
qed

lemma openEditor_traced:
  assumes "workspace_sim z w"
  shows "workspace_traced z w (openEditor compose w)"
proof (cases "ws_editor w = None")
  case True
  show ?thesis
    by (rule traced_one[of ws_log _ _ "IntentTaken (ws_objects w)"]) (use True assms in
      \<open>auto simp: openEditor_def take_intent_def marked_def workspace_sim_def owned_opening_def\<close>)
qed (simp add: openEditor_def assms traced_quiet)

text \<open>A preparation that has ended is taken off the list first; the rest no longer owns its intent.\<close>

lemma ended_opening:
  assumes sim: "workspace_sim z w" and n: "n < length (ws_openings w)"
  defines "w' \<equiv> w\<lparr>ws_openings := drop_nth n (ws_openings w)\<rparr>"
  shows "workspace_sim z w'"
    "owns_opening (ws_openings w ! n) w' \<Longrightarrow>
       ow_intent z = Some (ox_intent (ws_openings w ! n)) \<and> ws_editor w' = None \<and>
       (\<forall>y \<in> set (ws_openings w'). \<not> owned_opening w' y)"
proof -
  note d = distinct_drop_nth[OF workspace_sim_distinct[OF sim] n]
  show "workspace_sim z w'" unfolding w'_def
    by (rule workspace_sim_frame[OF sim]) (use d(1) set_drop_nth in simp_all)
  assume "owns_opening (ws_openings w ! n) w'"
  then have o: "owned_opening w (ws_openings w ! n)" "ox_intent (ws_openings w ! n) = ws_intent w"
    by (simp_all add: owns_opening_def owned_opening_def w'_def)
  then show "ow_intent z = Some (ox_intent (ws_openings w ! n)) \<and> ws_editor w' = None \<and>
       (\<forall>y \<in> set (ws_openings w'). \<not> owned_opening w' y)"
    using sim n d(2) unfolding workspace_sim_def by (auto simp: w'_def owned_opening_def)
qed

lemma opened_traced:
  assumes sim: "workspace_sim z w"
    and own: "owns_opening x w \<Longrightarrow> ow_intent z = Some (ox_intent x) \<and> ws_editor w = None \<and>
      (\<forall>y \<in> set (ws_openings w). \<not> owned_opening w y)"
  shows "workspace_traced z w (opened x result w)"
proof (cases "owns_opening x w")
  case False
  then have "opened x result w = w" by (auto simp: opened_def split: sum.split option.split)
  then show ?thesis using sim by (simp add: traced_quiet)
next
  case True
  note o = own[OF True]
  have failed: "workspace_traced z w (marked (PreparationFailed (ox_intent x)) w)"
    by (rule traced_one[of ws_log _ _ "PreparationFailed (ox_intent x)"]) (use o sim in
      \<open>auto simp: marked_def workspace_sim_def owned_opening_def\<close>)
  have prepared: "workspace_traced z w (marked (OpenedPrepared (ox_intent x) (ws_objects w)) (show_editor d w))" for d
    by (rule traced_one[of ws_log _ _ "OpenedPrepared (ox_intent x) (ws_objects w)"]) (use o sim in
      \<open>auto simp: marked_def show_editor_def workspace_sim_def owned_opening_def\<close>)
  show ?thesis using True failed prepared sim
    by (auto simp: opened_def traced_quiet split: sum.split option.split)
qed

lemma close_traced:
  assumes "workspace_sim z w"
  shows "workspace_traced z w (close_editor w)"
proof (cases "ws_editor w = None")
  case False
  have "workspace_traced z w (marked EditorClosed (w\<lparr>ws_editor := None\<rparr>))"
    by (rule traced_one[of ws_log _ _ EditorClosed]) (use False assms in
      \<open>auto simp: marked_def workspace_sim_def owned_opening_def\<close>)
  then show ?thesis using False by (simp add: close_editor_def traced_trans[OF _ refresh_traced] del: not_None_eq)
qed (simp add: close_editor_def assms traced_quiet)

lemma send_started_traced:
  assumes "workspace_sim z w"
  shows "workspace_traced z w (send_started w)"
proof (cases "ws_editor w")
  case (Some kd)
  show ?thesis
    by (rule traced_one[of ws_log _ _ "SendStarted (fst kd) (fst (ws_navigation w))"]) (use Some assms in
      \<open>auto simp: send_started_def marked_def workspace_sim_def owned_opening_def split: prod.split\<close>)
qed (simp add: send_started_def assms traced_quiet)

lemma retire_traced:
  assumes "workspace_sim z w"
  shows "workspace_traced z w (retire_editor k w)"
proof (cases "map_option fst (ws_editor w) = Some k")
  case True
  show ?thesis
    by (rule traced_one[of ws_log _ _ "Consumed k"]) (use True assms in
      \<open>auto simp: retire_editor_def marked_def workspace_sim_def owned_opening_def\<close>)
qed (simp add: retire_editor_def assms traced_quiet)

text \<open>A redirect follows the retirement of its own editor.\<close>

lemma onSent_traced:
  assumes sim: "workspace_sim z w" and own: "nav = fst (ws_navigation w) \<Longrightarrow> k \<in> ow_sending z"
  shows "workspace_traced z w (onSent k nav scope w)"
proof (cases "fst (ws_navigation w) = nav \<and> map_option fst (ws_editor w) = Some k")
  case True
  let ?w = "marked (Redirected k) (go [(''folder'', Some ''receipts''), (''message'', None), (''page'', None)] (retire_editor k w))"
  have "workspace_traced z w ?w"
    unfolding traced_def
    by (rule exI[of _ "[Consumed k, Redirected k]"], rule exI[of _ "z\<lparr>ow_editor := None, ow_consumed := None\<rparr>"]) (use True own sim in
      \<open>auto simp: marked_def go_def retire_editor_def workspace_sim_def owned_opening_def\<close>)
  then show ?thesis using True by (simp add: onSent_def Let_def traced_trans[OF _ refresh_traced])
next
  case False
  show ?thesis unfolding onSent_def Let_def if_not_P[OF False]
    by (rule traced_trans[OF retire_traced[OF sim] refresh_traced])
qed

lemma event_traced:
  assumes sim: "workspace_sim z w"
  shows "workspace_traced z w (workspace_event_step w e)"
proof (cases e)
  case (Prepared n result)
  let ?w = "w\<lparr>ws_openings := drop_nth n (ws_openings w)\<rparr>"
  have "workspace_traced z ?w (opened (ws_openings w ! n) result ?w)" if "n < length (ws_openings w)"
    by (rule opened_traced[OF ended_opening(1)[OF sim that] ended_opening(2)[OF sim that]])
  then show ?thesis using sim Prepared by (simp add: traced_quiet traced_def)
next
  case (SendDone n)
  let ?w = "w\<lparr>ws_sends := drop_nth n (ws_sends w)\<rparr>"
  have "workspace_traced z ?w (onSent (fst (ws_sends w ! n)) (fst (snd (ws_sends w ! n))) (snd (snd (ws_sends w ! n))) ?w)" if "n < length (ws_sends w)"
  proof (rule onSent_traced)
    show "workspace_sim z ?w"
      by (rule workspace_sim_frame[OF sim]) (simp_all add: set_drop_nth workspace_sim_distinct[OF sim])
    show "fst (ws_sends w ! n) \<in> ow_sending z" if "fst (snd (ws_sends w ! n)) = fst (ws_navigation ?w)"
      using sim that nth_mem[OF \<open>n < length (ws_sends w)\<close>] by (simp add: workspace_sim_def)
  qed
  then show ?thesis using sim SendDone by (cases "ws_sends w ! n") (simp add: traced_quiet traced_def)
qed (simp_all add: sim go_traced refresh_traced start_traced openEditor_traced close_traced send_started_traced
  traced_quiet frame_traced[OF sim])

interpretation workspace: simulation workspace_step ws_log workspace_protocol workspace_sim
  by unfold_locales
    (simp add: workspace_step_def traced_quiet traced_trans[OF event_traced render_traced])

lemma initial_sim: "workspace_sim \<lparr>ow_intent = None, ow_editor = None, ow_sending = {}, ow_consumed = None\<rparr> (initial_workspace scope ps)"
  by (simp add: workspace_sim_def initial_workspace_def Let_def)

text \<open>
  C12: In every run of the workspace, whatever the order in which preparations and sends
  end: an editor opens only while none is shown; a prepared one only for the last intent taken, in the
  navigation that took it, once, and a failure of a preparation is reported under the same condition; an
  editor closes or is consumed only while it is the one shown; and a completed send redirects only from
  the navigation that started it, and in the same step in which it consumes its own editor, which must
  still be the one on the screen.
\<close>

theorem workspace_follows_protocol:
  "\<exists>z. accepts workspace_protocol \<lparr>ow_intent = None, ow_editor = None, ow_sending = {}, ow_consumed = None\<rparr>
          (ws_log (workspace_run (initial_workspace scope ps) es)) = Some z \<and>
       ow_editor z = map_option fst (ws_editor (workspace_run (initial_workspace scope ps) es))"
proof -
  have "ws_log (initial_workspace scope ps) = []" by (simp add: initial_workspace_def Let_def)
  from workspace.run_accepted[OF initial_sim this, of es] show ?thesis
    by (metis workspace_sim_def)
qed

section \<open>Clicks and what they show\<close>

lemma map_of_delete: "map_of (params_delete k ps) j = (if j = k then None else map_of ps j)"
  unfolding params_delete_def by (induction ps) auto

lemma map_of_set: "map_of (params_set k v ps) j = (if j = k then Some v else map_of ps j)"
  by (induction k v ps rule: params_set.induct) (auto simp: map_of_delete)

text \<open>What a patch leaves out of the URL is the default of the name it removes.\<close>

definition left_out :: "string \<Rightarrow> string option \<Rightarrow> bool" where
  "left_out k v = (case v of None \<Rightarrow> True
     | Some s \<Rightarrow> s = [] \<or> (k = ''page'' \<and> s = ''1'') \<or> (k = ''folder'' \<and> s = ''inbox''))"

lemma map_of_query_step:
  "map_of (query_step ps (k, v)) j = (if j = k then if left_out k v then None else v else map_of ps j)"
  by (cases v) (auto simp: query_step_def left_out_def map_of_delete map_of_set)

lemma parse_int_nat:
  assumes "n \<le> 9007199254740991"
  shows "parse_int (js_of_nat n) = Fin (of_nat n)"
proof -
  have d: "all_digits (js_of_nat n)" by (simp add: js_of_nat_def index_key_digits)
  then obtain c cs where s: "js_of_nat n = c # cs" and c: "is_digit c" and a: "\<forall>c\<in>set (js_of_nat n). is_digit c"
    by (cases "js_of_nat n") (auto simp: all_digits_def list_all_iff)
  have t: "takeWhile is_digit cs = cs" using a s by simp
  have v: "digits_nat 10 (js_of_nat n) = n" by (simp add: js_of_nat_def index_key_value)
  show ?thesis using c v magnitude_nat[OF assms]
    by (simp add: parse_int_def Let_def s t digit_facts)
qed

lemma first_page: "page_of None = Fin 1"
  by code_simp

lemma page_shown:
  assumes "1 \<le> p" "p \<le> 9007199254740991"
  shows "page_of (if left_out ''page'' (Some (js_of_nat p)) then None else Some (js_of_nat p)) = Fin (of_nat p)"
proof -
  have one: "page_of (Some (js_of_nat p)) = Fin (of_nat p)"
    using assms by (simp add: page_of_def parse_int_nat Let_def)
  have "page_of None = Fin 1" by (rule first_page)
  moreover have "p = 1" if "js_of_nat p = ''1''"
    using that index_key_value[of p] by (simp add: js_of_nat_def digits_nat_def digit_value_def)
  ultimately show ?thesis using one js_of_nat_nonempty(1)[of p] by (auto simp: left_out_def)
qed

lemma folder_shown:
  "folder_of (if left_out ''folder'' (Some (folder_name f)) then None else Some (folder_name f)) = f"
  by (cases f) (simp_all add: folder_of_def folders_def left_out_def)

text \<open>
  C28: A click on a page or a folder of the workspace is what the view then shows, and nothing else of the
  view changes but what the click resets: the page, the message that was open, the search and the side of
  the archive. What the URL leaves out as a default is read back as that default.
\<close>

theorem clicks_shown:
  assumes "1 \<le> p" "p \<le> 9007199254740991"
  shows "view_of (ws_params (workspace_event_step w (PageClicked p))) =
           (view_of (ws_params w))\<lparr>vw_page := Fin (of_nat p), vw_message := []\<rparr> \<and>
         view_of (ws_params (workspace_event_step w (FolderClicked f))) =
           \<lparr>vw_mailbox = vw_mailbox (view_of (ws_params w)), vw_folder = f, vw_page = Fin 1, vw_q = [],
             vw_message = [], vw_source = None\<rparr>"
  using page_shown[OF assms] folder_shown[of f] first_page
  by (simp add: go_def set_query_def view_of_def map_of_query_step text_param_def left_out_def)

definition sample_workspace :: workspace where
  "sample_workspace = initial_workspace 0 [(''mailbox'', ''m1''), (''page'', ''1''), (''message'', ''x'')]"

theorem clicks_shown_witness:
  "view_of (ws_params (workspace_event_step sample_workspace (PageClicked 12))) =
     \<lparr>vw_mailbox = Some ''m1'', vw_folder = Inbox, vw_page = Fin 12, vw_q = [], vw_message = [], vw_source = None\<rparr>"
proof -
  have "view_of (ws_params sample_workspace) =
     \<lparr>vw_mailbox = Some ''m1'', vw_folder = Inbox, vw_page = Fin 1, vw_q = [], vw_message = ''x'', vw_source = None\<rparr>"
    by code_simp
  then show ?thesis using clicks_shown[of 12 sample_workspace Inbox] by simp
qed

text \<open>
  A preparation that ends after the user went to another folder opens nothing, and the same preparation
  opens its editor when the user stayed; the send of that editor redirects to the delivery status.
\<close>

lemma sample_stale_preparation:
  "ws_editor (workspace_run sample_workspace
     [OpenClicked False, FolderClicked Trash, Prepared 0 (Inr (PreparedDraft (Some
        \<lparr>dt_mailbox_id = ''m1'', dt_revision = Fin 4, dt_payload = empty_payload\<rparr>)))]) = None"
  by code_simp

lemma sample_send_redirects:
  "ws_params (workspace_run sample_workspace
     [OpenClicked False, Prepared 0 (Inr (PreparedDraft (Some
        \<lparr>dt_mailbox_id = ''m1'', dt_revision = Fin 4, dt_payload = empty_payload\<rparr>))), SendClicked, SendDone 0]) =
     [(''mailbox'', ''m1''), (''folder'', ''receipts'')]"
  by code_simp

end
