(* ===== verification/Recovery.thy ===== *)
theory Recovery
  imports CompanyApi ErrorCode Inspection Simulation
begin

text \<open>
  The recovery page of \<^verbatim>\<open>web/app/(dashboard)/company/recovery/page.tsx\<close>: a platform administrator
  inspects a stored inbound message and requeues targets that were not delivered, or inspects an
  outbound job under audit and records the outcomes that evidence supports.
\<close>

section \<open>State\<close>

record recovery_target =
  rt_mailbox_id :: string
  rt_address :: string
  rt_state :: string
  rt_error :: "string option"

record recovery_receipt =
  rr_id :: string
  rr_state :: string
  rr_error :: "string option"
  rr_updated_at :: string
  rr_targets :: "recovery_target list"

record receipt_inspection =
  ri_receipt :: recovery_receipt
  ri_original_valid :: bool

text \<open>The call of the page that is running, with what its answer will compare.\<close>

datatype recovery_action = InspectingReceipt | RetryingTargets | Requeueing | InspectingJob nat string string | Reconciling nat

datatype recovery_entry = ReceiptAsked string string | ReceiptShown receipt_inspection
  | RetrySent receipt_inspection "string list" string | ReceiptDropped
  | JobAsked string string string | JobShown inspection | JobDropped
  | ReconcileSent inspection "(string \<times> string) list" string | ActionEnded

text \<open>\<^verbatim>\<open>ry_version\<close> is \<^verbatim>\<open>inspectionVersion.current\<close>; \<^verbatim>\<open>ry_log\<close> is a ghost history.\<close>

record recovery =
  ry_hydrated :: bool
  ry_level :: string
  ry_tenant :: "string option"
  ry_page :: nat
  ry_loading :: bool
  ry_queue :: "(recovery_receipt list \<times> nat) option"
  ry_queue_failed :: bool
  ry_inspection :: "receipt_inspection option"
  ry_targets :: "string list"
  ry_inbound_review :: bool
  ry_reason :: string
  ry_job_id :: string
  ry_job :: "inspection option"
  ry_outbound_review :: bool
  ry_version :: nat
  ry_outcomes :: "(string \<times> string) list"
  ry_action :: "recovery_action option"
  ry_log :: "recovery_entry list"

definition open_recovery :: recovery where
  "open_recovery = \<lparr>ry_hydrated = False, ry_level = [], ry_tenant = None, ry_page = 1, ry_loading = True, ry_queue = None,
     ry_queue_failed = False, ry_inspection = None, ry_targets = [], ry_inbound_review = False, ry_reason = [],
     ry_job_id = [], ry_job = None, ry_outbound_review = False, ry_version = 0, ry_outcomes = [], ry_action = None,
     ry_log = []\<rparr>"

definition entered :: "recovery_entry \<Rightarrow> recovery \<Rightarrow> recovery" where
  "entered x pg = pg\<lparr>ry_log := ry_log pg @ [x]\<rparr>"

definition canInspect :: "recovery \<Rightarrow> bool" where
  "canInspect pg = (ry_hydrated pg \<and> ry_level pg = ''super_admin'' \<and> isInspectionID (map_option JStr (ry_tenant pg)))"

definition queueAvailable :: "recovery \<Rightarrow> bool" where
  "queueAvailable pg = (ry_queue pg \<noteq> None \<and> \<not> ry_queue_failed pg)"

definition receiptRows :: "recovery \<Rightarrow> recovery_receipt list" where
  "receiptRows pg = (if queueAvailable pg then case ry_queue pg of Some (rows, n) \<Rightarrow> rows | None \<Rightarrow> [] else [])"

definition queue_total :: "recovery \<Rightarrow> nat" where
  "queue_total pg = (case ry_queue pg of Some (rows, n) \<Rightarrow> n | None \<Rightarrow> 0)"

section \<open>Calls\<close>

definition inspect_receipt_call :: "string \<Rightarrow> string \<Rightarrow> json option io" where
  "inspect_receipt_call i reason = company (''/recovery/'' @ i @ ''/inspect'') (post (JObj [(''reason'', JStr reason)]))"

definition retry_targets_call :: "recovery_receipt \<Rightarrow> string list \<Rightarrow> string \<Rightarrow> json option io" where
  "retry_targets_call r targets reason = company (''/recovery/'' @ rr_id r @ ''/retry'')
     (post (JObj [(''updated_at'', JStr (rr_updated_at r)), (''targets'', JArr (map JStr targets)),
       (''reason'', JStr reason)]))"

definition inspect_job_call :: "string \<Rightarrow> string \<Rightarrow> json option io" where
  "inspect_job_call target reason =
     company (uri [''/outbound/'', ''/inspect''] [target]) (post (JObj [(''reason'', JStr reason)]))"

definition reconcile_call :: "inspection_job \<Rightarrow> (string \<times> string) list \<Rightarrow> string \<Rightarrow> json option io" where
  "reconcile_call j results reason = company (''/outbound/'' @ j_id j @ ''/reconcile'')
     (post (JObj [(''updated_at'', JStr (j_updated_at j)), (''reason'', JStr reason),
       (''results'', JArr (map (\<lambda>(a, s). JObj [(''address'', JStr a), (''state'', JStr s)]) results))]))"

section \<open>Inbound\<close>

definition inspectReceipt :: "nat \<Rightarrow> recovery \<Rightarrow> recovery" where
  "inspectReceipt n pg =
     (if n < length (receiptRows pg) \<and> ry_action pg = None \<and> \<not> ry_loading pg
      then entered (ReceiptAsked (rr_id (receiptRows pg ! n)) (ry_reason pg)) (pg\<lparr>ry_action := Some InspectingReceipt\<rparr>)
      else pg)"

definition receipt_inspected :: "exn + receipt_inspection \<Rightarrow> recovery \<Rightarrow> recovery" where
  "receipt_inspected result pg =
     (case result of
        Inl e \<Rightarrow> pg
      | Inr v \<Rightarrow> entered (ReceiptShown v) (pg\<lparr>ry_inspection := Some v, ry_targets := [], ry_inbound_review := False\<rparr>))"

fun unfinished :: "receipt_inspection \<Rightarrow> string \<Rightarrow> bool" where
  "unfinished v i = list_ex (\<lambda>t. rt_mailbox_id t = i \<and> rt_state t \<noteq> ''delivered'') (rr_targets (ri_receipt v))"

definition toggle :: "string \<Rightarrow> string list \<Rightarrow> string list" where
  "toggle i xs = (if i \<in> set xs then filter (\<lambda>x. x \<noteq> i) xs else xs @ [i])"

definition toggleTarget :: "string \<Rightarrow> recovery \<Rightarrow> recovery" where
  "toggleTarget i pg =
     (case ry_inspection pg of
        Some v \<Rightarrow> if unfinished v i \<and> ry_action pg = None then pg\<lparr>ry_targets := toggle i (ry_targets pg)\<rparr> else pg
      | None \<Rightarrow> pg)"

definition retryTargets :: "recovery \<Rightarrow> recovery" where
  "retryTargets pg =
     (case ry_inspection pg of
        Some v \<Rightarrow>
          if ry_action pg = None \<and> ri_original_valid v \<and> ry_targets pg \<noteq> [] \<and> \<not> length (js_trim (ry_reason pg)) < 8 \<and>
             rr_state (ri_receipt v) \<noteq> ''processing''
          then entered (RetrySent v (ry_targets pg) (ry_reason pg)) (pg\<lparr>ry_action := Some RetryingTargets\<rparr>)
          else pg
      | None \<Rightarrow> pg)"

text \<open>A retry that was accepted goes on to read the queue again, still in the same action.\<close>

definition targets_retried :: "exn + unit \<Rightarrow> recovery \<Rightarrow> recovery" where
  "targets_retried result pg =
     (case result of
        Inl e \<Rightarrow>
          if isConflict e
          then entered ReceiptDropped (pg\<lparr>ry_inspection := None, ry_targets := [], ry_inbound_review := True\<rparr>) else pg
      | Inr _ \<Rightarrow> entered ReceiptDropped (pg\<lparr>ry_inspection := None\<rparr>))"

section \<open>Outbound\<close>

definition changeJob :: "string \<Rightarrow> recovery \<Rightarrow> recovery" where
  "changeJob i pg = entered JobDropped
     (pg\<lparr>ry_version := Suc (ry_version pg), ry_job_id := i, ry_job := None, ry_outcomes := [], ry_outbound_review := False\<rparr>)"

definition inspectJob :: "recovery \<Rightarrow> recovery" where
  "inspectJob pg =
     (case ry_tenant pg of
        Some tenant \<Rightarrow>
          if ry_action pg = None \<and> canInspect pg \<and> valid_id (js_trim (ry_job_id pg)) \<and> validInspectionReason (ry_reason pg)
          then entered (JobAsked (js_trim (ry_job_id pg)) tenant (js_trim (ry_reason pg)))
            (pg\<lparr>ry_version := Suc (ry_version pg), ry_job := None, ry_outcomes := [],
              ry_action := Some (InspectingJob (Suc (ry_version pg)) (js_trim (ry_job_id pg)) tenant)\<rparr>)
          else pg
      | None \<Rightarrow> pg)"

definition job_inspected ::
    "(string \<Rightarrow> bool) \<Rightarrow> nat \<Rightarrow> string \<Rightarrow> string \<Rightarrow> exn + json option \<Rightarrow> recovery \<Rightarrow> recovery" where
  "job_inspected finite_date version target tenant result pg =
     (case result of
        Inl e \<Rightarrow> pg
      | Inr value \<Rightarrow>
          if version \<noteq> ry_version pg then pg
          else case parseOutboundInspection finite_date value target tenant of
            Some v \<Rightarrow> entered (JobShown v) (pg\<lparr>ry_job := Some v, ry_outbound_review := False\<rparr>)
          | None \<Rightarrow> pg)"

fun undecided :: "inspection \<Rightarrow> string \<Rightarrow> bool" where
  "undecided v a = list_ex (\<lambda>q. q_address q = a \<and> q_state q = RcptUncertain) (v_recipients v)"

definition outcome_choices :: "string list" where
  "outcome_choices = ['''', ''accepted'', ''temporary'', ''permanent'']"

fun put_outcome :: "string \<Rightarrow> string \<Rightarrow> (string \<times> string) list \<Rightarrow> (string \<times> string) list" where
  "put_outcome a s [] = [(a, s)]"
| "put_outcome a s ((b, t) # xs) = (if a = b then (a, s) # xs else (b, t) # put_outcome a s xs)"

definition chooseOutcome :: "string \<Rightarrow> string \<Rightarrow> recovery \<Rightarrow> recovery" where
  "chooseOutcome a s pg =
     (case ry_job pg of
        Some v \<Rightarrow>
          if canInspect pg \<and> undecided v a \<and> s \<in> set outcome_choices then pg\<lparr>ry_outcomes := put_outcome a s (ry_outcomes pg)\<rparr>
          else pg
      | None \<Rightarrow> pg)"

text \<open>\<^verbatim>\<open>Object.entries\<close> lists the keys that are array indices first, in their order.\<close>

definition is_index :: "string \<Rightarrow> bool" where
  "is_index s = (all_digits s \<and> (s = ''0'' \<or> hd s \<noteq> CHR ''0'') \<and> int (digits_nat 10 s) < 4294967295)"

definition object_entries :: "(string \<times> 'a) list \<Rightarrow> (string \<times> 'a) list" where
  "object_entries kvs =
     sort_key (\<lambda>kv. digits_nat 10 (fst kv)) (filter (\<lambda>kv. is_index (fst kv)) kvs) @
     filter (\<lambda>kv. \<not> is_index (fst kv)) kvs"

definition reconcile_results :: "(string \<times> string) list \<Rightarrow> (string \<times> string) list" where
  "reconcile_results outcomes = filter (\<lambda>kv. snd kv \<noteq> []) (object_entries outcomes)"

definition reconcileJob :: "recovery \<Rightarrow> recovery" where
  "reconcileJob pg =
     (case ry_job pg of
        Some v \<Rightarrow>
          if ry_action pg = None \<and> canInspect pg \<and> validInspectionReason (ry_reason pg) \<and>
             list_ex (\<lambda>kv. snd kv \<noteq> []) (ry_outcomes pg)
          then entered (ReconcileSent v (reconcile_results (ry_outcomes pg)) (ry_reason pg))
            (pg\<lparr>ry_action := Some (Reconciling (ry_version pg))\<rparr>)
          else pg
      | None \<Rightarrow> pg)"

definition job_reconciled :: "nat \<Rightarrow> exn + unit \<Rightarrow> recovery \<Rightarrow> recovery" where
  "job_reconciled version result pg =
     (case result of
        Inl e \<Rightarrow>
          if isConflict e \<and> version = ry_version pg
          then entered JobDropped (pg\<lparr>ry_job := None, ry_outcomes := [], ry_outbound_review := True\<rparr>) else pg
      | Inr _ \<Rightarrow> entered JobDropped (pg\<lparr>ry_job := None\<rparr>))"

section \<open>Events\<close>

datatype recovery_event = RecoveryAuth bool string "string option" | QueueRead bool "(recovery_receipt list \<times> nat) option" bool
  | ReasonEdited string | PreviousPage | NextPage | InspectReceipt nat | ToggleTarget string | RetryTargets
  | JobEdited string | InspectJob | ChooseOutcome string string | ReconcileJob
  | ReceiptInspected "exn + receipt_inspection" | TargetsRetried "exn + unit" | QueueReread
  | JobInspected "exn + json option" | JobReconciled "exn + unit"

definition ended :: "recovery \<Rightarrow> recovery" where
  "ended pg = entered ActionEnded (pg\<lparr>ry_action := None\<rparr>)"

text \<open>The reason is a text area of at most 1000 units.\<close>

fun recovery_step :: "(string \<Rightarrow> bool) \<Rightarrow> recovery \<Rightarrow> recovery_event \<Rightarrow> recovery" where
  "recovery_step fd pg (RecoveryAuth hydrated level tenant) = pg\<lparr>ry_hydrated := hydrated, ry_level := level, ry_tenant := tenant\<rparr>"
| "recovery_step fd pg (QueueRead loading queue failed) = pg\<lparr>ry_loading := loading, ry_queue := queue, ry_queue_failed := failed\<rparr>"
| "recovery_step fd pg (ReasonEdited s) = (if length s \<le> 1000 then pg\<lparr>ry_reason := s\<rparr> else pg)"
| "recovery_step fd pg PreviousPage =
     (if ry_loading pg \<or> \<not> queueAvailable pg \<or> ry_page pg = 1 then pg else pg\<lparr>ry_page := ry_page pg - 1\<rparr>)"
| "recovery_step fd pg NextPage =
     (if ry_loading pg \<or> \<not> queueAvailable pg \<or> ry_page pg * 30 \<ge> queue_total pg then pg else pg\<lparr>ry_page := Suc (ry_page pg)\<rparr>)"
| "recovery_step fd pg (InspectReceipt n) = inspectReceipt n pg"
| "recovery_step fd pg (ToggleTarget i) = toggleTarget i pg"
| "recovery_step fd pg RetryTargets = retryTargets pg"
| "recovery_step fd pg (JobEdited i) = changeJob i pg"
| "recovery_step fd pg InspectJob = inspectJob pg"
| "recovery_step fd pg (ChooseOutcome a s) = chooseOutcome a s pg"
| "recovery_step fd pg ReconcileJob = reconcileJob pg"
| "recovery_step fd pg (ReceiptInspected result) =
     (if ry_action pg = Some InspectingReceipt then ended (receipt_inspected result pg) else pg)"
| "recovery_step fd pg (TargetsRetried result) =
     (if ry_action pg \<noteq> Some RetryingTargets then pg
      else if isl result then ended (targets_retried result pg)
      else (targets_retried result pg)\<lparr>ry_action := Some Requeueing\<rparr>)"
| "recovery_step fd pg QueueReread = (if ry_action pg = Some Requeueing then ended pg else pg)"
| "recovery_step fd pg (JobInspected result) =
     (case ry_action pg of
        Some (InspectingJob version target tenant) \<Rightarrow> ended (job_inspected fd version target tenant result pg)
      | _ \<Rightarrow> pg)"
| "recovery_step fd pg (JobReconciled result) =
     (case ry_action pg of Some (Reconciling version) \<Rightarrow> ended (job_reconciled version result pg) | _ \<Rightarrow> pg)"

section \<open>The protocol\<close>

text \<open>
  The state is the inspection of a receipt that may still be acted on, the same for a job, the job and
  company that are being inspected, and whether a call is running.
\<close>

record audit =
  au_receipt :: "receipt_inspection option"
  au_asked :: "(string \<times> string) option"
  au_job :: "inspection option"
  au_running :: bool

fun recovery_protocol :: "audit \<Rightarrow> recovery_entry \<Rightarrow> audit option" where
  "recovery_protocol z (ReceiptAsked i reason) = (if au_running z then None else Some (z\<lparr>au_running := True\<rparr>))"
| "recovery_protocol z (ReceiptShown v) = (if au_running z then Some (z\<lparr>au_receipt := Some v\<rparr>) else None)"
| "recovery_protocol z (RetrySent v ts reason) =
     (if \<not> au_running z \<and> au_receipt z = Some v \<and> ri_original_valid v \<and> rr_state (ri_receipt v) \<noteq> ''processing'' \<and>
         ts \<noteq> [] \<and> distinct ts \<and> list_all (unfinished v) ts \<and> 8 \<le> length (js_trim reason)
      then Some (z\<lparr>au_running := True\<rparr>) else None)"
| "recovery_protocol z ReceiptDropped = Some (z\<lparr>au_receipt := None\<rparr>)"
| "recovery_protocol z (JobAsked target tenant reason) =
     (if \<not> au_running z \<and> valid_id target \<and> valid_id tenant \<and> validInspectionReason reason
      then Some (z\<lparr>au_running := True, au_asked := Some (target, tenant), au_job := None\<rparr>) else None)"
| "recovery_protocol z (JobShown v) =
     (if au_asked z = Some (j_id (v_job v), j_tenant_id (v_job v)) then Some (z\<lparr>au_job := Some v\<rparr>) else None)"
| "recovery_protocol z JobDropped = Some (z\<lparr>au_asked := None, au_job := None\<rparr>)"
| "recovery_protocol z (ReconcileSent v results reason) =
     (if \<not> au_running z \<and> au_job z = Some v \<and> results \<noteq> [] \<and> distinct (map fst results) \<and>
         list_all (\<lambda>(a, s). undecided v a \<and> s \<in> {''accepted'', ''temporary'', ''permanent''}) results \<and>
         validInspectionReason reason
      then Some (z\<lparr>au_running := True\<rparr>) else None)"
| "recovery_protocol z ActionEnded = (if au_running z then Some (z\<lparr>au_asked := None, au_running := False\<rparr>) else None)"

section \<open>The page follows the protocol\<close>

definition targets_ok :: "recovery \<Rightarrow> bool" where
  "targets_ok pg \<longleftrightarrow> distinct (ry_targets pg) \<and> (\<forall>v. ry_inspection pg = Some v \<longrightarrow> list_all (unfinished v) (ry_targets pg))"

definition outcomes_ok :: "recovery \<Rightarrow> bool" where
  "outcomes_ok pg \<longleftrightarrow> distinct (map fst (ry_outcomes pg)) \<and>
     (\<forall>v. ry_job pg = Some v \<longrightarrow>
        list_all (\<lambda>(a, s). undecided v a \<and> s \<in> set outcome_choices) (ry_outcomes pg))"

definition asked_ok :: "audit \<Rightarrow> recovery \<Rightarrow> bool" where
  "asked_ok z pg \<longleftrightarrow> (\<forall>version target tenant. ry_action pg = Some (InspectingJob version target tenant) \<longrightarrow>
     version \<le> ry_version pg \<and>
     (version = ry_version pg \<longrightarrow> au_asked z = Some (target, tenant) \<and> ry_job pg = None \<and> ry_outcomes pg = []))"

definition recovery_sim :: "audit \<Rightarrow> recovery \<Rightarrow> bool" where
  "recovery_sim z pg \<longleftrightarrow> au_receipt z = ry_inspection pg \<and> au_job z = ry_job pg \<and>
     au_running z = (ry_action pg \<noteq> None) \<and> targets_ok pg \<and> outcomes_ok pg \<and> asked_ok z pg"

abbreviation recovery_traced :: "audit \<Rightarrow> recovery \<Rightarrow> recovery \<Rightarrow> bool" where
  "recovery_traced \<equiv> traced ry_log recovery_protocol recovery_sim"

lemmas recovery_simps = recovery_sim_def targets_ok_def outcomes_ok_def asked_ok_def entered_def

lemma toggle_ok: "distinct xs \<Longrightarrow> distinct (toggle i xs)" "list_all P xs \<Longrightarrow> P i \<Longrightarrow> list_all P (toggle i xs)"
  by (auto simp: toggle_def list_all_iff)

lemma put_outcome_keys: "fst ` set (put_outcome a s xs) = insert a (fst ` set xs)"
  by (induction a s xs rule: put_outcome.induct) auto

lemma put_outcome_ok:
  "distinct (map fst xs) \<Longrightarrow> distinct (map fst (put_outcome a s xs))"
  "list_all P xs \<Longrightarrow> P (a, s) \<Longrightarrow> list_all P (put_outcome a s xs)"
  by (induction a s xs rule: put_outcome.induct) (auto simp: put_outcome_keys)

lemma object_entries_set: "set (object_entries kvs) = set kvs"
  by (auto simp: object_entries_def)

lemma object_entries_distinct: "distinct (map fst kvs) \<Longrightarrow> distinct (map fst (object_entries kvs))"
  by (auto simp: object_entries_def distinct_map inj_on_def)

lemma results_ok:
  assumes "distinct (map fst kvs)" "list_all (\<lambda>(a, s). P a \<and> s \<in> set outcome_choices) kvs"
  shows "distinct (map fst (reconcile_results kvs))"
    "list_all (\<lambda>(a, s). P a \<and> s \<in> {''accepted'', ''temporary'', ''permanent''}) (reconcile_results kvs)"
    "list_ex (\<lambda>kv. snd kv \<noteq> []) kvs \<Longrightarrow> reconcile_results kvs \<noteq> []"
  using assms object_entries_distinct[OF assms(1)]
  by (auto simp: reconcile_results_def object_entries_set list_all_iff list_ex_iff filter_empty_conv outcome_choices_def
      distinct_map_filter)

lemma reason_trimmed [simp]: "validInspectionReason (js_trim s) = validInspectionReason s"
  by (simp add: validInspectionReason_def)

text \<open>Events that start or answer nothing leave no trace.\<close>

lemma recovery_quiet:
  assumes "recovery_sim z pg" "ry_log pg' = ry_log pg" "ry_inspection pg' = ry_inspection pg" "ry_job pg' = ry_job pg"
    "ry_action pg' = ry_action pg" "ry_version pg' = ry_version pg" "targets_ok pg'" "outcomes_ok pg'"
    "ry_job pg = None \<Longrightarrow> ry_outcomes pg' = ry_outcomes pg"
  shows "recovery_traced z pg pg'"
  by (rule traced_quiet[of ry_log, OF assms(2)]) (use assms in \<open>auto simp: recovery_sim_def asked_ok_def\<close>)

lemma unchanged_traced: "recovery_sim z pg \<Longrightarrow> recovery_traced z pg pg"
  by (simp add: traced_quiet)

lemma toggleTarget_traced:
  assumes "recovery_sim z pg" shows "recovery_traced z pg (toggleTarget i pg)"
  by (rule recovery_quiet[OF assms])
    (use assms in \<open>auto simp: toggleTarget_def recovery_simps toggle_ok split: option.splits\<close>)

lemma chooseOutcome_traced:
  assumes "recovery_sim z pg" shows "recovery_traced z pg (chooseOutcome a s pg)"
  by (rule recovery_quiet[OF assms])
    (use assms in \<open>auto simp: chooseOutcome_def recovery_simps put_outcome_ok split: option.splits\<close>)

lemma inspectReceipt_traced:
  assumes "recovery_sim z pg" shows "recovery_traced z pg (inspectReceipt n pg)"
proof (cases "n < length (receiptRows pg) \<and> ry_action pg = None \<and> \<not> ry_loading pg")
  case True
  show ?thesis
    by (rule traced_one[of ry_log _ _ "ReceiptAsked (rr_id (receiptRows pg ! n)) (ry_reason pg)"])
      (use True assms in \<open>auto simp: inspectReceipt_def recovery_simps\<close>)
next
  case False
  show ?thesis unfolding inspectReceipt_def if_not_P[OF False] by (rule unchanged_traced[OF assms])
qed

lemma retryTargets_traced:
  assumes "recovery_sim z pg" shows "recovery_traced z pg (retryTargets pg)"
proof (cases "retryTargets pg = pg")
  case False
  then obtain v where v: "ry_inspection pg = Some v"
    and g: "ry_action pg = None" "ri_original_valid v" "ry_targets pg \<noteq> []" "\<not> length (js_trim (ry_reason pg)) < 8"
      "rr_state (ri_receipt v) \<noteq> ''processing''"
    by (auto simp: retryTargets_def split: option.splits if_splits)
  show ?thesis
    by (rule traced_one[of ry_log _ _ "RetrySent v (ry_targets pg) (ry_reason pg)"])
      (use v g assms in \<open>auto simp: retryTargets_def recovery_simps\<close>)
qed (use unchanged_traced[OF assms] in simp)

lemma changeJob_traced:
  assumes "recovery_sim z pg" shows "recovery_traced z pg (changeJob i pg)"
  by (rule traced_one[of ry_log _ _ JobDropped])
    (use assms in \<open>auto simp: changeJob_def recovery_simps le_Suc_eq dest: Suc_le_lessD\<close>)

lemma inspectJob_traced:
  assumes "recovery_sim z pg" shows "recovery_traced z pg (inspectJob pg)"
proof (cases "inspectJob pg = pg")
  case False
  then obtain tenant where t: "ry_tenant pg = Some tenant"
    and g: "ry_action pg = None" "canInspect pg" "valid_id (js_trim (ry_job_id pg))" "validInspectionReason (ry_reason pg)"
    by (auto simp: inspectJob_def split: option.splits if_splits)
  have "valid_id tenant" using t g(2) by (simp add: canInspect_def isInspectionID_def)
  then show ?thesis
    by (intro traced_one[of ry_log _ _ "JobAsked (js_trim (ry_job_id pg)) tenant (js_trim (ry_reason pg))"])
      (use t g assms in \<open>auto simp: inspectJob_def recovery_simps\<close>)
qed (use unchanged_traced[OF assms] in simp)

lemma reconcileJob_traced:
  assumes "recovery_sim z pg" shows "recovery_traced z pg (reconcileJob pg)"
proof (cases "reconcileJob pg = pg")
  case False
  then obtain v where v: "ry_job pg = Some v"
    and g: "ry_action pg = None" "canInspect pg" "validInspectionReason (ry_reason pg)"
      "list_ex (\<lambda>kv. snd kv \<noteq> []) (ry_outcomes pg)"
    by (auto simp: reconcileJob_def split: option.splits if_splits)
  have o: "distinct (map fst (ry_outcomes pg))"
      "list_all (\<lambda>(a, s). undecided v a \<and> s \<in> set outcome_choices) (ry_outcomes pg)"
    using assms v by (simp_all add: recovery_simps)
  show ?thesis
    by (rule traced_one[of ry_log _ _ "ReconcileSent v (reconcile_results (ry_outcomes pg)) (ry_reason pg)" _ _
          "z\<lparr>au_running := True\<rparr>"])
      (use v g assms results_ok[OF o] in \<open>simp_all add: reconcileJob_def recovery_simps del: undecided.simps\<close>)
qed (use unchanged_traced[OF assms] in simp)

text \<open>What an answer leaves is closed by the end of its action.\<close>

lemma ended_traced:
  assumes "recovery_sim z pg" "ry_action pg \<noteq> None"
  shows "recovery_traced z pg (ended pg)"
  by (rule traced_one[of ry_log _ _ ActionEnded]) (use assms in \<open>auto simp: ended_def recovery_simps\<close>)

lemma answered_traced:
  assumes "recovery_traced z pg q" "ry_action q \<noteq> None"
  shows "recovery_traced z pg (ended q)"
  by (rule traced_trans[OF assms(1) ended_traced[OF _ assms(2)]])

lemma receipt_inspected_traced:
  assumes "recovery_sim z pg" "ry_action pg = Some InspectingReceipt"
  shows "recovery_traced z pg (receipt_inspected result pg)"
proof (cases result)
  case (Inr v)
  show ?thesis
    by (rule traced_one[of ry_log _ _ "ReceiptShown v"])
      (use Inr assms in \<open>auto simp: receipt_inspected_def recovery_simps\<close>)
qed (simp add: receipt_inspected_def unchanged_traced[OF assms(1)])

lemma targets_retried_traced:
  assumes "recovery_sim z pg" "a \<noteq> None" "\<forall>n t m. a \<noteq> Some (InspectingJob n t m)" "ry_action pg = Some RetryingTargets"
  shows "recovery_traced z pg ((targets_retried result pg)\<lparr>ry_action := a\<rparr>)"
proof (cases "ry_log (targets_retried result pg) = ry_log pg")
  case True
  then have "targets_retried result pg = pg"
    by (auto simp: targets_retried_def entered_def split: sum.splits if_splits)
  then show ?thesis using assms by (auto intro!: traced_quiet simp: recovery_simps)
next
  case False
  show ?thesis
    by (rule traced_one[of ry_log _ _ ReceiptDropped])
      (use False assms in \<open>auto simp: targets_retried_def recovery_simps split: sum.splits if_splits\<close>)
qed

text \<open>An inspection is shown and its action ended in one go.\<close>

lemma job_inspected_traced:
  assumes sim: "recovery_sim z pg" and a: "ry_action pg = Some (InspectingJob version target tenant)"
  shows "recovery_traced z pg (ended (job_inspected fd version target tenant result pg))"
proof (cases "job_inspected fd version target tenant result pg = pg")
  case True
  then show ?thesis using ended_traced[OF sim] a by simp
next
  case False
  then obtain w v where r: "result = Inr w" "version = ry_version pg"
    and p: "parseOutboundInspection fd w target tenant = Some v"
    by (auto simp: job_inspected_def split: sum.splits if_splits option.splits)
  have "au_asked z = Some (target, tenant)" "ry_outcomes pg = []" using sim a r(2) by (simp_all add: recovery_simps)
  moreover note inspection_identity(1,2)[OF p]
  ultimately show ?thesis
    unfolding traced_def by (intro exI[of _ "[JobShown v, ActionEnded]"]
        exI[of _ "z\<lparr>au_job := Some v, au_asked := None, au_running := False\<rparr>"])
      (use r p a sim in \<open>simp add: job_inspected_def ended_def recovery_simps\<close>)
qed

lemma job_dropped_traced:
  assumes "recovery_sim z pg" "ry_action pg = Some (Reconciling n)" "distinct (map fst os)"
  shows "recovery_traced z pg (entered JobDropped (pg\<lparr>ry_job := None, ry_outcomes := os, ry_outbound_review := r\<rparr>))"
  by (rule traced_one[of ry_log _ _ JobDropped]) (use assms in \<open>auto simp: recovery_simps\<close>)

lemma job_reconciled_traced:
  assumes "recovery_sim z pg" "ry_action pg = Some (Reconciling version)"
  shows "recovery_traced z pg (job_reconciled version result pg)"
proof (cases result)
  case (Inl e)
  show ?thesis unfolding job_reconciled_def Inl sum.case
    by (rule if_split[THEN iffD2], intro conjI impI unchanged_traced[OF assms(1)] job_dropped_traced[OF assms]) simp
next
  case (Inr u)
  have "distinct (map fst (ry_outcomes pg))" using assms(1) by (simp add: recovery_simps)
  from job_dropped_traced[OF assms this, of "ry_outbound_review pg"] show ?thesis
    by (simp add: job_reconciled_def Inr)
qed

lemma answer_keeps_action [simp]:
  "ry_action (receipt_inspected rr pg) = ry_action pg" "ry_action (targets_retried ru pg) = ry_action pg"
  "ry_action (job_inspected fd n t m rj pg) = ry_action pg" "ry_action (job_reconciled n ru pg) = ry_action pg"
  by (simp_all add: receipt_inspected_def targets_retried_def job_inspected_def job_reconciled_def entered_def
      split: sum.split option.split)

lemma recovery_step_traced:
  assumes sim: "recovery_sim z pg"
  shows "recovery_traced z pg (recovery_step fd pg e)"
proof (cases e)
  case (TargetsRetried result)
  have same: "(targets_retried result pg)\<lparr>ry_action := ry_action pg\<rparr> = targets_retried result pg" by simp
  have "recovery_traced z pg (targets_retried result pg)" if "ry_action pg = Some RetryingTargets"
    using targets_retried_traced[OF sim, of "ry_action pg" result] that unfolding same by simp
  then show ?thesis using targets_retried_traced[OF sim, of "Some Requeueing" result] answered_traced sim TargetsRetried
    by (auto simp: traced_quiet)
next
  case (JobInspected result)
  then show ?thesis using sim
    by (auto simp: traced_quiet intro!: job_inspected_traced split: option.split recovery_action.split)
next
  case (JobReconciled result)
  then show ?thesis using sim
    by (auto simp: traced_quiet intro!: answered_traced job_reconciled_traced split: option.split recovery_action.split)
next
  case (ReceiptInspected result)
  then show ?thesis using sim by (auto simp: traced_quiet intro!: answered_traced receipt_inspected_traced)
next
  case QueueReread
  then show ?thesis using sim by (auto simp: traced_quiet intro!: ended_traced)
qed (use sim in \<open>auto intro!: toggleTarget_traced chooseOutcome_traced inspectReceipt_traced retryTargets_traced
    changeJob_traced inspectJob_traced reconcileJob_traced recovery_quiet[OF sim] simp: traced_quiet recovery_simps\<close>)

definition idle_audit :: audit where
  "idle_audit = \<lparr>au_receipt = None, au_asked = None, au_job = None, au_running = False\<rparr>"

interpretation recovery: simulation "recovery_step fd" ry_log recovery_protocol recovery_sim for fd
  by unfold_locales (rule recovery_step_traced)

lemma open_recovery_sim: "recovery_sim idle_audit open_recovery"
  by (simp add: recovery_simps open_recovery_def idle_audit_def)

text \<open>
  C13: In every run of the recovery page, one call is open at a time; a retry names the receipt that is on
  the screen and was not invalidated since, whose original was verified and which is not being processed,
  and only distinct targets of it that were not delivered; outcomes are saved only for the outbound job
  whose inspection was accepted for the job and company asked for, for distinct recipients the inspection
  reports as uncertain, and with one of the three outcomes evidence can support. After a conflict or a
  change of the job nothing is saved before a fresh inspection.
\<close>

theorem recovery_acts_on_inspected:
  "\<exists>z. accepts recovery_protocol idle_audit (ry_log (foldl (recovery_step finite_date) open_recovery es)) = Some z \<and>
       au_receipt z = ry_inspection (foldl (recovery_step finite_date) open_recovery es) \<and>
       au_job z = ry_job (foldl (recovery_step finite_date) open_recovery es)"
proof -
  have "ry_log open_recovery = []" by (simp add: open_recovery_def)
  from recovery.run_accepted[OF open_recovery_sim this, of finite_date es] show ?thesis
    by (metis recovery_sim_def)
qed

text \<open>
  The label of the reason asks for 8 to 1000 bytes of UTF-8 after trimming, which the outbound controls
  check; the retry of inbound targets counts UTF-16 units of the untrimmed limit instead.
\<close>

lemma reason_rules_differ:
  "validInspectionReason (replicate 4 (CHR 0xE9)) \<and> length (js_trim (replicate 4 (CHR 0xE9))) < 8"
  "\<not> validInspectionReason (replicate 600 (CHR 0xE9)) \<and> \<not> length (js_trim (replicate 600 (CHR 0xE9))) < 8"
proof -
  have t: "js_trim (replicate n (CHR 0xE9)) = replicate n (CHR 0xE9)" for n
    by (simp add: js_trim_def is_space_def dropWhile_replicate)
  have u: "utf8_length (replicate n (CHR 0xE9)) = 2 * n" for n
    by (induction n) (simp_all add: utf8_length_def)
  show "validInspectionReason (replicate 4 (CHR 0xE9)) \<and> length (js_trim (replicate 4 (CHR 0xE9))) < 8"
    "\<not> validInspectionReason (replicate 600 (CHR 0xE9)) \<and> \<not> length (js_trim (replicate 600 (CHR 0xE9))) < 8"
    unfolding validInspectionReason_def t u by simp_all
qed

text \<open>
  A run: of the two targets of a receipt only the one that was not delivered can be chosen, and after a
  conflict the second press of the button sends nothing.
\<close>

definition sample_receipt :: receipt_inspection where
  "sample_receipt = \<lparr>ri_receipt = \<lparr>rr_id = ''r1'', rr_state = ''failed'', rr_error = None, rr_updated_at = ''t1'',
     rr_targets = [\<lparr>rt_mailbox_id = ''m1'', rt_address = ''a'', rt_state = ''delivered'', rt_error = None\<rparr>,
       \<lparr>rt_mailbox_id = ''m2'', rt_address = ''b'', rt_state = ''failed'', rt_error = Some ''e''\<rparr>]\<rparr>, ri_original_valid = True\<rparr>"

lemma sample_recovery:
  "ry_log (foldl (recovery_step (\<lambda>_. True)) open_recovery
     [QueueRead False (Some ([ri_receipt sample_receipt], 1)) False, ReasonEdited ''disk was full'', InspectReceipt 0,
      ReceiptInspected (Inr sample_receipt), ToggleTarget ''m1'', ToggleTarget ''m2'', RetryTargets,
      TargetsRetried (Inl (Api (api_error ''CONFLICT'' ''changed''))), RetryTargets]) =
   [ReceiptAsked ''r1'' ''disk was full'', ReceiptShown sample_receipt, ActionEnded,
    RetrySent sample_receipt [''m2''] ''disk was full'', ReceiptDropped, ActionEnded]"
  by code_simp

end
