(* ===== verification/AuthDialog.thy ===== *)
theory AuthDialog
  imports AdminApi Inspection Simulation
begin

text \<open>
  The sign-in dialog of \<^verbatim>\<open>web/components/auth-dialog.tsx\<close>. The request layer installs the identity of
  an answer; the dialog only reports it, and must do so neither for an attempt the user left nor for an
  identity that is no longer the stored one. Installing remounts the dialog, so an attempt remembers the
  scope its own view was unmounted in.
\<close>

section \<open>State\<close>

datatype auth_mode = LoginMode | RegisterMode

record auth_attempt =
  at_kind :: auth_mode
  at_owner :: nat
  at_before :: scope
  at_remount :: "scope option"

datatype auth_entry = ViewRetired | ViewLeft scope | Submitted auth_mode string string "string option" scope
  | Welcomed auth_mode json json "item option \<times> item option \<times> item option" scope | FieldsCleared auth_mode
  | Refused scope | AttemptEnded

text \<open>
  \<^verbatim>\<open>da_view\<close> is the identity of \<^verbatim>\<open>view.current\<close>, which is null once the dialog is unmounted.
  \<^verbatim>\<open>da_public\<close> tells whether \<^verbatim>\<open>level\<close> is public, in which case the dialog is rendered.
\<close>

record auth_dialog =
  da_session :: session
  da_mounted :: bool
  da_view :: nat
  da_public :: bool
  da_open :: bool
  da_mode :: auth_mode
  da_show_password :: bool
  da_login_email :: string
  da_login_password :: string
  da_login_loading :: bool
  da_reg_email :: string
  da_reg_password :: string
  da_reg_name :: string
  da_reg_loading :: bool
  da_pending :: "auth_attempt option"
  da_log :: "auth_entry list"

definition mount_dialog :: "session \<Rightarrow> bool \<Rightarrow> auth_dialog" where
  "mount_dialog s public = \<lparr>da_session = s, da_mounted = True, da_view = 0, da_public = public, da_open = False,
     da_mode = LoginMode, da_show_password = False, da_login_email = [], da_login_password = [], da_login_loading = False,
     da_reg_email = [], da_reg_password = [], da_reg_name = [], da_reg_loading = False, da_pending = None, da_log = []\<rparr>"

definition told :: "auth_entry \<Rightarrow> auth_dialog \<Rightarrow> auth_dialog" where
  "told x d = d\<lparr>da_log := da_log d @ [x]\<rparr>"

definition dialog_scope :: "auth_dialog \<Rightarrow> scope" where
  "dialog_scope d = sessionScope (da_session d)"

definition validRegistrationPassword :: "string \<Rightarrow> bool" where
  "validRegistrationPassword p = (let n = utf8_length p in 12 \<le> n \<and> n \<le> 72)"

definition submitting :: "auth_dialog \<Rightarrow> bool" where
  "submitting d = (da_login_loading d \<or> da_reg_loading d)"

section \<open>Operations\<close>

definition retireView :: "auth_dialog \<Rightarrow> auth_dialog" where
  "retireView d = (if da_mounted d then told ViewRetired (d\<lparr>da_view := Suc (da_view d)\<rparr>) else d)"

definition changeOpen :: "bool \<Rightarrow> auth_dialog \<Rightarrow> auth_dialog" where
  "changeOpen b d =
     (let d' = (retireView d)\<lparr>da_open := b\<rparr>
      in if b then d'\<lparr>da_show_password := False, da_mode := LoginMode\<rparr> else d')"

definition changeMode :: "auth_mode \<Rightarrow> auth_dialog \<Rightarrow> auth_dialog" where
  "changeMode m d = (retireView d)\<lparr>da_mode := m, da_show_password := False\<rparr>"

text \<open>The cleanup of the layout effect.\<close>

definition unmount_dialog :: "auth_dialog \<Rightarrow> auth_dialog" where
  "unmount_dialog d = told (ViewLeft (dialog_scope d))
     (d\<lparr>da_mounted := False,
        da_pending := map_option (\<lambda>a. if da_view d = at_owner a \<and> dialog_scope d \<noteq> at_before a
          then a\<lparr>at_remount := Some (dialog_scope d)\<rparr> else a) (da_pending d)\<rparr>)"

fun form_email :: "auth_mode \<Rightarrow> auth_dialog \<Rightarrow> string" where
  "form_email LoginMode d = js_trim (da_login_email d)"
| "form_email RegisterMode d = js_trim (da_reg_email d)"

fun form_password :: "auth_mode \<Rightarrow> auth_dialog \<Rightarrow> string" where
  "form_password LoginMode d = da_login_password d"
| "form_password RegisterMode d = da_reg_password d"

text \<open>\<^verbatim>\<open>regName.trim() || undefined\<close>; a login sends no name.\<close>

fun form_name :: "auth_mode \<Rightarrow> auth_dialog \<Rightarrow> string option" where
  "form_name LoginMode d = None"
| "form_name RegisterMode d = (if js_trim (da_reg_name d) = [] then None else Some (js_trim (da_reg_name d)))"

fun auth_call :: "auth_mode \<Rightarrow> string \<Rightarrow> string \<Rightarrow> string option \<Rightarrow> payload io" where
  "auth_call LoginMode email password name = login email password"
| "auth_call RegisterMode email password name = register email password name"

definition submitAuth :: "auth_mode \<Rightarrow> auth_dialog \<Rightarrow> auth_dialog" where
  "submitAuth kind d =
     (if da_pending d \<noteq> None \<or> \<not> da_mounted d \<or> form_email kind d = [] \<or> form_password kind d = [] \<or>
         (kind = RegisterMode \<and> \<not> validRegistrationPassword (da_reg_password d)) then d
      else told (Submitted kind (form_email kind d) (form_password kind d) (form_name kind d) (dialog_scope d))
        (d\<lparr>da_pending := Some \<lparr>at_kind = kind, at_owner = da_view d, at_before = dialog_scope d, at_remount = None\<rparr>,
           da_login_loading := (kind = LoginMode), da_reg_loading := (kind = RegisterMode)\<rparr>))"

text \<open>\<^verbatim>\<open>localStorage.getItem(key) === v\<close> for the token and the tenant, which are stored as text.\<close>

fun text_is :: "item option \<Rightarrow> json option \<Rightarrow> bool" where
  "text_is (Some (Raw t)) v = (v = Some (JStr t))"
| "text_is None v = (v = Some JNull)"
| "text_is _ v = False"

definition identity_stored :: "json \<Rightarrow> json \<Rightarrow> item option \<times> item option \<times> item option \<Rightarrow> bool" where
  "identity_stored accessToken user items =
     (case items of (token, account, tenant) \<Rightarrow>
        text_is token (Some accessToken) \<and> account = Some (Json user) \<and> text_is tenant (get_prop user ''tenant_id''))"

definition stored_items :: "session \<Rightarrow> item option \<times> item option \<times> item option" where
  "stored_items s = (s_storage s TOKEN_KEY, s_storage s USER_KEY, s_storage s TENANT_KEY)"

definition owns_view :: "auth_attempt \<Rightarrow> auth_dialog \<Rightarrow> bool" where
  "owns_view a d = (da_mounted d \<and> da_view d = at_owner a)"

fun clear_form :: "auth_mode \<Rightarrow> auth_dialog \<Rightarrow> auth_dialog" where
  "clear_form LoginMode d = d\<lparr>da_login_email := [], da_login_password := []\<rparr>"
| "clear_form RegisterMode d = d\<lparr>da_reg_email := [], da_reg_password := [], da_reg_name := []\<rparr>"

text \<open>The answer of the attempt; the greeting is logged where it is decided.\<close>

definition auth_succeeded :: "auth_attempt \<Rightarrow> json \<Rightarrow> json \<Rightarrow> auth_dialog \<Rightarrow> auth_dialog" where
  "auth_succeeded a accessToken user d =
     (if (owns_view a d \<or> at_remount a = Some (dialog_scope d)) \<and> identity_stored accessToken user (stored_items (da_session d))
      then let d' = told (Welcomed (at_kind a) accessToken user (stored_items (da_session d)) (dialog_scope d)) d
           in if owns_view a d then changeOpen False (told (FieldsCleared (at_kind a)) (clear_form (at_kind a) d')) else d'
      else d)"

definition auth_failed :: "auth_attempt \<Rightarrow> auth_dialog \<Rightarrow> auth_dialog" where
  "auth_failed a d = (if owns_view a d \<and> at_before a = dialog_scope d then told (Refused (dialog_scope d)) d else d)"

definition end_attempt :: "auth_dialog \<Rightarrow> auth_dialog" where
  "end_attempt d = told AttemptEnded
     (d\<lparr>da_pending := None, da_login_loading := (da_login_loading d \<and> \<not> da_mounted d),
        da_reg_loading := (da_reg_loading d \<and> \<not> da_mounted d)\<rparr>)"

datatype dialog_field = LoginEmail | LoginPassword | RegEmail | RegPassword | RegName

fun edit_field :: "dialog_field \<Rightarrow> string \<Rightarrow> auth_dialog \<Rightarrow> auth_dialog" where
  "edit_field LoginEmail s d = (retireView d)\<lparr>da_login_email := s\<rparr>"
| "edit_field LoginPassword s d = (retireView d)\<lparr>da_login_password := s\<rparr>"
| "edit_field RegEmail s d = (retireView d)\<lparr>da_reg_email := s\<rparr>"
| "edit_field RegPassword s d = (retireView d)\<lparr>da_reg_password := s\<rparr>"
| "edit_field RegName s d = (retireView d)\<lparr>da_reg_name := s\<rparr>"

text \<open>The button of a form; the Enter key has no such guard.\<close>

fun button_enabled :: "auth_mode \<Rightarrow> auth_dialog \<Rightarrow> bool" where
  "button_enabled LoginMode d = (\<not> submitting d \<and> js_trim (da_login_email d) \<noteq> [] \<and> da_login_password d \<noteq> [])"
| "button_enabled RegisterMode d =
     (\<not> submitting d \<and> js_trim (da_reg_email d) \<noteq> [] \<and> validRegistrationPassword (da_reg_password d))"

datatype dialog_event = StoreChanged "session \<Rightarrow> session" | LevelRendered bool | OpenChanged bool | ModeChanged auth_mode
  | Edited dialog_field string | ShowPassword | EnterPressed | ButtonPressed | DialogUnmounted
  | AuthAnswered "exn + json \<times> json"

definition form_shown :: "auth_dialog \<Rightarrow> bool" where
  "form_shown d = (da_mounted d \<and> da_public d \<and> da_open d)"

fun dialog_step :: "auth_dialog \<Rightarrow> dialog_event \<Rightarrow> auth_dialog" where
  "dialog_step d (StoreChanged f) = d\<lparr>da_session := f (da_session d)\<rparr>"
| "dialog_step d (LevelRendered public) = (if da_mounted d then d\<lparr>da_public := public\<rparr> else d)"
| "dialog_step d (OpenChanged b) = (if da_mounted d \<and> da_public d then changeOpen b d else d)"
| "dialog_step d (ModeChanged m) = (if form_shown d then changeMode m d else d)"
| "dialog_step d (Edited f s) = (if form_shown d then edit_field f s d else d)"
| "dialog_step d ShowPassword = (if form_shown d then d\<lparr>da_show_password := \<not> da_show_password d\<rparr> else d)"
| "dialog_step d EnterPressed = (if form_shown d then submitAuth (da_mode d) d else d)"
| "dialog_step d ButtonPressed = (if form_shown d \<and> button_enabled (da_mode d) d then submitAuth (da_mode d) d else d)"
| "dialog_step d DialogUnmounted = (if da_mounted d then unmount_dialog d else d)"
| "dialog_step d (AuthAnswered result) =
     (case da_pending d of
        None \<Rightarrow> d
      | Some a \<Rightarrow> end_attempt (case result of Inl e \<Rightarrow> auth_failed a d | Inr (accessToken, user) \<Rightarrow> auth_succeeded a accessToken user d))"

section \<open>The protocol\<close>

text \<open>
  The state is the running attempt with the scope it was started in, whether its view is still the same,
  the scope its own view was unmounted in, and whether the dialog is mounted.
\<close>

record attempt_state =
  as_attempt :: "(auth_mode \<times> scope) option"
  as_own :: bool
  as_left :: "scope option"
  as_mounted :: bool

fun auth_protocol :: "attempt_state \<Rightarrow> auth_entry \<Rightarrow> attempt_state option" where
  "auth_protocol z ViewRetired = Some (z\<lparr>as_own := False\<rparr>)"
| "auth_protocol z (ViewLeft sc) =
     Some (z\<lparr>as_own := False, as_mounted := False,
       as_left := (if as_own z \<and> map_option snd (as_attempt z) \<noteq> Some sc then Some sc else as_left z)\<rparr>)"
| "auth_protocol z (Submitted kind email password name sc) =
     (if as_attempt z = None \<and> as_mounted z \<and> email \<noteq> [] \<and> js_trim email = email \<and> password \<noteq> [] \<and>
         (kind = RegisterMode \<longrightarrow> 12 \<le> utf8_length password \<and> utf8_length password \<le> 72)
      then Some (z\<lparr>as_attempt := Some (kind, sc), as_own := True, as_left := None\<rparr>) else None)"
| "auth_protocol z (Welcomed kind accessToken user items sc) =
     (if map_option fst (as_attempt z) = Some kind \<and> (as_own z \<or> as_left z = Some sc) \<and> identity_stored accessToken user items
      then Some z else None)"
| "auth_protocol z (FieldsCleared kind) = (if map_option fst (as_attempt z) = Some kind \<and> as_own z then Some z else None)"
| "auth_protocol z (Refused sc) = (if map_option snd (as_attempt z) = Some sc \<and> as_own z then Some z else None)"
| "auth_protocol z AttemptEnded =
     (if as_attempt z \<noteq> None then Some (z\<lparr>as_attempt := None, as_own := False, as_left := None\<rparr>) else None)"

section \<open>The dialog follows the protocol\<close>

fun attempt_ok :: "attempt_state \<Rightarrow> auth_attempt option \<Rightarrow> bool \<Rightarrow> nat \<Rightarrow> bool" where
  "attempt_ok z None mounted view \<longleftrightarrow> as_attempt z = None"
| "attempt_ok z (Some a) mounted view \<longleftrightarrow> as_attempt z = Some (at_kind a, at_before a) \<and> at_owner a \<le> view \<and>
     as_own z = (mounted \<and> view = at_owner a) \<and> as_left z = at_remount a"

text \<open>While the dialog is mounted its buttons are disabled exactly as long as an attempt is running.\<close>

definition loading_ok :: "auth_dialog \<Rightarrow> bool" where
  "loading_ok d \<longleftrightarrow> (da_mounted d \<longrightarrow>
     da_login_loading d = (map_option at_kind (da_pending d) = Some LoginMode) \<and>
     da_reg_loading d = (map_option at_kind (da_pending d) = Some RegisterMode))"

definition dialog_sim :: "attempt_state \<Rightarrow> auth_dialog \<Rightarrow> bool" where
  "dialog_sim z d \<longleftrightarrow> as_mounted z = da_mounted d \<and> attempt_ok z (da_pending d) (da_mounted d) (da_view d) \<and> loading_ok d"

abbreviation dialog_traced :: "attempt_state \<Rightarrow> auth_dialog \<Rightarrow> auth_dialog \<Rightarrow> bool" where
  "dialog_traced \<equiv> traced da_log auth_protocol dialog_sim"

lemmas dialog_simps = dialog_sim_def loading_ok_def told_def owns_view_def dialog_scope_def

text \<open>What does not touch the view, the attempt or the loading flags changes nothing.\<close>

lemma dialog_sim_frame:
  assumes "dialog_sim z d" "da_mounted d' = da_mounted d" "da_pending d' = da_pending d" "da_view d' = da_view d"
    "da_login_loading d' = da_login_loading d" "da_reg_loading d' = da_reg_loading d"
  shows "dialog_sim z d'"
  using assms by (simp add: dialog_sim_def loading_ok_def)

lemma dialog_quiet:
  assumes "dialog_sim z d" "da_mounted d' = da_mounted d" "da_pending d' = da_pending d" "da_view d' = da_view d"
    "da_login_loading d' = da_login_loading d" "da_reg_loading d' = da_reg_loading d" "da_log d' = da_log d"
  shows "dialog_traced z d d'"
  using assms(7) dialog_sim_frame[OF assms(1-6)] by (rule traced_quiet)

lemma retire_sim: "dialog_sim z d \<Longrightarrow> da_mounted d \<Longrightarrow> dialog_sim (z\<lparr>as_own := False\<rparr>) (d\<lparr>da_view := Suc (da_view d), da_log := xs\<rparr>)"
  by (cases "da_pending d") (auto simp: dialog_simps)

lemma retireView_traced: "dialog_sim z d \<Longrightarrow> dialog_traced z d (retireView d)"
proof (cases "da_mounted d")
  case True
  assume "dialog_sim z d"
  then show ?thesis
    by (intro traced_one[of da_log _ _ ViewRetired]) (use True retire_sim in \<open>simp_all add: retireView_def told_def\<close>)
qed (simp add: retireView_def traced_quiet)

lemma retire_then_traced:
  assumes "dialog_sim z d" "\<And>q. da_mounted (f q) = da_mounted q \<and> da_pending (f q) = da_pending q \<and> da_view (f q) = da_view q \<and>
     da_login_loading (f q) = da_login_loading q \<and> da_reg_loading (f q) = da_reg_loading q \<and> da_log (f q) = da_log q"
  shows "dialog_traced z d (f (retireView d))"
  by (rule traced_trans[OF retireView_traced[OF assms(1)]], rule dialog_quiet) (simp_all add: assms(2))

lemma changeOpen_traced: "dialog_sim z d \<Longrightarrow> dialog_traced z d (changeOpen b d)"
  unfolding changeOpen_def Let_def
  by (rule retire_then_traced[of z d "\<lambda>q. if b then (q\<lparr>da_open := b\<rparr>)\<lparr>da_show_password := False, da_mode := LoginMode\<rparr>
    else q\<lparr>da_open := b\<rparr>"]) simp_all

lemma changeMode_traced: "dialog_sim z d \<Longrightarrow> dialog_traced z d (changeMode m d)"
  unfolding changeMode_def by (rule retire_then_traced) simp_all

lemma edit_field_traced: "dialog_sim z d \<Longrightarrow> dialog_traced z d (edit_field f s d)"
  by (cases f) (simp_all add: retire_then_traced[where f = "da_login_email_update (\<lambda>_. s)"]
    retire_then_traced[where f = "da_login_password_update (\<lambda>_. s)"] retire_then_traced[where f = "da_reg_email_update (\<lambda>_. s)"]
    retire_then_traced[where f = "da_reg_password_update (\<lambda>_. s)"] retire_then_traced[where f = "da_reg_name_update (\<lambda>_. s)"])

lemma unmount_traced:
  assumes "dialog_sim z d" "da_mounted d"
  shows "dialog_traced z d (unmount_dialog d)"
  by (rule traced_one[of da_log _ _ "ViewLeft (dialog_scope d)"], simp add: unmount_dialog_def told_def, simp)
    (use assms in \<open>cases "da_pending d"; auto simp: unmount_dialog_def dialog_simps\<close>)

lemma form_email_trimmed: "js_trim (form_email kind d) = form_email kind d"
  by (cases kind) simp_all

lemma submitAuth_traced:
  assumes "dialog_sim z d"
  shows "dialog_traced z d (submitAuth kind d)"
proof (cases "submitAuth kind d = d")
  case False
  then have g: "da_pending d = None" "da_mounted d" "form_email kind d \<noteq> []" "form_password kind d \<noteq> []"
      "kind = RegisterMode \<Longrightarrow> validRegistrationPassword (da_reg_password d)"
    by (auto simp: submitAuth_def split: if_splits)
  have p: "kind = RegisterMode \<longrightarrow> 12 \<le> utf8_length (form_password kind d) \<and> utf8_length (form_password kind d) \<le> 72"
    using g(5) by (cases kind) (simp_all add: validRegistrationPassword_def Let_def)
  have "submitAuth kind d = told (Submitted kind (form_email kind d) (form_password kind d) (form_name kind d) (dialog_scope d))
        (d\<lparr>da_pending := Some \<lparr>at_kind = kind, at_owner = da_view d, at_before = dialog_scope d, at_remount = None\<rparr>,
           da_login_loading := (kind = LoginMode), da_reg_loading := (kind = RegisterMode)\<rparr>)"
    using g by (auto simp: submitAuth_def)
  then show ?thesis
    by (intro traced_one[of da_log _ _ "Submitted kind (form_email kind d) (form_password kind d) (form_name kind d) (dialog_scope d)"])
      (use g p assms in \<open>auto simp: dialog_simps form_email_trimmed\<close>)
qed (simp add: assms traced_quiet)

lemma clear_form_frame [simp]:
  "da_mounted (clear_form k d) = da_mounted d" "da_pending (clear_form k d) = da_pending d" "da_view (clear_form k d) = da_view d"
  "da_login_loading (clear_form k d) = da_login_loading d" "da_reg_loading (clear_form k d) = da_reg_loading d"
  "da_log (clear_form k d) = da_log d"
  by (cases k; simp)+

lemma succeeded_traced:
  assumes sim: "dialog_sim z d" and a: "da_pending d = Some a"
  shows "dialog_traced z d (auth_succeeded a accessToken user d)"
proof (cases "(owns_view a d \<or> at_remount a = Some (dialog_scope d)) \<and> identity_stored accessToken user (stored_items (da_session d))")
  case False
  show ?thesis unfolding auth_succeeded_def if_not_P[OF False] using sim by (simp add: traced_quiet)
next
  case True
  let ?w = "told (Welcomed (at_kind a) accessToken user (stored_items (da_session d)) (dialog_scope d)) d"
  have w: "dialog_traced z d ?w"
    by (rule traced_one[of da_log _ _ "Welcomed (at_kind a) accessToken user (stored_items (da_session d)) (dialog_scope d)"])
      (use True sim a in \<open>auto simp: dialog_simps\<close>)
  have c: "dialog_traced y ?w (changeOpen False (told (FieldsCleared (at_kind a)) (clear_form (at_kind a) ?w)))"
    if "dialog_sim y ?w" "owns_view a d" for y
  proof (rule traced_trans[OF _ changeOpen_traced])
    show "dialog_traced y ?w (told (FieldsCleared (at_kind a)) (clear_form (at_kind a) ?w))"
      by (rule traced_one[of da_log _ _ "FieldsCleared (at_kind a)"])
        (use that a in \<open>auto simp: dialog_simps\<close>)
  qed
  show ?thesis
    using True w traced_trans[OF w c] by (simp add: auth_succeeded_def Let_def)
qed

lemma failed_traced:
  assumes sim: "dialog_sim z d" and a: "da_pending d = Some a"
  shows "dialog_traced z d (auth_failed a d)"
proof (cases "owns_view a d \<and> at_before a = dialog_scope d")
  case True
  show ?thesis unfolding auth_failed_def if_P[OF True]
    by (rule traced_one[of da_log _ _ "Refused (dialog_scope d)"]) (use True sim a in \<open>auto simp: dialog_simps\<close>)
next
  case False
  show ?thesis unfolding auth_failed_def if_not_P[OF False] using sim by (simp add: traced_quiet)
qed

lemma end_traced:
  assumes sim: "dialog_sim z d" and a: "da_pending d \<noteq> None"
  shows "dialog_traced z d (end_attempt d)"
  by (rule traced_one[of da_log _ _ AttemptEnded]) (use sim a in \<open>auto simp: end_attempt_def dialog_simps\<close>)

lemma answer_keeps_pending [simp]:
  "da_pending (auth_succeeded a t u d) = da_pending d" "da_pending (auth_failed a d) = da_pending d"
  by (simp_all add: auth_succeeded_def auth_failed_def Let_def changeOpen_def retireView_def told_def)

lemma dialog_step_traced:
  assumes sim: "dialog_sim z d"
  shows "dialog_traced z d (dialog_step d e)"
proof (cases e)
  case (AuthAnswered result)
  show ?thesis
  proof (cases "da_pending d")
    case None
    then show ?thesis using AuthAnswered sim by (simp add: traced_quiet)
  next
    case (Some a)
    let ?q = "case result of Inl e \<Rightarrow> auth_failed a d | Inr (accessToken, user) \<Rightarrow> auth_succeeded a accessToken user d"
    have "dialog_traced z d ?q" "da_pending ?q \<noteq> None"
      using Some sim by (simp_all add: failed_traced succeeded_traced split: sum.split prod.split)
    then show ?thesis using AuthAnswered Some traced_trans[OF _ end_traced] by simp
  qed
qed (simp_all add: sim traced_quiet changeOpen_traced changeMode_traced edit_field_traced submitAuth_traced unmount_traced
    dialog_quiet[OF sim])

interpretation sign_in: simulation dialog_step da_log auth_protocol dialog_sim
  by unfold_locales (rule dialog_step_traced)

definition no_attempt :: attempt_state where
  "no_attempt = \<lparr>as_attempt = None, as_own = False, as_left = None, as_mounted = True\<rparr>"

lemma mount_dialog_sim: "dialog_sim no_attempt (mount_dialog s public)"
  by (simp add: dialog_simps mount_dialog_def no_attempt_def)

lemma sim_submitting:
  assumes "dialog_sim z d"
  shows "(da_mounted d \<and> submitting d) = (da_mounted d \<and> da_pending d \<noteq> None)"
proof (cases "da_pending d")
  case (Some a)
  then show ?thesis using assms by (cases "at_kind a") (auto simp: dialog_sim_def loading_ok_def submitting_def)
qed (use assms in \<open>auto simp: dialog_sim_def loading_ok_def submitting_def\<close>)

text \<open>
  C23: In every run of the sign-in dialog, whatever happens to the session meanwhile: one attempt runs at a
  time, with a trimmed address and, to register, a password of 12 to 72 bytes; its answer is announced only
  while the form is as it was submitted, or was unmounted by exactly the session that is current, and only if
  token, user and company of the answer are the stored ones; the fields are emptied only for the form that was
  submitted and not touched since; a failure is reported only to the view and the session of the attempt.
  While the dialog is mounted, a form is disabled exactly as long as its attempt is running.
\<close>

theorem sign_in_announces_stored:
  "(\<exists>z. accepts auth_protocol no_attempt (da_log (foldl dialog_step (mount_dialog s public) es)) = Some z) \<and>
   (let d = foldl dialog_step (mount_dialog s public) es
    in (da_mounted d \<and> submitting d) = (da_mounted d \<and> da_pending d \<noteq> None))"
proof -
  have "da_log (mount_dialog s public) = []" by (simp add: mount_dialog_def)
  from sign_in.run_accepted[OF mount_dialog_sim this, of es] obtain z
    where "accepts auth_protocol no_attempt (da_log (foldl dialog_step (mount_dialog s public) es)) = Some z"
      "dialog_sim z (foldl dialog_step (mount_dialog s public) es)" .
  then show ?thesis using sim_submitting by (simp only: Let_def) blast
qed

text \<open>An identity that was just installed is the stored one.\<close>

lemma installed_identity:
  assumes "s_window s" "get_prop user ''tenant_id'' = Some (JStr tenant)" "s_storage s TOKEN_KEY \<noteq> Some (Raw t)"
  shows "identity_stored (JStr t) user (stored_items (installSession (JStr t) user s))"
  using assms
  by (auto simp: identity_stored_def stored_items_def installSession_def advanceSession_def dispatch_auth_def remove_items_def
      set_item_def key_defs split: option.splits item.splits)

text \<open>
  The dialog that is unmounted by its own sign-in still greets; one whose field was touched meanwhile, or
  whose identity was replaced by another tab, does not.
\<close>

fun greeted :: "auth_entry \<Rightarrow> bool" where
  "greeted (Welcomed kind accessToken user items sc) = True"
| "greeted _ = False"

definition signing_in :: "dialog_event list" where
  "signing_in = [OpenChanged True, Edited LoginEmail '' a@b '', Edited LoginPassword ''secret'', ButtonPressed]"

definition sign_in_greets :: "dialog_event list \<Rightarrow> bool" where
  "sign_in_greets es = list_ex greeted (da_log (foldl dialog_step (mount_dialog fresh_browser True)
     (signing_in @ es @ [AuthAnswered (Inr (JStr ''tok'', example_user))])))"

lemma sample_sign_in:
  "sign_in_greets [StoreChanged (installSession (JStr ''tok'') example_user), DialogUnmounted]"
  "\<not> sign_in_greets [Edited LoginPassword ''other'', StoreChanged (installSession (JStr ''tok'') example_user), DialogUnmounted]"
  "\<not> sign_in_greets [StoreChanged (installSession (JStr ''tok'') example_user), DialogUnmounted,
       StoreChanged (installSession (JStr ''tok2'') example_user)]"
  by code_simp+

end
