(* ===== verification/GrantEditor.thy ===== *)
theory GrantEditor
  imports CompanyApi ErrorCode Simulation
begin

text \<open>
  The grant editor of one mailbox, \<^verbatim>\<open>web/components/company/grants.tsx\<close>: a form over a cached
  snapshot of the grants, pinned to the revision at which the member was chosen. A conflict, an
  unreadable answer and a completed save all hold further writes until the grants were read again.
\<close>

section \<open>Grants\<close>

record grant =
  gt_user :: string
  gt_read :: bool
  gt_organize :: bool
  gt_send :: bool
  gt_template_only :: bool

text \<open>A snapshot as the server sends it. Revisions are finite numbers.\<close>

record grant_snapshot =
  gs_revision :: rat
  gs_grants :: "grant list"

definition empty_grant :: grant where
  "empty_grant = \<lparr>gt_user = [], gt_read = False, gt_organize = False, gt_send = False, gt_template_only = False\<rparr>"

datatype grant_key = CanRead | CanOrganize | CanSend | TemplateOnly

text \<open>A checkbox and the boxes that follow it.\<close>

fun set_right :: "grant_key \<Rightarrow> bool \<Rightarrow> grant \<Rightarrow> grant" where
  "set_right CanRead b g = (if b then g\<lparr>gt_read := True\<rparr> else g\<lparr>gt_read := False, gt_organize := False\<rparr>)"
| "set_right CanOrganize b g = (if b then g\<lparr>gt_organize := True, gt_read := True\<rparr> else g\<lparr>gt_organize := False\<rparr>)"
| "set_right CanSend b g = (if b then g\<lparr>gt_send := True\<rparr> else g\<lparr>gt_send := False, gt_template_only := False\<rparr>)"
| "set_right TemplateOnly b g = (if b then g\<lparr>gt_template_only := True, gt_send := True\<rparr> else g\<lparr>gt_template_only := False\<rparr>)"

definition coherent :: "grant \<Rightarrow> bool" where
  "coherent g = ((gt_organize g \<longrightarrow> gt_read g) \<and> (gt_template_only g \<longrightarrow> gt_send g))"

definition put_grant_call :: "string \<Rightarrow> grant \<Rightarrow> rat \<Rightarrow> json option io" where
  "put_grant_call mailbox g revision = company (workPath mailbox @ ''/grants'')
     (with_body ''PUT'' (JObj [(''user_id'', JStr (gt_user g)), (''can_read'', JBool (gt_read g)),
       (''can_organize'', JBool (gt_organize g)), (''can_send'', JBool (gt_send g)),
       (''template_only'', JBool (gt_template_only g)), (''revision'', JNum (Fin revision))]))"

section \<open>State\<close>

text \<open>
  The running action: a reload with the minimum of its closure, its refresh, a write with its grant,
  revision and draft intent, the read that follows it, and the refresh after that.
\<close>

datatype grant_action = ReloadingGrants rat | ReloadRefresh rat | PuttingGrant grant rat nat | ReadingBack rat | SavedRefresh rat

datatype grant_entry = GrantsShown "rat option" bool | MemberChosen string "rat option" | PutGrant grant rat
  | Held rat | Reread rat | FormDropped | GrantEnded

text \<open>
  \<^verbatim>\<open>gr_current\<close>: the scope is still that of the session. \<^verbatim>\<open>gr_elsewhere\<close>: the action that the
  editor shares with the lifecycle form below it is running there. \<^verbatim>\<open>gr_intent\<close> is the identity of
  \<^verbatim>\<open>draftIntent.current\<close>.
\<close>

record grant_editor =
  gr_current :: bool
  gr_mounted :: bool
  gr_elsewhere :: bool
  gr_data :: "grant_snapshot option"
  gr_failed :: bool
  gr_loading :: bool
  gr_revision :: "rat option"
  gr_conflict :: "rat option"
  gr_saved :: "rat option"
  gr_review_error :: bool
  gr_intent :: nat
  gr_highest :: rat
  gr_grant :: grant
  gr_action :: "grant_action option"
  gr_log :: "grant_entry list"

definition open_grants :: grant_editor where
  "open_grants = \<lparr>gr_current = True, gr_mounted = True, gr_elsewhere = False, gr_data = None, gr_failed = False,
     gr_loading = True, gr_revision = None, gr_conflict = None, gr_saved = None, gr_review_error = False, gr_intent = 0,
     gr_highest = 0, gr_grant = empty_grant, gr_action = None, gr_log = []\<rparr>"

definition written :: "grant_entry \<Rightarrow> grant_editor \<Rightarrow> grant_editor" where
  "written x e = e\<lparr>gr_log := gr_log e @ [x]\<rparr>"

definition owns_grants :: "grant_editor \<Rightarrow> bool" where
  "owns_grants e = (gr_mounted e \<and> gr_current e)"

definition data_revision :: "grant_editor \<Rightarrow> rat option" where
  "data_revision e = map_option gs_revision (gr_data e)"

definition read_ready :: "grant_editor \<Rightarrow> bool" where
  "read_ready e = (gr_data e \<noteq> None \<and> \<not> gr_failed e \<and> \<not> gr_review_error e \<and> \<not> gr_loading e)"

definition grants_stale :: "grant_editor \<Rightarrow> bool" where
  "grants_stale e = (gr_conflict e \<noteq> None \<or> gr_saved e \<noteq> None \<or> (gr_revision e \<noteq> None \<and> data_revision e \<noteq> gr_revision e))"

text \<open>New data, and the layout effect that raises the highest revision seen.\<close>

definition show_data :: "grant_snapshot option \<Rightarrow> grant_editor \<Rightarrow> grant_editor" where
  "show_data d e = written (GrantsShown (map_option gs_revision d) (case d of Some s \<Rightarrow> list_all coherent (gs_grants s) | None \<Rightarrow> True))
     (e\<lparr>gr_data := d,
        gr_highest := (case d of Some s \<Rightarrow> if is_safe_integer (Fin (gs_revision s)) then max (gr_highest e) (gs_revision s)
          else gr_highest e | None \<Rightarrow> gr_highest e)\<rparr>)"

definition or_zero :: "rat option \<Rightarrow> rat" where
  "or_zero r = (case r of Some x \<Rightarrow> x | None \<Rightarrow> 0)"

section \<open>Operations\<close>

text \<open>
  \<^verbatim>\<open>readSnapshot\<close>: what an explicit read is accepted as; \<^const>\<open>None\<close> for an answer that is no
  snapshot. An accepted one becomes the cached data.
\<close>

definition accepted_read :: "rat \<Rightarrow> exn + grant_snapshot option \<Rightarrow> grant_editor \<Rightarrow> grant_snapshot option" where
  "accepted_read minimum result e =
     (case result of
        Inr (Some s) \<Rightarrow>
          if owns_grants e \<and> is_safe_integer (Fin (gs_revision s)) \<and> \<not> gs_revision s < max minimum (gr_highest e)
          then Some s else None
      | _ \<Rightarrow> None)"

definition select_member :: "string \<Rightarrow> grant_editor \<Rightarrow> grant_editor" where
  "select_member i e =
     (if \<not> gr_current e then e
      else let revision = (if read_ready e then data_revision e else None)
           in written (MemberChosen i revision)
             (e\<lparr>gr_intent := Suc (gr_intent e), gr_revision := revision,
                gr_grant := (case gr_data e of
                  Some s \<Rightarrow> (case find (\<lambda>g. gt_user g = i) (gs_grants s) of Some g \<Rightarrow> g | None \<Rightarrow> empty_grant\<lparr>gt_user := i\<rparr>)
                | None \<Rightarrow> empty_grant\<lparr>gt_user := i\<rparr>)\<rparr>))"

definition check_right :: "grant_key \<Rightarrow> bool \<Rightarrow> grant_editor \<Rightarrow> grant_editor" where
  "check_right k b e =
     (if \<not> gr_current e then e else e\<lparr>gr_intent := Suc (gr_intent e), gr_grant := set_right k b (gr_grant e)\<rparr>)"

definition reload_grants :: "grant_editor \<Rightarrow> grant_editor" where
  "reload_grants e =
     (if gr_action e \<noteq> None \<or> gr_elsewhere e \<or> \<not> owns_grants e then e
      else e\<lparr>gr_review_error := False, gr_action := Some (ReloadingGrants (max (or_zero (gr_revision e))
        (max (or_zero (gr_conflict e)) (max (or_zero (gr_saved e)) (max (or_zero (data_revision e)) (gr_highest e))))))\<rparr>)"

definition save_grant :: "grant_editor \<Rightarrow> grant_editor" where
  "save_grant e =
     (case gr_revision e of
        None \<Rightarrow> e
      | Some r \<Rightarrow>
          if gr_action e \<noteq> None \<or> gr_elsewhere e \<or> \<not> owns_grants e \<or> grants_stale e \<or> \<not> read_ready e \<or> gt_user (gr_grant e) = [] then e
          else written (PutGrant (gr_grant e) r) (e\<lparr>gr_action := Some (PuttingGrant (gr_grant e) r (gr_intent e))\<rparr>))"

definition drop_form :: "grant_editor \<Rightarrow> grant_editor" where
  "drop_form e = written FormDropped (e\<lparr>gr_intent := Suc (gr_intent e), gr_grant := empty_grant, gr_revision := None\<rparr>)"

definition end_reload :: "grant_editor \<Rightarrow> grant_editor" where
  "end_reload e = e\<lparr>gr_action := None\<rparr>"

definition end_put :: "grant_editor \<Rightarrow> grant_editor" where
  "end_put e = written GrantEnded (e\<lparr>gr_action := None\<rparr>)"

definition reload_failed :: "grant_editor \<Rightarrow> grant_editor" where
  "reload_failed e = end_reload (if owns_grants e then e\<lparr>gr_review_error := True\<rparr> else e)"

definition reloaded :: "rat \<Rightarrow> exn + grant_snapshot option \<Rightarrow> grant_editor \<Rightarrow> grant_editor" where
  "reloaded minimum result e =
     (case accepted_read minimum result e of
        Some s \<Rightarrow> (show_data (Some s) e)\<lparr>gr_failed := False, gr_action := Some (ReloadRefresh (gs_revision s))\<rparr>
      | None \<Rightarrow> reload_failed e)"

definition reload_refreshed :: "rat \<Rightarrow> exn + unit \<Rightarrow> grant_editor \<Rightarrow> grant_editor" where
  "reload_refreshed r result e =
     (case result of
        Inl x \<Rightarrow> reload_failed e
      | Inr _ \<Rightarrow>
          if owns_grants e
          then end_reload (written (Reread r) ((drop_form e)\<lparr>gr_conflict := None, gr_saved := None\<rparr>))
          else end_reload e)"

text \<open>A read of the body that fails after a successful status is a \<^verbatim>\<open>SyntaxError\<close>.\<close>

definition put_failed :: "rat \<Rightarrow> exn \<Rightarrow> grant_editor \<Rightarrow> grant_editor" where
  "put_failed r x e =
     (if \<not> owns_grants e then end_put e
      else if x = Err ''SyntaxError'' then end_put (written (Held r) (e\<lparr>gr_conflict := Some r, gr_review_error := True\<rparr>))
      else if isConflict x then end_put (written (Held r) (e\<lparr>gr_conflict := Some r\<rparr>))
      else end_put e)"

definition put_done :: "rat \<Rightarrow> nat \<Rightarrow> grant_editor \<Rightarrow> grant_editor" where
  "put_done r n e =
     (if \<not> owns_grants e then end_put e
      else let m = max (r + 1) (gr_highest e); e' = written (Held m) (e\<lparr>gr_saved := Some m\<rparr>)
           in (end_put (if gr_intent e = n then drop_form e' else e'))\<lparr>gr_action := Some (ReadingBack m)\<rparr>)"

definition read_back_failed :: "grant_editor \<Rightarrow> grant_editor" where
  "read_back_failed e = (if owns_grants e then e\<lparr>gr_review_error := True\<rparr> else e)\<lparr>gr_action := None\<rparr>"

definition read_back :: "rat \<Rightarrow> exn + grant_snapshot option \<Rightarrow> grant_editor \<Rightarrow> grant_editor" where
  "read_back minimum result e =
     (case accepted_read minimum result e of
        Some s \<Rightarrow> (show_data (Some s) e)\<lparr>gr_failed := False, gr_action := Some (SavedRefresh (gs_revision s))\<rparr>
      | None \<Rightarrow> read_back_failed e)"

definition saved_refreshed :: "rat \<Rightarrow> exn + unit \<Rightarrow> grant_editor \<Rightarrow> grant_editor" where
  "saved_refreshed r result e =
     (case result of
        Inl x \<Rightarrow> read_back_failed e
      | Inr _ \<Rightarrow>
          if owns_grants e then written (Reread r) (e\<lparr>gr_saved := None, gr_review_error := False, gr_action := None\<rparr>)
          else e\<lparr>gr_action := None\<rparr>)"

datatype grant_event = GrantSessionLeft | GrantUnmounted | ActionElsewhere bool | GrantsRead "grant_snapshot option" bool bool
  | MemberSelected string | RightChecked grant_key bool | ReloadClicked | SaveGrant
  | GrantsAnswered "exn + grant_snapshot option" | GrantRefreshed "exn + unit" | GrantPut "exn + unit"

fun grant_step :: "grant_editor \<Rightarrow> grant_event \<Rightarrow> grant_editor" where
  "grant_step e GrantSessionLeft = e\<lparr>gr_current := False\<rparr>"
| "grant_step e GrantUnmounted = e\<lparr>gr_mounted := False\<rparr>"
| "grant_step e (ActionElsewhere b) = (if gr_action e = None then e\<lparr>gr_elsewhere := b\<rparr> else e)"
| "grant_step e (GrantsRead d failed loading) = (show_data d e)\<lparr>gr_failed := failed, gr_loading := loading\<rparr>"
| "grant_step e (MemberSelected i) = (if gr_mounted e then select_member i e else e)"
| "grant_step e (RightChecked k b) = (if gr_mounted e then check_right k b e else e)"
| "grant_step e ReloadClicked = (if gr_mounted e then reload_grants e else e)"
| "grant_step e SaveGrant = (if gr_mounted e then save_grant e else e)"
| "grant_step e (GrantsAnswered result) =
     (case gr_action e of
        Some (ReloadingGrants m) \<Rightarrow> reloaded m result e
      | Some (ReadingBack m) \<Rightarrow> read_back m result e
      | _ \<Rightarrow> e)"
| "grant_step e (GrantRefreshed result) =
     (case gr_action e of
        Some (ReloadRefresh r) \<Rightarrow> reload_refreshed r result e
      | Some (SavedRefresh r) \<Rightarrow> saved_refreshed r result e
      | _ \<Rightarrow> e)"
| "grant_step e (GrantPut result) =
     (case gr_action e of
        Some (PuttingGrant g r n) \<Rightarrow> (case result of Inl x \<Rightarrow> put_failed r x e | Inr _ \<Rightarrow> put_done r n e)
      | _ \<Rightarrow> e)"


section \<open>The protocol\<close>

text \<open>
  The state is the revision on the screen, the chosen member with the revision it was read at, the least
  revision a read must show before another write, whether a write is open, and whether every row the
  server sent was coherent.
\<close>

record grant_state =
  gp_shown :: "rat option"
  gp_member :: "string \<times> rat option"
  gp_floor :: "rat option"
  gp_open :: bool
  gp_coherent :: bool

fun grant_protocol :: "grant_state \<Rightarrow> grant_entry \<Rightarrow> grant_state option" where
  "grant_protocol z (GrantsShown r ok) = Some (z\<lparr>gp_shown := r, gp_coherent := (gp_coherent z \<and> ok)\<rparr>)"
| "grant_protocol z (MemberChosen i r) = Some (z\<lparr>gp_member := (i, r)\<rparr>)"
| "grant_protocol z (PutGrant g r) =
     (if \<not> gp_open z \<and> gp_floor z = None \<and> gp_shown z = Some r \<and> gp_member z = (gt_user g, Some r) \<and> gt_user g \<noteq> [] \<and>
         (gp_coherent z \<longrightarrow> coherent g)
      then Some (z\<lparr>gp_open := True\<rparr>) else None)"
| "grant_protocol z (Held m) = (if gp_open z then Some (z\<lparr>gp_floor := Some m\<rparr>) else None)"
| "grant_protocol z (Reread r) =
     (if \<not> gp_open z \<and> (case gp_floor z of Some m \<Rightarrow> m \<le> r | None \<Rightarrow> True) then Some (z\<lparr>gp_floor := None\<rparr>) else None)"
| "grant_protocol z FormDropped = Some (z\<lparr>gp_member := ([], None)\<rparr>)"
| "grant_protocol z GrantEnded = (if gp_open z then Some (z\<lparr>gp_open := False\<rparr>) else None)"

section \<open>The editor follows the protocol\<close>

fun hold :: "rat option \<Rightarrow> rat option \<Rightarrow> rat option" where
  "hold None s = s"
| "hold c None = c"
| "hold (Some a) (Some b) = Some (max a b)"

fun below :: "rat option \<Rightarrow> rat \<Rightarrow> bool" where
  "below None r \<longleftrightarrow> True"
| "below (Some m) r \<longleftrightarrow> m \<le> r"

fun grant_action_ok :: "rat option \<Rightarrow> rat option \<Rightarrow> grant_action option \<Rightarrow> bool" where
  "grant_action_ok c s (Some (ReloadingGrants m)) \<longleftrightarrow> below (hold c s) m"
| "grant_action_ok c s (Some (ReloadRefresh r)) \<longleftrightarrow> below (hold c s) r"
| "grant_action_ok c s (Some (PuttingGrant g r n)) \<longleftrightarrow> hold c s = None"
| "grant_action_ok c s (Some (ReadingBack m)) \<longleftrightarrow> c = None \<and> s = Some m"
| "grant_action_ok c s (Some (SavedRefresh r)) \<longleftrightarrow> c = None \<and> below s r"
| "grant_action_ok c s None \<longleftrightarrow> True"

fun putting :: "grant_action option \<Rightarrow> bool" where
  "putting (Some (PuttingGrant g r n)) \<longleftrightarrow> True"
| "putting _ \<longleftrightarrow> False"

definition grant_sim :: "grant_state \<Rightarrow> grant_editor \<Rightarrow> bool" where
  "grant_sim z e \<longleftrightarrow> gp_shown z = data_revision e \<and> gp_member z = (gt_user (gr_grant e), gr_revision e) \<and>
     gp_floor z = hold (gr_conflict e) (gr_saved e) \<and> gp_open z = putting (gr_action e) \<and>
     grant_action_ok (gr_conflict e) (gr_saved e) (gr_action e) \<and>
     (gp_coherent z \<longrightarrow> coherent (gr_grant e)) \<and>
     (gp_coherent z \<longrightarrow> (\<forall>s. gr_data e = Some s \<longrightarrow> list_all coherent (gs_grants s)))"

abbreviation grants_traced :: "grant_state \<Rightarrow> grant_editor \<Rightarrow> grant_editor \<Rightarrow> bool" where
  "grants_traced \<equiv> traced gr_log grant_protocol grant_sim"

lemmas grant_simps = grant_sim_def written_def data_revision_def

lemma set_right_coherent: "coherent g \<Longrightarrow> coherent (set_right k b g)"
  by (cases k) (auto simp: coherent_def)

lemma set_right_user [simp]: "gt_user (set_right k b g) = gt_user g"
  by (cases k) auto

lemma empty_coherent [simp]: "coherent empty_grant" "coherent (empty_grant\<lparr>gt_user := i\<rparr>)"
  by (simp_all add: coherent_def empty_grant_def)

lemma hold_below:
  assumes "or_zero c \<le> m" "or_zero s \<le> m"
  shows "below (hold c s) m"
  using assms by (cases c; cases s) (simp_all add: or_zero_def)

lemma show_data_traced:
  assumes "grant_sim z e" "gr_log q = gr_log (show_data d e)" "gr_data q = d" "gr_grant q = gr_grant e"
    "gr_revision q = gr_revision e" "gr_conflict q = gr_conflict e" "gr_saved q = gr_saved e"
    "grant_action_ok (gr_conflict e) (gr_saved e) (gr_action q)" "putting (gr_action q) = putting (gr_action e)"
  shows "grants_traced z e q"
  by (rule traced_one[of gr_log _ _ "GrantsShown (map_option gs_revision d)
      (case d of Some s \<Rightarrow> list_all coherent (gs_grants s) | None \<Rightarrow> True)"])
    (use assms in \<open>auto simp: show_data_def grant_simps\<close>)

lemma grants_quiet:
  assumes "grant_sim z e" "gr_log e' = gr_log e" "grant_sim z e'"
  shows "grants_traced z e e'"
  using assms(2,3) by (rule traced_quiet)

lemma select_traced:
  assumes "grant_sim z e" shows "grants_traced z e (select_member i e)"
proof (cases "gr_current e")
  case True
  have m: "gt_user (gr_grant (select_member i e)) = i"
    using True by (auto simp: select_member_def written_def Let_def dest: find_Some_mem split: option.split)
  have c: "gp_coherent z \<longrightarrow> coherent (gr_grant (select_member i e))"
    using True assms
    by (auto simp: select_member_def grant_simps Let_def list_all_iff dest!: find_Some_mem split: option.split)
  show ?thesis
    by (rule traced_one[of gr_log _ _ "MemberChosen i (if read_ready e then data_revision e else None)"])
      (use True assms m c in \<open>auto simp: select_member_def grant_simps Let_def\<close>)
qed (simp add: select_member_def grants_quiet[OF assms _ assms])

lemma check_traced:
  assumes "grant_sim z e" shows "grants_traced z e (check_right k b e)"
  by (rule grants_quiet[OF assms]) (use assms in \<open>auto simp: check_right_def grant_simps set_right_coherent\<close>)

lemma reload_traced:
  assumes "grant_sim z e" shows "grants_traced z e (reload_grants e)"
proof (rule grants_quiet[OF assms])
  have "below (hold (gr_conflict e) (gr_saved e)) (max (or_zero (gr_revision e))
        (max (or_zero (gr_conflict e)) (max (or_zero (gr_saved e)) (max (or_zero (data_revision e)) (gr_highest e)))))"
    by (rule hold_below) (simp_all add: le_max_iff_disj)
  then show "grant_sim z (reload_grants e)"
    using assms by (simp add: reload_grants_def grant_sim_def data_revision_def)
qed (simp add: reload_grants_def)

lemma save_traced:
  assumes "grant_sim z e" shows "grants_traced z e (save_grant e)"
proof (cases "save_grant e = e")
  case False
  then obtain r where r: "gr_revision e = Some r"
    and g: "gr_action e = None" "\<not> grants_stale e" "gt_user (gr_grant e) \<noteq> []"
    by (auto simp: save_grant_def split: option.splits if_splits)
  then have s: "gr_conflict e = None" "gr_saved e = None" "data_revision e = Some r"
    by (auto simp: grants_stale_def)
  have "save_grant e = written (PutGrant (gr_grant e) r) (e\<lparr>gr_action := Some (PuttingGrant (gr_grant e) r (gr_intent e))\<rparr>)"
    using False r by (auto simp: save_grant_def split: if_splits)
  then show ?thesis
    by (intro traced_one[of gr_log _ _ "PutGrant (gr_grant e) r"]) (use r g s assms in \<open>auto simp: grant_simps\<close>)
qed (simp add: grants_quiet[OF assms _ assms])

lemma end_put_traced:
  assumes "grant_sim z e" "putting (gr_action e)" "grant_action_ok (gr_conflict e) (gr_saved e) a" "\<not> putting a"
  shows "grants_traced z e ((end_put e)\<lparr>gr_action := a\<rparr>)"
  by (rule traced_one[of gr_log _ _ GrantEnded]) (use assms in \<open>auto simp: end_put_def grant_simps\<close>)

lemma end_put_idle: "(end_put e)\<lparr>gr_action := None\<rparr> = end_put e"
  by (rule grant_editor.equality) (simp_all add: end_put_def written_def)

text \<open>The answer of a write raises the floor and closes the write in one go.\<close>

lemma held_traced:
  assumes "grant_sim z e" "putting (gr_action e)" "gr_data q = gr_data e" "gr_grant q = gr_grant e"
    "gr_revision q = gr_revision e" "gr_log q = gr_log e" "hold (gr_conflict q) (gr_saved q) = Some m"
    "grant_action_ok (gr_conflict q) (gr_saved q) a" "\<not> putting a"
  shows "grants_traced z e ((end_put (written (Held m) q))\<lparr>gr_action := a\<rparr>)"
    "grants_traced z e ((end_put (drop_form (written (Held m) q)))\<lparr>gr_action := a\<rparr>)"
proof -
  show "grants_traced z e ((end_put (written (Held m) q))\<lparr>gr_action := a\<rparr>)"
    unfolding traced_def
    by (rule exI[of _ "[Held m, GrantEnded]"], rule exI[of _ "z\<lparr>gp_floor := Some m, gp_open := False\<rparr>"])
      (use assms in \<open>auto simp: end_put_def grant_simps\<close>)
  show "grants_traced z e ((end_put (drop_form (written (Held m) q)))\<lparr>gr_action := a\<rparr>)"
    unfolding traced_def
    by (rule exI[of _ "[Held m, FormDropped, GrantEnded]"],
        rule exI[of _ "z\<lparr>gp_floor := Some m, gp_open := False, gp_member := ([], None)\<rparr>"])
      (use assms in \<open>auto simp: end_put_def drop_form_def grant_simps\<close>, simp_all add: empty_grant_def)
qed

lemma put_idle:
  assumes "grant_sim z e" "gr_action e = Some (PuttingGrant g r n)"
  shows "gr_conflict e = None" "gr_saved e = None" "putting (gr_action e)"
  using assms by (auto simp: grant_sim_def elim: hold.elims)

lemma put_failed_traced:
  assumes sim: "grant_sim z e" and a: "gr_action e = Some (PuttingGrant g r n)"
  shows "grants_traced z e (put_failed r x e)"
proof -
  note h = put_idle[OF sim a]
  have keep: "grants_traced z e (end_put e)"
    using end_put_traced[OF sim h(3), of None] by (simp add: end_put_idle)
  have held: "grants_traced z e (end_put (written (Held r) q))"
    if "gr_data q = gr_data e" "gr_grant q = gr_grant e" "gr_revision q = gr_revision e" "gr_log q = gr_log e"
      "gr_conflict q = Some r" "gr_saved q = None" for q
    using held_traced(1)[OF sim h(3) that(1-4), of r None] that by (simp add: end_put_idle)
  have "grants_traced z e (end_put (written (Held r) (e\<lparr>gr_conflict := Some r, gr_review_error := True\<rparr>)))"
    "grants_traced z e (end_put (written (Held r) (e\<lparr>gr_conflict := Some r\<rparr>)))"
    by (rule held; simp add: h)+
  with keep show ?thesis by (simp add: put_failed_def)
qed

lemma put_done_traced:
  assumes sim: "grant_sim z e" and a: "gr_action e = Some (PuttingGrant g r n)"
  shows "grants_traced z e (put_done r n e)"
proof -
  note h = put_idle[OF sim a]
  let ?m = "max (r + 1) (gr_highest e)"
  let ?q = "e\<lparr>gr_saved := Some ?m\<rparr>"
  have keep: "grants_traced z e (end_put e)"
    using end_put_traced[OF sim h(3), of None] by (simp add: end_put_idle)
  have "grants_traced z e ((end_put (written (Held ?m) ?q))\<lparr>gr_action := Some (ReadingBack ?m)\<rparr>)"
    "grants_traced z e ((end_put (drop_form (written (Held ?m) ?q)))\<lparr>gr_action := Some (ReadingBack ?m)\<rparr>)"
    by (rule held_traced[OF sim h(3)]; simp add: h)+
  with keep show ?thesis by (simp add: put_done_def Let_def)
qed

lemma accepted_bounds:
  assumes "accepted_read m result e = Some s"
  shows "m \<le> gs_revision s"
  using assms by (auto simp: accepted_read_def split: sum.splits option.splits if_splits)

lemma reload_failed_traced:
  assumes "grant_sim z e" "\<not> putting (gr_action e)"
  shows "grants_traced z e (reload_failed e)" "grants_traced z e (read_back_failed e)" "grants_traced z e (end_reload e)"
  by (rule grants_quiet[OF assms(1)];
      use assms in \<open>simp add: reload_failed_def read_back_failed_def end_reload_def grant_simps\<close>)+

lemma below_trans: "below c m \<Longrightarrow> m \<le> r \<Longrightarrow> below c r"
  by (cases c) simp_all

lemma reloaded_traced:
  assumes sim: "grant_sim z e" and a: "gr_action e = Some (ReloadingGrants m)"
  shows "grants_traced z e (reloaded m result e)"
proof (cases "accepted_read m result e")
  case (Some s)
  have "below (hold (gr_conflict e) (gr_saved e)) (gs_revision s)"
    using sim a accepted_bounds[OF Some] by (auto simp: grant_sim_def intro: below_trans)
  then show ?thesis
    by (intro show_data_traced[OF sim, of _ "Some s"]) (simp_all add: reloaded_def Some show_data_def written_def a)
qed (simp add: reloaded_def reload_failed_traced sim a)

lemma read_back_traced:
  assumes sim: "grant_sim z e" and a: "gr_action e = Some (ReadingBack m)"
  shows "grants_traced z e (read_back m result e)"
proof (cases "accepted_read m result e")
  case (Some s)
  have "gr_conflict e = None" "below (gr_saved e) (gs_revision s)"
    using sim a accepted_bounds[OF Some] by (auto simp: grant_sim_def)
  then show ?thesis
    by (intro show_data_traced[OF sim, of _ "Some s"]) (simp_all add: read_back_def Some show_data_def written_def a)
qed (simp add: read_back_def reload_failed_traced sim a)

lemma reload_refreshed_traced:
  assumes sim: "grant_sim z e" and a: "gr_action e = Some (ReloadRefresh r)"
  shows "grants_traced z e (reload_refreshed r result e)"
proof (cases "isl result \<or> \<not> owns_grants e")
  case True
  then show ?thesis using reload_failed_traced[OF sim] a
    by (auto simp: reload_refreshed_def split: sum.split)
next
  case False
  have "below (hold (gr_conflict e) (gr_saved e)) r" using sim a by (simp add: grant_sim_def)
  then have f: "case hold (gr_conflict e) (gr_saved e) of Some m \<Rightarrow> m \<le> r | None \<Rightarrow> True"
    by (cases "hold (gr_conflict e) (gr_saved e)") simp_all
  have "grants_traced z e (end_reload (written (Reread r) ((drop_form e)\<lparr>gr_conflict := None, gr_saved := None\<rparr>)))"
    unfolding traced_def
    by (rule exI[of _ "[FormDropped, Reread r]"], rule exI[of _ "z\<lparr>gp_member := ([], None), gp_floor := None\<rparr>"])
      (use f sim a in \<open>simp add: end_reload_def drop_form_def grant_simps empty_grant_def\<close>,
       simp add: empty_grant_def coherent_def)
  then show ?thesis using False by (auto simp: reload_refreshed_def split: sum.split)
qed

lemma saved_refreshed_traced:
  assumes sim: "grant_sim z e" and a: "gr_action e = Some (SavedRefresh r)"
  shows "grants_traced z e (saved_refreshed r result e)"
proof (cases "isl result \<or> \<not> owns_grants e")
  case True
  then show ?thesis using reload_failed_traced[OF sim] a
    by (auto simp: saved_refreshed_def end_reload_def split: sum.split)
next
  case False
  have c: "gr_conflict e = None" and b: "below (gr_saved e) r" using sim a by (simp_all add: grant_sim_def)
  then have f: "case gr_saved e of Some m \<Rightarrow> m \<le> r | None \<Rightarrow> True" by (cases "gr_saved e") simp_all
  have "grants_traced z e (written (Reread r) (e\<lparr>gr_saved := None, gr_review_error := False, gr_action := None\<rparr>))"
    by (rule traced_one[of gr_log _ _ "Reread r" _ _ "z\<lparr>gp_floor := None\<rparr>"])
      (use c f sim a in \<open>simp_all add: grant_simps\<close>)
  then show ?thesis using False by (auto simp: saved_refreshed_def split: sum.split)
qed

lemma grant_step_traced:
  assumes sim: "grant_sim z e"
  shows "grants_traced z e (grant_step e v)"
proof (cases v)
  case (GrantsRead d failed loading)
  show ?thesis unfolding GrantsRead grant_step.simps
    by (rule show_data_traced[OF sim, of _ d]) (use sim in \<open>simp_all add: show_data_def written_def grant_sim_def\<close>)
next
  case (GrantsAnswered result)
  then show ?thesis using sim
    by (auto intro: reloaded_traced read_back_traced simp: traced_quiet split: option.split grant_action.split)
next
  case (GrantRefreshed result)
  then show ?thesis using sim
    by (auto intro: reload_refreshed_traced saved_refreshed_traced simp: traced_quiet split: option.split grant_action.split)
next
  case (GrantPut result)
  then show ?thesis using sim
    by (auto intro: put_failed_traced put_done_traced simp: traced_quiet split: option.split grant_action.split sum.split)
next
  case (ActionElsewhere b)
  show ?thesis unfolding ActionElsewhere
    by (rule grants_quiet[OF sim]) (use sim in \<open>simp_all add: grant_sim_def data_revision_def\<close>)
next
  case GrantSessionLeft
  show ?thesis unfolding GrantSessionLeft
    by (rule grants_quiet[OF sim]) (use sim in \<open>simp_all add: grant_sim_def data_revision_def\<close>)
next
  case GrantUnmounted
  show ?thesis unfolding GrantUnmounted
    by (rule grants_quiet[OF sim]) (use sim in \<open>simp_all add: grant_sim_def data_revision_def\<close>)
qed (simp_all add: sim traced_quiet select_traced check_traced reload_traced save_traced)

interpretation grants: simulation grant_step gr_log grant_protocol grant_sim
  by unfold_locales (rule grant_step_traced)

definition blank_grants :: grant_state where
  "blank_grants = \<lparr>gp_shown = None, gp_member = ([], None), gp_floor = None, gp_open = False, gp_coherent = True\<rparr>"

lemma open_grants_sim: "grant_sim blank_grants open_grants"
  by (simp add: grant_sim_def data_revision_def open_grants_def blank_grants_def) (simp add: empty_grant_def)

text \<open>
  C14: In every run of the grant editor: a grant is saved only for a member that was chosen from the snapshot
  still on the screen, with exactly its revision, one write at a time; after a conflict, an unreadable
  answer or a completed save nothing is saved before an explicit read showed a revision that is high enough;
  and as long as the server's rows are coherent, so is every saved grant: whoever may organize may read,
  whoever is held to templates may send.
\<close>

theorem grants_saved_as_reviewed:
  "\<exists>z. accepts grant_protocol blank_grants (gr_log (foldl grant_step open_grants es)) = Some z \<and>
       gp_floor z = hold (gr_conflict (foldl grant_step open_grants es)) (gr_saved (foldl grant_step open_grants es))"
proof -
  have "gr_log open_grants = []" by (simp add: open_grants_def)
  from grants.run_accepted[OF open_grants_sim this, of es] show ?thesis
    by (metis grant_sim_def)
qed

text \<open>
  A run: after a save the form is held until the read that follows shows the next revision, and ticking
  \<^verbatim>\<open>Organize\<close> ticks \<^verbatim>\<open>Read\<close>.
\<close>

lemma sample_grants:
  "gr_log (foldl grant_step open_grants
     [GrantsRead (Some \<lparr>gs_revision = 3, gs_grants = []\<rparr>) False False, MemberSelected ''u1'', RightChecked CanOrganize True,
      SaveGrant, GrantPut (Inr ()), GrantsAnswered (Inr (Some \<lparr>gs_revision = 3, gs_grants = []\<rparr>)), MemberSelected ''u2'', SaveGrant]) =
   [GrantsShown (Some 3) True, MemberChosen ''u1'' (Some 3),
    PutGrant \<lparr>gt_user = ''u1'', gt_read = True, gt_organize = True, gt_send = False, gt_template_only = False\<rparr> 3,
    Held 4, FormDropped, GrantEnded, MemberChosen ''u2'' None]"
  by code_simp

end
