(* ===== verification/Lifecycle.thy ===== *)
theory Lifecycle
  imports Offboarding
begin

text \<open>
  The lifecycle form of a mailbox, \<^verbatim>\<open>web/components/company/mailbox-lifecycle.tsx\<close>: a personal mailbox
  is handed over to another member, a legacy one becomes shared. Neither can be undone from here, so after
  every attempt, whatever it answered, the mailbox has to be read again and acknowledged.
\<close>

section \<open>Mailboxes\<close>

text \<open>The fields of a \<^verbatim>\<open>WorkMailbox\<close> that the form reads. Revisions are finite numbers.\<close>

record box =
  bx_id :: string
  bx_tenant :: string
  bx_address :: "string option"
  bx_revision :: rat
  bx_kind :: "string option"
  bx_owner :: "string option"

definition validSnapshot :: "box \<Rightarrow> string \<Rightarrow> string \<Rightarrow> bool" where
  "validSnapshot b i tenant =
     (bx_id b = i \<and> bx_tenant b = tenant \<and> bx_address b \<noteq> None \<and> bx_address b \<noteq> Some [] \<and>
      is_safe_integer (Fin (bx_revision b)) \<and> bx_revision b > 0 \<and>
      bx_kind b \<in> {Some ''personal'', Some ''legacy'', Some ''shared''} \<and>
      (bx_kind b \<noteq> Some ''personal'' \<or> (bx_owner b \<noteq> None \<and> bx_owner b \<noteq> Some [])))"

type_synonym box_signature = "string \<times> string \<times> rat \<times> string option \<times> string option"

definition box_signature :: "box \<Rightarrow> box_signature" where
  "box_signature b = (bx_id b, bx_tenant b, bx_revision b, bx_kind b, bx_owner b)"

definition handover_call :: "string \<Rightarrow> string \<Rightarrow> rat \<Rightarrow> string \<Rightarrow> json option io" where
  "handover_call i owner revision reason = company (workPath i @ ''/handover'')
     (post (JObj [(''owner_user_id'', JStr owner), (''revision'', JNum (Fin revision)), (''reason'', JStr reason)]))"

definition convert_call :: "string \<Rightarrow> rat \<Rightarrow> string \<Rightarrow> json option io" where
  "convert_call i revision reason = company (workPath i @ ''/convert-shared'')
     (post (JObj [(''revision'', JNum (Fin revision)), (''reason'', JStr reason)]))"

section \<open>State\<close>

text \<open>
  The running action: a reload with the observation, the draft intent and the minimum of its closure, a
  submission with its mailbox and draft intent, and the refresh that follows a success.
\<close>

datatype lifecycle_action = Rereading nat nat rat | Changing box nat | RefreshingBoxes

datatype lifecycle_entry = RowShown "rat option" | ReviewDemanded | BoxReviewed rat | Acknowledged bool
  | HandoverSent box string string | ConvertSent box string | ChangeDone rat | ChangeEnded | ChangeAbandoned

text \<open>
  The form belongs to one mailbox and one company. \<^verbatim>\<open>lf_observation\<close> carries the identity of the
  observation, which is also that of \<^verbatim>\<open>committed.current\<close>; \<^verbatim>\<open>lf_elsewhere\<close>: the action that is
  shared with the grant editor is running there.
\<close>

record lifecycle =
  lf_current :: bool
  lf_mounted :: bool
  lf_elsewhere :: bool
  lf_id :: string
  lf_tenant :: string
  lf_mailbox :: box
  lf_employees :: "employee list"
  lf_snapshot :: box
  lf_dirty :: bool
  lf_next_owner :: string
  lf_reason :: string
  lf_review :: bool
  lf_reviewed :: bool
  lf_acknowledged :: bool
  lf_completed :: bool
  lf_read_error :: bool
  lf_highest :: rat
  lf_observation :: "nat \<times> box_signature"
  lf_intent :: nat
  lf_action :: "lifecycle_action option"
  lf_log :: "lifecycle_entry list"

definition wrote :: "lifecycle_entry \<Rightarrow> lifecycle \<Rightarrow> lifecycle" where
  "wrote x f = f\<lparr>lf_log := lf_log f @ [x]\<rparr>"

definition observed_revision :: "lifecycle \<Rightarrow> rat option" where
  "observed_revision f =
     (if validSnapshot (lf_mailbox f) (lf_id f) (lf_tenant f) then Some (bx_revision (lf_mailbox f)) else None)"

definition minimum_revision :: "lifecycle \<Rightarrow> rat" where
  "minimum_revision f = max (lf_highest f) (case observed_revision f of Some r \<Rightarrow> r | None \<Rightarrow> 0)"

definition current_box :: "lifecycle \<Rightarrow> box" where
  "current_box f = (if lf_dirty f then lf_snapshot f else lf_mailbox f)"

definition box_stale :: "lifecycle \<Rightarrow> bool" where
  "box_stale f =
     (\<not> validSnapshot (current_box f) (lf_id f) (lf_tenant f) \<or> bx_revision (current_box f) < minimum_revision f \<or>
      (bx_revision (lf_mailbox f) = bx_revision (current_box f) \<and>
       box_signature (lf_mailbox f) \<noteq> box_signature (current_box f)))"

text \<open>A render raises the highest revision, demands a review of an edited form that is stale, and observes.\<close>

definition raise_highest :: "lifecycle \<Rightarrow> lifecycle" where
  "raise_highest f = f\<lparr>lf_highest := minimum_revision f\<rparr>"

definition demand_review :: "lifecycle \<Rightarrow> lifecycle" where
  "demand_review f =
     (if lf_dirty f \<and> box_stale f \<and> \<not> lf_review f then wrote ReviewDemanded (f\<lparr>lf_review := True\<rparr>) else f)"

definition observe :: "lifecycle \<Rightarrow> lifecycle" where
  "observe f =
     (if snd (lf_observation f) = box_signature (lf_mailbox f) then f
      else f\<lparr>lf_observation := (Suc (fst (lf_observation f)), box_signature (lf_mailbox f))\<rparr>)"

definition render_lifecycle :: "lifecycle \<Rightarrow> lifecycle" where
  "render_lifecycle f = observe (demand_review (raise_highest f))"

definition open_lifecycle :: "box \<Rightarrow> string \<Rightarrow> employee list \<Rightarrow> lifecycle" where
  "open_lifecycle b tenant employees =
     (let f = \<lparr>lf_current = True, lf_mounted = True, lf_elsewhere = False, lf_id = bx_id b, lf_tenant = tenant, lf_mailbox = b,
            lf_employees = employees, lf_snapshot = b, lf_dirty = False, lf_next_owner = [], lf_reason = [], lf_review = False,
            lf_reviewed = False, lf_acknowledged = False, lf_completed = False, lf_read_error = False, lf_highest = 0,
            lf_observation = (0, box_signature b), lf_intent = 0, lf_action = None, lf_log = []\<rparr>
      in raise_highest f)"

definition owns_box :: "lifecycle \<Rightarrow> bool" where
  "owns_box f = (lf_mounted f \<and> lf_current f)"

definition eligible :: "lifecycle \<Rightarrow> employee list" where
  "eligible f = filter (\<lambda>u. em_is_active u \<and> em_tenant_id u = lf_tenant f \<and> Some (em_id u) \<noteq> bx_owner (current_box f))
     (lf_employees f)"

definition personal :: "box \<Rightarrow> bool" where
  "personal b = (bx_kind b = Some ''personal'')"

definition actionable :: "box \<Rightarrow> bool" where
  "actionable b = (personal b \<or> bx_kind b = Some ''legacy'')"

definition canSubmit :: "lifecycle \<Rightarrow> bool" where
  "canSubmit f =
     (actionable (current_box f) \<and> lf_action f = None \<and> \<not> lf_elsewhere f \<and> \<not> box_stale f \<and> \<not> lf_review f \<and>
      (\<not> lf_reviewed f \<or> lf_acknowledged f) \<and> 8 \<le> length (js_trim (lf_reason f)) \<and>
      (\<not> personal (current_box f) \<or> list_ex (\<lambda>u. em_id u = lf_next_owner f) (eligible f)))"

text \<open>The section is rendered while there is something to do or to review.\<close>

definition section_shown :: "lifecycle \<Rightarrow> bool" where
  "section_shown f = (lf_mounted f \<and> (actionable (current_box f) \<or> lf_review f \<or> lf_completed f))"

section \<open>Operations\<close>

definition edit_lifecycle :: "(lifecycle \<Rightarrow> lifecycle) \<Rightarrow> lifecycle \<Rightarrow> lifecycle" where
  "edit_lifecycle change f =
     (if \<not> lf_current f then f
      else change (f\<lparr>lf_intent := Suc (lf_intent f), lf_snapshot := current_box f, lf_dirty := True\<rparr>))"

definition reload_box :: "lifecycle \<Rightarrow> lifecycle" where
  "reload_box f =
     (if lf_action f \<noteq> None \<or> lf_elsewhere f \<or> \<not> owns_box f then f
      else wrote ReviewDemanded (f\<lparr>lf_read_error := False, lf_review := True, lf_acknowledged := False,
        lf_action := Some (Rereading (fst (lf_observation f)) (lf_intent f) (minimum_revision f))\<rparr>))"

text \<open>\<^const>\<open>None\<close> for an answer that is no array.\<close>

definition fresh_box :: "lifecycle \<Rightarrow> rat \<Rightarrow> box list option \<Rightarrow> box option" where
  "fresh_box f minimum boxes =
     (case filter (\<lambda>b. bx_id b = lf_id f) (case boxes of Some bs \<Rightarrow> bs | None \<Rightarrow> []) of
        [b] \<Rightarrow> if validSnapshot b (lf_id f) (lf_tenant f) \<and> \<not> bx_revision b < minimum then Some b else None
      | _ \<Rightarrow> None)"

definition reread :: "nat \<Rightarrow> nat \<Rightarrow> rat \<Rightarrow> exn + box list option \<Rightarrow> lifecycle \<Rightarrow> lifecycle" where
  "reread observation draft minimum result f =
     (let f = f\<lparr>lf_action := None\<rparr>;
          failed = (if owns_box f then f\<lparr>lf_read_error := True\<rparr> else f)
      in case result of
           Inl e \<Rightarrow> failed
         | Inr boxes \<Rightarrow>
             if \<not> owns_box f then f
             else if observation \<noteq> fst (lf_observation f) \<or> draft \<noteq> lf_intent f then failed
             else case fresh_box f minimum boxes of
               None \<Rightarrow> failed
             | Some b \<Rightarrow> wrote (BoxReviewed (bx_revision b))
                 (f\<lparr>lf_snapshot := b, lf_highest := bx_revision b, lf_dirty := True, lf_review := False, lf_reviewed := True,
                    lf_completed := False, lf_next_owner := (if bx_owner b = Some (lf_next_owner f) then [] else lf_next_owner f)\<rparr>))"

definition submit_change :: "lifecycle \<Rightarrow> lifecycle" where
  "submit_change f =
     (if \<not> owns_box f \<or> \<not> canSubmit f then f
      else wrote (if personal (current_box f) then HandoverSent (current_box f) (lf_next_owner f) (lf_reason f)
                  else ConvertSent (current_box f) (lf_reason f))
        (f\<lparr>lf_read_error := False, lf_action := Some (Changing (current_box f) (lf_intent f))\<rparr>))"

definition change_answered :: "box \<Rightarrow> nat \<Rightarrow> exn + unit \<Rightarrow> lifecycle \<Rightarrow> lifecycle" where
  "change_answered b draft result f =
     (if \<not> owns_box f then wrote ChangeAbandoned (f\<lparr>lf_action := None\<rparr>)
      else let g = wrote ReviewDemanded (f\<lparr>lf_snapshot := b, lf_dirty := True, lf_review := True, lf_acknowledged := False\<rparr>)
           in case result of
                Inl e \<Rightarrow> wrote ChangeEnded (g\<lparr>lf_action := None\<rparr>)
              | Inr _ \<Rightarrow>
                  (let h = g\<lparr>lf_completed := True, lf_highest := max (lf_highest f) (bx_revision b + 1), lf_action := Some RefreshingBoxes\<rparr>
                   in wrote ChangeEnded (wrote (ChangeDone (bx_revision b))
                     (if lf_intent f = draft then h\<lparr>lf_next_owner := [], lf_reason := []\<rparr> else h))))"

definition boxes_refreshed :: "exn + unit \<Rightarrow> lifecycle \<Rightarrow> lifecycle" where
  "boxes_refreshed result f =
     (case result of
        Inl e \<Rightarrow> (if owns_box f then f\<lparr>lf_read_error := True\<rparr> else f)\<lparr>lf_action := None\<rparr>
      | Inr _ \<Rightarrow> f\<lparr>lf_action := None\<rparr>)"

definition acknowledge :: "bool \<Rightarrow> lifecycle \<Rightarrow> lifecycle" where
  "acknowledge b f =
     (if lf_reviewed f \<and> lf_action f = None \<and> \<not> lf_elsewhere f \<and> \<not> box_stale f \<and> \<not> lf_review f
      then wrote (Acknowledged b) (f\<lparr>lf_acknowledged := b\<rparr>) else f)"

datatype lifecycle_event = BoxSessionLeft | BoxUnmounted | BusyElsewhere bool | BoxRow box | Members "employee list"
  | OwnerChosen string | LifecycleReason string | BoxReload | SubmitChange | AcknowledgeBox bool
  | BoxesAnswered "exn + box list option" | ChangeAnswered "exn + unit" | BoxesRefreshed "exn + unit"

text \<open>
  The parent renders the row of the same mailbox, with whatever revision, kind and owner; rows of a company
  that was left may still come. A mailbox keeps its address, which the signature of an observation leaves out.
\<close>

fun lifecycle_event_step :: "lifecycle \<Rightarrow> lifecycle_event \<Rightarrow> lifecycle" where
  "lifecycle_event_step f BoxSessionLeft = f\<lparr>lf_current := False\<rparr>"
| "lifecycle_event_step f BoxUnmounted = f\<lparr>lf_mounted := False\<rparr>"
| "lifecycle_event_step f (BusyElsewhere b) = (if lf_action f = None then f\<lparr>lf_elsewhere := b\<rparr> else f)"
| "lifecycle_event_step f (BoxRow b) =
     (if lf_mounted f \<and> bx_id b = lf_id f \<and> bx_address b = bx_address (lf_mailbox f)
      then wrote (RowShown (observed_revision (f\<lparr>lf_mailbox := b\<rparr>))) (f\<lparr>lf_mailbox := b\<rparr>) else f)"
| "lifecycle_event_step f (Members us) = f\<lparr>lf_employees := us\<rparr>"
| "lifecycle_event_step f (OwnerChosen i) =
     (if section_shown f \<and> personal (current_box f) then edit_lifecycle (\<lambda>g. g\<lparr>lf_next_owner := i\<rparr>) f else f)"
| "lifecycle_event_step f (LifecycleReason s) =
     (if section_shown f then edit_lifecycle (\<lambda>g. g\<lparr>lf_reason := s\<rparr>) f else f)"
| "lifecycle_event_step f BoxReload = (if section_shown f then reload_box f else f)"
| "lifecycle_event_step f SubmitChange = (if section_shown f then submit_change f else f)"
| "lifecycle_event_step f (AcknowledgeBox b) = (if section_shown f then acknowledge b f else f)"
| "lifecycle_event_step f (BoxesAnswered result) =
     (case lf_action f of Some (Rereading n d m) \<Rightarrow> reread n d m result f | _ \<Rightarrow> f)"
| "lifecycle_event_step f (ChangeAnswered result) =
     (case lf_action f of Some (Changing b d) \<Rightarrow> change_answered b d result f | _ \<Rightarrow> f)"
| "lifecycle_event_step f (BoxesRefreshed result) =
     (case lf_action f of Some RefreshingBoxes \<Rightarrow> boxes_refreshed result f | _ \<Rightarrow> f)"

definition lifecycle_step :: "lifecycle \<Rightarrow> lifecycle_event \<Rightarrow> lifecycle" where
  "lifecycle_step f v = (if lf_mounted f then render_lifecycle (lifecycle_event_step f v) else lifecycle_event_step f v)"

section \<open>The protocol\<close>

text \<open>
  The state is the least revision a change may name, whether a review is demanded, whether one took place
  and was acknowledged, whether a change is running, and whether the form was abandoned while one was. The
  least revision is the highest one that was ever shown by a valid row, read in a review or left behind by
  a completed change; it never falls.
\<close>

record lifecycle_state =
  lg_floor :: rat
  lg_review :: bool
  lg_reviewed :: bool
  lg_acknowledged :: bool
  lg_running :: bool
  lg_dead :: bool

definition change_allowed :: "lifecycle_state \<Rightarrow> box \<Rightarrow> string \<Rightarrow> bool" where
  "change_allowed z b reason \<longleftrightarrow>
     \<not> lg_running z \<and> \<not> lg_dead z \<and> \<not> lg_review z \<and> (lg_reviewed z \<longrightarrow> lg_acknowledged z) \<and>
     lg_floor z \<le> bx_revision b \<and> 8 \<le> length (js_trim reason)"

fun lifecycle_protocol :: "lifecycle_state \<Rightarrow> lifecycle_entry \<Rightarrow> lifecycle_state option" where
  "lifecycle_protocol z (RowShown r) =
     Some (case r of Some n \<Rightarrow> z\<lparr>lg_floor := max (lg_floor z) n\<rparr> | None \<Rightarrow> z)"
| "lifecycle_protocol z ReviewDemanded = Some (z\<lparr>lg_review := True\<rparr>)"
| "lifecycle_protocol z (BoxReviewed r) =
     (if \<not> lg_running z \<and> lg_floor z \<le> r
      then Some (z\<lparr>lg_floor := r, lg_review := False, lg_reviewed := True, lg_acknowledged := False\<rparr>) else None)"
| "lifecycle_protocol z (Acknowledged b) = (if lg_reviewed z \<and> \<not> lg_review z then Some (z\<lparr>lg_acknowledged := b\<rparr>) else None)"
| "lifecycle_protocol z (HandoverSent b owner reason) =
     (if change_allowed z b reason \<and> personal b \<and> bx_owner b \<noteq> Some owner then Some (z\<lparr>lg_running := True\<rparr>) else None)"
| "lifecycle_protocol z (ConvertSent b reason) =
     (if change_allowed z b reason \<and> bx_kind b = Some ''legacy'' then Some (z\<lparr>lg_running := True\<rparr>) else None)"
| "lifecycle_protocol z (ChangeDone r) =
     (if lg_running z then Some (z\<lparr>lg_floor := max (lg_floor z) (r + 1)\<rparr>) else None)"
| "lifecycle_protocol z ChangeEnded = (if lg_running z \<and> lg_review z then Some (z\<lparr>lg_running := False\<rparr>) else None)"
| "lifecycle_protocol z ChangeAbandoned = (if lg_running z then Some (z\<lparr>lg_running := False, lg_dead := True\<rparr>) else None)"

section \<open>The form follows the protocol\<close>

text \<open>A reading that still belongs to the observation on the screen uses the least revision of today.\<close>

fun lifecycle_action_ok :: "lifecycle \<Rightarrow> lifecycle_action option \<Rightarrow> bool" where
  "lifecycle_action_ok f (Some (Rereading n d m)) \<longleftrightarrow> n \<le> fst (lf_observation f) \<and> \<not> lf_acknowledged f \<and>
     (n = fst (lf_observation f) \<and> snd (lf_observation f) = box_signature (lf_mailbox f) \<longrightarrow> m = minimum_revision f)"
| "lifecycle_action_ok f _ \<longleftrightarrow> True"

fun changing :: "lifecycle_action option \<Rightarrow> bool" where
  "changing (Some (Changing b d)) \<longleftrightarrow> True"
| "changing _ \<longleftrightarrow> False"

definition lifecycle_rel :: "lifecycle_state \<Rightarrow> lifecycle \<Rightarrow> bool" where
  "lifecycle_rel z f \<longleftrightarrow> lg_floor z = minimum_revision f \<and> lg_review z = lf_review f \<and> lg_reviewed z = lf_reviewed f \<and>
     (lf_acknowledged f \<longrightarrow> lg_acknowledged z) \<and> lg_running z = changing (lf_action f) \<and>
     (lg_dead z \<longrightarrow> \<not> owns_box f) \<and> lifecycle_action_ok f (lf_action f)"

definition row_observed :: "lifecycle \<Rightarrow> bool" where
  "row_observed f = (snd (lf_observation f) = box_signature (lf_mailbox f) \<and> lf_highest f = minimum_revision f)"

definition lifecycle_sim :: "lifecycle_state \<Rightarrow> lifecycle \<Rightarrow> bool" where
  "lifecycle_sim z f \<longleftrightarrow> lifecycle_rel z f \<and> row_observed f"

abbreviation lifecycle_traced :: "lifecycle_state \<Rightarrow> lifecycle \<Rightarrow> lifecycle \<Rightarrow> bool" where
  "lifecycle_traced \<equiv> traced lf_log lifecycle_protocol lifecycle_rel"

lemma minimum_revision_cong [simp]:
  "minimum_revision (f\<lparr>lf_current := c\<rparr>) = minimum_revision f" "minimum_revision (f\<lparr>lf_mounted := c\<rparr>) = minimum_revision f"
  "minimum_revision (f\<lparr>lf_elsewhere := c\<rparr>) = minimum_revision f" "minimum_revision (f\<lparr>lf_employees := us\<rparr>) = minimum_revision f"
  "minimum_revision (f\<lparr>lf_snapshot := b\<rparr>) = minimum_revision f" "minimum_revision (f\<lparr>lf_dirty := c\<rparr>) = minimum_revision f"
  "minimum_revision (f\<lparr>lf_next_owner := s\<rparr>) = minimum_revision f" "minimum_revision (f\<lparr>lf_reason := s\<rparr>) = minimum_revision f"
  "minimum_revision (f\<lparr>lf_review := c\<rparr>) = minimum_revision f" "minimum_revision (f\<lparr>lf_reviewed := c\<rparr>) = minimum_revision f"
  "minimum_revision (f\<lparr>lf_acknowledged := c\<rparr>) = minimum_revision f" "minimum_revision (f\<lparr>lf_completed := c\<rparr>) = minimum_revision f"
  "minimum_revision (f\<lparr>lf_read_error := c\<rparr>) = minimum_revision f" "minimum_revision (f\<lparr>lf_observation := x\<rparr>) = minimum_revision f"
  "minimum_revision (f\<lparr>lf_intent := n\<rparr>) = minimum_revision f" "minimum_revision (f\<lparr>lf_action := a\<rparr>) = minimum_revision f"
  "minimum_revision (f\<lparr>lf_log := xs\<rparr>) = minimum_revision f"
  by (simp_all add: minimum_revision_def observed_revision_def)

lemma raised_revision [simp]: "minimum_revision (f\<lparr>lf_highest := minimum_revision f\<rparr>) = minimum_revision f"
  by (simp add: minimum_revision_def observed_revision_def split: option.split)

lemma minimum_revision_nonneg: "0 \<le> minimum_revision f"
  unfolding minimum_revision_def by (auto simp: observed_revision_def validSnapshot_def le_max_iff_disj)

lemma action_ok_frame:
  assumes "lf_observation q = lf_observation f" "lf_mailbox q = lf_mailbox f" "minimum_revision q = minimum_revision f"
    "lf_acknowledged q \<longrightarrow> lf_acknowledged f"
  shows "lifecycle_action_ok f a \<Longrightarrow> lifecycle_action_ok q a"
  using assms by (cases "(f, a)" rule: lifecycle_action_ok.cases) auto

lemma box_frame:
  assumes "lifecycle_rel z f" "lf_observation q = lf_observation f" "lf_mailbox q = lf_mailbox f"
    "minimum_revision q = minimum_revision f" "lf_acknowledged q = lf_acknowledged f" "lf_review q = lf_review f"
    "lf_reviewed q = lf_reviewed f" "lf_action q = lf_action f" "owns_box q \<longrightarrow> owns_box f"
  shows "lifecycle_rel z q"
  using assms action_ok_frame[of q f "lf_action f"] by (auto simp: lifecycle_rel_def)

lemma idle_frame:
  assumes "lifecycle_rel z f" "\<not> changing (lf_action f)" "lf_action q = None" "minimum_revision q = minimum_revision f"
    "lf_acknowledged q = lf_acknowledged f" "lf_review q = lf_review f" "lf_reviewed q = lf_reviewed f" "owns_box q = owns_box f"
  shows "lifecycle_rel z q"
  using assms by (simp add: lifecycle_rel_def)

lemmas lifecycle_simps = lifecycle_rel_def wrote_def owns_box_def

lemma demand_traced: "lifecycle_rel z f \<Longrightarrow> lifecycle_traced z f (demand_review f)"
proof (cases "lf_dirty f \<and> box_stale f \<and> \<not> lf_review f")
  case True
  assume rel: "lifecycle_rel z f"
  then have "lifecycle_rel (z\<lparr>lg_review := True\<rparr>) (demand_review f)"
    using True action_ok_frame[of "demand_review f" f "lf_action f"] by (simp add: demand_review_def lifecycle_simps)
  then show ?thesis
    by (intro traced_one[of lf_log _ _ ReviewDemanded _ _ "z\<lparr>lg_review := True\<rparr>"])
      (use True in \<open>simp_all add: demand_review_def wrote_def\<close>)
qed (auto simp: demand_review_def intro: traced_quiet)

text \<open>The observation of a new row is a new object, so a reading that is under way no longer belongs to it.\<close>

lemma observe_sim: "lifecycle_rel z f \<Longrightarrow> lf_highest f = minimum_revision f \<Longrightarrow> lifecycle_sim z (observe f)"
  by (cases "(f, lf_action f)" rule: lifecycle_action_ok.cases)
    (auto simp: observe_def lifecycle_sim_def row_observed_def lifecycle_simps)

lemma render_lifecycle_traced:
  assumes "lifecycle_rel z f"
  shows "traced lf_log lifecycle_protocol lifecycle_sim z f (render_lifecycle f)"
proof -
  have "lifecycle_rel z (raise_highest f)"
    by (rule box_frame[OF assms]) (simp_all add: raise_highest_def owns_box_def)
  from demand_traced[OF this] obtain xs y where
    d: "lf_log (demand_review (raise_highest f)) = lf_log f @ xs" "accepts lifecycle_protocol z xs = Some y"
      "lifecycle_rel y (demand_review (raise_highest f))"
    unfolding traced_def by (auto simp: raise_highest_def)
  have "lf_log (render_lifecycle f) = lf_log f @ xs" using d(1) by (simp add: render_lifecycle_def observe_def)
  moreover have "lf_highest (demand_review (raise_highest f)) = minimum_revision (demand_review (raise_highest f))"
    by (simp add: demand_review_def raise_highest_def wrote_def)
  then have "lifecycle_sim y (render_lifecycle f)" using observe_sim[OF d(3)] by (simp add: render_lifecycle_def)
  ultimately show ?thesis using d(2) unfolding traced_def by blast
qed

lemma reload_box_traced:
  assumes "lifecycle_rel z f"
  shows "lifecycle_traced z f (reload_box f)"
proof (cases "lf_action f \<noteq> None \<or> lf_elsewhere f \<or> \<not> owns_box f")
  case True
  then show ?thesis using assms by (simp only: reload_box_def if_True) (rule traced_quiet, simp_all)
next
  case False
  then have "lf_action f = None" by blast
  then show ?thesis
    by (intro traced_one[of lf_log _ _ ReviewDemanded _ _ "z\<lparr>lg_review := True\<rparr>"])
      (use False assms in \<open>simp_all add: reload_box_def lifecycle_simps\<close>)
qed

lemma fresh_box_valid:
  "fresh_box f m boxes = Some b \<Longrightarrow> m \<le> bx_revision b"
  by (auto simp: fresh_box_def split: list.splits option.splits if_splits)

lemma observed_bound: "observed_revision f = Some r \<Longrightarrow> r \<le> minimum_revision f"
  by (simp add: minimum_revision_def)

text \<open>A reading is adopted only if it reaches the least revision of the form that is on the screen now.\<close>

lemma reviewed_traced:
  assumes sim: "lifecycle_sim z f" and a: "lf_action f = Some (Rereading n d m)" and n: "n = fst (lf_observation f)"
    and m: "m \<le> bx_revision b"
  shows "lifecycle_traced z f (wrote (BoxReviewed (bx_revision b))
      (f\<lparr>lf_action := None, lf_snapshot := b, lf_highest := bx_revision b, lf_dirty := True, lf_review := False, lf_reviewed := True,
         lf_completed := False, lf_next_owner := i\<rparr>))" (is "lifecycle_traced z f ?q")
proof -
  have e: "m = minimum_revision f" "\<not> lf_acknowledged f" "lg_floor z = m" "\<not> lg_running z"
    using sim a n by (auto simp: lifecycle_sim_def lifecycle_rel_def row_observed_def)
  have "0 \<le> bx_revision b \<and> (case observed_revision f of Some r \<Rightarrow> r \<le> bx_revision b | None \<Rightarrow> True)"
    if "0 \<le> m" using that m e(1) observed_bound[of f] by (auto split: option.split intro: order_trans)
  moreover have "0 \<le> bx_revision b \<or> observed_revision f \<noteq> None"
    using m e(1) by (auto simp: minimum_revision_def split: option.splits)
  moreover have "0 \<le> m" unfolding e(1) by (rule minimum_revision_nonneg)
  ultimately have "minimum_revision ?q = bx_revision b"
    by (auto simp: wrote_def minimum_revision_def observed_revision_def split: option.splits if_splits)
  then have "lifecycle_rel (z\<lparr>lg_floor := bx_revision b, lg_review := False, lg_reviewed := True, lg_acknowledged := False\<rparr>) ?q"
    using sim e a by (simp add: lifecycle_sim_def lifecycle_rel_def) (simp add: wrote_def owns_box_def)
  then show ?thesis
    by (intro traced_one[of lf_log _ _ "BoxReviewed (bx_revision b)" _ _
          "z\<lparr>lg_floor := bx_revision b, lg_review := False, lg_reviewed := True, lg_acknowledged := False\<rparr>"])
      (use e m in \<open>simp_all add: wrote_def\<close>)
qed

lemma reread_traced:
  assumes sim: "lifecycle_sim z f" and a: "lf_action f = Some (Rereading n d m)"
  shows "lifecycle_traced z f (reread n d m result f)"
proof -
  have rel: "lifecycle_rel z f" using sim by (simp add: lifecycle_sim_def)
  have failed: "lifecycle_traced z f (if owns_box f then f\<lparr>lf_action := None, lf_read_error := True\<rparr> else f\<lparr>lf_action := None\<rparr>)"
    "lifecycle_traced z f (f\<lparr>lf_action := None\<rparr>)" "lifecycle_traced z f (f\<lparr>lf_action := None, lf_read_error := True\<rparr>)"
    by (rule traced_quiet, simp, rule idle_frame[OF rel]; simp add: a owns_box_def)+
  have "owns_box (f\<lparr>lf_action := None\<rparr>) = owns_box f" by (simp add: owns_box_def)
  then show ?thesis using failed reviewed_traced[OF sim a] fresh_box_valid
    by (cases result) (auto simp: reread_def Let_def split: option.split)
qed

lemma submit_traced:
  assumes rel: "lifecycle_rel z f"
  shows "lifecycle_traced z f (submit_change f)"
proof (cases "owns_box f \<and> canSubmit f")
  case False
  then show ?thesis using rel by (auto simp: submit_change_def intro: traced_quiet)
next
  case True
  let ?b = "current_box f"
  have s: "\<not> box_stale f" "actionable ?b" "lf_action f = None" "\<not> lf_review f" "lf_reviewed f \<longrightarrow> lf_acknowledged f"
      "8 \<le> length (js_trim (lf_reason f))"
      "personal ?b \<longrightarrow> list_ex (\<lambda>u. em_id u = lf_next_owner f) (eligible f)"
    using True by (auto simp: canSubmit_def)
  have "minimum_revision f \<le> bx_revision ?b" using s(1) by (auto simp: box_stale_def)
  then have ok: "change_allowed z ?b (lf_reason f)"
    using s rel True by (auto simp: change_allowed_def lifecycle_rel_def)
  have o: "personal ?b \<Longrightarrow> bx_owner ?b \<noteq> Some (lf_next_owner f)"
    using s(7) by (auto simp: eligible_def list_ex_iff)
  let ?x = "if personal ?b then HandoverSent ?b (lf_next_owner f) (lf_reason f) else ConvertSent ?b (lf_reason f)"
  have "lifecycle_protocol z ?x = Some (z\<lparr>lg_running := True\<rparr>)"
    using ok o s(2) by (auto simp: actionable_def)
  then show ?thesis
    by (intro traced_one[of lf_log _ _ ?x _ _ "z\<lparr>lg_running := True\<rparr>"])
      (use True rel in \<open>simp_all add: submit_change_def lifecycle_simps\<close>)
qed

lemma change_answered_traced:
  assumes rel: "lifecycle_rel z f" and a: "lf_action f = Some (Changing b d)"
  shows "lifecycle_traced z f (change_answered b d result f)"
proof (cases "owns_box f")
  case False
  show ?thesis
    by (rule traced_one[of lf_log _ _ ChangeAbandoned _ _ "z\<lparr>lg_running := False, lg_dead := True\<rparr>"])
      (use False rel a in \<open>auto simp: change_answered_def lifecycle_simps\<close>)
next
  case True
  show ?thesis
  proof (cases result)
    case (Inl e)
    show ?thesis unfolding traced_def
      by (rule exI[of _ "[ReviewDemanded, ChangeEnded]"], rule exI[of _ "z\<lparr>lg_review := True, lg_running := False\<rparr>"])
        (use True Inl rel a in \<open>simp add: change_answered_def lifecycle_simps\<close>)
  next
    case (Inr u)
    have "max (minimum_revision f) (bx_revision b + 1) =
        minimum_revision (f\<lparr>lf_highest := max (lf_highest f) (bx_revision b + 1)\<rparr>)"
      by (simp add: minimum_revision_def observed_revision_def max.assoc max.commute max.left_commute)
    then show ?thesis unfolding traced_def
      by (intro exI[of _ "[ReviewDemanded, ChangeDone (bx_revision b), ChangeEnded]"]
          exI[of _ "z\<lparr>lg_review := True, lg_floor := max (lg_floor z) (bx_revision b + 1), lg_running := False\<rparr>"])
        (use True Inr rel a in \<open>simp add: change_answered_def lifecycle_simps Let_def,
          simp add: minimum_revision_def observed_revision_def\<close>)
  qed
qed

lemma edit_traced:
  assumes "lifecycle_rel z f" "\<And>g. lf_log (change g) = lf_log g \<and> lifecycle_rel z (change g) = lifecycle_rel z g"
  shows "lifecycle_traced z f (edit_lifecycle change f)"
proof (rule traced_quiet)
  have "lifecycle_rel z (f\<lparr>lf_intent := Suc (lf_intent f), lf_snapshot := current_box f, lf_dirty := True\<rparr>)"
    by (rule box_frame[OF assms(1)]) (simp_all add: owns_box_def)
  then show "lifecycle_rel z (edit_lifecycle change f)" using assms by (simp add: edit_lifecycle_def)
qed (simp add: edit_lifecycle_def assms(2))

lemma rel_typed [simp]:
  "lifecycle_rel z (f\<lparr>lf_next_owner := i\<rparr>) = lifecycle_rel z f" "lifecycle_rel z (f\<lparr>lf_reason := s\<rparr>) = lifecycle_rel z f"
  by (cases "(f, lf_action f)" rule: lifecycle_action_ok.cases; simp add: lifecycle_rel_def owns_box_def)+

lemma acknowledge_traced:
  assumes "lifecycle_rel z f"
  shows "lifecycle_traced z f (acknowledge b f)"
proof (cases "lf_reviewed f \<and> lf_action f = None \<and> \<not> lf_elsewhere f \<and> \<not> box_stale f \<and> \<not> lf_review f")
  case True
  then show ?thesis
    by (intro traced_one[of lf_log _ _ "Acknowledged b" _ _ "z\<lparr>lg_acknowledged := b\<rparr>"])
      (use assms in \<open>simp_all add: acknowledge_def lifecycle_simps\<close>)
next
  case False
  show ?thesis unfolding acknowledge_def if_not_P[OF False] using assms by (rule traced_quiet[OF refl])
qed

text \<open>Equal signatures of two rows with the same address are equally valid and have the same revision.\<close>

lemma same_observation:
  assumes "box_signature b = box_signature (lf_mailbox f)" "bx_address b = bx_address (lf_mailbox f)"
  shows "observed_revision (f\<lparr>lf_mailbox := b\<rparr>) = observed_revision f"
  using assms by (simp add: observed_revision_def validSnapshot_def box_signature_def)

lemma row_traced:
  assumes sim: "lifecycle_sim z f"
  shows "lifecycle_traced z f (lifecycle_event_step f (BoxRow b))"
proof (cases "lf_mounted f \<and> bx_id b = lf_id f \<and> bx_address b = bx_address (lf_mailbox f)")
  case True
  let ?f = "f\<lparr>lf_mailbox := b\<rparr>"
  let ?z = "case observed_revision ?f of Some n \<Rightarrow> z\<lparr>lg_floor := max (lg_floor z) n\<rparr> | None \<Rightarrow> z"
  have rel: "lifecycle_rel z f" "row_observed f" using sim by (simp_all add: lifecycle_sim_def)
  have "lifecycle_action_ok ?f (lf_action f)"
    using rel True same_observation[of b f]
    by (cases "(f, lf_action f)" rule: lifecycle_action_ok.cases)
      (auto simp: lifecycle_rel_def row_observed_def minimum_revision_def)
  moreover have "minimum_revision ?f =
      (case observed_revision ?f of Some n \<Rightarrow> max (minimum_revision f) n | None \<Rightarrow> minimum_revision f)"
    using rel(2) minimum_revision_nonneg[of f]
    by (auto simp: row_observed_def minimum_revision_def[of ?f] max_absorb1 split: option.split)
  ultimately have "lifecycle_rel ?z (wrote (RowShown (observed_revision ?f)) ?f)"
    using rel(1) action_ok_frame[of "wrote (RowShown (observed_revision ?f)) ?f" ?f "lf_action f"]
    by (simp add: lifecycle_rel_def owns_box_def wrote_def split: option.split)
  then show ?thesis
    by (intro traced_one[of lf_log _ _ "RowShown (observed_revision ?f)" _ _ ?z]) (use True in \<open>simp_all add: wrote_def\<close>)
qed (use sim in \<open>auto simp: lifecycle_sim_def traced_quiet\<close>)

lemma boxes_refreshed_traced:
  assumes "lifecycle_rel z f" "lf_action f = Some RefreshingBoxes"
  shows "lifecycle_traced z f (boxes_refreshed result f)"
proof (rule traced_quiet)
  show "lifecycle_rel z (boxes_refreshed result f)"
    by (rule idle_frame[OF assms(1)]) (simp_all add: assms(2) boxes_refreshed_def owns_box_def split: sum.split)
qed (simp add: boxes_refreshed_def split: sum.split)

lemma leave_box_traced:
  assumes "lifecycle_rel z f"
  shows "lifecycle_traced z f (f\<lparr>lf_current := False\<rparr>)" "lifecycle_traced z f (f\<lparr>lf_mounted := False\<rparr>)"
    "lifecycle_traced z f (f\<lparr>lf_elsewhere := b\<rparr>)" "lifecycle_traced z f (f\<lparr>lf_employees := us\<rparr>)"
  by (rule traced_quiet, simp, rule box_frame[OF assms]; simp add: owns_box_def)+

lemma lifecycle_event_traced:
  assumes sim: "lifecycle_sim z f"
  shows "lifecycle_traced z f (lifecycle_event_step f v)"
proof -
  have rel: "lifecycle_rel z f" using sim by (simp add: lifecycle_sim_def)
  show ?thesis
  proof (cases v)
    case (BoxRow b)
    then show ?thesis using row_traced[OF sim] by simp
  next
    case (OwnerChosen i)
    have "lifecycle_traced z f (edit_lifecycle (\<lambda>g. g\<lparr>lf_next_owner := i\<rparr>) f)" by (rule edit_traced[OF rel]) simp
    then show ?thesis using OwnerChosen rel by (simp add: traced_quiet)
  next
    case (LifecycleReason s)
    have "lifecycle_traced z f (edit_lifecycle (\<lambda>g. g\<lparr>lf_reason := s\<rparr>) f)" by (rule edit_traced[OF rel]) simp
    then show ?thesis using LifecycleReason rel by (simp add: traced_quiet)
  next
    case (BoxesAnswered result)
    then show ?thesis using sim rel
      by (auto intro: reread_traced traced_quiet split: option.split lifecycle_action.split)
  next
    case (ChangeAnswered result)
    then show ?thesis using rel
      by (auto intro: change_answered_traced traced_quiet split: option.split lifecycle_action.split)
  next
    case (BoxesRefreshed result)
    then show ?thesis using rel
      by (auto intro: boxes_refreshed_traced traced_quiet split: option.split lifecycle_action.split)
  qed (simp_all add: rel traced_quiet leave_box_traced reload_box_traced submit_traced acknowledge_traced)
qed

text \<open>After its end the form is rendered no more, and nothing that a render looks at changes.\<close>

lemma unmounted_observed:
  assumes "row_observed f" "\<not> lf_mounted f"
  shows "row_observed (lifecycle_event_step f v)"
  using assms
  by (cases v) (auto simp: row_observed_def section_shown_def reread_def change_answered_def boxes_refreshed_def owns_box_def
      wrote_def Let_def split: option.split lifecycle_action.split sum.split)

lemma lifecycle_step_traced:
  assumes sim: "lifecycle_sim z f"
  shows "traced lf_log lifecycle_protocol lifecycle_sim z f (lifecycle_step f v)"
proof -
  obtain xs y where e: "lf_log (lifecycle_event_step f v) = lf_log f @ xs" "accepts lifecycle_protocol z xs = Some y"
    "lifecycle_rel y (lifecycle_event_step f v)"
    using lifecycle_event_traced[OF sim] unfolding traced_def by blast
  show ?thesis
  proof (cases "lf_mounted f")
    case True
    obtain ys w where "lf_log (render_lifecycle (lifecycle_event_step f v)) = lf_log (lifecycle_event_step f v) @ ys"
      "accepts lifecycle_protocol y ys = Some w" "lifecycle_sim w (render_lifecycle (lifecycle_event_step f v))"
      using render_lifecycle_traced[OF e(3)] unfolding traced_def by blast
    then show ?thesis unfolding traced_def
      by (intro exI[of _ "xs @ ys"] exI[of _ w]) (use e True in \<open>simp add: accepts_append lifecycle_step_def\<close>)
  next
    case False
    then have "lifecycle_sim y (lifecycle_event_step f v)"
      using e(3) sim unmounted_observed by (simp add: lifecycle_sim_def)
    then show ?thesis using e(1,2) False unfolding traced_def by (auto simp: lifecycle_step_def)
  qed
qed

interpretation lifecycle: simulation lifecycle_step lf_log lifecycle_protocol lifecycle_sim
  by unfold_locales (rule lifecycle_step_traced)

text \<open>The state for a form opened on a mailbox: nothing is below the revision of a valid first row.\<close>

definition fresh_lifecycle :: "box \<Rightarrow> string \<Rightarrow> lifecycle_state" where
  "fresh_lifecycle b tenant = \<lparr>lg_floor = (if validSnapshot b (bx_id b) tenant then bx_revision b else 0), lg_review = False,
     lg_reviewed = False, lg_acknowledged = False, lg_running = False, lg_dead = False\<rparr>"

lemma open_lifecycle_sim: "lifecycle_sim (fresh_lifecycle b tenant) (open_lifecycle b tenant us)"
  by (simp add: lifecycle_sim_def lifecycle_rel_def row_observed_def fresh_lifecycle_def open_lifecycle_def Let_def raise_highest_def
      minimum_revision_def observed_revision_def validSnapshot_def)

text \<open>
  C15: In every run of the lifecycle form: a mailbox is handed over only if it is personal and not to its own
  owner, and converted only if it is a legacy one; the change names a revision that is not below the highest
  one that a valid row ever showed, that a review read or that a completed change left behind, whatever
  older rows came later; it has a reason and runs alone; and after every change, completed or failed, and
  after every demand for a review, nothing is changed before the mailbox was read again, at no lower
  revision, and that reading was acknowledged.
\<close>

theorem lifecycle_changes_reviewed:
  "\<exists>z. accepts lifecycle_protocol (fresh_lifecycle b tenant)
          (lf_log (foldl lifecycle_step (open_lifecycle b tenant us) vs)) = Some z \<and>
       lg_review z = lf_review (foldl lifecycle_step (open_lifecycle b tenant us) vs) \<and>
       lg_floor z = minimum_revision (foldl lifecycle_step (open_lifecycle b tenant us) vs)"
proof -
  have "lf_log (open_lifecycle b tenant us) = []" by (simp add: open_lifecycle_def Let_def raise_highest_def)
  from lifecycle.run_accepted[OF open_lifecycle_sim this, of vs] obtain z where
    "accepts lifecycle_protocol (fresh_lifecycle b tenant)
       (lf_log (foldl lifecycle_step (open_lifecycle b tenant us) vs)) = Some z"
    "lifecycle_sim z (foldl lifecycle_step (open_lifecycle b tenant us) vs)" .
  then show ?thesis unfolding lifecycle_sim_def lifecycle_rel_def by blast
qed

text \<open>A run: after a completed handover the form asks for a review, and a reading of the old revision is none.\<close>

definition sample_box :: box where
  "sample_box = \<lparr>bx_id = ''m1'', bx_tenant = ''t1'', bx_address = Some ''a@b'', bx_revision = 5, bx_kind = Some ''personal'',
     bx_owner = Some ''u1''\<rparr>"

lemma sample_lifecycle:
  "lf_log (foldl lifecycle_step (open_lifecycle sample_box ''t1''
       [\<lparr>em_id = ''u2'', em_tenant_id = ''t1'', em_role = ''user'', em_is_active = True\<rparr>])
     [OwnerChosen ''u2'', LifecycleReason ''left the firm'', SubmitChange, ChangeAnswered (Inr ()), BoxesRefreshed (Inr ()),
      BoxReload, BoxesAnswered (Inr (Some [sample_box])), AcknowledgeBox True, SubmitChange]) =
   [HandoverSent sample_box ''u2'' ''left the firm'', ReviewDemanded, ChangeDone 5, ChangeEnded, ReviewDemanded]"
  by code_simp

text \<open>A row of revision 7 leaves its mark: an older row that follows is not changed without a review.\<close>

lemma sample_old_row:
  "lf_log (foldl lifecycle_step (open_lifecycle sample_box ''t1''
       [\<lparr>em_id = ''u2'', em_tenant_id = ''t1'', em_role = ''user'', em_is_active = True\<rparr>])
     [BoxRow (sample_box\<lparr>bx_revision := 7\<rparr>), BoxRow sample_box, OwnerChosen ''u2'', LifecycleReason ''left the firm'',
      SubmitChange]) =
   [RowShown (Some 7), RowShown (Some 5), ReviewDemanded]"
  by code_simp

end
