(* ===== verification/LiveContent.thy ===== *)
theory LiveContent
  imports Receipts ErrorCode Simulation
begin

text \<open>
  The reader of a sent message, \<^verbatim>\<open>web/features/mail/components/submission-content.tsx\<close>. It reads the
  private content again every 15 seconds, on a signal and on a retry, always through a live authorization,
  and keeps nothing it is no longer entitled to.
\<close>

section \<open>State\<close>

record sent_file =
  sf_id :: string
  sf_name :: string
  sf_size :: number

text \<open>
  A load belongs to one run of the effect and carries its version; it first awaits the content, then,
  with the content in hand, the attachments. Its number is ghost: loads are counted as they begin.
\<close>

record load =
  ld_number :: nat
  ld_effect :: nat
  ld_version :: nat
  ld_aborted :: bool
  ld_content :: "live_content option"

text \<open>
  The history tells what happened to the reader: loads that began, the effect and the session that ended,
  and what the server answered to which load.
\<close>

datatype live_entry = LoadBegan nat | EffectEnded | SessionEnded
  | ContentOutcome nat "exn + live_content \<times> bool" | FilesOutcome nat "exn + sent_file list option"

record live_reader =
  lr_store_scope :: nat
  lr_scope :: nat
  lr_mounted :: bool
  lr_effect :: nat
  lr_epoch :: nat
  lr_content :: "live_content option"
  lr_files :: "sent_file list"
  lr_failed :: bool
  lr_loading :: bool
  lr_loads :: "load list"
  lr_begun :: nat
  lr_log :: "live_entry list"

definition noted_live :: "live_entry \<Rightarrow> live_reader \<Rightarrow> live_reader" where
  "noted_live x r = r\<lparr>lr_log := lr_log r @ [x]\<rparr>"

definition clear_content :: "live_reader \<Rightarrow> live_reader" where
  "clear_content r = r\<lparr>lr_content := None, lr_files := [], lr_failed := True, lr_loading := False\<rparr>"

text \<open>\<^verbatim>\<open>controller?.abort()\<close> of the running effect.\<close>

definition abort_loads :: "live_reader \<Rightarrow> live_reader" where
  "abort_loads r = r\<lparr>lr_loads := map (\<lambda>l. if ld_effect l = lr_effect r then l\<lparr>ld_aborted := True\<rparr> else l) (lr_loads r)\<rparr>"

definition begin_load :: "live_reader \<Rightarrow> live_reader" where
  "begin_load r =
     (let q = abort_loads r; v = Suc (lr_epoch r)
      in noted_live (LoadBegan (lr_begun r))
        (q\<lparr>lr_epoch := v, lr_begun := Suc (lr_begun r),
           lr_loads := lr_loads q @ [\<lparr>ld_number = lr_begun r, ld_effect = lr_effect r, ld_version = v, ld_aborted = False,
             ld_content = None\<rparr>]\<rparr>))"

text \<open>The cleanup of the effect, and its next run.\<close>

definition leave_effect :: "live_reader \<Rightarrow> live_reader" where
  "leave_effect r = noted_live EffectEnded ((abort_loads r)\<lparr>lr_epoch := Suc (lr_epoch r), lr_effect := Suc (lr_effect r)\<rparr>)"

definition rerun_effect :: "live_reader \<Rightarrow> live_reader" where
  "rerun_effect r = begin_load (leave_effect r)"

definition mounted_reader :: "nat \<Rightarrow> live_reader" where
  "mounted_reader scope = \<lparr>lr_store_scope = scope, lr_scope = scope, lr_mounted = True, lr_effect = 0, lr_epoch = 0,
     lr_content = None, lr_files = [], lr_failed = False, lr_loading = True, lr_loads = [], lr_begun = 0, lr_log = []\<rparr>"

definition open_reader :: "nat \<Rightarrow> live_reader" where
  "open_reader scope = begin_load (mounted_reader scope)"

definition in_session :: "live_reader \<Rightarrow> bool" where
  "in_session r = (lr_store_scope r = lr_scope r)"

definition disposed :: "load \<Rightarrow> live_reader \<Rightarrow> bool" where
  "disposed l r = (ld_effect l \<noteq> lr_effect r)"

definition wanted :: "load \<Rightarrow> live_reader \<Rightarrow> bool" where
  "wanted l r = (\<not> disposed l r \<and> \<not> ld_aborted l \<and> ld_version l = lr_epoch r)"

text \<open>The handler of every failure of a load, the lost session among them.\<close>

definition load_failed :: "load \<Rightarrow> live_reader \<Rightarrow> live_reader" where
  "load_failed l r =
     (if \<not> disposed l r \<and> ld_version l = lr_epoch r then clear_content (abort_loads r) else r)"

definition content_answered :: "nat \<Rightarrow> exn + live_content \<times> bool \<Rightarrow> live_reader \<Rightarrow> live_reader" where
  "content_answered n result r =
     (let l = lr_loads r ! n; q = r\<lparr>lr_loads := drop_nth n (lr_loads r)\<rparr>
      in case result of
           Inl e \<Rightarrow> load_failed l q
         | Inr (content, redacted) \<Rightarrow>
             if \<not> in_session r then load_failed l q
             else if \<not> wanted l r then q
             else if redacted then clear_content q
             else r\<lparr>lr_loads := (lr_loads r)[n := l\<lparr>ld_content := Some content\<rparr>]\<rparr>)"

definition files_answered :: "nat \<Rightarrow> live_content \<Rightarrow> exn + sent_file list option \<Rightarrow> live_reader \<Rightarrow> live_reader" where
  "files_answered n content result r =
     (let l = lr_loads r ! n; q = r\<lparr>lr_loads := drop_nth n (lr_loads r)\<rparr>
      in case result of
           Inl e \<Rightarrow> load_failed l q
         | Inr files \<Rightarrow>
             if \<not> in_session r then load_failed l q
             else if \<not> wanted l r then q
             else q\<lparr>lr_content := Some content, lr_files := (case files of Some fs \<Rightarrow> fs | None \<Rightarrow> []),
                    lr_failed := False, lr_loading := False\<rparr>)"

datatype live_event = LiveScopeMoved | ReaderTick | RetryPressed | LiveSignal | ReaderLeft
  | ContentAnswered nat "exn + live_content \<times> bool" | FilesAnswered nat "exn + sent_file list option"

fun live_step :: "live_reader \<Rightarrow> live_event \<Rightarrow> live_reader" where
  "live_step r LiveScopeMoved = noted_live SessionEnded (r\<lparr>lr_store_scope := Suc (lr_store_scope r)\<rparr>)"
| "live_step r ReaderTick = (if lr_mounted r then begin_load r else r)"
| "live_step r RetryPressed = (if lr_mounted r \<and> lr_failed r then rerun_effect r else r)"
| "live_step r LiveSignal = (if lr_mounted r then rerun_effect r else r)"
| "live_step r ReaderLeft = (if lr_mounted r then (leave_effect r)\<lparr>lr_mounted := False\<rparr> else r)"
| "live_step r (ContentAnswered n result) =
     (if n < length (lr_loads r) \<and> ld_content (lr_loads r ! n) = None
      then content_answered n result (noted_live (ContentOutcome (ld_number (lr_loads r ! n)) result) r) else r)"
| "live_step r (FilesAnswered n result) =
     (if n < length (lr_loads r)
      then case ld_content (lr_loads r ! n) of
             Some content \<Rightarrow> files_answered n content result (noted_live (FilesOutcome (ld_number (lr_loads r ! n)) result) r)
           | None \<Rightarrow> r
      else r)"

section \<open>What is to be disclosed\<close>

text \<open>
  The screen as the history alone determines it, without versions, effects and aborts: only answers to the
  load that began last count, unless the effect was left since; a failure, a redaction, or any answer after
  the session has ended empties the screen; content that was authorised is shown once its attachments are there.
\<close>

record disclosure =
  dc_latest :: "nat option"
  dc_authorised :: "live_content option"
  dc_shown :: "(live_content \<times> sent_file list) option"
  dc_ended :: bool

definition withheld :: "disclosure \<Rightarrow> disclosure" where
  "withheld z = z\<lparr>dc_latest := None, dc_authorised := None, dc_shown := None\<rparr>"

fun disclose :: "disclosure \<Rightarrow> live_entry \<Rightarrow> disclosure" where
  "disclose z (LoadBegan n) = z\<lparr>dc_latest := Some n, dc_authorised := None\<rparr>"
| "disclose z EffectEnded = z\<lparr>dc_latest := None, dc_authorised := None\<rparr>"
| "disclose z SessionEnded = z\<lparr>dc_ended := True\<rparr>"
| "disclose z (ContentOutcome n result) =
     (if dc_latest z \<noteq> Some n then z
      else case result of
             Inr (content, False) \<Rightarrow> if dc_ended z then withheld z else z\<lparr>dc_authorised := Some content\<rparr>
           | _ \<Rightarrow> withheld z)"
| "disclose z (FilesOutcome n result) =
     (if dc_latest z \<noteq> Some n then z
      else case (result, dc_authorised z) of
             (Inr files, Some content) \<Rightarrow>
               if dc_ended z then withheld z
               else z\<lparr>dc_latest := None, dc_authorised := None,
                      dc_shown := Some (content, case files of Some fs \<Rightarrow> fs | None \<Rightarrow> [])\<rparr>
           | _ \<Rightarrow> withheld z)"

section \<open>The reader discloses nothing else\<close>

definition current_load :: "live_reader \<Rightarrow> load \<Rightarrow> bool" where
  "current_load r l = (ld_effect l = lr_effect r \<and> ld_version l = lr_epoch r)"

definition screen :: "live_reader \<Rightarrow> (live_content \<times> sent_file list) option" where
  "screen r = map_option (\<lambda>c. (c, lr_files r)) (lr_content r)"

text \<open>One load of the reader against the specification.\<close>

definition load_ok :: "disclosure \<Rightarrow> live_reader \<Rightarrow> load \<Rightarrow> bool" where
  "load_ok z r l \<longleftrightarrow> ld_version l \<le> lr_epoch r \<and> ld_effect l \<le> lr_effect r \<and> ld_number l < lr_begun r \<and>
     (current_load r l \<longleftrightarrow> dc_latest z = Some (ld_number l)) \<and>
     (current_load r l \<longrightarrow> dc_authorised z = ld_content l \<and> \<not> ld_aborted l)"

definition live_sim :: "disclosure \<Rightarrow> live_reader \<Rightarrow> bool" where
  "live_sim z r \<longleftrightarrow> dc_shown z = screen r \<and> lr_scope r \<le> lr_store_scope r \<and> dc_ended z = (\<not> in_session r) \<and>
     distinct (map ld_number (lr_loads r)) \<and> list_all (load_ok z r) (lr_loads r)"

abbreviation live_traced :: "disclosure \<Rightarrow> live_reader \<Rightarrow> live_reader \<Rightarrow> bool" where
  "live_traced \<equiv> traced lr_log (\<lambda>z x. Some (disclose z x)) live_sim"

lemma noted_frame [simp]:
  "lr_store_scope (noted_live x r) = lr_store_scope r" "lr_scope (noted_live x r) = lr_scope r"
  "lr_mounted (noted_live x r) = lr_mounted r" "lr_effect (noted_live x r) = lr_effect r"
  "lr_epoch (noted_live x r) = lr_epoch r" "lr_content (noted_live x r) = lr_content r"
  "lr_files (noted_live x r) = lr_files r" "lr_loads (noted_live x r) = lr_loads r" "lr_begun (noted_live x r) = lr_begun r"
  "lr_log (noted_live x r) = lr_log r @ [x]"
  by (simp_all add: noted_live_def)

lemma abort_frame [simp]:
  "lr_store_scope (abort_loads r) = lr_store_scope r" "lr_scope (abort_loads r) = lr_scope r"
  "lr_effect (abort_loads r) = lr_effect r" "lr_epoch (abort_loads r) = lr_epoch r" "lr_begun (abort_loads r) = lr_begun r"
  "lr_content (abort_loads r) = lr_content r" "lr_files (abort_loads r) = lr_files r" "lr_log (abort_loads r) = lr_log r"
  "map ld_number (lr_loads (abort_loads r)) = map ld_number (lr_loads r)"
  by (simp_all add: abort_loads_def)

text \<open>After an abort no load is current any more: what is left is older than the epoch or the effect.\<close>

definition outdated :: "live_reader \<Rightarrow> load \<Rightarrow> bool" where
  "outdated r l \<longleftrightarrow> ld_version l \<le> lr_epoch r \<and> ld_effect l \<le> lr_effect r \<and> ld_number l < lr_begun r"

lemma sim_outdated: "live_sim z r \<Longrightarrow> list_all (outdated r) (lr_loads (abort_loads r))"
  by (auto simp: live_sim_def list_all_iff outdated_def load_ok_def abort_loads_def split: if_splits)

lemma begin_traced:
  assumes "live_sim z r"
  shows "live_traced z r (begin_load r)"
proof (rule traced_one[of lr_log _ _ "LoadBegan (lr_begun r)" _ _ "disclose z (LoadBegan (lr_begun r))"])
  show "live_sim (disclose z (LoadBegan (lr_begun r))) (begin_load r)"
    using assms sim_outdated[OF assms]
    by (auto simp: live_sim_def begin_load_def Let_def screen_def in_session_def list_all_iff load_ok_def outdated_def
        current_load_def)
qed (simp_all add: begin_load_def Let_def)

lemma leave_traced:
  assumes "live_sim z r"
  shows "live_traced z r ((leave_effect r)\<lparr>lr_mounted := b\<rparr>)"
proof (rule traced_one[of lr_log _ _ EffectEnded _ _ "disclose z EffectEnded"])
  show "live_sim (disclose z EffectEnded) ((leave_effect r)\<lparr>lr_mounted := b\<rparr>)"
    using assms sim_outdated[OF assms]
    by (auto simp: live_sim_def leave_effect_def screen_def in_session_def list_all_iff load_ok_def outdated_def current_load_def)
qed (simp_all add: leave_effect_def)

lemma rerun_traced:
  assumes "live_sim z r" "lr_mounted r"
  shows "live_traced z r (rerun_effect r)"
proof -
  have "(leave_effect r)\<lparr>lr_mounted := True\<rparr> = leave_effect r"
    using assms(2) by (simp add: leave_effect_def noted_live_def abort_loads_def)
  then have "live_traced z r (leave_effect r)" using leave_traced[OF assms(1), of True] by simp
  then show ?thesis unfolding rerun_effect_def by (rule traced_trans) (rule begin_traced)
qed

text \<open>A load that has ended is taken off the list.\<close>

lemma ended_load:
  assumes sim: "live_sim z r" and n: "n < length (lr_loads r)"
  shows "live_sim z (r\<lparr>lr_loads := drop_nth n (lr_loads r)\<rparr>)"
    and "load_ok z r (lr_loads r ! n)"
    and "\<forall>l \<in> set (drop_nth n (lr_loads r)). ld_number l \<noteq> ld_number (lr_loads r ! n)"
proof -
  have d: "distinct (map ld_number (lr_loads r))" and ok: "list_all (load_ok z r) (lr_loads r)"
    using sim by (simp_all add: live_sim_def)
  from ok n show "load_ok z r (lr_loads r ! n)" by (simp add: list_all_length)
  show "\<forall>l \<in> set (drop_nth n (lr_loads r)). ld_number l \<noteq> ld_number (lr_loads r ! n)"
    by (rule distinct_drop_nth(2)[OF d n])
  have "list_all (load_ok z r) (drop_nth n (lr_loads r))"
    using ok set_drop_nth[of n "lr_loads r"] by (auto simp: list_all_iff)
  then have "list_all (load_ok z (r\<lparr>lr_loads := drop_nth n (lr_loads r)\<rparr>)) (drop_nth n (lr_loads r))"
    by (simp add: list_all_iff load_ok_def current_load_def)
  with sim distinct_drop_nth(1)[OF d n] show "live_sim z (r\<lparr>lr_loads := drop_nth n (lr_loads r)\<rparr>)"
    by (simp add: live_sim_def screen_def in_session_def)
qed

text \<open>A failure of the current load withholds everything, and of any other nothing.\<close>

lemma withheld_sim:
  assumes sim: "live_sim z r" and n: "n < length (lr_loads r)"
    and q: "q = r\<lparr>lr_loads := drop_nth n (lr_loads r)\<rparr>"
  shows "dc_latest z = Some (ld_number (lr_loads r ! n)) \<Longrightarrow> live_sim (withheld z) (clear_content q)"
    "dc_latest z = Some (ld_number (lr_loads r ! n)) \<Longrightarrow> live_sim (withheld z) (load_failed (lr_loads r ! n) q)"
    "dc_latest z \<noteq> Some (ld_number (lr_loads r ! n)) \<Longrightarrow> live_sim z (load_failed (lr_loads r ! n) q)"
proof -
  note e = ended_load[OF sim n]
  have c: "current_load q (lr_loads r ! n) \<longleftrightarrow> dc_latest z = Some (ld_number (lr_loads r ! n))"
    using e(2) by (simp add: load_ok_def current_load_def q)
  have other: "load_ok (withheld z) q l" if l: "l \<in> set (lr_loads q)" and z: "dc_latest z = Some (ld_number (lr_loads r ! n))" for l
  proof -
    have "load_ok z q l" using e(1) l by (simp add: live_sim_def list_all_iff q)
    moreover have "ld_number l \<noteq> ld_number (lr_loads r ! n)" using e(3) l by (simp add: q)
    ultimately show ?thesis using z by (simp add: load_ok_def withheld_def)
  qed
  have frame: "live_sim (withheld z) (clear_content p)"
    if "lr_store_scope p = lr_store_scope q" "lr_scope p = lr_scope q" "map ld_number (lr_loads p) = map ld_number (lr_loads q)"
      "list_all (load_ok (withheld z) p) (lr_loads p)" for p
  proof -
    have "list_all (load_ok (withheld z) (clear_content p)) (lr_loads p)"
      using that(4) by (simp add: list_all_iff load_ok_def current_load_def clear_content_def)
    moreover have "distinct (map ld_number (lr_loads p))" unfolding that(3) using e(1) by (simp add: live_sim_def q)
    ultimately show ?thesis using that(1,2) e(1)
      by (simp add: live_sim_def clear_content_def withheld_def screen_def in_session_def q)
  qed
  show "live_sim (withheld z) (clear_content q)" if "dc_latest z = Some (ld_number (lr_loads r ! n))"
    by (rule frame) (use other that in \<open>simp_all add: list_all_iff\<close>)
  have "load_ok (withheld z) (abort_loads q) l"
    if l: "l \<in> set (lr_loads (abort_loads q))" and z: "dc_latest z = Some (ld_number (lr_loads r ! n))" for l
  proof -
    obtain k where k: "k \<in> set (lr_loads q)" "l = k \<or> l = k\<lparr>ld_aborted := True\<rparr>"
      using l by (auto simp: abort_loads_def split: if_splits)
    have "load_ok (withheld z) q k" by (rule other[OF k(1) z])
    then show ?thesis using k(2) by (auto simp: load_ok_def withheld_def current_load_def)
  qed
  then have "live_sim (withheld z) (clear_content (abort_loads q))" if "dc_latest z = Some (ld_number (lr_loads r ! n))"
    by (intro frame) (use that in \<open>simp_all add: list_all_iff\<close>)
  then show "live_sim (withheld z) (load_failed (lr_loads r ! n) q)" if "dc_latest z = Some (ld_number (lr_loads r ! n))"
    using that c by (simp add: load_failed_def disposed_def current_load_def)
  show "live_sim z (load_failed (lr_loads r ! n) q)" if "dc_latest z \<noteq> Some (ld_number (lr_loads r ! n))"
    using that e(1) c by (auto simp: load_failed_def disposed_def current_load_def q)
qed

lemma wanted_iff:
  assumes "load_ok z r l"
  shows "wanted l r \<longleftrightarrow> dc_latest z = Some (ld_number l)"
  using assms by (auto simp: load_ok_def wanted_def disposed_def current_load_def)

lemma content_sim:
  assumes sim: "live_sim z r" and n: "n < length (lr_loads r)"
  shows "live_sim (disclose z (ContentOutcome (ld_number (lr_loads r ! n)) result)) (content_answered n result r)"
proof -
  let ?l = "lr_loads r ! n" and ?q = "r\<lparr>lr_loads := drop_nth n (lr_loads r)\<rparr>"
  note e = ended_load[OF sim n] and w = withheld_sim[OF sim n refl]
  have s: "dc_ended z \<longleftrightarrow> \<not> in_session r" using sim by (simp add: live_sim_def)
  show ?thesis
  proof (cases "isl result \<or> \<not> in_session r \<or> snd (projr result) \<or> \<not> wanted ?l r")
    case True
    then show ?thesis using w e(1) s wanted_iff[OF e(2)]
      by (cases result) (auto simp: content_answered_def Let_def split: bool.splits)
  next
    case False
    then obtain content where res: "result = Inr (content, False)" "in_session r" "wanted ?l r"
      by (cases result) auto
    let ?k = "?l\<lparr>ld_content := Some content\<rparr>" and ?z = "z\<lparr>dc_authorised := Some content\<rparr>"
    let ?p = "r\<lparr>lr_loads := (lr_loads r)[n := ?k]\<rparr>"
    have latest: "dc_latest z = Some (ld_number ?l)" using res(3) wanted_iff[OF e(2)] by simp
    have d: "distinct (map ld_number (lr_loads r))" and ok: "list_all (load_ok z r) (lr_loads r)"
      using sim by (simp_all add: live_sim_def)
    have "load_ok ?z ?p l" if l: "l \<in> set ((lr_loads r)[n := ?k])" for l
    proof (cases "l = ?k")
      case True
      then show ?thesis using e(2) latest by (simp add: load_ok_def current_load_def)
    next
      case False
      obtain i where j: "i < length (lr_loads r)" "l = (lr_loads r)[n := ?k] ! i"
        using l by (auto simp: in_set_conv_nth)
      then have i: "i < length (lr_loads r)" "i \<noteq> n" "l = lr_loads r ! i"
        using False by (cases "i = n"; simp)+
      then have "ld_number l \<noteq> ld_number ?l" using d n by (simp add: distinct_conv_nth)
      moreover have "load_ok z r l" using ok i by (simp add: list_all_length)
      ultimately show ?thesis using latest by (auto simp: load_ok_def current_load_def)
    qed
    moreover have "map ld_number ((lr_loads r)[n := ?k]) = map ld_number (lr_loads r)"
      using n by (simp add: map_update list_update_same_conv)
    ultimately have "live_sim ?z ?p"
      using sim d by (simp add: live_sim_def screen_def in_session_def list_all_iff)
    then show ?thesis using res latest s by (simp add: content_answered_def Let_def)
  qed
qed

lemma files_sim:
  assumes sim: "live_sim z r" and n: "n < length (lr_loads r)" and c: "ld_content (lr_loads r ! n) = Some content"
  shows "live_sim (disclose z (FilesOutcome (ld_number (lr_loads r ! n)) result)) (files_answered n content result r)"
proof -
  let ?l = "lr_loads r ! n" and ?q = "r\<lparr>lr_loads := drop_nth n (lr_loads r)\<rparr>"
  note e = ended_load[OF sim n] and w = withheld_sim[OF sim n refl]
  have s: "dc_ended z \<longleftrightarrow> \<not> in_session r" using sim by (simp add: live_sim_def)
  have a: "dc_authorised z = Some content" if "dc_latest z = Some (ld_number ?l)"
    using that e(2) c by (auto simp: load_ok_def)
  show ?thesis
  proof (cases "isl result \<or> \<not> in_session r \<or> \<not> wanted ?l r")
    case True
    then show ?thesis using w e(1) s a wanted_iff[OF e(2)]
      by (cases result) (auto simp: files_answered_def Let_def split: bool.splits)
  next
    case False
    then obtain files where res: "result = Inr files" "in_session r" "wanted ?l r" by (cases result) auto
    have latest: "dc_latest z = Some (ld_number ?l)" using res(3) wanted_iff[OF e(2)] by simp
    have "list_all (load_ok z ?q) (lr_loads ?q)" using e(1) by (simp add: live_sim_def)
    then have "list_all (load_ok (z\<lparr>dc_latest := None, dc_authorised := None, dc_shown := x\<rparr>)
        (?q\<lparr>lr_content := y, lr_files := fs, lr_failed := False, lr_loading := False\<rparr>)) (lr_loads ?q)" for x y fs
      using e(3) latest by (auto simp: list_all_iff load_ok_def current_load_def)
    then show ?thesis using res latest a s e(1)
      by (simp add: files_answered_def Let_def live_sim_def screen_def in_session_def)
  qed
qed

lemma noted_sim [simp]: "live_sim z (noted_live x r) = live_sim z r"
  by (simp add: live_sim_def screen_def in_session_def load_ok_def[abs_def] current_load_def)

lemma live_answer_traced:
  assumes "live_sim (disclose z x) (f (noted_live x r))" "lr_log (f (noted_live x r)) = lr_log r @ [x]"
  shows "live_traced z r (f (noted_live x r))"
  using assms by (intro traced_one[of lr_log]) simp_all

lemma answer_logs:
  "lr_log (content_answered n result r) = lr_log r" "lr_log (files_answered n content result' r) = lr_log r"
  by (simp_all add: content_answered_def files_answered_def Let_def load_failed_def clear_content_def
      split: sum.split prod.split option.split)

lemma live_step_traced:
  assumes sim: "live_sim z r"
  shows "live_traced z r (live_step r e)"
proof (cases e)
  case LiveScopeMoved
  have "live_sim (disclose z SessionEnded) (r\<lparr>lr_store_scope := Suc (lr_store_scope r)\<rparr>)"
    using sim by (auto simp: live_sim_def screen_def in_session_def load_ok_def[abs_def] current_load_def)
  then show ?thesis using LiveScopeMoved by (auto intro!: traced_one[of lr_log _ _ SessionEnded])
next
  case (ContentAnswered n result)
  have "live_traced z r (content_answered n result (noted_live (ContentOutcome (ld_number (lr_loads r ! n)) result) r))"
    if "n < length (lr_loads r)"
    by (rule live_answer_traced) (use content_sim[of z "noted_live _ r" n] sim that in \<open>simp_all add: answer_logs\<close>)
  then show ?thesis using ContentAnswered sim by (simp add: traced_quiet)
next
  case (FilesAnswered n result)
  have "live_traced z r (files_answered n content result (noted_live (FilesOutcome (ld_number (lr_loads r ! n)) result) r))"
    if "n < length (lr_loads r)" "ld_content (lr_loads r ! n) = Some content" for content
    by (rule live_answer_traced) (use files_sim[of z "noted_live _ r" n] sim that in \<open>simp_all add: answer_logs\<close>)
  then show ?thesis using FilesAnswered sim by (auto simp: traced_quiet split: option.split)
qed (simp_all add: sim traced_quiet begin_traced rerun_traced leave_traced)

interpretation reader: simulation live_step lr_log "\<lambda>z x. Some (disclose z x)" live_sim
  by unfold_locales (rule live_step_traced)

definition nothing_disclosed :: disclosure where
  "nothing_disclosed = \<lparr>dc_latest = None, dc_authorised = None, dc_shown = None, dc_ended = False\<rparr>"

lemma accepts_total: "accepts (\<lambda>z x. Some (f z x)) z xs = Some (foldl f z xs)"
  by (induction xs arbitrary: z) simp_all

text \<open>
  C39: In every run of the reader of a sent message, whatever the order in which loads begin, answers come
  and the session ends, the screen shows exactly what the history discloses: the content that the server
  authorised for the load that began last, with the attachments answered to that same load; any failure of
  that load, a redaction, and any answer to it after the session has ended leave neither body nor
  attachments on the screen, and an answer to an older load changes nothing.
\<close>

theorem reader_discloses_authorised:
  "screen (foldl live_step (open_reader scope) es) =
     dc_shown (foldl disclose nothing_disclosed (lr_log (foldl live_step (open_reader scope) es)))"
proof -
  have sim: "live_sim nothing_disclosed (mounted_reader scope)"
    by (simp add: live_sim_def nothing_disclosed_def mounted_reader_def screen_def in_session_def)
  have "live_traced nothing_disclosed (mounted_reader scope) (foldl live_step (open_reader scope) es)"
    unfolding open_reader_def by (rule traced_trans[OF begin_traced[OF sim]]) (rule reader.run_traced)
  then show ?thesis
    by (auto simp: traced_def mounted_reader_def accepts_total live_sim_def)
qed

text \<open>
  A run: the content is shown with its attachments; the next load is refused, which empties the screen,
  and the answer to it that comes with a newer load under way changes nothing.
\<close>

definition sample_content :: live_content where
  "sample_content = \<lparr>lc_id = ''s1'', lc_subject = ''minutes'', lc_from = ''a@x'', lc_to = [''b@y''], lc_cc = None, lc_bcc = Some [],
     lc_completeness = Complete, lc_headers = None, lc_text_body = Some ''text'', lc_html_body = None, lc_created_at = []\<rparr>"

lemma sample_reader:
  "let file = \<lparr>sf_id = ''f'', sf_name = ''a.pdf'', sf_size = Fin 10\<rparr>;
       answers = [ContentAnswered 0 (Inr (sample_content, False)), FilesAnswered 0 (Inr (Some [file]))]
   in screen (foldl live_step (open_reader 0) answers) = Some (sample_content, [file]) \<and>
      screen (foldl live_step (open_reader 0) (answers @ [ReaderTick, ContentAnswered 0 (Inr (sample_content, True))])) = None \<and>
      screen (foldl live_step (open_reader 0) (answers @ [ReaderTick, ReaderTick, ContentAnswered 0 (Inl (Err ''gone''))])) =
        Some (sample_content, [file]) \<and>
      screen (foldl live_step (open_reader 0) (LiveScopeMoved # answers)) = None"
  by code_simp

end
