(* ===== verification/RichText.thy ===== *)
theory RichText
  imports Prelude
begin

text \<open>
  The sanitizer of the rich-text editor, \<^verbatim>\<open>web/features/mail/components/rich-message.tsx\<close>. It walks over
  the elements of the parsed text and edits the document as it goes: some elements are removed with all
  they hold, others are replaced by their children, the rest loses its attributes.
\<close>

section \<open>Documents\<close>

text \<open>
  A node of the document; an element carries its identity and its \<^verbatim>\<open>tagName\<close>, which is upper case for
  the elements of HTML and as written for those of SVG and MathML.
\<close>

datatype dom = Text string | Comment string | Element nat string "(string \<times> string) list" "dom list"

fun node_ids :: "dom \<Rightarrow> nat list" and forest_ids :: "dom list \<Rightarrow> nat list" where
  "node_ids (Text s) = []"
| "node_ids (Comment s) = []"
| "node_ids (Element n t as ks) = n # forest_ids ks"
| "forest_ids [] = []"
| "forest_ids (d # ds) = node_ids d @ forest_ids ds"

text \<open>An edit of one element in place; a node that is no longer in the document is not found.\<close>

fun edit_node :: "nat \<Rightarrow> (string \<Rightarrow> (string \<times> string) list \<Rightarrow> dom list \<Rightarrow> dom list) \<Rightarrow> dom \<Rightarrow> dom list"
  and edit_forest :: "nat \<Rightarrow> (string \<Rightarrow> (string \<times> string) list \<Rightarrow> dom list \<Rightarrow> dom list) \<Rightarrow> dom list \<Rightarrow> dom list" where
  "edit_node i f (Text s) = [Text s]"
| "edit_node i f (Comment s) = [Comment s]"
| "edit_node i f (Element n t as ks) = (if i = n then f t as ks else [Element n t as (edit_forest i f ks)])"
| "edit_forest i f [] = []"
| "edit_forest i f (d # ds) = edit_node i f d @ edit_forest i f ds"

section \<open>The sanitizer\<close>

definition kept_tags :: "string list" where
  "kept_tags = [''P'', ''DIV'', ''BR'', ''STRONG'', ''B'', ''EM'', ''I'', ''U'', ''UL'', ''OL'', ''LI'', ''BLOCKQUOTE'', ''A'']"

definition removed_tags :: "string list" where
  "removed_tags = [''SCRIPT'', ''STYLE'', ''IFRAME'', ''OBJECT'', ''SVG'', ''MATH'', ''FORM'', ''IMG'', ''VIDEO'', ''AUDIO'']"

text \<open>\<^verbatim>\<open>/^(https?:\/\/|mailto:)/i\<close>\<close>

definition safe_href :: "string \<Rightarrow> bool" where
  "safe_href h =
     (let l = map to_lower_char h
      in starts_with ''http://'' l \<or> starts_with ''https://'' l \<or> starts_with ''mailto:'' l)"

definition clean_attributes :: "string \<Rightarrow> (string \<times> string) list \<Rightarrow> (string \<times> string) list" where
  "clean_attributes t as =
     (case map_of as ''href'' of
        Some h \<Rightarrow> if t = ''A'' \<and> h \<noteq> [] \<and> safe_href (js_trim h)
                  then [(''href'', js_trim h), (''rel'', ''noreferrer noopener'')] else []
      | None \<Rightarrow> [])"

text \<open>What the body of the loop does to an element, by identity.\<close>

definition clean_element :: "nat \<Rightarrow> string \<Rightarrow> (string \<times> string) list \<Rightarrow> dom list \<Rightarrow> dom list" where
  "clean_element i t as ks =
     (if t \<in> set removed_tags then []
      else if t \<notin> set kept_tags then ks
      else [Element i t (clean_attributes t as) ks])"

definition clean_step :: "dom list \<Rightarrow> nat \<Rightarrow> dom list" where
  "clean_step body i = edit_forest i (clean_element i) body"

text \<open>
  The loop runs over the elements that the document had at its start. Parsing and printing are the
  browser's.
\<close>

definition clean_body :: "dom list \<Rightarrow> dom list" where
  "clean_body body = foldl clean_step body (forest_ids body)"

definition cleanEditorHTML :: "(string \<Rightarrow> dom list) \<Rightarrow> (dom list \<Rightarrow> string) \<Rightarrow> string \<Rightarrow> string" where
  "cleanEditorHTML parse serialize raw = serialize (clean_body (parse raw))"

text \<open>\<^verbatim>\<open>s.replaceAll(c, r)\<close> for one character.\<close>

definition replace_char :: "char \<Rightarrow> string \<Rightarrow> string \<Rightarrow> string" where
  "replace_char c r s = concat (map (\<lambda>x. if x = c then r else [x]) s)"

definition escaped :: "string \<Rightarrow> string" where
  "escaped s = replace_char LF ''<br>'' (replace_char (CHR ''>'') ''&gt;''
     (replace_char (CHR ''<'') ''&lt;'' (replace_char (CHR ''&'') ''&amp;'' s)))"

section \<open>The loop is a recursion over the document\<close>

fun clean_node :: "dom \<Rightarrow> dom list" and clean_forest :: "dom list \<Rightarrow> dom list" where
  "clean_node (Text s) = [Text s]"
| "clean_node (Comment s) = [Comment s]"
| "clean_node (Element n t as ks) =
     (if t \<in> set removed_tags then []
      else if t \<notin> set kept_tags then clean_forest ks
      else [Element n t (clean_attributes t as) (clean_forest ks)])"
| "clean_forest [] = []"
| "clean_forest (d # ds) = clean_node d @ clean_forest ds"

lemma edit_absent:
  "i \<notin> set (node_ids d) \<Longrightarrow> edit_node i f d = [d]"
  "i \<notin> set (forest_ids ds) \<Longrightarrow> edit_forest i f ds = ds"
  by (induction d and ds rule: node_ids_forest_ids.induct) auto

lemma edit_append [simp]: "edit_forest i f (as @ bs) = edit_forest i f as @ edit_forest i f bs"
  by (induction as) simp_all

lemma ids_append [simp]: "forest_ids (as @ bs) = forest_ids as @ forest_ids bs"
  by (induction as) simp_all

lemma step_absent: "i \<notin> set (forest_ids ds) \<Longrightarrow> clean_step ds i = ds"
  by (simp add: clean_step_def edit_absent)

lemma steps_absent: "set is \<inter> set (forest_ids ds) = {} \<Longrightarrow> foldl clean_step ds is = ds"
  by (induction "is") (simp_all add: step_absent)

lemma step_append: "clean_step (as @ bs) i = clean_step as i @ clean_step bs i"
  by (simp add: clean_step_def)

lemma steps_append: "foldl clean_step (as @ bs) is = foldl clean_step as is @ foldl clean_step bs is"
  by (induction "is" arbitrary: as bs) (simp_all add: step_append)

lemma steps_inside:
  "n \<notin> set is \<Longrightarrow> foldl clean_step [Element n t as ks] is = [Element n t as (foldl clean_step ks is)]"
  by (induction "is" arbitrary: ks) (simp_all add: clean_step_def)

lemma step_ids: "set (forest_ids (clean_node d)) \<subseteq> set (node_ids d)" "set (forest_ids (clean_forest ds)) \<subseteq> set (forest_ids ds)"
  by (induction d and ds rule: node_ids_forest_ids.induct) auto

lemma loop_is_recursion:
  "distinct (node_ids d) \<Longrightarrow> foldl clean_step [d] (node_ids d) = clean_node d"
  "distinct (forest_ids ds) \<Longrightarrow> foldl clean_step ds (forest_ids ds) = clean_forest ds"
proof (induction d and ds rule: node_ids_forest_ids.induct)
  case (3 n t as ks)
  have "foldl clean_step [Element n t as ks] (node_ids (Element n t as ks)) = foldl clean_step (clean_element n t as ks) (forest_ids ks)"
    by (simp add: clean_step_def)
  moreover have "foldl clean_step [] is = []" for "is" by (induction "is") (simp_all add: clean_step_def)
  ultimately show ?case using 3 by (simp add: clean_element_def steps_inside)
next
  case (5 d ds)
  have one: "foldl clean_step ds (node_ids d) = ds" using 5(3) by (intro steps_absent) auto
  have two: "foldl clean_step (clean_node d) (forest_ids ds) = clean_node d"
    using 5(3) step_ids(1)[of d] by (intro steps_absent) auto
  have "foldl clean_step (d # ds) (forest_ids (d # ds)) = foldl clean_step (foldl clean_step ([d] @ ds) (node_ids d)) (forest_ids ds)"
    by simp
  also have "\<dots> = foldl clean_step (clean_node d @ ds) (forest_ids ds)"
    using 5 one by (simp only: steps_append) simp
  also have "\<dots> = clean_node d @ clean_forest ds" using 5 two by (simp only: steps_append) simp
  finally show ?case by simp
qed simp_all

lemma clean_distinct:
  "distinct (node_ids d) \<Longrightarrow> distinct (forest_ids (clean_node d))"
  "distinct (forest_ids ds) \<Longrightarrow> distinct (forest_ids (clean_forest ds))"
proof (induction d and ds rule: node_ids_forest_ids.induct)
  case (3 n t as ks)
  then show ?case using step_ids(2)[of ks] by auto
next
  case (5 d ds)
  then show ?case using step_ids(1)[of d] step_ids(2)[of ds] by auto
qed simp_all

section \<open>What is left\<close>

definition safe_attributes :: "string \<Rightarrow> (string \<times> string) list \<Rightarrow> bool" where
  "safe_attributes t as =
     (as = [] \<or> (t = ''A'' \<and> length as = 2 \<and> fst (as ! 0) = ''href'' \<and> safe_href (snd (as ! 0)) \<and>
        js_trim (snd (as ! 0)) = snd (as ! 0) \<and> as ! 1 = (''rel'', ''noreferrer noopener'')))"

fun safe_node :: "dom \<Rightarrow> bool" and safe_forest :: "dom list \<Rightarrow> bool" where
  "safe_node (Text s) = True"
| "safe_node (Comment s) = True"
| "safe_node (Element n t as ks) = (t \<in> set kept_tags \<and> safe_attributes t as \<and> safe_forest ks)"
| "safe_forest [] = True"
| "safe_forest (d # ds) = (safe_node d \<and> safe_forest ds)"

text \<open>The text outside of removed elements.\<close>

fun node_text :: "dom \<Rightarrow> string" and visible_text :: "dom list \<Rightarrow> string" where
  "node_text (Text s) = s"
| "node_text (Comment s) = []"
| "node_text (Element n t as ks) = (if t \<in> set removed_tags then [] else visible_text ks)"
| "visible_text [] = []"
| "visible_text (d # ds) = node_text d @ visible_text ds"

lemma safe_append [simp]: "safe_forest (as @ bs) \<longleftrightarrow> safe_forest as \<and> safe_forest bs"
  by (induction as) simp_all

lemma text_append [simp]: "visible_text (as @ bs) = visible_text as @ visible_text bs"
  by (induction as) simp_all

lemma clean_attributes_safe: "safe_attributes t (clean_attributes t as)"
  by (simp add: clean_attributes_def safe_attributes_def split: option.split)

lemma clean_attributes_same: "safe_attributes t as \<Longrightarrow> clean_attributes t as = as"
proof (cases as)
  case (Cons a bs)
  moreover assume "safe_attributes t as"
  ultimately obtain h where "as = [(''href'', h), (''rel'', ''noreferrer noopener'')]" "t = ''A''" "safe_href h" "js_trim h = h"
    by (cases a; cases bs) (auto simp: safe_attributes_def)
  moreover from this(3) have "h \<noteq> []" by (auto simp: safe_href_def starts_with_def)
  ultimately show ?thesis by (simp add: clean_attributes_def)
qed (simp add: clean_attributes_def)

lemma clean_safe: "safe_forest (clean_node d)" "safe_forest (clean_forest ds)"
  by (induction d and ds rule: node_ids_forest_ids.induct) (auto simp: clean_attributes_safe)

lemma kept_not_removed: "t \<in> set kept_tags \<Longrightarrow> t \<notin> set removed_tags"
  by (auto simp: kept_tags_def removed_tags_def)

lemma clean_same: "safe_node d \<Longrightarrow> clean_node d = [d]" "safe_forest ds \<Longrightarrow> clean_forest ds = ds"
  by (induction d and ds rule: node_ids_forest_ids.induct) (auto simp: clean_attributes_same dest: kept_not_removed)

lemma clean_text: "visible_text (clean_node d) = node_text d" "visible_text (clean_forest ds) = visible_text ds"
  by (induction d and ds rule: node_ids_forest_ids.induct) (auto dest: kept_not_removed)

text \<open>
  C40: The loop that edits the document in place computes the recursion over it, whatever it removes and
  unwraps on the way: the elements left are those of the list, a link has nothing but an absolute web or mail
  address and its \<^verbatim>\<open>rel\<close>, every other element has no attribute, the text outside of removed elements is
  kept in its order, and cleaning once more changes nothing.
\<close>

theorem editor_html_cleaned:
  assumes "distinct (forest_ids body)"
  shows "clean_body body = clean_forest body \<and> safe_forest (clean_body body) \<and>
    visible_text (clean_body body) = visible_text body \<and> clean_body (clean_body body) = clean_body body"
proof -
  have c: "clean_body body = clean_forest body" using loop_is_recursion(2)[OF assms] by (simp add: clean_body_def)
  have "clean_body (clean_forest body) = clean_forest (clean_forest body)"
    using loop_is_recursion(2)[OF clean_distinct(2)[OF assms]] by (simp add: clean_body_def)
  then show ?thesis using c clean_safe(2)[of body] clean_same(2)[OF clean_safe(2)] clean_text(2)[of body] by simp
qed

definition sample_body :: "dom list" where
  "sample_body =
     [Element 1 ''P'' [(''onclick'', ''x()'')]
        [Element 2 ''SPAN'' [] [Text ''Hi '', Element 3 ''A'' [(''class'', ''c''), (''href'', '' HTTPS://a.b '')] [Text ''you'']],
         Element 4 ''SCRIPT'' [] [Text ''x()''], Element 5 ''A'' [(''href'', ''javascript:x()'')] [Text ''!'']]]"

theorem editor_html_cleaned_witness:
  "clean_body sample_body =
     [Element 1 ''P'' []
        [Text ''Hi '', Element 3 ''A'' [(''href'', ''HTTPS://a.b''), (''rel'', ''noreferrer noopener'')] [Text ''you''],
         Element 5 ''A'' [] [Text ''!'']]] \<and>
   visible_text (clean_body sample_body) = ''Hi you!''"
proof -
  have "distinct (forest_ids sample_body)" "clean_forest sample_body =
     [Element 1 ''P'' []
        [Text ''Hi '', Element 3 ''A'' [(''href'', ''HTTPS://a.b''), (''rel'', ''noreferrer noopener'')] [Text ''you''],
         Element 5 ''A'' [] [Text ''!'']]]" "visible_text sample_body = ''Hi you!''"
    by code_simp+
  with editor_html_cleaned[of sample_body] show ?thesis by metis
qed

text \<open>
  The elements of an embedded drawing report their names in lower case, so the drawing is not removed as its
  list entry intends: it is unwrapped and its text, even that of a script in it, is left in the message.
\<close>

lemma drawing_unwrapped:
  "clean_body [Element 1 ''svg'' [] [Element 2 ''script'' [] [Text ''x()'']]] = [Text ''x()'']"
  by code_simp


section \<open>Plain text in the editor\<close>

text \<open>The four replacements in a row do what one pass over the characters does.\<close>

definition escape_char :: "char \<Rightarrow> string" where
  "escape_char c =
     (if c = CHR ''&'' then ''&amp;'' else if c = CHR ''<'' then ''&lt;'' else if c = CHR ''>'' then ''&gt;''
      else if c = LF then ''<br>'' else [c])"

lemma replace_append: "replace_char c r (s @ t) = replace_char c r s @ replace_char c r t"
  by (simp add: replace_char_def)

lemma escaped_append: "escaped (s @ t) = escaped s @ escaped t"
  by (simp add: escaped_def replace_append)

lemma escaped_single: "escaped [c] = escape_char c"
  by (simp add: escaped_def escape_char_def replace_char_def)

lemma escaped_pass: "escaped s = concat (map escape_char s)"
proof (induction s)
  case (Cons c s)
  then show ?case using escaped_append[of "[c]" s] by (simp add: escaped_single)
qed (simp add: escaped_def replace_char_def)

text \<open>How a browser reads a text that has only these four escapes.\<close>

fun read_escapes :: "string \<Rightarrow> string" where
  "read_escapes [] = []"
| "read_escapes (c # cs) =
     (if starts_with ''amp;'' cs \<and> c = CHR ''&'' then CHR ''&'' # read_escapes (drop 4 cs)
      else if starts_with ''lt;'' cs \<and> c = CHR ''&'' then CHR ''<'' # read_escapes (drop 3 cs)
      else if starts_with ''gt;'' cs \<and> c = CHR ''&'' then CHR ''>'' # read_escapes (drop 3 cs)
      else if starts_with ''br>'' cs \<and> c = CHR ''<'' then LF # read_escapes (drop 3 cs)
      else c # read_escapes cs)"

lemma read_escape: "read_escapes (escape_char c @ t) = c # read_escapes t"
  by (auto simp: escape_char_def starts_with_def)

text \<open>
  Plain text put into the editor comes back as it was: reading the escapes and line breaks of the
  markup it is turned into gives the text again.
\<close>

lemma plain_text_roundtrip:
  "read_escapes (escaped s) = s"
  by (simp only: escaped_pass) (induction s, simp_all add: read_escape)


section \<open>The mode of the editor\<close>

text \<open>The message shown, its reset key, and the mode that a render of it settles on.\<close>

record rich_mode =
  rm_rich :: bool
  rm_reset_key :: nat

definition truthy_html :: "string option \<Rightarrow> bool" where
  "truthy_html html = (html \<noteq> None \<and> html \<noteq> Some [])"

definition open_mode :: "string option \<Rightarrow> nat \<Rightarrow> rich_mode" where
  "open_mode html key = \<lparr>rm_rich = truthy_html html, rm_reset_key = key\<rparr>"

definition shown_rich :: "string option \<Rightarrow> nat \<Rightarrow> rich_mode \<Rightarrow> bool" where
  "shown_rich html key m = (rm_rich m \<or> (rm_reset_key m \<noteq> key \<and> truthy_html html))"

definition render_mode :: "string option \<Rightarrow> nat \<Rightarrow> rich_mode \<Rightarrow> rich_mode" where
  "render_mode html key m =
     (if rm_reset_key m \<noteq> key then \<lparr>rm_rich = shown_rich html key m, rm_reset_key = key\<rparr> else m)"

text \<open>The switch between the modes; leaving the formatting drops it, after a confirmation.\<close>

definition switch_mode :: "bool \<Rightarrow> string \<Rightarrow> string option \<Rightarrow> nat \<Rightarrow> rich_mode \<Rightarrow> (string \<times> string option) option \<times> rich_mode" where
  "switch_mode confirmed body html key m =
     (if shown_rich html key m \<and> \<not> confirmed then (None, m)
      else (if shown_rich html key m then Some (body, None) else None,
            \<lparr>rm_rich = (\<not> shown_rich html key m), rm_reset_key = key\<rparr>))"

text \<open>What the effect puts into the editor, if anything.\<close>

definition editor_content ::
    "(string \<Rightarrow> dom list) \<Rightarrow> (dom list \<Rightarrow> string) \<Rightarrow> bool \<Rightarrow> bool \<Rightarrow> string option \<Rightarrow> string \<Rightarrow> nat \<Rightarrow> nat \<Rightarrow> string option" where
  "editor_content parse serialize rich focused html body last_reset key =
     (if rich \<and> (last_reset \<noteq> key \<or> \<not> focused)
      then Some (cleanEditorHTML parse serialize (if truthy_html html then the html else escaped body)) else None)"

text \<open>A reload never hides stored formatting, and never leaves the formatting editor.\<close>

lemma reset_shows_formatting:
  "rm_reset_key m \<noteq> key \<Longrightarrow> truthy_html html \<Longrightarrow> rm_rich (render_mode html key m)"
  "rm_rich m \<Longrightarrow> rm_rich (render_mode html key m)"
  "render_mode html key (render_mode html key m) = render_mode html key m"
  by (simp_all add: render_mode_def shown_rich_def)

end
