(* ===== verification/Spec2Isabelle.thy ===== *)
theory Spec2Isabelle
  imports EventStream Session ApiBase LiveStream ErrorCode DraftWriter Receipts Inspection CompanyEvents
    Addresses PermissionEditor CompanyApi AdminApi Access Compose AuthContext ProfilePage ZonePicker MemberPage
    SendPolicy TemplatePreview Offboarding Workspace Recovery AuthDialog GrantEditor Lifecycle LiveContent RichText
begin

text \<open>
  A verification development for the TabMail web client (\<^verbatim>\<open>src/web\<close>, TypeScript and React).

  \<^bold>\<open>The program.\<close> The client keeps one browser session (a token, a user and a tenant in local
  storage, with an epoch that every change of identity advances) and talks to the server through one
  transport function, which renews tokens, replays requests, and refuses every answer that arrives
  after the session has moved on. On it sit adapters that build requests and validate what comes
  back, a live event stream, a writer that serializes the saves of a draft, and React views: the
  composer, the auth provider, the navigation gate and the administration pages. Most of the
  difficulty is ordering: each view fires requests and has to know, when an answer arrives, whether
  the answer still concerns it.

  \<^bold>\<open>Theories and sources.\<close>
  \<^item> \<^verbatim>\<open>Prelude\<close>: JavaScript numbers, strings, JSON values and property access; regular expressions
    with a matcher by derivatives; the action monad (state, thrown error, result) with its weakest
    precondition \<^verbatim>\<open>wp\<close>; \<^verbatim>\<open>accepts\<close>, the traces a protocol automaton accepts.
  \<^item> \<^verbatim>\<open>Numerals\<close>, \<^verbatim>\<open>Uri\<close>, \<^verbatim>\<open>Wire\<close>: \<^verbatim>\<open>Number\<close> and \<^verbatim>\<open>String\<close> on
    integers with double rounding, \<^verbatim>\<open>encodeURIComponent\<close> and search parameters, decoders of wire values.
  \<^item> \<^verbatim>\<open>EventStream\<close>: \<^verbatim>\<open>lib/api/event-stream.ts\<close>. \<^verbatim>\<open>Session\<close>:
    \<^verbatim>\<open>lib/session.ts\<close>, the store, the leases of running requests, and the storage listener.
  \<^item> \<^verbatim>\<open>ApiBase\<close>, \<^verbatim>\<open>LiveStream\<close>: \<^verbatim>\<open>lib/api/base.ts\<close>, that is \<^verbatim>\<open>request\<close>,
    \<^verbatim>\<open>credentialRequest\<close>, the token refresh, and \<^verbatim>\<open>streamEvents\<close> with its reconnects.
  \<^item> \<^verbatim>\<open>CompanyEvents\<close>: \<^verbatim>\<open>lib/api/company-events.ts\<close> and the consumer hook.
    \<^verbatim>\<open>Receipts\<close>, \<^verbatim>\<open>Inspection\<close>, \<^verbatim>\<open>PermissionEditor\<close>: the validators of
    \<^verbatim>\<open>lib/receipt-types.ts\<close>, \<^verbatim>\<open>lib/outbound-inspection-types.ts\<close> and
    \<^verbatim>\<open>lib/api/permission-editor-types.ts\<close>. \<^verbatim>\<open>ErrorCode\<close>: \<^verbatim>\<open>lib/error-code.ts\<close>.
  \<^item> \<^verbatim>\<open>CompanyApi\<close>, \<^verbatim>\<open>AdminApi\<close>: the request adapters under \<^verbatim>\<open>features\<close> and
    \<^verbatim>\<open>lib/api\<close>, and \<^verbatim>\<open>lib/company.ts\<close>.
  \<^item> \<^verbatim>\<open>Addresses\<close>, \<^verbatim>\<open>DraftWriter\<close>, \<^verbatim>\<open>Compose\<close>: the recipient tokenizer,
    \<^verbatim>\<open>features/mail/draft-writer.ts\<close> and \<^verbatim>\<open>components/company/compose.tsx\<close>.
  \<^item> \<^verbatim>\<open>Access\<close>, \<^verbatim>\<open>AuthContext\<close>: \<^verbatim>\<open>lib/permissions.ts\<close> and its neighbours, the
    dashboard gate and the sidebar, \<^verbatim>\<open>contexts/auth-context.tsx\<close>.
  \<^item> \<^verbatim>\<open>ProfilePage\<close>, \<^verbatim>\<open>ZonePicker\<close>: \<^verbatim>\<open>features/company/profile-management.tsx\<close>;
    \<^verbatim>\<open>MemberPage\<close>: \<^verbatim>\<open>features/company/user-management.tsx\<close>. \<^verbatim>\<open>SendPolicy\<close>,
    \<^verbatim>\<open>GrantEditor\<close>, \<^verbatim>\<open>Lifecycle\<close>: \<^verbatim>\<open>send-policy.tsx\<close>, \<^verbatim>\<open>grants.tsx\<close> and
    \<^verbatim>\<open>mailbox-lifecycle.tsx\<close> of \<^verbatim>\<open>components/company\<close>.
  \<^item> \<^verbatim>\<open>TemplateDraft\<close>, \<^verbatim>\<open>TemplatePage\<close>, \<^verbatim>\<open>TemplateEditor\<close>: the templates page and
    \<^verbatim>\<open>components/company/templates\<close>, with \<^verbatim>\<open>TemplateProtocol\<close> and \<^verbatim>\<open>TemplatePreview\<close> on its runs.
    \<^verbatim>\<open>Offboarding\<close>: \<^verbatim>\<open>features/company/offboarding-panel.tsx\<close>.
    \<^verbatim>\<open>Workspace\<close>: \<^verbatim>\<open>features/mail/workspace.tsx\<close>.
    \<^verbatim>\<open>LiveContent\<close>: \<^verbatim>\<open>features/mail/components/submission-content.tsx\<close>, the live reader of
    sent messages, and \<^verbatim>\<open>RichText\<close>: the sanitizer of \<^verbatim>\<open>rich-message.tsx\<close> beside it.
    \<^verbatim>\<open>Recovery\<close>: the page \<^verbatim>\<open>company/recovery\<close>.
    \<^verbatim>\<open>AuthDialog\<close>: \<^verbatim>\<open>components/auth-dialog.tsx\<close>.
    \<^verbatim>\<open>Simulation\<close>: histories of an event system against a protocol automaton.

  \<^bold>\<open>How asynchronous code is modelled.\<close> An \<^verbatim>\<open>await\<close> is a point where the rest of the program
  runs. In the transport, the live stream and the draft writer each await takes the next entry of a
  script: what the environment does to the state meanwhile, and what the awaited call returns. A
  theorem holds for every script, so for every interleaving. The views are event systems: a record
  of the React state and the refs, a datatype of events (clicks, effects, answers of calls in
  flight), a step function, and runs as \<^verbatim>\<open>foldl\<close> over event lists; events the page does not
  offer in a state leave it unchanged.

  \<^bold>\<open>Bounds.\<close> The scripts bound the loops: \<^verbatim>\<open>streamEvents\<close> recurses on its script and
  suspends when that ends, and the theorems on traces hold for every prefix. Everything else
  terminates by structural recursion or a proved measure; there is no other fuel. Characters are 8-bit
  code units; a function whose result depends on others (\<^verbatim>\<open>Date.parse\<close>, locale comparison)
  takes it as an argument.

  \<^bold>\<open>What the lemmas show.\<close> A request makes at most a fixed number of calls and returns only in
  the scope it was made for; a refresh replaces the token only while the session still holds the token
  and the user it was asked for, and login installs the answer it waited for. A lease whose scope is not
  the one in the store is live only while a storage event is still queued, and a lease of a session that
  was left never becomes current again. The parser of event streams gives the same frames however the bytes are cut
  and is bounded in memory. The draft lane and the live stream refine protocol automata that speak
  only of the calls on the wire, and so does the composer on top of the lane: one submission per press of
  Send, of the draft that was on the screen. The validators accept exactly well-formed values. The
  provider never shows permissions of another identity, the gate and the redirects agree, and the
  profile page is never stuck and never deletes what was not previewed. The administration dialogs
  refine automata over what they showed and what they sent: a change of policy or of a mailbox
  quotes a revision at or above every one the editor has shown, a grant the revision of the row it was
  chosen from, a template is written only at the
  revision last read while one editor stays open, an offboarding executes one previewed plan at a time,
  and a recovery retries what its inspection lists. The workspace redirects only after its own editor
  was consumed; the reader of sent messages shows exactly what the server disclosed to its last load;
  and the sanitizer leaves only listed elements and safe links. The interfaces between
  these parts are locales, interpreted on the model's own definitions.

  \<^bold>\<open>Not modelled.\<close> Markup, styling, toasts and third-party widgets (nothing is computed there);
  the cache of SWR and the browser APIs, which are the environment; the remaining administration
  and mail views, whose requests and guards repeat those of the modelled ones; the selection, the toolbar
  commands and the paste handling of the rich-text editor, and the parser of HTML it calls; the settings and message catalogue; the
  server, which is written in Go and appears as the answers of the environment.
\<close>


section \<open>Properties that span components\<close>

text \<open>
  The page never builds a command that its adapter refuses: in every run of the permission dialog,
  whatever snapshot, profile list and edits the command was made of, the adapter that the page calls with
  it makes the request of that user's editor with exactly this command, and no call ends in a local
  validation error. The page calls the adapter without checking the command itself.
\<close>

lemma member_writes_reach_server:
  "list_all (\<lambda>x. case x of
       Wrote u k c \<Rightarrow>
         write_call k u c =
           bnd (request (user_path u @ (if k = Assign then ''/permission-editor/assignment'' else ''/permission-editor''))
                 (if k = Assign then post c else with_body ''PATCH'' c))
             (bound_response u)
     | _ \<Rightarrow> True)
    (mp_log (member_run (open_members level actor tenant) events))"
proof -
  have "accepts member_protocol NoView (mp_log (member_run (open_members level actor tenant) events)) \<noteq> None"
    using members.run_traced[OF member_sim_open[of level actor tenant], of events] opened_log by (auto simp: traced_def)
  from accepted_writes[OF this] show ?thesis
    by (rule list.pred_mono_strong) (auto simp: write_call_def check_write_def or_throw_def bnd_def ret_def
        assignUserPermissionEditor_def patchUserPermissionEditor_def split: member_entry.splits if_splits)
qed

end
